(* ===== verification/Prelude.thy ===== *)
theory Prelude
  imports Complex_Main "HOL-Library.Word" "HOL-Library.Sublist" "HOL-Library.Multiset"
begin

text \<open>
  What the components share: the widths of the program's integers, the conversions Rust performs
  with \<open>as\<close>, its saturating operations, the string routines of the standard library that
  the source calls, and generic facts on sorting and filtering candidate chains.

  Conventions of the model, used in every theory:
  \<^item> \<open>u32\<close>/\<open>u64\<close> are machine words. Lengths and counters of type \<open>usize\<close> are \<open>nat\<close>:
    they count elements held in memory and cannot reach \<open>2 ^ 64\<close>. \<open>+\<close> on words wraps, as in
    a release build.
  \<^item> \<open>f32\<close>/\<open>f64\<close> values are real numbers: rounding, infinities and NaN are not modelled.
    The sentinels \<open>f64::MAX\<close>/\<open>f64::MIN\<close> are the numbers they denote.
  \<^item> a \<open>String\<close> is the list of its UTF-8 bytes (\<open>string\<close>, a list of 8-bit characters), so that
    \<open>length\<close> is Rust's \<open>str::len\<close>.
  \<^item> an \<open>Instant\<close> is a number of nanoseconds; a \<open>HashMap\<close> is a partial function.
\<close>

section \<open>Types\<close>

type_synonym u8 = "8 word"
type_synonym u16 = "16 word"
type_synonym u32 = "32 word"
type_synonym u64 = "64 word"
type_synonym i64 = int
type_synonym f32 = real
type_synonym f64 = real
type_synonym instant = nat

named_theorems frame_simps \<open>which parts of a state an operation leaves alone\<close>
named_theorems wire_simps \<open>defining equations of small wire-level helpers\<close>

section \<open>Integer conversions and saturating operations\<close>

text \<open>\<open>f64::MAX\<close>, and \<open>f64::MIN\<close> as its negation.\<close>

definition f64_max :: f64 where
  "f64_max = (2 ^ 53 - 1) * 2 ^ 971"

definition f64_min :: f64 where
  "f64_min = - f64_max"

lemma f64_max_pos: "0 < f64_max"
  by (simp add: f64_max_def)

text \<open>Rust's float-to-integer casts truncate towards zero and saturate at the bounds.\<close>

definition f64_to_u32 :: "f64 \<Rightarrow> u32" where
  "f64_to_u32 x = (if x < 0 then 0 else if 2 ^ 32 \<le> x then - 1 else of_int \<lfloor>x\<rfloor>)"

definition f64_to_u64 :: "f64 \<Rightarrow> u64" where
  "f64_to_u64 x = (if x < 0 then 0 else if 2 ^ 64 \<le> x then - 1 else of_int \<lfloor>x\<rfloor>)"

lemma unat_max_u32 [simp]: "unat (- 1 :: u32) = 2 ^ 32 - 1"
  by (simp add: unsigned_minus_1_eq_mask mask_eq_exp_minus_1)

lemma unat_max_u64 [simp]: "unat (- 1 :: u64) = 2 ^ 64 - 1"
  by (simp add: unsigned_minus_1_eq_mask mask_eq_exp_minus_1)

lemma unat_Suc_less: "a < b \<Longrightarrow> unat (a + 1 :: u32) = unat a + 1"
proof -
  assume less: "a < b"
  then have "unat a < unat b" by (simp add: word_less_nat_alt)
  then have "unat a + 1 < 2 ^ LENGTH(32)" using unsigned_less [where 'a = nat, of b] by simp
  then show ?thesis by (simp add: unat_word_ariths)
qed

lemma unat_f64_to_u32:
  "unat (f64_to_u32 x) = (if x < 0 then 0 else if 2 ^ 32 \<le> x then 2 ^ 32 - 1 else nat \<lfloor>x\<rfloor>)"
proof -
  consider "x < 0" | "2 ^ 32 \<le> x" | "0 \<le> x" "x < 2 ^ 32" by linarith
  then show ?thesis
  proof cases
    case 1 then show ?thesis by (simp add: f64_to_u32_def)
  next
    case 2 then show ?thesis by (simp add: f64_to_u32_def)
  next
    case 3
    then have "0 \<le> \<lfloor>x\<rfloor>" and "\<lfloor>x\<rfloor> < 2 ^ 32" by (simp_all add: floor_less_iff)
    then have "unat (of_int \<lfloor>x\<rfloor> :: u32) = nat \<lfloor>x\<rfloor>"
      by (simp add: unat_eq_nat_uint take_bit_int_eq_self unsigned_of_int)
    with 3 show ?thesis by (simp add: f64_to_u32_def)
  qed
qed

lemma f64_to_u32_mono: "x \<le> y \<Longrightarrow> f64_to_u32 x \<le> f64_to_u32 y"
proof -
  assume le: "x \<le> y"
  have "nat \<lfloor>x\<rfloor> \<le> 2 ^ 32 - 1" if "x < 2 ^ 32"
  proof -
    have "\<lfloor>x\<rfloor> < 2 ^ 32" using that by (simp add: floor_less_iff)
    then have "nat \<lfloor>x\<rfloor> < nat (2 ^ 32)" by (subst nat_mono_iff) simp_all
    then show ?thesis by simp
  qed
  moreover have "nat \<lfloor>x\<rfloor> \<le> nat \<lfloor>y\<rfloor>" using le by (simp add: floor_mono nat_mono)
  ultimately have "unat (f64_to_u32 x) \<le> unat (f64_to_u32 y)"
    using le by (simp add: unat_f64_to_u32)
  then show ?thesis by (simp add: word_le_nat_alt)
qed

lemma unsigned_nonneg_real [simp]: "0 \<le> (unsigned (w :: 'a::len word) :: real)"
  by (metis of_nat_0_le_iff of_nat_unat)

text \<open>\<open>u64::saturating_add\<close> and \<open>u64::saturating_sub\<close>.\<close>

definition sat_add_u64 :: "u64 \<Rightarrow> u64 \<Rightarrow> u64" where
  "sat_add_u64 a b = (if unat a + unat b < 2 ^ 64 then a + b else - 1)"

definition sat_sub_u64 :: "u64 \<Rightarrow> u64 \<Rightarrow> u64" where
  "sat_sub_u64 a b = (if a \<le> b then 0 else a - b)"

lemma unat_sat_add_u64: "unat (sat_add_u64 a b) = min (unat a + unat b) (2 ^ 64 - 1)"
  by (auto simp: sat_add_u64_def unat_word_ariths min_def)

lemma unat_sat_sub_u64: "unat (sat_sub_u64 a b) = unat a - unat b"
  by (auto simp: sat_sub_u64_def word_le_nat_alt unat_sub)

section \<open>Strings\<close>

text \<open>
  \<open>str::contains\<close>, \<open>starts_with\<close>, \<open>ends_with\<close>, \<open>split_once\<close> on one character, \<open>join\<close>,
  \<open>lines\<close>, \<open>trim_start\<close>/\<open>trim\<close>, \<open>to_ascii_lowercase\<close> and the decimal form of an integer.
\<close>

fun contains :: "string \<Rightarrow> string \<Rightarrow> bool" where
  "contains [] n = (n = [])"
| "contains (c # cs) n = (prefix n (c # cs) \<or> contains cs n)"

lemma contains_iff: "contains h n \<longleftrightarrow> (\<exists>a b. h = a @ n @ b)"
proof (induction h)
  case Nil then show ?case by auto
next
  case (Cons c cs)
  show ?case
  proof
    assume "contains (c # cs) n"
    then consider "prefix n (c # cs)" | "contains cs n" by auto
    then show "\<exists>a b. c # cs = a @ n @ b"
    proof cases
      case 1
      then have "\<exists>b. c # cs = [] @ n @ b" by (auto simp: prefix_def)
      then show ?thesis by blast
    next
      case 2
      then obtain a b where "cs = a @ n @ b" using Cons.IH by blast
      then have "c # cs = (c # a) @ n @ b" by simp
      then show ?thesis by blast
    qed
  next
    assume "\<exists>a b. c # cs = a @ n @ b"
    then obtain a b where ab: "c # cs = a @ n @ b" by blast
    show "contains (c # cs) n"
    proof (cases a)
      case Nil
      with ab have "prefix n (c # cs)" by simp
      then show ?thesis by simp
    next
      case (Cons x xs)
      with ab have "cs = xs @ n @ b" by simp
      with Cons.IH show ?thesis by auto
    qed
  qed
qed

definition starts_with :: "string \<Rightarrow> string \<Rightarrow> bool" where
  "starts_with s p = prefix p s"

definition ends_with :: "string \<Rightarrow> string \<Rightarrow> bool" where
  "ends_with s p = suffix p s"

fun split_once :: "char \<Rightarrow> string \<Rightarrow> (string \<times> string) option" where
  "split_once d [] = None"
| "split_once d (c # cs) =
     (if c = d then Some ([], cs)
      else case split_once d cs of None \<Rightarrow> None | Some (a, b) \<Rightarrow> Some (c # a, b))"

lemma split_once_None [simp]: "split_once d s = None \<longleftrightarrow> d \<notin> set s"
  by (induction s) (auto split: option.splits)

lemma split_once_Some: "split_once d s = Some (a, b) \<longleftrightarrow> s = a @ d # b \<and> d \<notin> set a"
proof (induction s arbitrary: a)
  case Nil then show ?case by simp
next
  case (Cons c cs)
  show ?case
  proof (cases a)
    case Nil then show ?thesis by (auto split: option.splits)
  next
    case (Cons x xs)
    then show ?thesis using Cons.IH [of xs] by (auto split: option.splits)
  qed
qed

fun join :: "string \<Rightarrow> string list \<Rightarrow> string" where
  "join sep [] = []"
| "join sep [x] = x"
| "join sep (x # y # ys) = x @ sep @ join sep (y # ys)"

text \<open>Lines: each segment with whether a newline ended it; a carriage return is dropped only
  in front of a newline.\<close>

fun split_nl :: "string \<Rightarrow> (string \<times> bool) list" where
  "split_nl [] = []"
| "split_nl (c # cs) =
     (if c = CHR 10 then ([], True) # split_nl cs
      else case split_nl cs of
          [] \<Rightarrow> [([c], False)]
        | (l, t) # rest \<Rightarrow> (c # l, t) # rest)"

definition strip_cr :: "string \<Rightarrow> string" where
  "strip_cr l = (if l \<noteq> [] \<and> last l = CHR 13 then butlast l else l)"

definition lines :: "string \<Rightarrow> string list" where
  "lines s = map (\<lambda>(l, t). if t then strip_cr l else l) (split_nl s)"

lemma split_nl_Nil [simp]: "split_nl s = [] \<longleftrightarrow> s = []"
  by (cases s) (auto split: list.splits)

lemma lines_Nil [simp]: "lines s = [] \<longleftrightarrow> s = []"
  by (simp add: lines_def)

definition to_ascii_lower :: "char \<Rightarrow> char" where
  "to_ascii_lower c =
     (let n = of_char c :: nat in if 65 \<le> n \<and> n \<le> 90 then char_of (n + 32) else c)"

definition to_ascii_lowercase :: "string \<Rightarrow> string" where
  "to_ascii_lowercase = map to_ascii_lower"

definition is_ascii_alphabetic :: "char \<Rightarrow> bool" where
  "is_ascii_alphabetic c =
     (let n = of_char c :: nat in (65 \<le> n \<and> n \<le> 90) \<or> (97 \<le> n \<and> n \<le> 122))"

definition is_ascii_hexdigit :: "char \<Rightarrow> bool" where
  "is_ascii_hexdigit c =
     (let n = of_char c :: nat
      in (48 \<le> n \<and> n \<le> 57) \<or> (65 \<le> n \<and> n \<le> 70) \<or> (97 \<le> n \<and> n \<le> 102))"

text \<open>
  Unicode white space, as the UTF-8 bytes of the code points with the property: the ASCII ones,
  U+0085, U+00A0, U+1680, U+2000 to U+200A, U+2028, U+2029, U+202F, U+205F and U+3000.
\<close>

definition ascii_ws :: "nat \<Rightarrow> bool" where
  "ascii_ws n = ((9 \<le> n \<and> n \<le> 13) \<or> n = 32)"

fun ws_len :: "nat list \<Rightarrow> nat" where
  "ws_len (a # b # c # _) =
     (if ascii_ws a then 1
      else if a = 194 \<and> (b = 133 \<or> b = 160) then 2
      else if a = 225 \<and> b = 154 \<and> c = 128 then 3
      else if a = 226 \<and> b = 128 \<and> ((128 \<le> c \<and> c \<le> 138) \<or> c = 168 \<or> c = 169 \<or> c = 175) then 3
      else if a = 226 \<and> b = 129 \<and> c = 159 then 3
      else if a = 227 \<and> b = 128 \<and> c = 128 then 3
      else 0)"
| "ws_len [a, b] = (if ascii_ws a then 1 else if a = 194 \<and> (b = 133 \<or> b = 160) then 2 else 0)"
| "ws_len [a] = (if ascii_ws a then 1 else 0)"
| "ws_len [] = 0"

text \<open>The bytes of the white space that begins \<open>s\<close> (0 when it begins with something else).\<close>

definition ws_prefix :: "string \<Rightarrow> nat" where
  "ws_prefix s = ws_len (map of_char (take 3 s))"

function trim_start :: "string \<Rightarrow> string" where
  "trim_start s = (if ws_prefix s = 0 \<or> s = [] then s else trim_start (drop (ws_prefix s) s))"
  by pat_completeness auto
termination
  by (relation "measure length") auto

declare trim_start.simps [simp del]

lemma trim_start_suffix: "suffix (trim_start s) s"
proof (induction s rule: trim_start.induct)
  case (1 s)
  show ?case
  proof (cases "ws_prefix s = 0 \<or> s = []")
    case True then show ?thesis by (subst trim_start.simps) simp
  next
    case False
    with 1 have "suffix (trim_start (drop (ws_prefix s) s)) (drop (ws_prefix s) s)" by simp
    with False show ?thesis
      by (subst trim_start.simps) (auto intro: suffix_order.trans suffix_drop)
  qed
qed

text \<open>\<open>s.trim().is_empty()\<close>: nothing but white space.\<close>

definition is_blank :: "string \<Rightarrow> bool" where
  "is_blank s = (trim_start s = [])"

text \<open>The first white-space-separated word of a string, and the words after the first.\<close>

function take_word :: "string \<Rightarrow> string" where
  "take_word s = (if s = [] \<or> 0 < ws_prefix s then [] else hd s # take_word (tl s))"
  by pat_completeness auto
termination
  by (relation "measure length") auto

declare take_word.simps [simp del]

definition nth_word1 :: "string \<Rightarrow> string option" where
  "nth_word1 s =
     (let r = trim_start s; r1 = trim_start (drop (length (take_word r)) r)
      in if r = [] \<or> r1 = [] then None else Some (take_word r1))"

fun show_nat :: "nat \<Rightarrow> string" where
  "show_nat n = (if n < 10 then [char_of (48 + n)] else show_nat (n div 10) @ [char_of (48 + n mod 10)])"

declare show_nat.simps [simp del]

fun read_nat :: "string \<Rightarrow> nat" where
  "read_nat [] = 0"
| "read_nat (c # cs) = (of_char c - 48) * 10 ^ length cs + read_nat cs"

lemma read_nat_append: "read_nat (a @ b) = read_nat a * 10 ^ length b + read_nat b"
  by (induction a) (auto simp: algebra_simps power_add)

lemma read_show_nat: "read_nat (show_nat n) = n"
proof (induction n rule: show_nat.induct)
  case (1 n)
  have digit: "of_char (char_of (48 + d) :: char) = 48 + d" if "d < 10" for d :: nat
    using that by (simp add: of_char_of)
  show ?case
  proof (cases "n < 10")
    case True then show ?thesis by (subst show_nat.simps) (simp add: digit)
  next
    case False
    with 1 have "read_nat (show_nat (n div 10)) = n div 10" by simp
    with False show ?thesis
      by (subst show_nat.simps) (simp add: read_nat_append digit)
  qed
qed

text \<open>\<open>format!("{n:0w}")\<close>: the decimal form padded with zeros to width \<open>w\<close>.\<close>

definition show_padded :: "nat \<Rightarrow> nat \<Rightarrow> string" where
  "show_padded w n = (let d = show_nat n in replicate (w - length d) CHR ''0'' @ d)"

lemma read_nat_zeros: "read_nat (replicate k CHR ''0'' @ s) = read_nat s"
  by (induction k) auto

lemma read_show_padded: "read_nat (show_padded w n) = n"
  by (simp add: show_padded_def Let_def read_nat_zeros read_show_nat)

section \<open>Sorting and filtering candidate chains\<close>

text \<open>
  \<open>slice::sort_by\<close> and \<open>sort_by_key\<close> are stable, as \<open>sort_key\<close> is: entries with equal keys
  keep their order. \<open>sort_desc\<close> is a stable sort by decreasing key.
\<close>

definition sort_desc :: "('a \<Rightarrow> f64) \<Rightarrow> 'a list \<Rightarrow> 'a list" where
  "sort_desc key = sort_key (\<lambda>x. - key x)"

lemma set_sort_desc [simp]: "set (sort_desc key xs) = set xs"
  by (simp add: sort_desc_def)

lemma mset_sort_desc [simp]: "mset (sort_desc key xs) = mset xs"
  by (simp add: sort_desc_def)

lemma sort_key_Nil_iff [simp]: "sort_key f xs = [] \<longleftrightarrow> xs = []"
  by (metis length_0_conv length_sort)

text \<open>A stable sort by a Boolean key is a partition: the \<open>False\<close> entries, then the \<open>True\<close> ones.\<close>

lemma sort_key_bool:
  "sort_key (p :: 'a \<Rightarrow> bool) xs = filter (\<lambda>x. \<not> p x) xs @ filter p xs"
proof (induction xs)
  case Nil then show ?case by simp
next
  case (Cons x xs)
  have front: "\<not> p x \<Longrightarrow> insort_key p x ys = x # ys" for ys
    by (cases ys) auto
  have behind: "\<lbrakk>p x; \<forall>y\<in>set ys. \<not> p y\<rbrakk> \<Longrightarrow> insort_key p x (ys @ zs) = ys @ insort_key p x zs"
    for ys zs
    by (induction ys) auto
  have true: "\<lbrakk>p x; \<forall>y\<in>set zs. p y\<rbrakk> \<Longrightarrow> insort_key p x zs = x # zs" for zs
    by (cases zs) auto
  show ?case
    by (cases "p x") (simp_all add: Cons.IH front behind true)
qed

text \<open>A value between double quotes, as messages show it.\<close>

definition quoted :: "string \<Rightarrow> string" where
  "quoted s = CHR 34 # s @ [CHR 34]"

text \<open>\<open>Option::or\<close>, \<open>Option::unwrap_or\<close>.\<close>

definition or_else :: "'a option \<Rightarrow> 'a option \<Rightarrow> 'a option" where
  "or_else a b = (case a of Some x \<Rightarrow> Some x | None \<Rightarrow> b)"

definition unwrap_or :: "'a \<Rightarrow> 'a option \<Rightarrow> 'a" where
  "unwrap_or d a = (case a of Some x \<Rightarrow> x | None \<Rightarrow> d)"

lemma or_else_simps [simp]:
  "or_else (Some x) b = Some x" "or_else None b = b"
  by (simp_all add: or_else_def)

lemma unwrap_or_simps [simp]:
  "unwrap_or d (Some x) = x" "unwrap_or d None = d"
  by (simp_all add: unwrap_or_def)

lemma or_else_idem [simp]: "or_else (or_else a b) b = or_else a b"
  by (cases a; cases b) auto

end
