(* ===== verification/Errors.thy ===== *)
theory Errors
  imports Prelude
begin

text \<open>
  The two error types: \<open>ProviderError\<close> (\<open>crates/core/src/error.rs\<close>), which an adapter returns,
  and \<open>RouterError\<close> (\<open>crates/router/src/error.rs\<close>), which the router returns to the server.
  Their classification decides whether a fallback chain moves on (\<open>is_retryable\<close>), whether the
  same candidate is tried again (\<open>is_transient\<close>) and which HTTP status a client sees.
\<close>

datatype provider_error =
    Auth string
  | InvalidRequest string
  | RateLimited "u64 option"
  | Upstream u16 string
  | Timeout
  | Network string
  | Decode string
  | ModelNotFound string
  | UnsupportedContent string
  | UnsupportedFeature string
  | Other string

fun is_retryable :: "provider_error \<Rightarrow> bool" where
  "is_retryable (RateLimited _) = True"
| "is_retryable Timeout = True"
| "is_retryable (Network _) = True"
| "is_retryable (Upstream status _) = (500 \<le> status \<or> status = 429)"
| "is_retryable (Auth _) = False"
| "is_retryable (InvalidRequest _) = False"
| "is_retryable (ModelNotFound _) = False"
| "is_retryable (Decode _) = False"
| "is_retryable (UnsupportedContent _) = True"
| "is_retryable (UnsupportedFeature _) = True"
| "is_retryable (Other _) = False"

fun is_transient :: "provider_error \<Rightarrow> bool" where
  "is_transient Timeout = True"
| "is_transient (Network _) = True"
| "is_transient (Upstream status _) = (500 \<le> status)"
| "is_transient (RateLimited _) = False"
| "is_transient (Auth _) = False"
| "is_transient (InvalidRequest _) = False"
| "is_transient (ModelNotFound _) = False"
| "is_transient (Decode _) = False"
| "is_transient (UnsupportedContent _) = False"
| "is_transient (UnsupportedFeature _) = False"
| "is_transient (Other _) = False"

fun provider_status_code :: "provider_error \<Rightarrow> u16" where
  "provider_status_code (Auth _) = 401"
| "provider_status_code (InvalidRequest _) = 400"
| "provider_status_code (RateLimited _) = 429"
| "provider_status_code (Upstream status _) = status"
| "provider_status_code Timeout = 504"
| "provider_status_code (Network _) = 502"
| "provider_status_code (Decode _) = 502"
| "provider_status_code (ModelNotFound _) = 404"
| "provider_status_code (UnsupportedContent _) = 400"
| "provider_status_code (UnsupportedFeature _) = 400"
| "provider_status_code (Other _) = 500"

datatype router_error =
    InvalidModel string
  | ProviderNotConfigured string
  | NoEligibleProvider string
  | GuardrailBlocked string
  | UnknownPreset string
  | ModerationFlagged "string list"
  | RequestBudgetExceeded string f64
  | ProviderErr provider_error

fun router_status_code :: "router_error \<Rightarrow> u16" where
  "router_status_code (InvalidModel _) = 400"
| "router_status_code (ProviderNotConfigured _) = 424"
| "router_status_code (NoEligibleProvider _) = 400"
| "router_status_code (GuardrailBlocked _) = 400"
| "router_status_code (UnknownPreset _) = 400"
| "router_status_code (ModerationFlagged _) = 400"
| "router_status_code (RequestBudgetExceeded _ _) = 402"
| "router_status_code (ProviderErr e) = provider_status_code e"

fun retry_after_secs :: "router_error \<Rightarrow> u64 option" where
  "retry_after_secs (ProviderErr (RateLimited r)) = r"
| "retry_after_secs _ = None"

lemma transient_retryable: "is_transient e \<Longrightarrow> is_retryable e"
  by (cases e) auto

text \<open>A retry hint is only ever attached to a 429.\<close>

lemma retry_after_status: "retry_after_secs e = Some n \<Longrightarrow> router_status_code e = 429"
  by (cases e rule: retry_after_secs.cases) auto

text \<open>
  The retry classification is consistent: every error worth a retry of the same candidate
  also lets the chain move on, strictly so (rate limits and capability mismatches move on but are
  never retried in place), and an error that stops the chain surfaces no status of the
  \<open>429\<close>/\<open>5xx\<close> kind other than those of an undecodable response (\<open>502\<close>) or an unclassified
  failure (\<open>500\<close>).
\<close>

theorem retry_classification:
  "(\<forall>e. is_transient e \<longrightarrow> is_retryable e)
   \<and> {e. is_retryable e \<and> \<not> is_transient e}
       = range RateLimited \<union> range UnsupportedContent \<union> range UnsupportedFeature
         \<union> range (Upstream 429)
   \<and> (\<forall>e. \<not> is_retryable e \<longrightarrow> provider_status_code e = 429 \<or> 500 \<le> provider_status_code e \<longrightarrow>
        (\<exists>m. e = Decode m \<or> e = Other m))"
proof (intro conjI allI impI)
  fix e
  show "is_transient e \<Longrightarrow> is_retryable e" by (rule transient_retryable)
  assume "\<not> is_retryable e" and "provider_status_code e = 429 \<or> 500 \<le> provider_status_code e"
  then show "\<exists>m. e = Decode m \<or> e = Other m" by (cases e) auto
next
  show "{e. is_retryable e \<and> \<not> is_transient e}
       = range RateLimited \<union> range UnsupportedContent \<union> range UnsupportedFeature
         \<union> range (Upstream 429)" (is "?A = ?B")
  proof (rule set_eqI)
    fix e show "e \<in> ?A \<longleftrightarrow> e \<in> ?B" by (cases e) auto
  qed
qed

theorem retry_classification_witness:
  "is_transient (Upstream 503 ''busy'') \<and> is_retryable (Upstream 503 ''busy'')"
proof -
  have "is_transient (Upstream 503 ''busy'')" by simp
  moreover have "is_retryable (Upstream 503 ''busy'')"
    using retry_classification calculation by blast
  ultimately show ?thesis by simp
qed

end
