(* ===== verification/Wire_Types.thy ===== *)
theory Wire_Types
  imports Errors
begin

text \<open>
  The request and response types every adapter translates (\<open>crates/core/src/types.rs\<close>), with the
  fields of the OpenAI chat-completions schema. A record field keeps the source's name behind a
  prefix of its struct; a JSON payload the router passes through untouched
  (\<open>serde_json::Value\<close>) is a \<open>json\<close> tree. The fields \<open>object\<close>, which every response type has and
  which always hold the same literal, are the constants at the end.
\<close>

section \<open>Messages\<close>

datatype json =
    JNull
  | JBool bool
  | JInt int
  | JFloat f64
  | JString string
  | JArray "json list"
  | JObject "(string \<times> json) list"

datatype role = System | User | Assistant | ToolRole

datatype cache_control = Ephemeral

record image_url =
  img_url :: string
  img_detail :: "string option"

record input_audio =
  audio_data :: string
  audio_format :: string

record file_data =
  file_payload :: string
  file_filename :: "string option"

datatype content_part =
    TextPart string
  | ImageUrl image_url
  | InputAudio input_audio
  | FilePart file_data

datatype message_content =
    Text string
  | Parts "content_part list"

fun part_text :: "content_part \<Rightarrow> string option" where
  "part_text (TextPart t) = Some t"
| "part_text _ = None"

fun content_is_empty :: "message_content \<Rightarrow> bool" where
  "content_is_empty (Text s) = (s = [])"
| "content_is_empty (Parts ps) = (ps = [])"

fun as_plain_text :: "message_content \<Rightarrow> string" where
  "as_plain_text (Text s) = s"
| "as_plain_text (Parts ps) = concat (List.map_filter part_text ps)"

record function_call =
  call_name :: string
  call_arguments :: string

record tool_call =
  tc_id :: string
  tc_kind :: string
  tc_function :: function_call

definition tool_call_function :: "string \<Rightarrow> string \<Rightarrow> string \<Rightarrow> tool_call" where
  "tool_call_function i n args =
     \<lparr>tc_id = i, tc_kind = ''function'', tc_function = \<lparr>call_name = n, call_arguments = args\<rparr>\<rparr>"

record function_def =
  fn_name :: string
  fn_description :: "string option"
  fn_parameters :: "json option"

record tool =
  tool_kind :: string
  tool_function :: function_def

record chat_message =
  msg_role :: role
  msg_content :: "message_content option"
  msg_name :: "string option"
  msg_tool_calls :: "tool_call list option"
  msg_tool_call_id :: "string option"
  msg_reasoning :: "string option"
  msg_cache_control :: "cache_control option"

definition plain_message :: "role \<Rightarrow> string \<Rightarrow> chat_message" where
  "plain_message r text =
     \<lparr>msg_role = r, msg_content = Some (Text text), msg_name = None, msg_tool_calls = None,
      msg_tool_call_id = None, msg_reasoning = None, msg_cache_control = None\<rparr>"

definition system_message :: "string \<Rightarrow> chat_message" where
  "system_message = plain_message System"

definition user_message :: "string \<Rightarrow> chat_message" where
  "user_message = plain_message User"

definition assistant_message :: "string \<Rightarrow> chat_message" where
  "assistant_message = plain_message Assistant"

section \<open>Requests\<close>

record reasoning_config =
  rc_effort :: "string option"
  rc_max_tokens :: "u32 option"
  rc_exclude :: "bool option"

record json_schema_format =
  js_name :: string
  js_description :: "string option"
  js_schema :: json
  js_strict :: "bool option"

datatype response_format =
    TextFormat
  | JsonObject
  | JsonSchema json_schema_format

record provider_preferences =
  pp_only :: "string list option"
  pp_ignore :: "string list option"
  pp_sort :: "string option"
  pp_zdr :: "bool option"
  pp_data_collection :: "bool option"
  pp_auto_bias :: "string option"
  pp_max_price :: "f64 option"
  pp_require_parameters :: "bool option"
  pp_byok :: "(string \<rightharpoonup> string) option"
  pp_max_request_price_usd :: "f64 option"
  pp_budget_fallback :: "string option"

definition default_preferences :: provider_preferences where
  "default_preferences =
     \<lparr>pp_only = None, pp_ignore = None, pp_sort = None, pp_zdr = None, pp_data_collection = None,
      pp_auto_bias = None, pp_max_price = None, pp_require_parameters = None, pp_byok = None,
      pp_max_request_price_usd = None, pp_budget_fallback = None\<rparr>"

record chat_request =
  cr_model :: string
  cr_models :: "string list option"
  cr_preset :: "string option"
  cr_messages :: "chat_message list"
  cr_temperature :: "f32 option"
  cr_top_p :: "f32 option"
  cr_max_tokens :: "u32 option"
  cr_stop :: "string list option"
  cr_stream :: "bool option"
  cr_user :: "string option"
  cr_tools :: "tool list option"
  cr_tool_choice :: "json option"
  cr_provider :: "provider_preferences option"
  cr_response_format :: "response_format option"
  cr_reasoning :: "reasoning_config option"
  cr_top_k :: "u32 option"
  cr_min_p :: "f32 option"
  cr_top_a :: "f32 option"
  cr_frequency_penalty :: "f32 option"
  cr_presence_penalty :: "f32 option"
  cr_repetition_penalty :: "f32 option"
  cr_logit_bias :: "(string \<rightharpoonup> f32) option"
  cr_seed :: "i64 option"
  cr_transforms :: "string list option"
  cr_logprobs :: "bool option"
  cr_top_logprobs :: "u32 option"
  cr_web_search :: "bool option"

definition is_streaming :: "chat_request \<Rightarrow> bool" where
  "is_streaming req = unwrap_or False (cr_stream req)"

text \<open>A request with a model and messages and every optional field absent, as the smallest JSON
  body deserializes to.\<close>

definition bare_request :: "string \<Rightarrow> chat_message list \<Rightarrow> chat_request" where
  "bare_request model messages =
     \<lparr>cr_model = model, cr_models = None, cr_preset = None, cr_messages = messages,
      cr_temperature = None, cr_top_p = None, cr_max_tokens = None, cr_stop = None,
      cr_stream = None, cr_user = None, cr_tools = None, cr_tool_choice = None,
      cr_provider = None, cr_response_format = None, cr_reasoning = None, cr_top_k = None,
      cr_min_p = None, cr_top_a = None, cr_frequency_penalty = None,
      cr_presence_penalty = None, cr_repetition_penalty = None, cr_logit_bias = None,
      cr_seed = None, cr_transforms = None, cr_logprobs = None, cr_top_logprobs = None,
      cr_web_search = None\<rparr>"

section \<open>Responses\<close>

record usage =
  us_prompt_tokens :: u32
  us_completion_tokens :: u32
  us_total_tokens :: u32
  us_cached_tokens :: "u32 option"
  us_cache_creation_tokens :: "u32 option"

record top_logprob =
  tl_token :: string
  tl_logprob :: f32
  tl_bytes :: "u8 list option"

record token_logprob =
  tk_token :: string
  tk_logprob :: f32
  tk_bytes :: "u8 list option"
  tk_top_logprobs :: "top_logprob list option"

record choice_logprobs =
  clp_content :: "token_logprob list option"

record choice =
  ch_index :: u32
  ch_message :: chat_message
  ch_finish_reason :: "string option"
  ch_logprobs :: "choice_logprobs option"

record chat_response =
  rs_id :: string
  rs_created :: i64
  rs_model :: string
  rs_choices :: "choice list"
  rs_usage :: "usage option"
  rs_cost_usd :: "f64 option"

record function_call_delta =
  fcd_name :: "string option"
  fcd_arguments :: "string option"

record tool_call_delta =
  tcd_index :: u32
  tcd_id :: "string option"
  tcd_kind :: "string option"
  tcd_function :: "function_call_delta option"

record chat_message_delta =
  dl_role :: "role option"
  dl_content :: "string option"
  dl_tool_calls :: "tool_call_delta list option"
  dl_reasoning :: "string option"

record chunk_choice =
  cc_index :: u32
  cc_delta :: chat_message_delta
  cc_finish_reason :: "string option"
  cc_logprobs :: "choice_logprobs option"

record chat_chunk =
  ck_id :: string
  ck_created :: i64
  ck_model :: string
  ck_choices :: "chunk_choice list"
  ck_usage :: "usage option"
  ck_cost_usd :: "f64 option"

record model_pricing =
  mp_prompt :: f64
  mp_completion :: f64
  mp_cache_read :: f64
  mp_cache_write :: f64
  mp_quality_score :: "f64 option"

record model_info =
  mi_id :: string
  mi_owned_by :: string
  mi_context_length :: "u32 option"
  mi_pricing :: "model_pricing option"
  mi_supported_params :: "string list option"

section \<open>Embeddings\<close>

datatype embeddings_input =
    Single string
  | Multiple "string list"

fun input_as_slice :: "embeddings_input \<Rightarrow> string list" where
  "input_as_slice (Single t) = [t]"
| "input_as_slice (Multiple ts) = ts"

record embeddings_request =
  er_model :: string
  er_input :: embeddings_input
  er_encoding_format :: "string option"
  er_dimensions :: "u32 option"

record embedding_data =
  ed_embedding :: "f32 list"
  ed_index :: nat

record embeddings_usage =
  eu_prompt_tokens :: u32
  eu_total_tokens :: u32

record embeddings_response =
  es_data :: "embedding_data list"
  es_model :: string
  es_usage :: "embeddings_usage option"

definition chat_completion_object :: string where
  "chat_completion_object = ''chat.completion''"

definition chat_completion_chunk_object :: string where
  "chat_completion_chunk_object = ''chat.completion.chunk''"

definition model_object :: string where
  "model_object = ''model''"

definition embedding_object :: string where
  "embedding_object = ''embedding''"

definition embeddings_list_object :: string where
  "embeddings_list_object = ''list''"

section \<open>Facts\<close>

lemma plain_message_simps [simp]:
  "msg_role (plain_message r t) = r"
  "msg_content (plain_message r t) = Some (Text t)"
  "msg_tool_calls (plain_message r t) = None"
  "msg_reasoning (plain_message r t) = None"
  "msg_cache_control (plain_message r t) = None"
  by (simp_all add: plain_message_def)

lemma system_message_role [simp]: "msg_role (system_message t) = System"
  by (simp add: system_message_def)

lemma user_message_simps [simp]:
  "msg_role (user_message t) = User" "msg_content (user_message t) = Some (Text t)"
  "msg_tool_calls (user_message t) = None"
  by (simp_all add: user_message_def)

lemma assistant_message_role [simp]: "msg_role (assistant_message t) = Assistant"
  by (simp add: assistant_message_def)

lemma bare_request_simps [simp]:
  "cr_model (bare_request m ms) = m" "cr_messages (bare_request m ms) = ms"
  "cr_models (bare_request m ms) = None" "cr_provider (bare_request m ms) = None"
  "cr_tools (bare_request m ms) = None" "cr_stream (bare_request m ms) = None"
  "cr_transforms (bare_request m ms) = None" "cr_max_tokens (bare_request m ms) = None"
  "cr_preset (bare_request m ms) = None" "cr_web_search (bare_request m ms) = None"
  "cr_reasoning (bare_request m ms) = None" "cr_response_format (bare_request m ms) = None"
  by (simp_all add: bare_request_def)

lemma as_plain_text_no_text:
  "(\<forall>p\<in>set ps. part_text p = None) \<Longrightarrow> as_plain_text (Parts ps) = []"
  by (induction ps) (auto simp: List.map_filter_simps)

end
