(* ===== verification/Json.thy ===== *)
theory Json
  imports Wire_Types "HOL-Library.AList"
begin

text \<open>
  What the adapters and the server use of \<open>serde_json::Value\<close>: look-ups that answer \<open>None\<close> on a
  value of another shape, the conversions \<open>as_str\<close>, \<open>as_u64\<close> and \<open>as_array\<close>, and insertion into an object. An
  object is the list of its entries. Reading a \<open>Value\<close> from text and printing one are the
  library's, and are parameters of the definitions that use them.
\<close>

section \<open>Look-ups\<close>

fun json_get :: "string \<Rightarrow> json \<Rightarrow> json option" where
  "json_get k (JObject kvs) = map_of kvs k"
| "json_get _ _ = None"

text \<open>
  \<open>Value::pointer\<close> on the tokens between the slashes. Every pointer of the program goes through
  objects; its tokens are no numbers, so that an array on the way has nothing under them.
\<close>

fun json_pointer :: "string list \<Rightarrow> json \<Rightarrow> json option" where
  "json_pointer [] v = Some v"
| "json_pointer (t # ts) v = Option.bind (json_get t v) (json_pointer ts)"

fun json_as_str :: "json \<Rightarrow> string option" where
  "json_as_str (JString s) = Some s"
| "json_as_str _ = None"

fun json_as_u64 :: "json \<Rightarrow> u64 option" where
  "json_as_u64 (JInt n) = (if 0 \<le> n \<and> n < 2 ^ 64 then Some (of_int n) else None)"
| "json_as_u64 _ = None"

fun json_as_array :: "json \<Rightarrow> json list option" where
  "json_as_array (JArray xs) = Some xs"
| "json_as_array _ = None"

text \<open>\<open>value.pointer(..).and_then(Value::as_str)\<close> and the same with \<open>as_u64\<close>.\<close>

definition str_at :: "string list \<Rightarrow> json \<Rightarrow> string option" where
  "str_at p v = Option.bind (json_pointer p v) json_as_str"

definition u64_at :: "string list \<Rightarrow> json \<Rightarrow> u64 option" where
  "u64_at p v = Option.bind (json_pointer p v) json_as_u64"

text \<open>\<open>... .unwrap_or(0) as u32\<close> keeps the low half of the number.\<close>

definition count_at :: "string list \<Rightarrow> json \<Rightarrow> u32" where
  "count_at p v = ucast (unwrap_or 0 (u64_at p v))"

section \<open>Building objects\<close>

text \<open>\<open>Map::insert\<close> replaces the value of a key that is there.\<close>

fun json_insert :: "string \<Rightarrow> json \<Rightarrow> json \<Rightarrow> json" where
  "json_insert k v (JObject kvs) = JObject (AList.update k v kvs)"
| "json_insert _ _ v = v"

definition empty_object :: json where
  "empty_object = JObject []"

definition json_opt :: "string option \<Rightarrow> json" where
  "json_opt s = (case s of None \<Rightarrow> JNull | Some t \<Rightarrow> JString t)"

lemma json_get_insert [simp]:
  "json_get k (json_insert k' v (JObject kvs))
     = (if k = k' then Some v else json_get k (JObject kvs))"
  by (simp add: update_conv')

lemma str_at_simps [simp]:
  "str_at [] v = json_as_str v"
  "str_at (t # ts) v = Option.bind (json_get t v) (str_at ts)"
  by (auto simp: str_at_def split: bind_splits)

lemma u64_at_simps [simp]:
  "u64_at [] v = json_as_u64 v"
  "u64_at (t # ts) v = Option.bind (json_get t v) (u64_at ts)"
  by (auto simp: u64_at_def split: bind_splits)

end
