(* ===== verification/External.thy ===== *)
theory External
  imports Wire_Types
begin

text \<open>
  The outside world as the router sees it. Its state is a type parameter \<open>'w\<close>; every call that leaves
  the process takes that state and returns the next one. An HTTP exchange ends with a transport
  error or with a reply whose status and decoded body the caller inspects; providers are the trait
  objects of \<open>crates/core/src/provider.rs\<close>, called through the operations below; clocks and
  \<open>tokio::time::sleep\<close> are the runtime's.
\<close>

text \<open>\<open>reqwest::Response\<close>: status code, its printed form, and the body as \<open>resp.json()\<close> decodes it.\<close>

datatype 'a http_reply =
    SendFailed string
  | Replied nat string "string + 'a"

definition is_success :: "nat \<Rightarrow> bool" where
  "is_success code \<longleftrightarrow> 200 \<le> code \<and> code < 300"

definition is_server_error :: "nat \<Rightarrow> bool" where
  "is_server_error code \<longleftrightarrow> 500 \<le> code \<and> code < 600"

text \<open>\<open>ChatStream\<close>: the items the stream yields until it ends.\<close>

type_synonym chat_stream = "(provider_error + chat_chunk) list"

text \<open>
  The operations of the \<open>Provider\<close> trait on adapter handles of type \<open>'p\<close>, \<open>sleep\<close> (milliseconds),
  \<open>timeout\<close> and \<open>join_all\<close> of the async runtime, and the clocks. A clock is read from the state of
  the world: calls advance it, computation in between does not. \<open>rt_hash\<close> is the standard library's
  hash of a request's JSON text.
\<close>

type_synonym panel_result = "(string \<times> string \<times> chat_response) option"

record ('p, 'w) runtime =
  rt_chat :: "'p \<Rightarrow> string \<Rightarrow> chat_request \<Rightarrow> string option \<Rightarrow> 'w
    \<Rightarrow> (provider_error + chat_response) \<times> 'w"
  rt_chat_stream :: "'p \<Rightarrow> string \<Rightarrow> chat_request \<Rightarrow> string option \<Rightarrow> 'w
    \<Rightarrow> (provider_error + chat_stream) \<times> 'w"
  rt_embeddings :: "'p \<Rightarrow> string \<Rightarrow> embeddings_request \<Rightarrow> string option \<Rightarrow> 'w
    \<Rightarrow> (provider_error + embeddings_response) \<times> 'w"
  rt_sleep :: "nat \<Rightarrow> 'w \<Rightarrow> 'w"
  rt_timeout :: "nat \<Rightarrow> ('w \<Rightarrow> (provider_error + chat_response) \<times> 'w) \<Rightarrow> 'w
    \<Rightarrow> (provider_error + chat_response) option \<times> 'w"
  rt_join_all :: "('w \<Rightarrow> panel_result \<times> 'w) list \<Rightarrow> 'w \<Rightarrow> panel_result list \<times> 'w"
  rt_instant :: "'w \<Rightarrow> instant"
  rt_unix :: "'w \<Rightarrow> i64"
  rt_nanos :: "'w \<Rightarrow> u64"
  rt_hash :: "chat_request \<Rightarrow> u64"

end
