(* ===== verification/Provider_Http.thy ===== *)
theory Provider_Http
  imports Json External
begin

text \<open>
  What the adapters share (\<open>crates/providers/src/util.rs\<close> and \<open>http.rs\<close>): the thinking budget
  derived from an effort, generated identifiers, the classification of transport errors and of
  replies that are no success. The HTTP client is \<open>reqwest\<close>'s: an exchange takes a call and the
  state of the world and yields a transport error, or a reply.
\<close>

section \<open>The exchange\<close>

text \<open>
  A reply: its status, the \<open>Retry-After\<close> header when it is there and is visible ASCII, its body
  (or the error of reading it), and the events that the SSE decoder makes of a streamed body.
\<close>

record http_response =
  hr_status :: u16
  hr_retry_after :: "string option"
  hr_body :: "string + string"
  hr_events :: "(string + string) list"

text \<open>\<open>reqwest::Error\<close>: whether it is a timeout, and its text.\<close>

datatype send_result =
    SendError bool string
  | Response http_response

record 'b http_call =
  hc_url :: string
  hc_headers :: "(string \<times> string) list"
  hc_query :: "(string \<times> string) list"
  hc_timeout :: nat
  hc_body :: 'b

text \<open>\<open>http::DEFAULT_TIMEOUT\<close>: what a call may take in all, in nanoseconds.\<close>

definition default_timeout :: nat where
  "default_timeout = 300 * 1000000000"

text \<open>
  The network and the system clock. \<open>nt_clock w k\<close> is the \<open>k\<close>-th reading of the clock, in
  nanoseconds since the epoch, by the code that runs once the world is in state \<open>w\<close>;
  \<open>nt_event_clock w n k\<close> the \<open>k\<close>-th reading while the stream's \<open>n\<close>-th event is handled.
\<close>

record ('b, 'w) net =
  nt_send :: "'b http_call \<Rightarrow> 'w \<Rightarrow> send_result \<times> 'w"
  nt_clock :: "'w \<Rightarrow> nat \<Rightarrow> nat"
  nt_event_clock :: "'w \<Rightarrow> nat \<Rightarrow> nat \<Rightarrow> nat"

section \<open>Thinking budgets\<close>

text \<open>\<open>f64::round\<close>: to the nearest integer, halves away from zero.\<close>

definition f64_round :: "f64 \<Rightarrow> f64" where
  "f64_round x = (if 0 \<le> x then of_int \<lfloor>x + 1 / 2\<rfloor> else - of_int \<lfloor>1 / 2 - x\<rfloor>)"

definition effort_fraction :: "string option \<Rightarrow> f64" where
  "effort_fraction effort =
     (if effort = Some ''high'' then 8 / 10 else if effort = Some ''low'' then 2 / 10 else 5 / 10)"

definition effort_thinking_budget :: "string option \<Rightarrow> u32 option \<Rightarrow> u32" where
  "effort_thinking_budget effort max_tokens =
     (case max_tokens of
        Some m \<Rightarrow> f64_to_u32 (f64_round (real (unat m) * effort_fraction effort))
      | None \<Rightarrow>
          if effort = Some ''high'' then 24576
          else if effort = Some ''low'' then 1024
          else 8192)"

section \<open>Clock readings and identifiers\<close>

definition provider_now :: "nat \<Rightarrow> i64" where
  "provider_now nanos = int (nanos div 10 ^ 9)"

definition hex_digit :: "nat \<Rightarrow> char" where
  "hex_digit d = (if d < 10 then char_of (48 + d) else char_of (87 + d))"

text \<open>\<open>format!("{n:x}")\<close>.\<close>

fun show_hex :: "nat \<Rightarrow> string" where
  "show_hex n = (if n < 16 then [hex_digit n] else show_hex (n div 16) @ [hex_digit (n mod 16)])"

declare show_hex.simps [simp del]

definition gen_id :: "string \<Rightarrow> nat \<Rightarrow> string" where
  "gen_id pre nanos = pre @ ''-'' @ show_hex nanos"

section \<open>Errors\<close>

text \<open>\<open>str::parse::<u64>\<close>: decimal digits after an optional plus sign, and no overflow.\<close>

definition is_decimal :: "string \<Rightarrow> bool" where
  "is_decimal s \<longleftrightarrow> s \<noteq> [] \<and> list_all (\<lambda>c. 48 \<le> (of_char c :: nat) \<and> (of_char c :: nat) \<le> 57) s"

definition parse_u64 :: "string \<Rightarrow> u64 option" where
  "parse_u64 s =
     (let digits = (if s \<noteq> [] \<and> hd s = CHR ''+'' then tl s else s)
      in if is_decimal digits \<and> read_nat digits < 2 ^ 64 then Some (of_nat (read_nat digits))
         else None)"

text \<open>\<open>Result::ok\<close>.\<close>

fun result_ok :: "'e + 'a \<Rightarrow> 'a option" where
  "result_ok (Inl _) = None"
| "result_ok (Inr v) = Some v"

text \<open>
  \<open>parse\<close> is \<open>serde_json::from_str\<close> to a \<open>Value\<close>. An \<open>error\<close> field that has no \<open>message\<close> stands
  for its own message, and only a text counts as one.
\<close>

definition extract_error_message :: "(string \<Rightarrow> string + json) \<Rightarrow> string \<Rightarrow> string option" where
  "extract_error_message parse body =
     (case result_ok (parse body) of
        None \<Rightarrow> None
      | Some value \<Rightarrow>
          or_else
            (Option.bind
               (Option.bind (json_get ''error'' value)
                  (\<lambda>e. or_else (json_get ''message'' e) (Some e)))
               json_as_str)
            (Option.bind (json_get ''message'' value) json_as_str))"

definition map_error_response :: "(string \<Rightarrow> string + json) \<Rightarrow> http_response \<Rightarrow> provider_error" where
  "map_error_response parse resp =
     (let status = hr_status resp;
          retry_after = Option.bind (hr_retry_after resp) parse_u64;
          body = (case hr_body resp of Inl _ \<Rightarrow> [] | Inr text \<Rightarrow> text);
          message = unwrap_or body (extract_error_message parse body)
      in if status = 401 \<or> status = 403 then Auth message
         else if status = 400 \<or> status = 404 \<or> status = 422 then InvalidRequest message
         else if status = 429 then RateLimited retry_after
         else Upstream status message)"

definition map_reqwest_error :: "bool \<Rightarrow> string \<Rightarrow> provider_error" where
  "map_reqwest_error is_timeout text = (if is_timeout then Timeout else Network text)"

text \<open>\<open>resp.status().is_success()\<close> and \<open>resp.json()\<close> with its error mapped by the caller.\<close>

definition is_success_response :: "http_response \<Rightarrow> bool" where
  "is_success_response resp \<longleftrightarrow> is_success (unat (hr_status resp))"

definition response_json :: "(string \<Rightarrow> string + 'a) \<Rightarrow> http_response \<Rightarrow> provider_error + 'a" where
  "response_json decode resp =
     (case hr_body resp of
        Inl e \<Rightarrow> Inl (Decode e)
      | Inr text \<Rightarrow> (case decode text of Inl e \<Rightarrow> Inl (Decode e) | Inr v \<Rightarrow> Inr v))"

text \<open>
  The steps every operation of every adapter goes through: send, map a transport error, map a
  reply that is no success, and go on with the reply and the world it leaves.
\<close>

definition exchange :: "(string \<Rightarrow> string + json) \<Rightarrow> ('b, 'w) net \<Rightarrow> 'b http_call
    \<Rightarrow> (http_response \<Rightarrow> 'w \<Rightarrow> provider_error + 'a) \<Rightarrow> 'w \<Rightarrow> (provider_error + 'a) \<times> 'w" where
  "exchange parse net call finish w =
     (case nt_send net call w of
        (SendError is_timeout text, w') \<Rightarrow> (Inl (map_reqwest_error is_timeout text), w')
      | (Response resp, w') \<Rightarrow>
          if \<not> is_success_response resp then (Inl (map_error_response parse resp), w')
          else (finish resp w', w'))"

section \<open>Steps the adapters have in common\<close>

text \<open>\<open>base_url.trim_end_matches('/')\<close>.\<close>

definition trim_end_slashes :: "string \<Rightarrow> string" where
  "trim_end_slashes s = rev (dropWhile (\<lambda>c. c = CHR ''/'') (rev s))"

text \<open>\<open>req.reasoning ... .and_then(|r| r.exclude).unwrap_or(false)\<close>.\<close>

definition excludes_reasoning :: "chat_request \<Rightarrow> bool" where
  "excludes_reasoning req = unwrap_or False (Option.bind (cr_reasoning req) rc_exclude)"

text \<open>\<open>(n > 0).then_some(n)\<close>.\<close>

definition positive :: "u32 \<Rightarrow> u32 option" where
  "positive n = (if 0 < n then Some n else None)"

text \<open>A body text as a message's content: an empty one is absent.\<close>

definition text_content :: "string \<Rightarrow> message_content option" where
  "text_content t = (if t = [] then None else Some (Text t))"

definition some_list :: "'a list \<Rightarrow> 'a list option" where
  "some_list xs = (if xs = [] then None else Some xs)"

text \<open>\<open>filter_map\<close> over the events, with the number of each.\<close>

fun filter_map_events :: "(nat \<Rightarrow> 'e \<Rightarrow> 'a option) \<Rightarrow> nat \<Rightarrow> 'e list \<Rightarrow> 'a list" where
  "filter_map_events f n [] = []"
| "filter_map_events f n (e # es) =
     (case f n e of None \<Rightarrow> [] | Some x \<Rightarrow> [x]) @ filter_map_events f (Suc n) es"

section \<open>Properties\<close>

definition hex_value :: "char \<Rightarrow> nat" where
  "hex_value c = (if of_char c < (58 :: nat) then of_char c - 48 else of_char c - 87)"

definition read_hex :: "string \<Rightarrow> nat" where
  "read_hex s = foldl (\<lambda>n c. n * 16 + hex_value c) 0 s"

lemma hex_value_digit: "d < 16 \<Longrightarrow> hex_value (hex_digit d) = d"
  by (simp add: hex_value_def hex_digit_def of_char_of)

lemma read_show_hex: "read_hex (show_hex n) = n"
proof (induction n rule: show_hex.induct)
  case (1 n)
  show ?case
  proof (cases "n < 16")
    case True then show ?thesis by (subst show_hex.simps) (simp add: read_hex_def hex_value_digit)
  next
    case False
    with 1 have "read_hex (show_hex (n div 16)) = n div 16" by simp
    with False show ?thesis
      by (subst show_hex.simps) (simp add: read_hex_def hex_value_digit)
  qed
qed

lemma show_hex_inj: "show_hex m = show_hex n \<Longrightarrow> m = n"
  by (metis read_show_hex)

lemma gen_id_inj: "gen_id pre m = gen_id pre n \<longleftrightarrow> m = n"
  by (auto simp: gen_id_def dest: show_hex_inj)

lemma is_decimal_append: "is_decimal a \<Longrightarrow> is_decimal b \<Longrightarrow> is_decimal (a @ b)"
  by (simp add: is_decimal_def)

lemma is_decimal_show_nat: "is_decimal (show_nat n)"
proof (induction n rule: show_nat.induct)
  case (1 n)
  have digit: "is_decimal [char_of (48 + d)]" if "d < 10" for d :: nat
    using that by (simp add: is_decimal_def of_char_of)
  show ?case
    using 1 by (subst show_nat.simps) (simp add: digit is_decimal_append)
qed

text \<open>A retry hint printed in decimal is read back.\<close>

lemma parse_u64_show: "parse_u64 (show_nat (unat n)) = Some n"
proof -
  have dec: "is_decimal (show_nat (unat n))" by (rule is_decimal_show_nat)
  then have "hd (show_nat (unat n)) \<noteq> CHR ''+''"
    by (cases "show_nat (unat n)") (auto simp: is_decimal_def)
  moreover have "unat n < 2 ^ 64" using unsigned_less [of n] by simp
  ultimately show ?thesis using dec by (simp add: parse_u64_def read_show_nat)
qed

lemma f64_round_mono: "x \<le> y \<Longrightarrow> f64_round x \<le> f64_round y"
  by (auto simp: f64_round_def floor_mono intro: order.trans [of _ 0])

lemma f64_round_of_nat [simp]: "f64_round (real n) = real n"
proof -
  have "\<lfloor>real n + 1 / 2\<rfloor> = int n" by (simp add: floor_eq_iff)
  then show ?thesis by (simp add: f64_round_def)
qed

lemma unat_f64_to_u32_of_nat: "k < 2 ^ 32 \<Longrightarrow> unat (f64_to_u32 (f64_round (real k * 1))) = k"
proof -
  assume "k < 2 ^ 32"
  then have "real k < real (2 ^ 32)" by (simp only: of_nat_less_iff)
  then show ?thesis by (simp add: unat_f64_to_u32)
qed

lemma f64_to_u32_round_unat: "f64_to_u32 (f64_round (real (unat n) * 1)) = n"
proof -
  have "unat n < 2 ^ 32" using unsigned_less [of n, where 'a = nat] by simp
  then show ?thesis by (simp only: word_unat_eq_iff unat_f64_to_u32_of_nat)
qed

text \<open>
  \<^bold>\<open>C40.\<close> The classification of a reply that is no success decides the same way as its status
  code: the chain moves on exactly on \<open>429\<close> and from \<open>500\<close> on, the same candidate is tried again
  exactly from \<open>500\<close> on, the client sees the status itself except that \<open>403\<close> becomes \<open>401\<close> and
  \<open>404\<close> and \<open>422\<close> become \<open>400\<close>, and a retry hint is passed on exactly when a \<open>429\<close> carries one
  that is a decimal number of seconds.
\<close>

theorem error_response_classified:
  "is_retryable (map_error_response parse resp) = (hr_status resp = 429 \<or> 500 \<le> hr_status resp)
   \<and> is_transient (map_error_response parse resp) = (500 \<le> hr_status resp)
   \<and> provider_status_code (map_error_response parse resp)
       = (if hr_status resp = 403 then 401
          else if hr_status resp = 404 \<or> hr_status resp = 422 then 400 else hr_status resp)
   \<and> retry_after_secs (ProviderErr (map_error_response parse resp))
       = (if hr_status resp = 429 then Option.bind (hr_retry_after resp) parse_u64 else None)"
  by (simp add: map_error_response_def Let_def)

text \<open>
  A derived thinking budget grows with the effort and never exceeds the \<open>max_tokens\<close> it is a
  fraction of: whatever effort a request names, its budget lies between those of \<open>low\<close> and \<open>high\<close>.
\<close>

theorem effort_budget_ordered:
  "effort_thinking_budget (Some ''low'') m \<le> effort_thinking_budget e m
   \<and> effort_thinking_budget e m \<le> effort_thinking_budget (Some ''high'') m
   \<and> effort_thinking_budget e (Some n) \<le> n"
proof (intro conjI)
  have mono: "f64_to_u32 (f64_round (real k * a)) \<le> f64_to_u32 (f64_round (real k * b))"
    if "a \<le> b" for a b :: real and k :: nat
    using that by (intro f64_to_u32_mono f64_round_mono mult_left_mono) simp_all
  have some: "effort_thinking_budget a (Some k) \<le> effort_thinking_budget b (Some k)"
    if "effort_fraction a \<le> effort_fraction b" for a b k
    using mono [OF that, of "unat k"] by (simp add: effort_thinking_budget_def)
  have low: "effort_fraction (Some ''low'') \<le> effort_fraction e"
    and high: "effort_fraction e \<le> effort_fraction (Some ''high'')"
    by (simp_all add: effort_fraction_def)
  show "effort_thinking_budget (Some ''low'') m \<le> effort_thinking_budget e m"
    by (cases m) (simp add: effort_thinking_budget_def, simp add: some low)
  show "effort_thinking_budget e m \<le> effort_thinking_budget (Some ''high'') m"
    by (cases m) (simp add: effort_thinking_budget_def, simp add: some high)
  have "f64_to_u32 (f64_round (real (unat n) * effort_fraction e))
      \<le> f64_to_u32 (f64_round (real (unat n) * 1))"
    using mono [of "effort_fraction e" 1 "unat n"] by (simp add: effort_fraction_def)
  also have "\<dots> = n" by (rule f64_to_u32_round_unat)
  finally show "effort_thinking_budget e (Some n) \<le> n" by (simp add: effort_thinking_budget_def)
qed

end
