(* ===== verification/Openai_Adapter.thy ===== *)
theory Openai_Adapter
  imports Provider_Http
begin

text \<open>
  The adapter for backends that speak the OpenAI wire format
  (\<open>crates/providers/src/openai_compatible.rs\<close>). The outbound structs of the source are records
  here: a field marked \<open>skip_serializing_if = "Option::is_none"\<close> is absent from the JSON text
  when it is \<open>None\<close>. The typed decoding of replies is \<open>serde\<close>'s, generated from the inbound
  structs, and is a parameter.
\<close>

section \<open>Wire types\<close>

record openai_provider =
  op_name :: string
  op_base_url :: string
  op_api_key :: string
  op_timeout :: nat

record oa_embeddings_request =
  oe_model :: string
  oe_input :: embeddings_input
  oe_encoding_format :: "string option"
  oe_dimensions :: "u32 option"

record oa_embedding_datum =
  od_embedding :: "f32 list"
  od_index :: nat

record oa_embeddings_usage =
  oeu_prompt_tokens :: u32
  oeu_total_tokens :: u32

record oa_embeddings_response =
  oer_data :: "oa_embedding_datum list"
  oer_usage :: oa_embeddings_usage

text \<open>A message as it is sent: \<open>reasoning\<close> goes out under the name \<open>reasoning_content\<close>.\<close>

record oa_message =
  om_role :: role
  om_content :: "message_content option"
  om_name :: "string option"
  om_tool_calls :: "tool_call list option"
  om_tool_call_id :: "string option"
  om_reasoning_content :: "string option"

record oa_request =
  or_model :: string
  or_messages :: "oa_message list"
  or_temperature :: "f32 option"
  or_top_p :: "f32 option"
  or_max_tokens :: "u32 option"
  or_stop :: "string list option"
  or_stream :: bool
  or_tools :: "tool list option"
  or_tool_choice :: "json option"
  or_response_format :: "response_format option"
  or_reasoning_effort :: "string option"
  or_top_k :: "u32 option"
  or_min_p :: "f32 option"
  or_top_a :: "f32 option"
  or_frequency_penalty :: "f32 option"
  or_presence_penalty :: "f32 option"
  or_repetition_penalty :: "f32 option"
  or_logit_bias :: "(string \<rightharpoonup> f32) option"
  or_seed :: "i64 option"
  or_logprobs :: "bool option"
  or_top_logprobs :: "u32 option"

datatype oa_body =
    OaChat oa_request
  | OaEmbeddings oa_embeddings_request

record oa_prompt_tokens_details =
  pd_cached_tokens :: u32

record oa_usage =
  ou_prompt_tokens :: u32
  ou_completion_tokens :: u32
  ou_total_tokens :: u32
  ou_prompt_tokens_details :: "oa_prompt_tokens_details option"

record oa_reply_message =
  orm_role :: string
  orm_content :: "string option"
  orm_tool_calls :: "tool_call list option"
  orm_reasoning_content :: "string option"

record oa_choice =
  oc_index :: u32
  oc_message :: oa_reply_message
  oc_finish_reason :: "string option"
  oc_logprobs :: "choice_logprobs option"

record oa_response =
  ors_choices :: "oa_choice list"
  ors_usage :: "oa_usage option"

record oa_delta =
  odl_role :: "string option"
  odl_content :: "string option"
  odl_tool_calls :: "tool_call_delta list option"
  odl_reasoning_content :: "string option"

record oa_chunk_choice =
  occ_index :: u32
  occ_delta :: oa_delta
  occ_finish_reason :: "string option"
  occ_logprobs :: "choice_logprobs option"

record oa_chunk =
  ock_choices :: "oa_chunk_choice list"
  ock_usage :: "oa_usage option"

text \<open>The decoders \<open>serde\<close> derives, and \<open>from_str\<close> to a \<open>Value\<close>.\<close>

record oa_codec =
  ox_value :: "string \<Rightarrow> string + json"
  ox_response :: "string \<Rightarrow> string + oa_response"
  ox_chunk :: "string \<Rightarrow> string + oa_chunk"
  ox_embeddings :: "string \<Rightarrow> string + oa_embeddings_response"

section \<open>The provider\<close>

definition openai_new :: "string \<Rightarrow> string \<Rightarrow> string \<Rightarrow> openai_provider" where
  "openai_new name base_url api_key =
     \<lparr>op_name = name, op_base_url = trim_end_slashes base_url, op_api_key = api_key,
      op_timeout = default_timeout\<rparr>"

definition openai_with_timeout :: "nat \<Rightarrow> openai_provider \<Rightarrow> openai_provider" where
  "openai_with_timeout timeout p = p\<lparr>op_timeout := timeout\<rparr>"

definition openai_endpoint :: "openai_provider \<Rightarrow> string" where
  "openai_endpoint p = op_base_url p @ ''/chat/completions''"

definition openai_embeddings_endpoint :: "openai_provider \<Rightarrow> string" where
  "openai_embeddings_endpoint p = op_base_url p @ ''/embeddings''"

section \<open>Requests\<close>

definition outbound_message :: "chat_message \<Rightarrow> oa_message" where
  "outbound_message m =
     \<lparr>om_role = msg_role m, om_content = msg_content m, om_name = msg_name m,
      om_tool_calls = msg_tool_calls m, om_tool_call_id = msg_tool_call_id m,
      om_reasoning_content = msg_reasoning m\<rparr>"

definition openai_request :: "chat_request \<Rightarrow> string \<Rightarrow> bool \<Rightarrow> oa_request" where
  "openai_request req model stream =
     \<lparr>or_model = model, or_messages = map outbound_message (cr_messages req),
      or_temperature = cr_temperature req, or_top_p = cr_top_p req,
      or_max_tokens = cr_max_tokens req, or_stop = cr_stop req, or_stream = stream,
      or_tools = cr_tools req, or_tool_choice = cr_tool_choice req,
      or_response_format = cr_response_format req,
      or_reasoning_effort = Option.bind (cr_reasoning req) rc_effort,
      or_top_k = cr_top_k req, or_min_p = cr_min_p req, or_top_a = cr_top_a req,
      or_frequency_penalty = cr_frequency_penalty req,
      or_presence_penalty = cr_presence_penalty req,
      or_repetition_penalty = cr_repetition_penalty req, or_logit_bias = cr_logit_bias req,
      or_seed = cr_seed req, or_logprobs = cr_logprobs req,
      or_top_logprobs = cr_top_logprobs req\<rparr>"

text \<open>\<open>bearer_auth(api_key_override.unwrap_or(&self.api_key))\<close>.\<close>

definition openai_post :: "openai_provider \<Rightarrow> string \<Rightarrow> string option \<Rightarrow> oa_body \<Rightarrow> oa_body http_call" where
  "openai_post p url api_key_override body =
     \<lparr>hc_url = url,
      hc_headers =
        [(''authorization'', ''Bearer '' @ unwrap_or (op_api_key p) api_key_override)],
      hc_query = [], hc_timeout = op_timeout p, hc_body = body\<rparr>"

section \<open>Replies\<close>

definition openai_usage :: "oa_usage \<Rightarrow> usage" where
  "openai_usage u =
     (let cached_tokens = unwrap_or 0 (map_option pd_cached_tokens (ou_prompt_tokens_details u))
      in \<lparr>us_prompt_tokens = ou_prompt_tokens u, us_completion_tokens = ou_completion_tokens u,
          us_total_tokens = ou_total_tokens u, us_cached_tokens = positive cached_tokens,
          us_cache_creation_tokens = None\<rparr>)"

definition parse_role :: "string \<Rightarrow> role" where
  "parse_role r =
     (if r = ''system'' then System else if r = ''user'' then User
      else if r = ''tool'' then ToolRole else Assistant)"

definition openai_choice :: "bool \<Rightarrow> oa_choice \<Rightarrow> choice" where
  "openai_choice exclude_reasoning c =
     \<lparr>ch_index = oc_index c,
      ch_message =
        \<lparr>msg_role = parse_role (orm_role (oc_message c)),
         msg_content = map_option Text (orm_content (oc_message c)), msg_name = None,
         msg_tool_calls = orm_tool_calls (oc_message c), msg_tool_call_id = None,
         msg_reasoning =
           (if exclude_reasoning then None else orm_reasoning_content (oc_message c)),
         msg_cache_control = None\<rparr>,
      ch_finish_reason = oc_finish_reason c, ch_logprobs = oc_logprobs c\<rparr>"

definition openai_chat :: "oa_codec \<Rightarrow> (oa_body, 'w) net \<Rightarrow> openai_provider \<Rightarrow> string
    \<Rightarrow> chat_request \<Rightarrow> string option \<Rightarrow> 'w \<Rightarrow> (provider_error + chat_response) \<times> 'w" where
  "openai_chat codec net p model req api_key_override =
     exchange (ox_value codec) net
       (openai_post p (openai_endpoint p) api_key_override
          (OaChat (openai_request req model False)))
       (\<lambda>resp w.
          case response_json (ox_response codec) resp of
            Inl e \<Rightarrow> Inl e
          | Inr wire \<Rightarrow>
              Inr \<lparr>rs_id = gen_id ''chatcmpl'' (nt_clock net w 0),
                   rs_created = provider_now (nt_clock net w 1),
                   rs_model = op_name p @ ''/'' @ model,
                   rs_choices = map (openai_choice (excludes_reasoning req)) (ors_choices wire),
                   rs_usage = map_option openai_usage (ors_usage wire), rs_cost_usd = None\<rparr>)"

section \<open>Streams\<close>

definition openai_chunk_choice :: "bool \<Rightarrow> oa_chunk_choice \<Rightarrow> chunk_choice" where
  "openai_chunk_choice exclude_reasoning c =
     \<lparr>cc_index = occ_index c,
      cc_delta =
        \<lparr>dl_role = map_option parse_role (odl_role (occ_delta c)),
         dl_content = odl_content (occ_delta c), dl_tool_calls = odl_tool_calls (occ_delta c),
         dl_reasoning =
           (if exclude_reasoning then None else odl_reasoning_content (occ_delta c))\<rparr>,
      cc_finish_reason = occ_finish_reason c, cc_logprobs = occ_logprobs c\<rparr>"

text \<open>One event of the stream: \<open>None\<close> when it yields no item.\<close>

definition openai_event :: "oa_codec \<Rightarrow> bool \<Rightarrow> string \<Rightarrow> (nat \<Rightarrow> nat) \<Rightarrow> string + string
    \<Rightarrow> (provider_error + chat_chunk) option" where
  "openai_event codec exclude_reasoning full_model clock ev =
     (case ev of
        Inl e \<Rightarrow> Some (Inl (Decode e))
      | Inr data \<Rightarrow>
          if data = ''[DONE]'' then None
          else
            case ox_chunk codec data of
              Inl e \<Rightarrow> Some (Inl (Decode e))
            | Inr wire \<Rightarrow>
                Some (Inr
                  \<lparr>ck_id = gen_id ''chatcmpl'' (clock 0), ck_created = provider_now (clock 1),
                   ck_model = full_model,
                   ck_choices = map (openai_chunk_choice exclude_reasoning) (ock_choices wire),
                   ck_usage = map_option openai_usage (ock_usage wire), ck_cost_usd = None\<rparr>))"

definition openai_chat_stream :: "oa_codec \<Rightarrow> (oa_body, 'w) net \<Rightarrow> openai_provider \<Rightarrow> string
    \<Rightarrow> chat_request \<Rightarrow> string option \<Rightarrow> 'w \<Rightarrow> (provider_error + chat_stream) \<times> 'w" where
  "openai_chat_stream codec net p model req api_key_override =
     exchange (ox_value codec) net
       (openai_post p (openai_endpoint p) api_key_override
          (OaChat (openai_request req model True)))
       (\<lambda>resp w.
          Inr (filter_map_events
                 (\<lambda>n. openai_event codec (excludes_reasoning req) (op_name p @ ''/'' @ model)
                        (nt_event_clock net w n))
                 0 (hr_events resp)))"

section \<open>Embeddings\<close>

definition openai_embeddings :: "oa_codec \<Rightarrow> (oa_body, 'w) net \<Rightarrow> openai_provider \<Rightarrow> string
    \<Rightarrow> embeddings_request \<Rightarrow> string option \<Rightarrow> 'w
    \<Rightarrow> (provider_error + embeddings_response) \<times> 'w" where
  "openai_embeddings codec net p model req api_key_override =
     exchange (ox_value codec) net
       (openai_post p (openai_embeddings_endpoint p) api_key_override
          (OaEmbeddings
             \<lparr>oe_model = model, oe_input = er_input req,
              oe_encoding_format = er_encoding_format req, oe_dimensions = er_dimensions req\<rparr>))
       (\<lambda>resp w.
          case response_json (ox_embeddings codec) resp of
            Inl e \<Rightarrow> Inl e
          | Inr wire \<Rightarrow>
              Inr \<lparr>es_data =
                     map (\<lambda>d. \<lparr>ed_embedding = od_embedding d, ed_index = od_index d\<rparr>)
                       (oer_data wire),
                   es_model = op_name p @ ''/'' @ model,
                   es_usage =
                     Some \<lparr>eu_prompt_tokens = oeu_prompt_tokens (oer_usage wire),
                           eu_total_tokens = oeu_total_tokens (oer_usage wire)\<rparr>\<rparr>)"

end
