(* ===== verification/Anthropic_Adapter.thy ===== *)
theory Anthropic_Adapter
  imports Provider_Http
begin

text \<open>
  The adapter for the Anthropic Messages API (\<open>crates/providers/src/anthropic.rs\<close>): system
  messages become a top-level field, content a list of typed blocks, a JSON schema a forced tool
  whose call is unwrapped into the answer, and the typed events of a stream become chunks.
\<close>

section \<open>Wire types\<close>

definition anthropic_version :: string where
  "anthropic_version = ''2023-06-01''"

definition default_max_tokens :: u32 where
  "default_max_tokens = 4096"

definition min_thinking_budget :: u32 where
  "min_thinking_budget = 1024"

record anthropic_provider =
  ap_base_url :: string
  ap_api_key :: string
  ap_timeout :: nat

record an_message =
  am_role :: string
  am_content :: "json list"

record an_tool =
  at_name :: string
  at_description :: "string option"
  at_input_schema :: json

record an_request =
  ar_model :: string
  ar_max_tokens :: u32
  ar_messages :: "an_message list"
  ar_system :: "json option"
  ar_temperature :: "f32 option"
  ar_top_p :: "f32 option"
  ar_top_k :: "u32 option"
  ar_stop_sequences :: "string list option"
  ar_stream :: bool
  ar_tools :: "an_tool list option"
  ar_tool_choice :: "json option"
  ar_thinking :: "json option"
  ar_forced_output_tool_name :: "string option"
  ar_exclude_reasoning :: bool

record an_content_block =
  ab_kind :: string
  ab_text :: string
  ab_id :: "string option"
  ab_name :: "string option"
  ab_input :: "json option"
  ab_thinking :: string

record an_usage =
  au_input_tokens :: u32
  au_output_tokens :: u32
  au_cache_creation_input_tokens :: u32
  au_cache_read_input_tokens :: u32

record an_response =
  as_content :: "an_content_block list"
  as_stop_reason :: "string option"
  as_usage :: an_usage

text \<open>\<open>serde\<close>'s part: reading a \<open>Value\<close> and a reply from text, and printing a \<open>Value\<close>.\<close>

record an_codec =
  ax_value :: "string \<Rightarrow> string + json"
  ax_print :: "json \<Rightarrow> string"
  ax_response :: "string \<Rightarrow> string + an_response"

section \<open>The provider\<close>

definition anthropic_new :: "string \<Rightarrow> string \<Rightarrow> anthropic_provider" where
  "anthropic_new base_url api_key =
     \<lparr>ap_base_url = trim_end_slashes base_url, ap_api_key = api_key,
      ap_timeout = default_timeout\<rparr>"

definition anthropic_with_timeout :: "nat \<Rightarrow> anthropic_provider \<Rightarrow> anthropic_provider" where
  "anthropic_with_timeout timeout p = p\<lparr>ap_timeout := timeout\<rparr>"

definition anthropic_endpoint :: "anthropic_provider \<Rightarrow> string" where
  "anthropic_endpoint p = ap_base_url p @ ''/v1/messages''"

section \<open>Messages\<close>

definition text_block :: "string \<Rightarrow> json" where
  "text_block t = JObject [(''type'', JString ''text''), (''text'', JString t)]"

fun cache_control_json :: "cache_control \<Rightarrow> json" where
  "cache_control_json Ephemeral = JObject [(''type'', JString ''ephemeral'')]"

definition apply_cache_control :: "cache_control option \<Rightarrow> json list \<Rightarrow> json list" where
  "apply_cache_control cache_control blocks =
     (case cache_control of
        None \<Rightarrow> blocks
      | Some c \<Rightarrow>
          if blocks = [] then []
          else butlast blocks @ [json_insert ''cache_control'' (cache_control_json c) (last blocks)])"

text \<open>A \<open>data:<mime>;base64,<data>\<close> URI as its media type and data.\<close>

definition strip_prefix :: "string \<Rightarrow> string \<Rightarrow> string option" where
  "strip_prefix p s = (if prefix p s then Some (drop (length p) s) else None)"

definition strip_suffix :: "string \<Rightarrow> string \<Rightarrow> string option" where
  "strip_suffix p s = (if suffix p s then Some (take (length s - length p) s) else None)"

definition parse_data_uri :: "string \<Rightarrow> (string \<times> string) option" where
  "parse_data_uri url =
     (case strip_prefix ''data:'' url of
        None \<Rightarrow> None
      | Some rest \<Rightarrow>
          (case split_once CHR '','' rest of
             None \<Rightarrow> None
           | Some (meta, data) \<Rightarrow>
               (case strip_suffix '';base64'' meta of
                  None \<Rightarrow> None
                | Some media_type \<Rightarrow> Some (media_type, data))))"

definition image_block :: "string \<Rightarrow> json" where
  "image_block url =
     (case parse_data_uri url of
        Some (media_type, data) \<Rightarrow>
          JObject [(''type'', JString ''image''),
            (''source'', JObject [(''type'', JString ''base64''),
               (''media_type'', JString media_type), (''data'', JString data)])]
      | None \<Rightarrow>
          JObject [(''type'', JString ''image''),
            (''source'', JObject [(''type'', JString ''url''), (''url'', JString url)])])"

definition document_block :: "string \<Rightarrow> json" where
  "document_block file_data =
     (case parse_data_uri file_data of
        Some (media_type, data) \<Rightarrow>
          JObject [(''type'', JString ''document''),
            (''source'', JObject [(''type'', JString ''base64''),
               (''media_type'', JString media_type), (''data'', JString data)])]
      | None \<Rightarrow>
          JObject [(''type'', JString ''document''),
            (''source'', JObject [(''type'', JString ''url''), (''url'', JString file_data)])])"

definition no_audio_message :: string where
  "no_audio_message = ''Anthropic'' @ [CHR 39] @ ''s Messages API does not support audio input content''"

fun part_block :: "content_part \<Rightarrow> provider_error + json" where
  "part_block (TextPart t) = Inr (text_block t)"
| "part_block (ImageUrl u) = Inr (image_block (img_url u))"
| "part_block (FilePart f) = Inr (document_block (file_payload f))"
| "part_block (InputAudio _) = Inl (UnsupportedContent no_audio_message)"

text \<open>\<open>collect::<Result<Vec<_>, _>>()\<close>: the values, or the first error.\<close>

fun collect_results :: "('e + 'a) list \<Rightarrow> 'e + 'a list" where
  "collect_results [] = Inr []"
| "collect_results (r # rs) =
     (case r of
        Inl e \<Rightarrow> Inl e
      | Inr x \<Rightarrow> (case collect_results rs of Inl e \<Rightarrow> Inl e | Inr xs \<Rightarrow> Inr (x # xs)))"

fun content_to_blocks :: "message_content \<Rightarrow> provider_error + json list" where
  "content_to_blocks (Text t) = Inr [text_block t]"
| "content_to_blocks (Parts ps) = collect_results (map part_block ps)"

definition content_text :: "chat_message \<Rightarrow> string" where
  "content_text m = unwrap_or [] (map_option as_plain_text (msg_content m))"

definition tool_result_block :: "chat_message \<Rightarrow> json" where
  "tool_result_block m =
     JObject [(''type'', JString ''tool_result''),
       (''tool_use_id'', JString (unwrap_or [] (msg_tool_call_id m))),
       (''content'', JString (content_text m))]"

definition tool_use_block :: "(string \<Rightarrow> string + json) \<Rightarrow> tool_call \<Rightarrow> json" where
  "tool_use_block parse tc =
     JObject [(''type'', JString ''tool_use''), (''id'', JString (tc_id tc)),
       (''name'', JString (call_name (tc_function tc))),
       (''input'',
        unwrap_or empty_object (result_ok (parse (call_arguments (tc_function tc)))))]"

definition assistant_blocks :: "(string \<Rightarrow> string + json) \<Rightarrow> chat_message \<Rightarrow> json list" where
  "assistant_blocks parse m =
     (let text = content_text m;
          blocks = (if text = [] then [] else [text_block text])
            @ map (tool_use_block parse) (unwrap_or [] (msg_tool_calls m))
      in if blocks = [] then [text_block []] else blocks)"

text \<open>The messages split into system blocks and turns, in order; the first audio part ends it.\<close>

fun split_messages :: "(string \<Rightarrow> string + json) \<Rightarrow> chat_message list \<Rightarrow> json list \<Rightarrow> an_message list
    \<Rightarrow> provider_error + json list \<times> an_message list" where
  "split_messages parse [] system turns = Inr (system, turns)"
| "split_messages parse (m # ms) system turns =
     (case msg_role m of
        System \<Rightarrow>
          (case msg_content m of
             None \<Rightarrow> split_messages parse ms system turns
           | Some c \<Rightarrow>
               split_messages parse ms
                 (system @ apply_cache_control (msg_cache_control m)
                    [text_block (as_plain_text c)])
                 turns)
      | ToolRole \<Rightarrow>
          split_messages parse ms system
            (turns @ [\<lparr>am_role = ''user'',
               am_content = apply_cache_control (msg_cache_control m) [tool_result_block m]\<rparr>])
      | User \<Rightarrow>
          (case (case msg_content m of
                   Some c \<Rightarrow> content_to_blocks c
                 | None \<Rightarrow> Inr [text_block []]) of
             Inl e \<Rightarrow> Inl e
           | Inr content \<Rightarrow>
               split_messages parse ms system
                 (turns @ [\<lparr>am_role = ''user'',
                    am_content = apply_cache_control (msg_cache_control m) content\<rparr>]))
      | Assistant \<Rightarrow>
          split_messages parse ms system
            (turns @ [\<lparr>am_role = ''assistant'',
               am_content =
                 apply_cache_control (msg_cache_control m) (assistant_blocks parse m)\<rparr>]))"

definition system_field :: "json list \<Rightarrow> json option" where
  "system_field blocks =
     (if blocks = [] then None
      else if list_all (\<lambda>b. json_get ''cache_control'' b = None) blocks
      then Some (JString (join [CHR 10, CHR 10] (List.map_filter (str_at [''text'']) blocks)))
      else Some (JArray blocks))"

definition build_messages :: "(string \<Rightarrow> string + json) \<Rightarrow> chat_message list
    \<Rightarrow> provider_error + json option \<times> an_message list" where
  "build_messages parse messages =
     (case split_messages parse messages [] [] of
        Inl e \<Rightarrow> Inl e
      | Inr (system, turns) \<Rightarrow> Inr (system_field system, turns))"

section \<open>Tools, structured output and thinking\<close>

definition default_parameters :: json where
  "default_parameters = JObject [(''type'', JString ''object''), (''properties'', empty_object)]"

definition anthropic_tool :: "tool \<Rightarrow> an_tool" where
  "anthropic_tool t =
     \<lparr>at_name = fn_name (tool_function t), at_description = fn_description (tool_function t),
      at_input_schema = unwrap_or default_parameters (fn_parameters (tool_function t))\<rparr>"

fun anthropic_tool_choice :: "json \<Rightarrow> json" where
  "anthropic_tool_choice (JString s) =
     (if s = ''none'' then JObject [(''type'', JString ''none'')]
      else if s = ''required'' then JObject [(''type'', JString ''any'')]
      else JObject [(''type'', JString ''auto'')])"
| "anthropic_tool_choice (JObject kvs) =
     (case str_at [''function'', ''name''] (JObject kvs) of
        Some n \<Rightarrow> JObject [(''type'', JString ''tool''), (''name'', JString n)]
      | None \<Rightarrow> JObject [(''type'', JString ''auto'')])"
| "anthropic_tool_choice _ = JObject [(''type'', JString ''auto'')]"

definition no_json_mode_message :: string where
  "no_json_mode_message =
     ''Anthropic'' @ [CHR 39] @ ''s Messages API has no schema-less JSON response mode''"

definition forced_structured_output_tool :: "chat_request \<Rightarrow> provider_error + an_tool option" where
  "forced_structured_output_tool req =
     (case cr_response_format req of
        None \<Rightarrow> Inr None
      | Some TextFormat \<Rightarrow> Inr None
      | Some JsonObject \<Rightarrow> Inl (UnsupportedFeature no_json_mode_message)
      | Some (JsonSchema s) \<Rightarrow>
          Inr (Some \<lparr>at_name = js_name s, at_description = js_description s,
                     at_input_schema = js_schema s\<rparr>))"

definition thinking_config :: "reasoning_config \<Rightarrow> u32 option \<Rightarrow> json" where
  "thinking_config reasoning req_max_tokens =
     (let budget =
            max (unwrap_or (effort_thinking_budget (rc_effort reasoning) req_max_tokens)
                   (rc_max_tokens reasoning))
              min_thinking_budget
      in JObject [(''type'', JString ''enabled''), (''budget_tokens'', JInt (uint budget))])"

definition an_usage_from_wire :: "an_usage \<Rightarrow> usage" where
  "an_usage_from_wire u =
     (let cached = au_cache_read_input_tokens u;
          cache_creation = au_cache_creation_input_tokens u;
          prompt_tokens = au_input_tokens u + cached + cache_creation
      in \<lparr>us_prompt_tokens = prompt_tokens, us_completion_tokens = au_output_tokens u,
          us_total_tokens = prompt_tokens + au_output_tokens u, us_cached_tokens = positive cached,
          us_cache_creation_tokens = positive cache_creation\<rparr>)"

definition map_stop_reason :: "string \<Rightarrow> string" where
  "map_stop_reason reason =
     (if reason = ''end_turn'' \<or> reason = ''stop_sequence'' then ''stop''
      else if reason = ''max_tokens'' then ''length''
      else if reason = ''tool_use'' then ''tool_calls''
      else ''stop'')"

definition raised_max_tokens :: "u32 option \<Rightarrow> u32 \<Rightarrow> u32" where
  "raised_max_tokens budget_tokens max_tokens =
     (case budget_tokens of
        None \<Rightarrow> max_tokens
      | Some budget \<Rightarrow> if max_tokens \<le> budget then budget + default_max_tokens else max_tokens)"

definition anthropic_request :: "(string \<Rightarrow> string + json) \<Rightarrow> chat_request \<Rightarrow> string \<Rightarrow> bool
    \<Rightarrow> provider_error + an_request" where
  "anthropic_request parse req model stream =
     (case build_messages parse (cr_messages req) of
        Inl e \<Rightarrow> Inl e
      | Inr (system, messages) \<Rightarrow>
          (case forced_structured_output_tool req of
             Inl e \<Rightarrow> Inl e
           | Inr forced \<Rightarrow>
               let (tools, tool_choice, forced_name) =
                     (case forced of
                        Some t \<Rightarrow>
                          (Some [t],
                           Some (JObject [(''type'', JString ''tool''), (''name'', JString (at_name t))]),
                           Some (at_name t))
                      | None \<Rightarrow>
                          (map_option (map anthropic_tool) (cr_tools req),
                           map_option anthropic_tool_choice (cr_tool_choice req), None));
                   thinking =
                     map_option (\<lambda>r. thinking_config r (cr_max_tokens req)) (cr_reasoning req);
                   budget_tokens =
                     map_option ucast
                       (Option.bind (Option.bind thinking (json_get ''budget_tokens''))
                          json_as_u64)
               in Inr \<lparr>ar_model = model,
                       ar_max_tokens =
                         raised_max_tokens budget_tokens
                           (unwrap_or default_max_tokens (cr_max_tokens req)),
                       ar_messages = messages, ar_system = system,
                       ar_temperature = cr_temperature req, ar_top_p = cr_top_p req,
                       ar_top_k = cr_top_k req, ar_stop_sequences = cr_stop req,
                       ar_stream = stream, ar_tools = tools, ar_tool_choice = tool_choice,
                       ar_thinking = thinking, ar_forced_output_tool_name = forced_name,
                       ar_exclude_reasoning = excludes_reasoning req\<rparr>))"

definition anthropic_post :: "anthropic_provider \<Rightarrow> string option \<Rightarrow> an_request \<Rightarrow> an_request http_call" where
  "anthropic_post p api_key_override body =
     \<lparr>hc_url = anthropic_endpoint p,
      hc_headers =
        [(''x-api-key'', unwrap_or (ap_api_key p) api_key_override),
         (''anthropic-version'', anthropic_version)],
      hc_query = [], hc_timeout = ap_timeout p, hc_body = body\<rparr>"

section \<open>Answers\<close>

record an_answer =
  aw_text :: string
  aw_reasoning :: string
  aw_tool_calls :: "tool_call list"

text \<open>One content block of the reply, added to what the blocks before it gave.\<close>

definition read_block :: "(json \<Rightarrow> string) \<Rightarrow> string option \<Rightarrow> an_answer \<Rightarrow> an_content_block \<Rightarrow> an_answer" where
  "read_block print forced_name a b =
     (if ab_kind b = ''text'' then a\<lparr>aw_text := aw_text a @ ab_text b\<rparr>
      else if ab_kind b = ''thinking'' then a\<lparr>aw_reasoning := aw_reasoning a @ ab_thinking b\<rparr>
      else if ab_kind b = ''tool_use'' then
        (let id = unwrap_or [] (ab_id b);
             tool_name = unwrap_or [] (ab_name b);
             arguments = print (unwrap_or empty_object (ab_input b))
         in if forced_name = Some tool_name then a\<lparr>aw_text := aw_text a @ arguments\<rparr>
            else a\<lparr>aw_tool_calls := aw_tool_calls a @ [tool_call_function id tool_name arguments]\<rparr>)
      else a)"

definition read_blocks :: "(json \<Rightarrow> string) \<Rightarrow> string option \<Rightarrow> an_content_block list \<Rightarrow> an_answer" where
  "read_blocks print forced_name blocks =
     foldl (read_block print forced_name)
       \<lparr>aw_text = [], aw_reasoning = [], aw_tool_calls = []\<rparr> blocks"

definition anthropic_choice :: "(json \<Rightarrow> string) \<Rightarrow> string option \<Rightarrow> bool \<Rightarrow> an_response \<Rightarrow> choice" where
  "anthropic_choice print forced_name exclude_reasoning wire =
     (let a = read_blocks print forced_name (as_content wire)
      in \<lparr>ch_index = 0,
          ch_message =
            \<lparr>msg_role = Assistant, msg_content = text_content (aw_text a), msg_name = None,
             msg_tool_calls = some_list (aw_tool_calls a), msg_tool_call_id = None,
             msg_reasoning =
               (if exclude_reasoning \<or> aw_reasoning a = [] then None else Some (aw_reasoning a)),
             msg_cache_control = None\<rparr>,
          ch_finish_reason =
            (if forced_name \<noteq> None then Some ''stop''
             else map_option map_stop_reason (as_stop_reason wire)),
          ch_logprobs = None\<rparr>)"

definition anthropic_chat :: "an_codec \<Rightarrow> (an_request, 'w) net \<Rightarrow> anthropic_provider \<Rightarrow> string
    \<Rightarrow> chat_request \<Rightarrow> string option \<Rightarrow> 'w \<Rightarrow> (provider_error + chat_response) \<times> 'w" where
  "anthropic_chat codec net p model req api_key_override w =
     (case anthropic_request (ax_value codec) req model False of
        Inl e \<Rightarrow> (Inl e, w)
      | Inr body \<Rightarrow>
          exchange (ax_value codec) net (anthropic_post p api_key_override body)
            (\<lambda>resp w.
               case response_json (ax_response codec) resp of
                 Inl e \<Rightarrow> Inl e
               | Inr wire \<Rightarrow>
                   Inr \<lparr>rs_id = gen_id ''chatcmpl'' (nt_clock net w 0),
                        rs_created = provider_now (nt_clock net w 1),
                        rs_model = ''anthropic/'' @ model,
                        rs_choices =
                          [anthropic_choice (ax_print codec) (ar_forced_output_tool_name body)
                             (ar_exclude_reasoning body) wire],
                        rs_usage = Some (an_usage_from_wire (as_usage wire)),
                        rs_cost_usd = None\<rparr>)
            w)"

section \<open>Streams\<close>

text \<open>The counters that \<open>message_start\<close> sets and \<open>message_delta\<close> reports.\<close>

record an_counters =
  ac_input_tokens :: u32
  ac_cache_creation_tokens :: u32
  ac_cached_tokens :: u32

definition no_delta :: chat_message_delta where
  "no_delta = \<lparr>dl_role = None, dl_content = None, dl_tool_calls = None, dl_reasoning = None\<rparr>"

definition empty_chunk :: "string \<Rightarrow> (nat \<Rightarrow> nat) \<Rightarrow> chat_message_delta \<Rightarrow> string option \<Rightarrow> chat_chunk" where
  "empty_chunk model clock delta finish_reason =
     \<lparr>ck_id = gen_id ''chatcmpl'' (clock 0), ck_created = provider_now (clock 1),
      ck_model = model,
      ck_choices = [\<lparr>cc_index = 0, cc_delta = delta, cc_finish_reason = finish_reason,
                     cc_logprobs = None\<rparr>],
      ck_usage = None, ck_cost_usd = None\<rparr>"

definition tool_start_delta :: "u32 \<Rightarrow> json \<Rightarrow> chat_message_delta" where
  "tool_start_delta index value =
     no_delta\<lparr>dl_tool_calls := Some [\<lparr>tcd_index = index,
       tcd_id = Some (unwrap_or [] (str_at [''content_block'', ''id''] value)),
       tcd_kind = Some ''function'',
       tcd_function = Some
         \<lparr>fcd_name = Some (unwrap_or [] (str_at [''content_block'', ''name''] value)),
          fcd_arguments = Some []\<rparr>\<rparr>]\<rparr>"

definition json_delta :: "bool \<Rightarrow> u32 \<Rightarrow> json \<Rightarrow> chat_message_delta" where
  "json_delta forced index value =
     (let partial = unwrap_or [] (str_at [''delta'', ''partial_json''] value)
      in if forced then no_delta\<lparr>dl_content := Some partial\<rparr>
         else no_delta\<lparr>dl_tool_calls := Some [\<lparr>tcd_index = index, tcd_id = None, tcd_kind = None,
                tcd_function = Some \<lparr>fcd_name = None, fcd_arguments = Some partial\<rparr>\<rparr>]\<rparr>)"

text \<open>The delta of a \<open>content_block_delta\<close> event; \<open>None\<close> when it yields no item.\<close>

definition block_delta :: "bool \<Rightarrow> bool \<Rightarrow> u32 \<Rightarrow> json \<Rightarrow> chat_message_delta option" where
  "block_delta forced exclude_reasoning index value =
     (let kind = str_at [''delta'', ''type''] value
      in if kind = Some ''text_delta'' then
           Some (no_delta\<lparr>dl_content := Some (unwrap_or [] (str_at [''delta'', ''text''] value))\<rparr>)
         else if kind = Some ''input_json_delta'' then Some (json_delta forced index value)
         else if kind = Some ''thinking_delta'' then
           (if exclude_reasoning then None
            else
              let text = unwrap_or [] (str_at [''delta'', ''thinking''] value)
              in if text = [] then None else Some (no_delta\<lparr>dl_reasoning := Some text\<rparr>))
         else None)"

definition start_counters :: "json \<Rightarrow> an_counters" where
  "start_counters value =
     \<lparr>ac_input_tokens = count_at [''message'', ''usage'', ''input_tokens''] value,
      ac_cache_creation_tokens =
        count_at [''message'', ''usage'', ''cache_creation_input_tokens''] value,
      ac_cached_tokens = count_at [''message'', ''usage'', ''cache_read_input_tokens''] value\<rparr>"

definition counters_usage :: "an_counters \<Rightarrow> u32 \<Rightarrow> usage" where
  "counters_usage c output_tokens =
     (let prompt_tokens = ac_input_tokens c + ac_cache_creation_tokens c + ac_cached_tokens c
      in \<lparr>us_prompt_tokens = prompt_tokens, us_completion_tokens = output_tokens,
          us_total_tokens = prompt_tokens + output_tokens,
          us_cached_tokens = positive (ac_cached_tokens c),
          us_cache_creation_tokens = positive (ac_cache_creation_tokens c)\<rparr>)"

definition message_delta_chunk :: "string \<Rightarrow> bool \<Rightarrow> (nat \<Rightarrow> nat) \<Rightarrow> an_counters \<Rightarrow> json \<Rightarrow> chat_chunk" where
  "message_delta_chunk full_model forced clock c value =
     (let stop_reason =
            (if forced then Some ''stop''
             else map_option map_stop_reason (str_at [''delta'', ''stop_reason''] value))
      in (empty_chunk full_model clock no_delta stop_reason)
           \<lparr>ck_usage := Some (counters_usage c (count_at [''usage'', ''output_tokens''] value))\<rparr>)"

text \<open>One event: the counters after it, and the item it yields.\<close>

definition anthropic_event :: "an_codec \<Rightarrow> string \<Rightarrow> bool \<Rightarrow> bool \<Rightarrow> (nat \<Rightarrow> nat) \<Rightarrow> an_counters
    \<Rightarrow> string + string \<Rightarrow> an_counters \<times> (provider_error + chat_chunk) option" where
  "anthropic_event codec full_model forced exclude_reasoning clock c ev =
     (case ev of
        Inl e \<Rightarrow> (c, Some (Inl (Decode e)))
      | Inr data \<Rightarrow>
          (case ax_value codec data of
             Inl e \<Rightarrow> (c, Some (Inl (Decode e)))
           | Inr value \<Rightarrow>
               let kind = unwrap_or [] (str_at [''type''] value);
                   index = count_at [''index''] value;
                   chunk = (\<lambda>delta. Some (Inr (empty_chunk full_model clock delta None)))
               in if kind = ''message_start'' then
                    (start_counters value, chunk (no_delta\<lparr>dl_role := Some Assistant\<rparr>))
                  else if kind = ''content_block_start'' then
                    (c, if str_at [''content_block'', ''type''] value \<noteq> Some ''tool_use'' \<or> forced
                        then None
                        else chunk (tool_start_delta index value))
                  else if kind = ''content_block_delta'' then
                    (c, Option.bind (block_delta forced exclude_reasoning index value) chunk)
                  else if kind = ''message_delta'' then
                    (c, Some (Inr (message_delta_chunk full_model forced clock c value)))
                  else if kind = ''error'' then
                    (c, Some (Inl (Upstream 500
                           (unwrap_or ''unknown error'' (str_at [''error'', ''message''] value)))))
                  else (c, None)))"

fun anthropic_events :: "an_codec \<Rightarrow> string \<Rightarrow> bool \<Rightarrow> bool \<Rightarrow> (nat \<Rightarrow> nat \<Rightarrow> nat) \<Rightarrow> nat
    \<Rightarrow> an_counters \<Rightarrow> (string + string) list \<Rightarrow> chat_stream" where
  "anthropic_events codec full_model forced exclude_reasoning clock n c [] = []"
| "anthropic_events codec full_model forced exclude_reasoning clock n c (ev # evs) =
     (case anthropic_event codec full_model forced exclude_reasoning (clock n) c ev of
        (c', item) \<Rightarrow>
          (case item of None \<Rightarrow> [] | Some x \<Rightarrow> [x])
            @ anthropic_events codec full_model forced exclude_reasoning clock (Suc n) c' evs)"

definition no_counters :: an_counters where
  "no_counters = \<lparr>ac_input_tokens = 0, ac_cache_creation_tokens = 0, ac_cached_tokens = 0\<rparr>"

definition anthropic_chat_stream :: "an_codec \<Rightarrow> (an_request, 'w) net \<Rightarrow> anthropic_provider \<Rightarrow> string
    \<Rightarrow> chat_request \<Rightarrow> string option \<Rightarrow> 'w \<Rightarrow> (provider_error + chat_stream) \<times> 'w" where
  "anthropic_chat_stream codec net p model req api_key_override w =
     (case anthropic_request (ax_value codec) req model True of
        Inl e \<Rightarrow> (Inl e, w)
      | Inr body \<Rightarrow>
          exchange (ax_value codec) net (anthropic_post p api_key_override body)
            (\<lambda>resp w.
               Inr (anthropic_events codec (''anthropic/'' @ model)
                      (ar_forced_output_tool_name body \<noteq> None) (ar_exclude_reasoning body)
                      (nt_event_clock net w) 0 no_counters (hr_events resp)))
            w)"

section \<open>Embeddings\<close>

definition anthropic_embeddings :: "anthropic_provider \<Rightarrow> string \<Rightarrow> embeddings_request
    \<Rightarrow> string option \<Rightarrow> 'w \<Rightarrow> (provider_error + embeddings_response) \<times> 'w" where
  "anthropic_embeddings p model req api_key_override w =
     (Inl (UnsupportedFeature ''Anthropic has no embeddings endpoint''), w)"

end
