(* ===== verification/Stream_Client.thy ===== *)
theory Stream_Client
  imports Provider_Http
begin

text \<open>
  What a client makes of a stream, as a specification the adapters' streams are held against: the
  texts of the deltas are joined, the latest usage and finish reason stand, and a delta of a tool
  call goes to the call of its \<open>index\<close>, which the first delta of that index opens. This is how
  clients of the OpenAI chat-completions API assemble a streamed message.
\<close>

definition stream_chunks :: "chat_stream \<Rightarrow> chat_chunk list" where
  "stream_chunks items = List.map_filter result_ok items"

definition stream_deltas :: "chat_stream \<Rightarrow> chat_message_delta list" where
  "stream_deltas items = concat (map (\<lambda>ck. map cc_delta (ck_choices ck)) (stream_chunks items))"

definition streamed_text :: "chat_stream \<Rightarrow> string" where
  "streamed_text items = concat (map (\<lambda>d. unwrap_or [] (dl_content d)) (stream_deltas items))"

definition streamed_reasoning :: "chat_stream \<Rightarrow> string" where
  "streamed_reasoning items = concat (map (\<lambda>d. unwrap_or [] (dl_reasoning d)) (stream_deltas items))"

definition call_deltas :: "chat_stream \<Rightarrow> tool_call_delta list" where
  "call_deltas items = concat (map (\<lambda>d. unwrap_or [] (dl_tool_calls d)) (stream_deltas items))"

definition streamed_usages :: "chat_stream \<Rightarrow> usage list" where
  "streamed_usages items = List.map_filter ck_usage (stream_chunks items)"

definition streamed_finishes :: "chat_stream \<Rightarrow> string list" where
  "streamed_finishes items =
     List.map_filter id
       (concat (map (\<lambda>ck. map cc_finish_reason (ck_choices ck)) (stream_chunks items)))"

definition delta_name :: "tool_call_delta \<Rightarrow> string" where
  "delta_name d = unwrap_or [] (Option.bind (tcd_function d) fcd_name)"

definition delta_arguments :: "tool_call_delta \<Rightarrow> string" where
  "delta_arguments d = unwrap_or [] (Option.bind (tcd_function d) fcd_arguments)"

definition extend_call :: "string \<Rightarrow> tool_call \<Rightarrow> tool_call" where
  "extend_call s tc =
     tool_call_function (tc_id tc) (call_name (tc_function tc)) (call_arguments (tc_function tc) @ s)"

definition assemble_call :: "(u32 \<times> tool_call) list \<Rightarrow> tool_call_delta \<Rightarrow> (u32 \<times> tool_call) list" where
  "assemble_call acc d =
     (if tcd_index d \<in> fst ` set acc
      then map (\<lambda>(i, tc). (i, if i = tcd_index d then extend_call (delta_arguments d) tc else tc)) acc
      else acc @ [(tcd_index d,
             tool_call_function (unwrap_or [] (tcd_id d)) (delta_name d) (delta_arguments d))])"

definition assembled :: "tool_call_delta list \<Rightarrow> tool_call list" where
  "assembled ds = map snd (foldl assemble_call [] ds)"

definition no_errors :: "chat_stream \<Rightarrow> bool" where
  "no_errors items = list_all (\<lambda>x. result_ok x \<noteq> None) items"

lemma stream_Nil [simp]:
  "streamed_text [] = []" "streamed_reasoning [] = []" "call_deltas [] = []"
  "streamed_usages [] = []" "streamed_finishes [] = []" "no_errors []"
  by (simp_all add: streamed_text_def streamed_reasoning_def call_deltas_def stream_deltas_def
      stream_chunks_def streamed_usages_def streamed_finishes_def no_errors_def List.map_filter_def)

lemma map_filter_append: "List.map_filter f (xs @ ys) = List.map_filter f xs @ List.map_filter f ys"
  by (induction xs) (auto simp: List.map_filter_simps split: option.split)

lemma stream_append [simp]:
  "streamed_text (a @ b) = streamed_text a @ streamed_text b"
  "streamed_reasoning (a @ b) = streamed_reasoning a @ streamed_reasoning b"
  "call_deltas (a @ b) = call_deltas a @ call_deltas b"
  "streamed_usages (a @ b) = streamed_usages a @ streamed_usages b"
  "streamed_finishes (a @ b) = streamed_finishes a @ streamed_finishes b"
  "no_errors (a @ b) \<longleftrightarrow> no_errors a \<and> no_errors b"
  by (simp_all add: streamed_text_def streamed_reasoning_def call_deltas_def stream_deltas_def
      stream_chunks_def streamed_usages_def streamed_finishes_def no_errors_def map_filter_append)

text \<open>A stream of one item, when its chunk has one choice.\<close>

lemma stream_one [simp]:
  assumes "ck_choices ck = [ch]"
  shows "streamed_text [Inr ck] = unwrap_or [] (dl_content (cc_delta ch))"
    "streamed_reasoning [Inr ck] = unwrap_or [] (dl_reasoning (cc_delta ch))"
    "call_deltas [Inr ck] = unwrap_or [] (dl_tool_calls (cc_delta ch))"
    "streamed_usages [Inr ck] = (case ck_usage ck of None \<Rightarrow> [] | Some u \<Rightarrow> [u])"
    "streamed_finishes [Inr ck] = (case cc_finish_reason ch of None \<Rightarrow> [] | Some f \<Rightarrow> [f])"
    "no_errors [Inr ck]"
  using assms
  by (simp_all add: streamed_text_def streamed_reasoning_def call_deltas_def stream_deltas_def
      stream_chunks_def streamed_usages_def streamed_finishes_def no_errors_def
      List.map_filter_simps split: option.split)

text \<open>A call is opened by its first delta and extended by the others of its index.\<close>

lemma extend_call_simps [simp]:
  "extend_call s (tool_call_function i n a) = tool_call_function i n (a @ s)"
  by (simp add: extend_call_def tool_call_function_def)

lemma assemble_open:
  "tcd_index d \<notin> fst ` set acc \<Longrightarrow>
   assemble_call acc d = acc @ [(tcd_index d,
     tool_call_function (unwrap_or [] (tcd_id d)) (delta_name d) (delta_arguments d))]"
  by (simp add: assemble_call_def)

lemma assemble_extend:
  assumes "\<forall>d\<in>set ds. tcd_index d = i" and "i \<notin> fst ` set acc"
  shows "foldl assemble_call (acc @ [(i, tool_call_function j n a)]) ds
    = acc @ [(i, tool_call_function j n (a @ concat (map delta_arguments ds)))]"
  using assms
proof (induction ds arbitrary: a)
  case Nil then show ?case by simp
next
  case (Cons d ds)
  have same: "map (\<lambda>(k, tc). (k, if k = i then extend_call s tc else tc)) acc = acc" for s
    using Cons.prems(2) by (intro map_idI) (auto simp: image_iff)
  have "assemble_call (acc @ [(i, tool_call_function j n a)]) d
      = acc @ [(i, tool_call_function j n (a @ delta_arguments d))]"
    using Cons.prems by (simp add: assemble_call_def same)
  with Cons show ?case by simp
qed

end
