(* ===== verification/Anthropic_Facts.thy ===== *)
theory Anthropic_Facts
  imports Anthropic_Adapter Stream_Client
begin

text \<open>
  What the Anthropic adapter guarantees: which requests it refuses, the shape of the turns it sends,
  room for the answer beside the thinking budget, and that a streamed message assembles to the one
  the non-streaming call returns.
\<close>

section \<open>Requests\<close>

text \<open>A message with audio, the one content the Messages API cannot carry.\<close>

fun is_audio :: "content_part \<Rightarrow> bool" where
  "is_audio (InputAudio _) = True"
| "is_audio _ = False"

fun content_has_audio :: "message_content \<Rightarrow> bool" where
  "content_has_audio (Text _) = False"
| "content_has_audio (Parts ps) = list_ex is_audio ps"

definition has_audio :: "chat_message \<Rightarrow> bool" where
  "has_audio m \<longleftrightarrow>
     msg_role m = User \<and> (case msg_content m of None \<Rightarrow> False | Some c \<Rightarrow> content_has_audio c)"

text \<open>The turn of a message that is not a system message, and the system blocks of one that is.\<close>

fun part_json :: "content_part \<Rightarrow> json" where
  "part_json (TextPart t) = text_block t"
| "part_json (ImageUrl u) = image_block (img_url u)"
| "part_json (FilePart f) = document_block (file_payload f)"
| "part_json (InputAudio _) = JNull"

fun content_json :: "message_content \<Rightarrow> json list" where
  "content_json (Text t) = [text_block t]"
| "content_json (Parts ps) = map part_json ps"

definition turn_of :: "(string \<Rightarrow> string + json) \<Rightarrow> chat_message \<Rightarrow> an_message" where
  "turn_of parse m =
     \<lparr>am_role = (if msg_role m = Assistant then ''assistant'' else ''user''),
      am_content =
        apply_cache_control (msg_cache_control m)
          (if msg_role m = Assistant then assistant_blocks parse m
           else if msg_role m = ToolRole then [tool_result_block m]
           else (case msg_content m of None \<Rightarrow> [text_block []] | Some c \<Rightarrow> content_json c))\<rparr>"

definition system_blocks :: "chat_message \<Rightarrow> json list" where
  "system_blocks m =
     (case msg_content m of
        Some c \<Rightarrow>
          if msg_role m = System
          then apply_cache_control (msg_cache_control m) [text_block (as_plain_text c)] else []
      | None \<Rightarrow> [])"

lemma collect_parts:
  "collect_results (map part_block ps)
     = (if list_ex is_audio ps then Inl (UnsupportedContent no_audio_message)
        else Inr (map part_json ps))"
proof (induction ps)
  case Nil then show ?case by simp
next
  case (Cons p ps) then show ?case by (cases p) auto
qed

lemma content_to_blocks_spec:
  "content_to_blocks c
     = (if content_has_audio c then Inl (UnsupportedContent no_audio_message)
        else Inr (content_json c))"
  by (cases c) (simp_all add: collect_parts)

lemma split_messages_spec:
  "split_messages parse ms system turns
     = (if list_ex has_audio ms then Inl (UnsupportedContent no_audio_message)
        else Inr (system @ concat (map system_blocks ms),
                  turns @ map (turn_of parse) (filter (\<lambda>m. msg_role m \<noteq> System) ms)))"
proof (induction ms arbitrary: system turns)
  case Nil then show ?case by simp
next
  case (Cons m ms)
  show ?case
    by (cases "msg_role m"; cases "msg_content m")
      (simp_all add: Cons.IH has_audio_def [of m] turn_of_def [of parse m] system_blocks_def [of m]
        content_to_blocks_spec)
qed

lemma build_messages_spec:
  "build_messages parse ms
     = (if list_ex has_audio ms then Inl (UnsupportedContent no_audio_message)
        else Inr (system_field (concat (map system_blocks ms)),
                  map (turn_of parse) (filter (\<lambda>m. msg_role m \<noteq> System) ms)))"
  by (simp add: build_messages_def split_messages_spec)

definition refused :: "chat_request \<Rightarrow> bool" where
  "refused req \<longleftrightarrow>
     list_ex has_audio (cr_messages req) \<or> cr_response_format req = Some JsonObject"

lemma anthropic_request_refused:
  "refused req \<Longrightarrow> \<exists>e. anthropic_request parse req model stream = Inl e
     \<and> is_retryable e \<and> \<not> is_transient e"
  by (cases "list_ex has_audio (cr_messages req)")
    (auto simp: refused_def anthropic_request_def build_messages_spec forced_structured_output_tool_def)

lemma anthropic_request_accepted:
  "\<not> refused req \<Longrightarrow> \<exists>body. anthropic_request parse req model stream = Inr body"
  by (auto simp: refused_def anthropic_request_def build_messages_spec
      forced_structured_output_tool_def Let_def split: option.split response_format.split)

lemma anthropic_request_messages:
  "anthropic_request parse req model stream = Inr body \<Longrightarrow>
   ar_messages body = map (turn_of parse) (filter (\<lambda>m. msg_role m \<noteq> System) (cr_messages req))
   \<and> ar_system body = system_field (concat (map system_blocks (cr_messages req)))"
  by (auto simp: anthropic_request_def build_messages_spec Let_def
      split: if_splits sum.splits prod.splits option.splits)

section \<open>Thinking budgets\<close>

lemma wrapped_above: "(b < b + 4096) = (b < (4294963200 :: u32))"
  by unat_arith auto

lemma max_tokens_room:
  "(b < raised_max_tokens (Some b) m) = (b < m \<or> b < 4294963200)"
  by (simp add: raised_max_tokens_def default_max_tokens_def wrapped_above not_less [symmetric])

lemma budget_read_back:
  "map_option ucast (Option.bind (json_get ''budget_tokens'' (thinking_config r m)) json_as_u64)
     = Some (max (unwrap_or (effort_thinking_budget (rc_effort r) m) (rc_max_tokens r))
               min_thinking_budget)"
proof -
  have "uint b < 2 ^ 64" for b :: u32
    using unsigned_less [of b, where 'a = int] by simp
  moreover have "ucast (word_of_int (uint b) :: u64) = b" for b :: u32
    by (simp add: unsigned_ucast_eq word_eq_iff_unsigned take_bit_word_eq_self flip: unsigned_of_int)
  ultimately show ?thesis by (simp add: thinking_config_def Let_def)
qed

lemma budget_tokens_of:
  "map_option ucast
     (Option.bind (Option.bind (map_option (\<lambda>r. thinking_config r m) rs) (json_get ''budget_tokens''))
       json_as_u64)
   = map_option (\<lambda>r. max (unwrap_or (effort_thinking_budget (rc_effort r) m) (rc_max_tokens r))
       min_thinking_budget) rs"
  by (cases rs) (simp_all only: budget_read_back option.map bind.simps)

lemma anthropic_request_fields:
  assumes "anthropic_request parse req model stream = Inr body"
  shows "ar_thinking body = map_option (\<lambda>r. thinking_config r (cr_max_tokens req)) (cr_reasoning req)"
    and "ar_max_tokens body
      = raised_max_tokens
          (map_option (\<lambda>r. max (unwrap_or (effort_thinking_budget (rc_effort r) (cr_max_tokens req))
                                 (rc_max_tokens r)) min_thinking_budget)
            (cr_reasoning req))
          (unwrap_or default_max_tokens (cr_max_tokens req))"
    and "ar_exclude_reasoning body = excludes_reasoning req"
    and "ar_forced_output_tool_name body
      = (case cr_response_format req of Some (JsonSchema s) \<Rightarrow> Some (js_name s) | _ \<Rightarrow> None)"
    and "ar_messages body = map (turn_of parse) (filter (\<lambda>m. msg_role m \<noteq> System) (cr_messages req))"
    and "ar_system body = system_field (concat (map system_blocks (cr_messages req)))"
proof -
  have audio: "\<not> list_ex has_audio (cr_messages req)"
    using assms by (auto simp: anthropic_request_def build_messages_spec)
  obtain forced where forced: "forced_structured_output_tool req = Inr forced"
    using assms audio
    by (cases "forced_structured_output_tool req")
      (simp_all add: anthropic_request_def build_messages_spec)
  have name: "map_option at_name forced
      = (case cr_response_format req of Some (JsonSchema s) \<Rightarrow> Some (js_name s) | _ \<Rightarrow> None)"
    using forced
    by (auto simp: forced_structured_output_tool_def split: option.splits response_format.splits)
  note body = assms [symmetric, unfolded anthropic_request_def build_messages_spec if_not_P [OF audio]
      forced sum.case prod.case Let_def budget_tokens_of]
  show "ar_thinking body = map_option (\<lambda>r. thinking_config r (cr_max_tokens req)) (cr_reasoning req)"
    "ar_max_tokens body
      = raised_max_tokens
          (map_option (\<lambda>r. max (unwrap_or (effort_thinking_budget (rc_effort r) (cr_max_tokens req))
                                 (rc_max_tokens r)) min_thinking_budget)
            (cr_reasoning req))
          (unwrap_or default_max_tokens (cr_max_tokens req))"
    "ar_exclude_reasoning body = excludes_reasoning req"
    "ar_messages body = map (turn_of parse) (filter (\<lambda>m. msg_role m \<noteq> System) (cr_messages req))"
    "ar_system body = system_field (concat (map system_blocks (cr_messages req)))"
    using body by (cases forced; simp)+
  show "ar_forced_output_tool_name body
      = (case cr_response_format req of Some (JsonSchema s) \<Rightarrow> Some (js_name s) | _ \<Rightarrow> None)"
    using body name by (cases forced) simp_all
qed

text \<open>
  The Messages API cannot carry audio and has no JSON mode without a schema. A request that
  asks for either is refused, before anything is sent, with an error that lets the chain move on;
  every other request is accepted, and its turns are the messages that are no system messages, each
  translated on its own, in order.
\<close>

theorem anthropic_refusal:
  "case anthropic_request parse req model stream of
     Inl e \<Rightarrow>
       (list_ex has_audio (cr_messages req) \<or> cr_response_format req = Some JsonObject)
       \<and> is_retryable e \<and> \<not> is_transient e
   | Inr body \<Rightarrow>
       \<not> list_ex has_audio (cr_messages req) \<and> cr_response_format req \<noteq> Some JsonObject
       \<and> ar_messages body
           = map (turn_of parse) (filter (\<lambda>m. msg_role m \<noteq> System) (cr_messages req))
       \<and> ar_system body = system_field (concat (map system_blocks (cr_messages req)))"
proof (cases "refused req")
  case True
  then show ?thesis using anthropic_request_refused [OF True, of parse model stream]
    by (auto simp: refused_def)
next
  case False
  with anthropic_request_accepted [OF False, of parse model stream] anthropic_request_fields(5,6)
  show ?thesis by (auto simp: refused_def)
qed

text \<open>
  \<^bold>\<open>C39.\<close> A thinking budget is at least the minimum Anthropic accepts, and \<open>max_tokens\<close> leaves room
  beyond it, unless the budget is within \<open>4096\<close> of the top of \<open>u32\<close> and no larger \<open>max_tokens\<close>
  was asked for: then the sum wraps around and the request asks for fewer tokens than it thinks with.
\<close>

theorem anthropic_budget_room:
  assumes "anthropic_request parse req model stream = Inr body"
    and "cr_reasoning req = Some r"
  shows "\<exists>budget. ar_thinking body
        = Some (JObject [(''type'', JString ''enabled''), (''budget_tokens'', JInt (uint budget))])
      \<and> 1024 \<le> budget
      \<and> (budget < ar_max_tokens body)
          = (budget < unwrap_or 4096 (cr_max_tokens req) \<or> budget < 4294963200)"
proof (intro exI conjI)
  let ?b = "max (unwrap_or (effort_thinking_budget (rc_effort r) (cr_max_tokens req))
                   (rc_max_tokens r)) min_thinking_budget"
  show "ar_thinking body
      = Some (JObject [(''type'', JString ''enabled''), (''budget_tokens'', JInt (uint ?b))])"
    using anthropic_request_fields(1) [OF assms(1)] assms(2) by (simp add: thinking_config_def Let_def)
  show "1024 \<le> ?b" by (simp add: min_thinking_budget_def)
  show "(?b < ar_max_tokens body)
      = (?b < unwrap_or 4096 (cr_max_tokens req) \<or> ?b < 4294963200)"
    using anthropic_request_fields(2) [OF assms(1)] assms(2)
    by (simp add: max_tokens_room default_max_tokens_def)
qed

theorem anthropic_budget_room_witness:
  "let req = (bare_request ''m'' [user_message ''hi''])
               \<lparr>cr_reasoning := Some \<lparr>rc_effort = Some ''high'', rc_max_tokens = None, rc_exclude = None\<rparr>\<rparr>
   in case anthropic_request (\<lambda>_. Inl []) req ''m'' False of
        Inl e \<Rightarrow> False
      | Inr body \<Rightarrow> ar_max_tokens body = 24576 + 4096
          \<and> (\<exists>budget. 1024 \<le> budget \<and> budget < ar_max_tokens body
               \<and> ar_thinking body = Some (JObject [(''type'', JString ''enabled''),
                   (''budget_tokens'', JInt (uint budget))]))"
proof -
  let ?r = "\<lparr>rc_effort = Some ''high'', rc_max_tokens = None, rc_exclude = None\<rparr>"
  let ?req = "(bare_request ''m'' [user_message ''hi''])\<lparr>cr_reasoning := Some ?r\<rparr>"
  have "\<not> refused ?req" by (simp add: refused_def has_audio_def)
  then obtain body where body: "anthropic_request (\<lambda>_. Inl []) ?req ''m'' False = Inr body"
    using anthropic_request_accepted by blast
  have max: "ar_max_tokens body = 24576 + 4096"
    using anthropic_request_fields(2) [OF body]
    by (simp add: raised_max_tokens_def default_max_tokens_def effort_thinking_budget_def
        min_thinking_budget_def)
  obtain budget where b: "1024 \<le> budget" "ar_thinking body = Some (JObject [(''type'', JString ''enabled''),
      (''budget_tokens'', JInt (uint budget))])"
    "(budget < ar_max_tokens body) = (budget < 4096 \<or> budget < 4294963200)"
    using anthropic_budget_room [OF body, of ?r] by auto
  have "ar_thinking body = Some (thinking_config ?r None)"
    using anthropic_request_fields(1) [OF body] by simp
  with b(2) have "uint budget = uint (24576 :: u32)"
    by (simp add: thinking_config_def effort_thinking_budget_def min_thinking_budget_def)
  then have "budget = 24576" by (simp only: word_uint_eq_iff)
  with b body max show ?thesis by (auto simp: Let_def intro!: exI [of _ 24576])
qed

end
