(* ===== verification/Anthropic_Stream.thy ===== *)
theory Anthropic_Stream
  imports Anthropic_Facts
begin

text \<open>
  The streamed form of a reply of the Messages API, written out as events, and the theorem that the
  adapter's stream of it assembles to what the adapter makes of the reply itself.
\<close>

section \<open>A reply as a stream of events\<close>

text \<open>
  A reply is streamed as \<open>message_start\<close>, for each content block its start, its content in
  fragments and its end, then \<open>message_delta\<close> and \<open>message_stop\<close>. A tool's input is streamed as the
  fragments of its JSON text.
\<close>

type_synonym fragmented = "an_content_block \<times> string list"

definition start_event :: "an_usage \<Rightarrow> json" where
  "start_event u =
     JObject [(''type'', JString ''message_start''),
       (''message'', JObject [(''usage'', JObject
          [(''input_tokens'', JInt (uint (au_input_tokens u))),
           (''cache_creation_input_tokens'', JInt (uint (au_cache_creation_input_tokens u))),
           (''cache_read_input_tokens'', JInt (uint (au_cache_read_input_tokens u)))])])]"

definition block_start_event :: "u32 \<Rightarrow> an_content_block \<Rightarrow> json" where
  "block_start_event i b =
     JObject [(''type'', JString ''content_block_start''), (''index'', JInt (uint i)),
       (''content_block'', JObject [(''type'', JString (ab_kind b)), (''id'', json_opt (ab_id b)),
          (''name'', json_opt (ab_name b))])]"

definition block_delta_event :: "u32 \<Rightarrow> string \<Rightarrow> string \<Rightarrow> string \<Rightarrow> json" where
  "block_delta_event i kind field s =
     JObject [(''type'', JString ''content_block_delta''), (''index'', JInt (uint i)),
       (''delta'', JObject [(''type'', JString kind), (field, JString s)])]"

definition block_stop_event :: "u32 \<Rightarrow> json" where
  "block_stop_event i =
     JObject [(''type'', JString ''content_block_stop''), (''index'', JInt (uint i))]"

definition final_event :: "string option \<Rightarrow> u32 \<Rightarrow> json" where
  "final_event stop_reason output_tokens =
     JObject [(''type'', JString ''message_delta''),
       (''delta'', JObject [(''stop_reason'', json_opt stop_reason)]),
       (''usage'', JObject [(''output_tokens'', JInt (uint output_tokens))])]"

definition stop_event :: json where
  "stop_event = JObject [(''type'', JString ''message_stop'')]"

text \<open>The fragments of a block carry its content.\<close>

definition fragments_of :: "(json \<Rightarrow> string) \<Rightarrow> fragmented \<Rightarrow> bool" where
  "fragments_of print bf \<longleftrightarrow>
     (let (b, frs) = bf in
        (ab_kind b = ''text'' \<longrightarrow> concat frs = ab_text b)
        \<and> (ab_kind b = ''thinking'' \<longrightarrow> concat frs = ab_thinking b)
        \<and> (ab_kind b = ''tool_use'' \<longrightarrow> concat frs = print (unwrap_or empty_object (ab_input b))))"

definition delta_events :: "u32 \<Rightarrow> fragmented \<Rightarrow> json list" where
  "delta_events i bf =
     (let (b, frs) = bf in
        if ab_kind b = ''text'' then map (block_delta_event i ''text_delta'' ''text'') frs
        else if ab_kind b = ''thinking'' then map (block_delta_event i ''thinking_delta'' ''thinking'') frs
        else if ab_kind b = ''tool_use''
        then map (block_delta_event i ''input_json_delta'' ''partial_json'') frs
        else [])"

definition block_events :: "u32 \<Rightarrow> fragmented \<Rightarrow> json list" where
  "block_events i bf = block_start_event i (fst bf) # delta_events i bf @ [block_stop_event i]"

fun blocks_events :: "u32 \<Rightarrow> fragmented list \<Rightarrow> json list" where
  "blocks_events i [] = []"
| "blocks_events i (bf # bfs) = block_events i bf @ blocks_events (i + 1) bfs"

definition reply_events :: "an_usage \<Rightarrow> string option \<Rightarrow> fragmented list \<Rightarrow> json list" where
  "reply_events u stop_reason bfs =
     start_event u # blocks_events 0 bfs @ [final_event stop_reason (au_output_tokens u), stop_event]"

section \<open>What a run of events adds to the assembled message\<close>

text \<open>
  \<open>adds ... evs t r ds\<close>: whatever the counters and whatever comes after, the events \<open>evs\<close> leave the
  counters alone and add the text \<open>t\<close>, the reasoning \<open>r\<close> and the call deltas \<open>ds\<close>, with no error,
  usage or finish reason among the items.
\<close>

definition adds :: "an_codec \<Rightarrow> (json \<Rightarrow> string) \<Rightarrow> string \<Rightarrow> bool \<Rightarrow> bool \<Rightarrow> (nat \<Rightarrow> nat \<Rightarrow> nat)
    \<Rightarrow> json list \<Rightarrow> string \<Rightarrow> string \<Rightarrow> tool_call_delta list \<Rightarrow> bool" where
  "adds codec render model forced ex clock evs t r ds \<longleftrightarrow>
     (\<forall>n c rest. \<exists>items.
        anthropic_events codec model forced ex clock n c (map (\<lambda>v. Inr (render v)) evs @ rest)
          = items @ anthropic_events codec model forced ex clock (n + length evs) c rest
        \<and> streamed_text items = t \<and> streamed_reasoning items = r \<and> call_deltas items = ds
        \<and> no_errors items \<and> streamed_usages items = [] \<and> streamed_finishes items = [])"

lemma adds_Nil: "adds codec render model forced ex clock [] [] [] []"
  by (auto simp: adds_def intro: exI [of _ "[]"])

lemma adds_append:
  assumes "adds codec render model forced ex clock xs t r ds"
    and "adds codec render model forced ex clock ys t' r' ds'"
  shows "adds codec render model forced ex clock (xs @ ys) (t @ t') (r @ r') (ds @ ds')"
  unfolding adds_def
proof (intro allI)
  fix n c rest
  obtain a where a: "anthropic_events codec model forced ex clock n c
        (map (\<lambda>v. Inr (render v)) xs @ map (\<lambda>v. Inr (render v)) ys @ rest)
      = a @ anthropic_events codec model forced ex clock (n + length xs) c
          (map (\<lambda>v. Inr (render v)) ys @ rest)"
    "streamed_text a = t" "streamed_reasoning a = r" "call_deltas a = ds" "no_errors a"
    "streamed_usages a = []" "streamed_finishes a = []"
    using assms(1) unfolding adds_def by blast
  obtain b where b: "anthropic_events codec model forced ex clock (n + length xs) c
        (map (\<lambda>v. Inr (render v)) ys @ rest)
      = b @ anthropic_events codec model forced ex clock (n + length xs + length ys) c rest"
    "streamed_text b = t'" "streamed_reasoning b = r'" "call_deltas b = ds'" "no_errors b"
    "streamed_usages b = []" "streamed_finishes b = []"
    using assms(2) unfolding adds_def by blast
  show "\<exists>items. anthropic_events codec model forced ex clock n c
          (map (\<lambda>v. Inr (render v)) (xs @ ys) @ rest)
        = items @ anthropic_events codec model forced ex clock (n + length (xs @ ys)) c rest
      \<and> streamed_text items = t @ t' \<and> streamed_reasoning items = r @ r'
      \<and> call_deltas items = ds @ ds' \<and> no_errors items \<and> streamed_usages items = []
      \<and> streamed_finishes items = []"
    using a b by (intro exI [of _ "a @ b"]) (simp add: add.assoc)
qed

lemma adds_Cons:
  assumes "adds codec render model forced ex clock [x] t r ds"
    and "adds codec render model forced ex clock ys t' r' ds'"
  shows "adds codec render model forced ex clock (x # ys) (t @ t') (r @ r') (ds @ ds')"
  using adds_append [OF assms] by simp

text \<open>One event: it yields nothing, or a chunk of one delta.\<close>

lemma adds_none:
  assumes "\<And>clk c. anthropic_event codec model forced ex clk c (Inr (render v)) = (c, None)"
  shows "adds codec render model forced ex clock [v] [] [] []"
  by (auto simp: adds_def assms intro!: exI [of _ "[]"])

lemma adds_chunk:
  assumes "\<And>clk c. anthropic_event codec model forced ex clk c (Inr (render v))
      = (c, Some (Inr (empty_chunk model clk delta None)))"
  shows "adds codec render model forced ex clock [v] (unwrap_or [] (dl_content delta))
    (unwrap_or [] (dl_reasoning delta)) (unwrap_or [] (dl_tool_calls delta))"
  unfolding adds_def
proof (intro allI)
  fix n c rest
  let ?ck = "empty_chunk model (clock n) delta None"
  have "ck_choices ?ck = [\<lparr>cc_index = 0, cc_delta = delta, cc_finish_reason = None, cc_logprobs = None\<rparr>]"
    and "ck_usage ?ck = None"
    by (simp_all add: empty_chunk_def)
  then show "\<exists>items. anthropic_events codec model forced ex clock n c
          (map (\<lambda>v. Inr (render v)) [v] @ rest)
        = items @ anthropic_events codec model forced ex clock (n + length [v]) c rest
      \<and> streamed_text items = unwrap_or [] (dl_content delta)
      \<and> streamed_reasoning items = unwrap_or [] (dl_reasoning delta)
      \<and> call_deltas items = unwrap_or [] (dl_tool_calls delta) \<and> no_errors items
      \<and> streamed_usages items = [] \<and> streamed_finishes items = []"
    by (intro exI [of _ "[Inr ?ck]"]) (simp add: assms)
qed

section \<open>The events of a block\<close>

lemma count_at_uint:
  fixes x :: u32
  assumes "json_pointer p v = Some (JInt (uint x))"
  shows "count_at p v = x"
proof -
  have "uint x < 2 ^ 64" using unsigned_less [of x, where 'a = int] by simp
  moreover have "ucast (word_of_int (uint x) :: u64) = x"
    by (simp add: unsigned_ucast_eq word_eq_iff_unsigned take_bit_word_eq_self flip: unsigned_of_int)
  ultimately show ?thesis using assms by (simp add: count_at_def u64_at_def)
qed

lemma index_simps [simp]:
  "count_at [''index''] (block_start_event i b) = i"
  "count_at [''index''] (block_delta_event i k f s) = i"
  by (simp_all add: count_at_uint block_start_event_def block_delta_event_def)

definition open_delta :: "u32 \<Rightarrow> an_content_block \<Rightarrow> tool_call_delta" where
  "open_delta i b =
     \<lparr>tcd_index = i, tcd_id = Some (unwrap_or [] (ab_id b)), tcd_kind = Some ''function'',
      tcd_function = Some \<lparr>fcd_name = Some (unwrap_or [] (ab_name b)), fcd_arguments = Some []\<rparr>\<rparr>"

definition argument_delta :: "u32 \<Rightarrow> string \<Rightarrow> tool_call_delta" where
  "argument_delta i s =
     \<lparr>tcd_index = i, tcd_id = None, tcd_kind = None,
      tcd_function = Some \<lparr>fcd_name = None, fcd_arguments = Some s\<rparr>\<rparr>"

lemma json_opt_str [simp]: "json_as_str (json_opt s) = s"
  by (simp add: json_opt_def split: option.split)

lemma adds_start:
  assumes "ax_value codec (render (block_start_event i b)) = Inr (block_start_event i b)"
  shows "adds codec render model forced ex clock [block_start_event i b] [] []
    (if ab_kind b = ''tool_use'' \<and> \<not> forced then [open_delta i b] else [])"
proof (cases "ab_kind b = ''tool_use'' \<and> \<not> forced")
  case True
  have "tool_start_delta i (block_start_event i b) = no_delta\<lparr>dl_tool_calls := Some [open_delta i b]\<rparr>"
    by (simp add: tool_start_delta_def open_delta_def block_start_event_def)
  with True assms
  have "anthropic_event codec model forced ex clk c (Inr (render (block_start_event i b)))
      = (c, Some (Inr (empty_chunk model clk (no_delta\<lparr>dl_tool_calls := Some [open_delta i b]\<rparr>) None)))"
    for clk c
    by (simp add: anthropic_event_def Let_def)
      (simp add: block_start_event_def)
  then have "adds codec render model forced ex clock [block_start_event i b]
      (unwrap_or [] (dl_content (no_delta\<lparr>dl_tool_calls := Some [open_delta i b]\<rparr>)))
      (unwrap_or [] (dl_reasoning (no_delta\<lparr>dl_tool_calls := Some [open_delta i b]\<rparr>)))
      (unwrap_or [] (dl_tool_calls (no_delta\<lparr>dl_tool_calls := Some [open_delta i b]\<rparr>)))"
    by (rule adds_chunk)
  with True show ?thesis by (simp add: no_delta_def)
next
  case False
  with assms
  have "anthropic_event codec model forced ex clk c (Inr (render (block_start_event i b))) = (c, None)"
    for clk c
    by (simp add: anthropic_event_def Let_def)
      (simp add: block_start_event_def)
  then have "adds codec render model forced ex clock [block_start_event i b] [] [] []"
    by (rule adds_none)
  with False show ?thesis by auto
qed

lemma adds_stop:
  assumes "ax_value codec (render (block_stop_event i)) = Inr (block_stop_event i)"
  shows "adds codec render model forced ex clock [block_stop_event i] [] [] []"
  by (rule adds_none) (simp add: anthropic_event_def assms Let_def, simp add: block_stop_event_def)

lemma block_delta_event_delta:
  assumes "ax_value codec (render (block_delta_event i k f s)) = Inr (block_delta_event i k f s)"
    and "block_delta forced ex i (block_delta_event i k f s) = Some d"
  shows "adds codec render model forced ex clock [block_delta_event i k f s]
    (unwrap_or [] (dl_content d)) (unwrap_or [] (dl_reasoning d)) (unwrap_or [] (dl_tool_calls d))"
proof (rule adds_chunk)
  fix clk c
  have "str_at [''type''] (block_delta_event i k f s) = Some ''content_block_delta''"
    by (simp add: block_delta_event_def)
  with assms show "anthropic_event codec model forced ex clk c (Inr (render (block_delta_event i k f s)))
      = (c, Some (Inr (empty_chunk model clk d None)))"
    by (simp add: anthropic_event_def Let_def del: str_at_simps)
qed

lemma block_delta_event_none:
  assumes "ax_value codec (render (block_delta_event i k f s)) = Inr (block_delta_event i k f s)"
    and "block_delta forced ex i (block_delta_event i k f s) = None"
  shows "adds codec render model forced ex clock [block_delta_event i k f s] [] [] []"
proof (rule adds_none)
  fix clk c
  have "str_at [''type''] (block_delta_event i k f s) = Some ''content_block_delta''"
    by (simp add: block_delta_event_def)
  with assms show "anthropic_event codec model forced ex clk c (Inr (render (block_delta_event i k f s)))
      = (c, None)"
    by (simp add: anthropic_event_def Let_def del: str_at_simps)
qed

lemma adds_map:
  assumes "\<And>s. s \<in> set frs \<Longrightarrow> adds codec render model forced ex clock [ev s] (t s) (r s) (ds s)"
  shows "adds codec render model forced ex clock (map ev frs)
    (concat (map t frs)) (concat (map r frs)) (concat (map ds frs))"
  using assms by (induction frs) (auto intro: adds_Nil adds_Cons)

lemma adds_text:
  assumes "ax_value codec (render (block_delta_event i ''text_delta'' ''text'' s))
    = Inr (block_delta_event i ''text_delta'' ''text'' s)"
  shows "adds codec render model forced ex clock [block_delta_event i ''text_delta'' ''text'' s] s [] []"
  using block_delta_event_delta [where codec = codec and render = render and i = i and k = "''text_delta''" and f = "''text''" and s = s
    and forced = forced and ex = ex and model = model and clock = clock
    and d = "no_delta\<lparr>dl_content := Some s\<rparr>", OF assms]
  by (simp add: block_delta_def block_delta_event_def no_delta_def)

lemma adds_thinking:
  assumes "ax_value codec (render (block_delta_event i ''thinking_delta'' ''thinking'' s))
    = Inr (block_delta_event i ''thinking_delta'' ''thinking'' s)"
  shows "adds codec render model forced ex clock [block_delta_event i ''thinking_delta'' ''thinking'' s]
    [] (if ex then [] else s) []"
proof (cases "ex \<or> s = []")
  case True
  then show ?thesis using block_delta_event_none [where codec = codec and render = render and i = i and k = "''thinking_delta''" and f = "''thinking''" and s = s
    and forced = forced and ex = ex and model = model and clock = clock, OF assms]
    by (auto simp: block_delta_def block_delta_event_def)
next
  case False
  then show ?thesis
    using block_delta_event_delta [where codec = codec and render = render and i = i and k = "''thinking_delta''" and f = "''thinking''" and s = s
    and forced = forced and ex = ex and model = model and clock = clock
    and d = "no_delta\<lparr>dl_reasoning := Some s\<rparr>", OF assms]
    by (simp add: block_delta_def block_delta_event_def no_delta_def)
qed

lemma adds_json:
  assumes "ax_value codec (render (block_delta_event i ''input_json_delta'' ''partial_json'' s))
    = Inr (block_delta_event i ''input_json_delta'' ''partial_json'' s)"
  shows "adds codec render model forced ex clock
    [block_delta_event i ''input_json_delta'' ''partial_json'' s]
    (if forced then s else []) [] (if forced then [] else [argument_delta i s])"
  using block_delta_event_delta [where codec = codec and render = render and i = i and k = "''input_json_delta''" and f = "''partial_json''" and s = s
    and forced = forced and ex = ex and model = model and clock = clock
    and d = "if forced then no_delta\<lparr>dl_content := Some s\<rparr>
             else no_delta\<lparr>dl_tool_calls := Some [argument_delta i s]\<rparr>", OF assms]
  by (cases forced)
    (simp_all add: block_delta_def json_delta_def block_delta_event_def no_delta_def argument_delta_def)

section \<open>The events of a reply\<close>

definition block_text :: "(json \<Rightarrow> string) \<Rightarrow> bool \<Rightarrow> an_content_block \<Rightarrow> string" where
  "block_text print forced b =
     (if ab_kind b = ''text'' then ab_text b
      else if ab_kind b = ''tool_use'' \<and> forced then print (unwrap_or empty_object (ab_input b))
      else [])"

definition block_reasoning :: "an_content_block \<Rightarrow> string" where
  "block_reasoning b = (if ab_kind b = ''thinking'' then ab_thinking b else [])"

definition block_call_deltas :: "bool \<Rightarrow> u32 \<Rightarrow> fragmented \<Rightarrow> tool_call_delta list" where
  "block_call_deltas forced i bf =
     (if ab_kind (fst bf) = ''tool_use'' \<and> \<not> forced
      then open_delta i (fst bf) # map (argument_delta i) (snd bf) else [])"

lemma concat_nils [simp]: "concat (map (\<lambda>_. []) xs) = []"
  by simp

lemma adds_block:
  assumes read: "\<forall>v\<in>set (block_events i bf). ax_value codec (render v) = Inr v"
    and frs: "fragments_of (ax_print codec) bf"
  shows "adds codec render model forced ex clock (block_events i bf)
    (block_text (ax_print codec) forced (fst bf)) (if ex then [] else block_reasoning (fst bf))
    (block_call_deltas forced i bf)"
proof -
  obtain b fs where bf: "bf = (b, fs)" by (cases bf)
  let ?a = "adds codec render model forced ex clock"
  have start: "?a [block_start_event i b] [] []
      (if ab_kind b = ''tool_use'' \<and> \<not> forced then [open_delta i b] else [])"
    using read by (intro adds_start) (simp add: bf block_events_def)
  have stop: "?a [block_stop_event i] [] [] []"
    using read by (intro adds_stop) (simp add: bf block_events_def)
  have rd: "ax_value codec (render v) = Inr v" if "v \<in> set (delta_events i bf)" for v
    using read that by (simp add: block_events_def)
  have deltas: "?a (delta_events i bf) (block_text (ax_print codec) forced b)
      (if ex then [] else block_reasoning b)
      (if ab_kind b = ''tool_use'' \<and> \<not> forced then map (argument_delta i) fs else [])"
  proof -
    consider (plain) "ab_kind b = ''text''" | (thinking) "ab_kind b = ''thinking''"
      | (tool) "ab_kind b = ''tool_use''"
      | (other) "ab_kind b \<noteq> ''text''" "ab_kind b \<noteq> ''thinking''" "ab_kind b \<noteq> ''tool_use''"
      by blast
    then show ?thesis
    proof cases
      case plain
      have "?a (map (block_delta_event i ''text_delta'' ''text'') fs) (concat (map (\<lambda>s. s) fs))
          (concat (map (\<lambda>s. []) fs)) (concat (map (\<lambda>s. []) fs))"
        using rd plain by (intro adds_map adds_text) (simp add: bf delta_events_def)
      with plain frs show ?thesis
        by (cases ex) (simp_all add: bf delta_events_def fragments_of_def block_text_def
            block_reasoning_def)
    next
      case thinking
      have "?a (map (block_delta_event i ''thinking_delta'' ''thinking'') fs) (concat (map (\<lambda>s. []) fs))
          (concat (map (\<lambda>s. if ex then [] else s) fs)) (concat (map (\<lambda>s. []) fs))"
        using rd thinking by (intro adds_map adds_thinking) (simp add: bf delta_events_def)
      with thinking frs show ?thesis
        by (cases ex) (simp_all add: bf delta_events_def fragments_of_def block_text_def
            block_reasoning_def)
    next
      case tool
      have "?a (map (block_delta_event i ''input_json_delta'' ''partial_json'') fs)
          (concat (map (\<lambda>s. if forced then s else []) fs)) (concat (map (\<lambda>s. []) fs))
          (concat (map (\<lambda>s. if forced then [] else [argument_delta i s]) fs))"
        using rd tool by (intro adds_map adds_json) (simp add: bf delta_events_def)
      with tool frs show ?thesis
        by (cases forced; cases ex) (simp_all add: bf delta_events_def fragments_of_def block_text_def
            block_reasoning_def)
    next
      case other
      then show ?thesis using adds_Nil [of codec render model forced ex clock]
        by (cases ex) (simp_all add: bf delta_events_def block_text_def block_reasoning_def)
    qed
  qed
  have "block_call_deltas forced i bf
      = (if ab_kind b = ''tool_use'' \<and> \<not> forced then [open_delta i b] else [])
        @ (if ab_kind b = ''tool_use'' \<and> \<not> forced then map (argument_delta i) fs else [])"
    by (simp add: bf block_call_deltas_def)
  with adds_Cons [OF start adds_append [OF deltas stop]] show ?thesis
    by (simp only: bf block_events_def fst_conv append_Nil append_Nil2)
qed

fun blocks_call_deltas :: "bool \<Rightarrow> u32 \<Rightarrow> fragmented list \<Rightarrow> tool_call_delta list" where
  "blocks_call_deltas forced i [] = []"
| "blocks_call_deltas forced i (bf # bfs) =
     block_call_deltas forced i bf @ blocks_call_deltas forced (i + 1) bfs"

lemma adds_blocks:
  assumes "\<forall>v\<in>set (blocks_events i bfs). ax_value codec (render v) = Inr v"
    and "list_all (fragments_of (ax_print codec)) bfs"
  shows "adds codec render model forced ex clock (blocks_events i bfs)
    (concat (map (block_text (ax_print codec) forced \<circ> fst) bfs))
    (if ex then [] else concat (map (block_reasoning \<circ> fst) bfs))
    (blocks_call_deltas forced i bfs)"
  using assms
proof (induction bfs arbitrary: i)
  case Nil then show ?case by (simp add: adds_Nil)
next
  case (Cons bf bfs)
  from Cons.prems have rd: "\<forall>v\<in>set (block_events i bf). ax_value codec (render v) = Inr v"
    and rest: "\<forall>v\<in>set (blocks_events (i + 1) bfs). ax_value codec (render v) = Inr v"
    and frs: "fragments_of (ax_print codec) bf" "list_all (fragments_of (ax_print codec)) bfs"
    by auto
  from adds_append [OF adds_block [OF rd frs(1), of model forced ex clock] Cons.IH [OF rest frs(2)]]
  show ?case by (cases ex) simp_all
qed

section \<open>Assembling the calls\<close>

definition call_of :: "(json \<Rightarrow> string) \<Rightarrow> an_content_block \<Rightarrow> tool_call" where
  "call_of print b =
     tool_call_function (unwrap_or [] (ab_id b)) (unwrap_or [] (ab_name b))
       (print (unwrap_or empty_object (ab_input b)))"

definition block_calls :: "(json \<Rightarrow> string) \<Rightarrow> bool \<Rightarrow> an_content_block \<Rightarrow> tool_call list" where
  "block_calls print forced b =
     (if ab_kind b = ''tool_use'' \<and> \<not> forced then [call_of print b] else [])"

lemma delta_fields [simp]:
  "delta_arguments (argument_delta i s) = s" "tcd_index (argument_delta i s) = i"
  "tcd_index (open_delta i b) = i" "delta_arguments (open_delta i b) = []"
  "delta_name (open_delta i b) = unwrap_or [] (ab_name b)"
  "tcd_id (open_delta i b) = Some (unwrap_or [] (ab_id b))"
  by (simp_all add: argument_delta_def open_delta_def delta_arguments_def delta_name_def)

lemma assemble_block:
  assumes "fragments_of print bf" and "i \<notin> fst ` set acc"
  shows "foldl assemble_call acc (block_call_deltas forced i bf)
    = acc @ map (Pair i) (block_calls print forced (fst bf))"
proof (cases "ab_kind (fst bf) = ''tool_use'' \<and> \<not> forced")
  case True
  obtain b fs where bf: "bf = (b, fs)" by (cases bf)
  have frs: "concat fs = print (unwrap_or empty_object (ab_input b))"
    using True assms(1) by (simp add: bf fragments_of_def)
  have "foldl assemble_call (assemble_call acc (open_delta i b)) (map (argument_delta i) fs)
      = acc @ [(i, tool_call_function (unwrap_or [] (ab_id b)) (unwrap_or [] (ab_name b))
          ([] @ concat (map delta_arguments (map (argument_delta i) fs))))]"
    using assms(2) by (subst assemble_open) (simp, simp add: assemble_extend del: append_Nil)
  with True frs show ?thesis
    by (simp add: bf block_call_deltas_def block_calls_def call_of_def comp_def)
next
  case False
  then show ?thesis by (auto simp: block_call_deltas_def block_calls_def)
qed

lemma assemble_blocks:
  assumes "list_all (fragments_of print) bfs" and "unat i + length bfs < 2 ^ 32"
    and "\<forall>j\<in>fst ` set acc. j < i"
  shows "map snd (foldl assemble_call acc (blocks_call_deltas forced i bfs))
    = map snd acc @ concat (map (block_calls print forced \<circ> fst) bfs)"
  using assms
proof (induction bfs arbitrary: i acc)
  case Nil then show ?case by simp
next
  case (Cons bf bfs)
  let ?acc = "acc @ map (Pair i) (block_calls print forced (fst bf))"
  have fresh: "i \<notin> fst ` set acc" using Cons.prems(3) by blast
  have frs: "fragments_of print bf" "list_all (fragments_of print) bfs" using Cons.prems(1) by auto
  have "unat i + 1 < 2 ^ 32" using Cons.prems(2) by simp
  then have suc: "unat (i + 1) = unat i + 1" by (simp add: unat_word_ariths)
  then have "i < i + 1" by (simp add: word_less_nat_alt)
  with Cons.prems(3) have "\<forall>j\<in>fst ` set ?acc. j < i + 1" by (auto intro: less_trans)
  with Cons.IH [OF frs(2), of "i + 1" ?acc] Cons.prems(2) suc assemble_block [OF frs(1) fresh]
  show ?case by (simp add: comp_def)
qed

section \<open>What the reply itself gives\<close>

lemma read_blocks_foldl:
  assumes "forced \<noteq> None \<Longrightarrow>
    \<forall>b\<in>set bs. ab_kind b = ''tool_use'' \<longrightarrow> forced = Some (unwrap_or [] (ab_name b))"
  shows "foldl (read_block print forced) a bs
    = a\<lparr>aw_text := aw_text a @ concat (map (block_text print (forced \<noteq> None)) bs),
        aw_reasoning := aw_reasoning a @ concat (map block_reasoning bs),
        aw_tool_calls := aw_tool_calls a @ concat (map (block_calls print (forced \<noteq> None)) bs)\<rparr>"
  using assms
proof (induction bs arbitrary: a)
  case Nil then show ?case by simp
next
  case (Cons b bs)
  have "read_block print forced a b
      = a\<lparr>aw_text := aw_text a @ block_text print (forced \<noteq> None) b,
          aw_reasoning := aw_reasoning a @ block_reasoning b,
          aw_tool_calls := aw_tool_calls a @ block_calls print (forced \<noteq> None) b\<rparr>"
    using Cons.prems
    by (auto simp: read_block_def block_text_def block_reasoning_def block_calls_def call_of_def Let_def)
  with Cons show ?case by simp
qed

lemma read_blocks_spec:
  assumes "forced \<noteq> None \<Longrightarrow>
    \<forall>b\<in>set bs. ab_kind b = ''tool_use'' \<longrightarrow> forced = Some (unwrap_or [] (ab_name b))"
  shows "read_blocks print forced bs
    = \<lparr>aw_text = concat (map (block_text print (forced \<noteq> None)) bs),
       aw_reasoning = concat (map block_reasoning bs),
       aw_tool_calls = concat (map (block_calls print (forced \<noteq> None)) bs)\<rparr>"
  using read_blocks_foldl [OF assms] by (simp add: read_blocks_def)

section \<open>Streaming agrees with the reply\<close>

lemma start_counters_event:
  "start_counters (start_event u)
     = \<lparr>ac_input_tokens = au_input_tokens u,
        ac_cache_creation_tokens = au_cache_creation_input_tokens u,
        ac_cached_tokens = au_cache_read_input_tokens u\<rparr>"
  by (simp add: start_counters_def start_event_def count_at_uint)

lemma counters_usage_final:
  "counters_usage (start_counters (start_event u)) (au_output_tokens u) = an_usage_from_wire u"
  by (simp add: start_counters_event counters_usage_def an_usage_from_wire_def Let_def add_ac)

lemma anthropic_event_start:
  assumes "ax_value codec (render (start_event u)) = Inr (start_event u)"
  shows "anthropic_event codec model forced ex clk c (Inr (render (start_event u)))
    = (start_counters (start_event u),
       Some (Inr (empty_chunk model clk (no_delta\<lparr>dl_role := Some Assistant\<rparr>) None)))"
  by (simp add: anthropic_event_def assms Let_def) (simp add: start_event_def)

lemma anthropic_event_final:
  assumes "ax_value codec (render (final_event sr out)) = Inr (final_event sr out)"
  shows "anthropic_event codec model forced ex clk c (Inr (render (final_event sr out)))
    = (c, Some (Inr ((empty_chunk model clk no_delta
             (if forced then Some ''stop'' else map_option map_stop_reason sr))
           \<lparr>ck_usage := Some (counters_usage c out)\<rparr>)))"
proof -
  have "count_at [''usage'', ''output_tokens''] (final_event sr out) = out"
    by (simp add: count_at_uint final_event_def)
  moreover have "str_at [''delta'', ''stop_reason''] (final_event sr out) = sr"
    by (simp add: final_event_def)
  moreover have "str_at [''type''] (final_event sr out) = Some ''message_delta''"
    by (simp add: final_event_def)
  ultimately show ?thesis
    by (simp add: anthropic_event_def assms message_delta_chunk_def Let_def del: str_at_simps)
qed

lemma anthropic_event_stop:
  assumes "ax_value codec (render stop_event) = Inr stop_event"
  shows "anthropic_event codec model forced ex clk c (Inr (render stop_event)) = (c, None)"
  by (simp add: anthropic_event_def assms Let_def) (simp add: stop_event_def)

text \<open>
  The chunks of a whole reply: the role first, those of the blocks, and one with the finish reason and the
  usage, after which the stream is over.
\<close>

lemma reply_chunks:
  assumes read: "\<forall>v\<in>set (reply_events u stop bfs). ax_value codec (render v) = Inr v"
    and frs: "list_all (fragments_of (ax_print codec)) bfs"
  obtains mid n where
    "anthropic_events codec model f ex clock 0 no_counters (map (\<lambda>v. Inr (render v)) (reply_events u stop bfs))
     = [Inr (empty_chunk model (clock 0) (no_delta\<lparr>dl_role := Some Assistant\<rparr>) None)] @ mid
       @ [Inr ((empty_chunk model (clock n) no_delta
             (if f then Some ''stop'' else map_option map_stop_reason stop))
           \<lparr>ck_usage := Some (counters_usage (start_counters (start_event u)) (au_output_tokens u))\<rparr>)]"
    "streamed_text mid = concat (map (block_text (ax_print codec) f \<circ> fst) bfs)"
    "streamed_reasoning mid = (if ex then [] else concat (map (block_reasoning \<circ> fst) bfs))"
    "call_deltas mid = blocks_call_deltas f 0 bfs"
    "no_errors mid" "streamed_usages mid = []" "streamed_finishes mid = []"
proof -
  let ?c = "start_counters (start_event u)" and ?out = "au_output_tokens u"
  let ?closing = "[Inr (render (final_event stop ?out)), Inr (render stop_event)]"
  have rd: "ax_value codec (render (start_event u)) = Inr (start_event u)"
    "\<forall>v\<in>set (blocks_events 0 bfs). ax_value codec (render v) = Inr v"
    "ax_value codec (render (final_event stop ?out)) = Inr (final_event stop ?out)"
    "ax_value codec (render stop_event) = Inr stop_event"
    using read by (auto simp: reply_events_def)
  obtain mid n where mid:
    "anthropic_events codec model f ex clock 1 ?c (map (\<lambda>v. Inr (render v)) (blocks_events 0 bfs) @ ?closing)
     = mid @ anthropic_events codec model f ex clock n ?c ?closing"
    "streamed_text mid = concat (map (block_text (ax_print codec) f \<circ> fst) bfs)"
    "streamed_reasoning mid = (if ex then [] else concat (map (block_reasoning \<circ> fst) bfs))"
    "call_deltas mid = blocks_call_deltas f 0 bfs"
    "no_errors mid" "streamed_usages mid = []" "streamed_finishes mid = []"
    using adds_blocks [OF rd(2) frs, of model f ex clock] unfolding adds_def by blast
  show thesis
    by (rule that [OF _ mid(2-7), of n])
      (use mid(1) in \<open>simp add: reply_events_def anthropic_event_start [of codec render u, OF rd(1)]
        anthropic_event_final [of codec render stop ?out, OF rd(3)]
        anthropic_event_stop [of codec render, OF rd(4)] no_counters_def\<close>)
qed


text \<open>A codec that reads the events of a given list back, each printed as its position there.\<close>

fun position :: "'a \<Rightarrow> 'a list \<Rightarrow> nat" where
  "position x [] = 0"
| "position x (y # ys) = (if x = y then 0 else Suc (position x ys))"

lemma nth_position: "x \<in> set xs \<Longrightarrow> xs ! position x xs = x"
  by (induction xs) auto

definition table_codec :: "json list \<Rightarrow> an_codec" where
  "table_codec evs =
     \<lparr>ax_value = (\<lambda>s. Inr (evs ! length s)), ax_print = (\<lambda>_. ''{}''), ax_response = (\<lambda>_. Inl [])\<rparr>"

definition sample_an_usage :: an_usage where
  "sample_an_usage =
     \<lparr>au_input_tokens = 3, au_output_tokens = 2, au_cache_creation_input_tokens = 0,
      au_cache_read_input_tokens = 4\<rparr>"

definition sample_block :: "string \<Rightarrow> an_content_block" where
  "sample_block kind =
     \<lparr>ab_kind = kind, ab_text = ''hi'', ab_id = Some ''c1'', ab_name = Some ''f'', ab_input = None,
      ab_thinking = []\<rparr>"


end
