(* ===== verification/Gemini_Adapter.thy ===== *)
theory Gemini_Adapter
  imports Anthropic_Adapter
begin

text \<open>
  The adapter for the Gemini \<open>generateContent\<close> API (\<open>crates/providers/src/gemini.rs\<close>): turns of
  \<open>user\<close> and \<open>model\<close> with parts, function responses that carry the name of the call they answer, the
  API key as a query parameter. Its \<open>parse_data_uri\<close> is the Anthropic adapter's, line by line, and
  shares its definition; so do the helpers on optional contents.
\<close>

section \<open>Wire types\<close>

record gemini_provider =
  gp_base_url :: string
  gp_api_key :: string
  gp_timeout :: nat

record ge_content =
  gc_role :: string
  gc_parts :: "json list"

record ge_generation_config =
  gg_temperature :: "f32 option"
  gg_top_p :: "f32 option"
  gg_max_output_tokens :: "u32 option"
  gg_stop_sequences :: "string list option"
  gg_response_mime_type :: "string option"
  gg_response_schema :: "json option"
  gg_thinking_config :: "json option"
  gg_top_k :: "u32 option"
  gg_frequency_penalty :: "f32 option"
  gg_presence_penalty :: "f32 option"
  gg_seed :: "i64 option"

record ge_request =
  gr_contents :: "ge_content list"
  gr_system_instruction :: "json list option"
  gr_generation_config :: ge_generation_config
  gr_tools :: "json option"
  gr_tool_config :: "json option"

record ge_embed_item =
  gi_model :: string
  gi_parts :: "string list"

datatype ge_body =
    GeChat ge_request
  | GeEmbed "ge_embed_item list"

record ge_function_call =
  gf_name :: string
  gf_args :: json

record ge_part =
  gpt_text :: string
  gpt_function_call :: "ge_function_call option"
  gpt_thought :: bool

record ge_candidate =
  gca_parts :: "ge_part list"
  gca_finish_reason :: "string option"

record ge_usage_metadata =
  gu_prompt_token_count :: u32
  gu_candidates_token_count :: u32
  gu_total_token_count :: u32
  gu_cached_content_token_count :: u32

record ge_response =
  grs_candidates :: "ge_candidate list"
  grs_usage_metadata :: ge_usage_metadata

record ge_codec =
  gx_value :: "string \<Rightarrow> string + json"
  gx_print :: "json \<Rightarrow> string"
  gx_response :: "string \<Rightarrow> string + ge_response"
  gx_embeddings :: "string \<Rightarrow> string + f32 list list"

section \<open>The provider\<close>

definition gemini_new :: "string \<Rightarrow> string \<Rightarrow> gemini_provider" where
  "gemini_new base_url api_key =
     \<lparr>gp_base_url = trim_end_slashes base_url, gp_api_key = api_key,
      gp_timeout = default_timeout\<rparr>"

definition gemini_with_timeout :: "nat \<Rightarrow> gemini_provider \<Rightarrow> gemini_provider" where
  "gemini_with_timeout timeout p = p\<lparr>gp_timeout := timeout\<rparr>"

definition gemini_endpoint :: "gemini_provider \<Rightarrow> string \<Rightarrow> string \<Rightarrow> string" where
  "gemini_endpoint p model m = gp_base_url p @ ''/v1beta/models/'' @ model @ '':'' @ m"

section \<open>Contents\<close>

fun gemini_role :: "role \<Rightarrow> string" where
  "gemini_role Assistant = ''model''"
| "gemini_role _ = ''user''"

definition text_part :: "string \<Rightarrow> json" where
  "text_part t = JObject [(''text'', JString t)]"

definition inline_part :: "string \<Rightarrow> string \<Rightarrow> json" where
  "inline_part mime_type data =
     JObject [(''inlineData'',
       JObject [(''mimeType'', JString mime_type), (''data'', JString data)])]"

definition uri_part :: "string \<Rightarrow> string \<Rightarrow> json" where
  "uri_part mime_type uri =
     JObject [(''fileData'',
       JObject [(''mimeType'', JString mime_type), (''fileUri'', JString uri)])]"

text \<open>
  The text after the last dot of the URL without its query and fragment, in lower case; the whole
  of it when there is no dot.
\<close>

definition url_extension :: "string \<Rightarrow> string" where
  "url_extension url =
     (let path = takeWhile (\<lambda>c. c \<noteq> CHR ''?'' \<and> c \<noteq> CHR ''#'') url
      in to_ascii_lowercase (rev (takeWhile (\<lambda>c. c \<noteq> CHR ''.'') (rev path))))"

definition guess_mime_type :: "string \<Rightarrow> string" where
  "guess_mime_type url =
     (let ext = url_extension url
      in if ext = ''png'' then ''image/png''
         else if ext = ''gif'' then ''image/gif''
         else if ext = ''webp'' then ''image/webp''
         else ''image/jpeg'')"

definition guess_file_mime_type :: "string \<Rightarrow> string" where
  "guess_file_mime_type url =
     (if url_extension url = ''txt'' then ''text/plain'' else ''application/pdf'')"

definition audio_part :: "input_audio \<Rightarrow> json" where
  "audio_part audio = inline_part (''audio/'' @ audio_format audio) (audio_data audio)"

definition image_part :: "string \<Rightarrow> json" where
  "image_part url =
     (case parse_data_uri url of
        Some (mime_type, data) \<Rightarrow> inline_part mime_type data
      | None \<Rightarrow> uri_part (guess_mime_type url) url)"

definition file_part :: "string \<Rightarrow> json" where
  "file_part url =
     (case parse_data_uri url of
        Some (mime_type, data) \<Rightarrow> inline_part mime_type data
      | None \<Rightarrow> uri_part (guess_file_mime_type url) url)"

fun gemini_part :: "content_part \<Rightarrow> json" where
  "gemini_part (TextPart t) = text_part t"
| "gemini_part (ImageUrl u) = image_part (img_url u)"
| "gemini_part (InputAudio a) = audio_part a"
| "gemini_part (FilePart f) = file_part (file_payload f)"

fun content_to_parts :: "message_content \<Rightarrow> json list" where
  "content_to_parts (Text t) = [text_part t]"
| "content_to_parts (Parts ps) = map gemini_part ps"

definition function_response_part :: "string \<Rightarrow> string \<Rightarrow> json" where
  "function_response_part n text =
     JObject [(''functionResponse'',
       JObject [(''name'', JString n),
         (''response'', JObject [(''content'', JString text)])])]"

definition function_call_part :: "(string \<Rightarrow> string + json) \<Rightarrow> tool_call \<Rightarrow> json" where
  "function_call_part parse tc =
     JObject [(''functionCall'',
       JObject [(''name'', JString (call_name (tc_function tc))),
         (''args'', unwrap_or empty_object (result_ok (parse (call_arguments (tc_function tc)))))])]"

definition note_calls :: "tool_call list \<Rightarrow> (string \<rightharpoonup> string) \<Rightarrow> (string \<rightharpoonup> string)" where
  "note_calls tcs names = foldl (\<lambda>f tc. f(tc_id tc \<mapsto> call_name (tc_function tc))) names tcs"

definition model_parts :: "(string \<Rightarrow> string + json) \<Rightarrow> chat_message \<Rightarrow> json list" where
  "model_parts parse m =
     (let text = content_text m;
          parts = (if text = [] then [] else [text_part text])
            @ map (function_call_part parse) (unwrap_or [] (msg_tool_calls m))
      in if parts = [] then [text_part []] else parts)"

text \<open>The loop over the messages: system texts, contents, and the names of the calls seen so far.\<close>

fun collect_contents :: "(string \<Rightarrow> string + json) \<Rightarrow> chat_message list \<Rightarrow> string list
    \<Rightarrow> ge_content list \<Rightarrow> (string \<rightharpoonup> string) \<Rightarrow> string list \<times> ge_content list" where
  "collect_contents parse [] system contents names = (system, contents)"
| "collect_contents parse (m # ms) system contents names =
     (case msg_role m of
        System \<Rightarrow>
          collect_contents parse ms
            (system @ (case msg_content m of None \<Rightarrow> [] | Some c \<Rightarrow> [as_plain_text c]))
            contents names
      | ToolRole \<Rightarrow>
          (let n = unwrap_or [] (Option.bind (msg_tool_call_id m) names)
           in collect_contents parse ms system
                (contents @ [\<lparr>gc_role = ''user'',
                   gc_parts = [function_response_part n (content_text m)]\<rparr>])
                names)
      | User \<Rightarrow>
          collect_contents parse ms system
            (contents @ [\<lparr>gc_role = gemini_role (msg_role m),
               gc_parts =
                 unwrap_or [text_part []] (map_option content_to_parts (msg_content m))\<rparr>])
            names
      | Assistant \<Rightarrow>
          collect_contents parse ms system
            (contents @ [\<lparr>gc_role = gemini_role (msg_role m), gc_parts = model_parts parse m\<rparr>])
            (note_calls (unwrap_or [] (msg_tool_calls m)) names))"

definition build_contents :: "(string \<Rightarrow> string + json) \<Rightarrow> chat_message list
    \<Rightarrow> string option \<times> ge_content list" where
  "build_contents parse messages =
     (case collect_contents parse messages [] [] Map.empty of
        (system, contents) \<Rightarrow>
          (if system = [] then None else Some (join [CHR 10, CHR 10] system), contents))"

section \<open>Requests\<close>

definition gemini_tools :: "tool list \<Rightarrow> json" where
  "gemini_tools ts =
     JArray [JObject [(''functionDeclarations'', JArray (map (\<lambda>t.
       JObject [(''name'', JString (fn_name (tool_function t))),
         (''description'', json_opt (fn_description (tool_function t))),
         (''parameters'', unwrap_or default_parameters (fn_parameters (tool_function t)))]) ts))]]"

definition calling_config :: "(string \<times> json) list \<Rightarrow> json" where
  "calling_config kvs = JObject [(''functionCallingConfig'', JObject kvs)]"

fun gemini_tool_choice :: "json \<Rightarrow> json" where
  "gemini_tool_choice (JString s) =
     (if s = ''none'' then calling_config [(''mode'', JString ''NONE'')]
      else if s = ''required'' then calling_config [(''mode'', JString ''ANY'')]
      else calling_config [(''mode'', JString ''AUTO'')])"
| "gemini_tool_choice (JObject kvs) =
     (case str_at [''function'', ''name''] (JObject kvs) of
        Some n \<Rightarrow>
          calling_config [(''mode'', JString ''ANY''),
            (''allowedFunctionNames'', JArray [JString n])]
      | None \<Rightarrow> calling_config [(''mode'', JString ''AUTO'')])"
| "gemini_tool_choice _ = calling_config [(''mode'', JString ''AUTO'')]"

fun response_format_config :: "response_format \<Rightarrow> string option \<times> json option" where
  "response_format_config TextFormat = (None, None)"
| "response_format_config JsonObject = (Some ''application/json'', None)"
| "response_format_config (JsonSchema s) = (Some ''application/json'', Some (js_schema s))"

definition gemini_thinking_config :: "reasoning_config \<Rightarrow> u32 option \<Rightarrow> json" where
  "gemini_thinking_config reasoning max_tokens =
     JObject [(''thinkingBudget'',
        JInt (uint (unwrap_or (effort_thinking_budget (rc_effort reasoning) max_tokens)
                      (rc_max_tokens reasoning)))),
      (''includeThoughts'', JBool (\<not> unwrap_or False (rc_exclude reasoning)))]"

definition gemini_request :: "(string \<Rightarrow> string + json) \<Rightarrow> chat_request \<Rightarrow> ge_request" where
  "gemini_request parse req =
     (case build_contents parse (cr_messages req) of
        (system, contents) \<Rightarrow>
          (case unwrap_or (None, None) (map_option response_format_config (cr_response_format req)) of
             (response_mime_type, response_schema) \<Rightarrow>
               \<lparr>gr_contents = contents,
                gr_system_instruction = map_option (\<lambda>s. [text_part s]) system,
                gr_generation_config =
                  \<lparr>gg_temperature = cr_temperature req, gg_top_p = cr_top_p req,
                   gg_max_output_tokens = cr_max_tokens req,
                   gg_stop_sequences = cr_stop req,
                   gg_response_mime_type = response_mime_type,
                   gg_response_schema = response_schema,
                   gg_thinking_config =
                     map_option (\<lambda>r. gemini_thinking_config r (cr_max_tokens req))
                       (cr_reasoning req),
                   gg_top_k = cr_top_k req, gg_frequency_penalty = cr_frequency_penalty req,
                   gg_presence_penalty = cr_presence_penalty req, gg_seed = cr_seed req\<rparr>,
                gr_tools = map_option gemini_tools (cr_tools req),
                gr_tool_config = map_option gemini_tool_choice (cr_tool_choice req)\<rparr>))"

definition gemini_post :: "gemini_provider \<Rightarrow> string \<Rightarrow> string \<Rightarrow> (string \<times> string) list
    \<Rightarrow> string option \<Rightarrow> ge_body \<Rightarrow> ge_body http_call" where
  "gemini_post p model m extra api_key_override body =
     \<lparr>hc_url = gemini_endpoint p model m, hc_headers = [],
      hc_query = (''key'', unwrap_or (gp_api_key p) api_key_override) # extra, hc_timeout = gp_timeout p, hc_body = body\<rparr>"

section \<open>Replies\<close>

definition gemini_finish_reason :: "string \<Rightarrow> string" where
  "gemini_finish_reason reason = (if reason = ''MAX_TOKENS'' then ''length'' else ''stop'')"

definition gemini_usage :: "ge_usage_metadata \<Rightarrow> usage" where
  "gemini_usage m =
     \<lparr>us_prompt_tokens = gu_prompt_token_count m,
      us_completion_tokens = gu_candidates_token_count m,
      us_total_tokens = gu_total_token_count m,
      us_cached_tokens = positive (gu_cached_content_token_count m),
      us_cache_creation_tokens = None\<rparr>"

definition candidate_text :: "ge_candidate \<Rightarrow> string" where
  "candidate_text c = concat (map gpt_text (filter (\<lambda>p. \<not> gpt_thought p) (gca_parts c)))"

definition candidate_reasoning :: "ge_candidate \<Rightarrow> string option" where
  "candidate_reasoning c = some_list (concat (map gpt_text (filter gpt_thought (gca_parts c))))"

text \<open>Every call gets an identifier of its own reading of the clock.\<close>

fun call_list :: "(json \<Rightarrow> string) \<Rightarrow> (nat \<Rightarrow> nat) \<Rightarrow> nat \<Rightarrow> ge_function_call list \<Rightarrow> tool_call list" where
  "call_list print clock k [] = []"
| "call_list print clock k (fc # fcs) =
     tool_call_function (gen_id ''call'' (clock k)) (gf_name fc) (print (gf_args fc))
       # call_list print clock (Suc k) fcs"

definition candidate_tool_calls :: "(json \<Rightarrow> string) \<Rightarrow> (nat \<Rightarrow> nat) \<Rightarrow> ge_candidate \<Rightarrow> tool_call list" where
  "candidate_tool_calls print clock c =
     call_list print clock 0 (List.map_filter gpt_function_call (gca_parts c))"

definition resolve_finish_reason :: "ge_candidate \<Rightarrow> tool_call list \<Rightarrow> string option" where
  "resolve_finish_reason candidate tool_calls =
     (if tool_calls \<noteq> [] then Some ''tool_calls''
      else map_option gemini_finish_reason (gca_finish_reason candidate))"

definition tool_call_deltas :: "tool_call list \<Rightarrow> tool_call_delta list option" where
  "tool_call_deltas tool_calls =
     some_list (map (\<lambda>(i, tc).
        \<lparr>tcd_index = of_nat i, tcd_id = Some (tc_id tc), tcd_kind = Some ''function'',
         tcd_function = Some
           \<lparr>fcd_name = Some (call_name (tc_function tc)),
            fcd_arguments = Some (call_arguments (tc_function tc))\<rparr>\<rparr>)
      (enumerate 0 tool_calls))"

text \<open>The first candidate as text, reasoning, calls and finish reason; empty when there is none.\<close>

definition read_candidate :: "(json \<Rightarrow> string) \<Rightarrow> (nat \<Rightarrow> nat) \<Rightarrow> ge_response
    \<Rightarrow> string \<times> string option \<times> tool_call list \<times> string option" where
  "read_candidate print clock wire =
     (case grs_candidates wire of
        [] \<Rightarrow> ([], None, [], None)
      | c # _ \<Rightarrow>
          (let tool_calls = candidate_tool_calls print clock c
           in (candidate_text c, candidate_reasoning c, tool_calls,
               resolve_finish_reason c tool_calls)))"

definition gemini_chat :: "ge_codec \<Rightarrow> (ge_body, 'w) net \<Rightarrow> gemini_provider \<Rightarrow> string
    \<Rightarrow> chat_request \<Rightarrow> string option \<Rightarrow> 'w \<Rightarrow> (provider_error + chat_response) \<times> 'w" where
  "gemini_chat codec net p model req api_key_override =
     exchange (gx_value codec) net
       (gemini_post p model ''generateContent'' [] api_key_override
          (GeChat (gemini_request (gx_value codec) req)))
       (\<lambda>resp w.
          case response_json (gx_response codec) resp of
            Inl e \<Rightarrow> Inl e
          | Inr wire \<Rightarrow>
              (case read_candidate (gx_print codec) (nt_clock net w) wire of
                 (text, reasoning, tool_calls, finish_reason) \<Rightarrow>
                   let n = length tool_calls
                   in Inr \<lparr>rs_id = gen_id ''chatcmpl'' (nt_clock net w n),
                           rs_created = provider_now (nt_clock net w (n + 1)),
                           rs_model = ''gemini/'' @ model,
                           rs_choices =
                             [\<lparr>ch_index = 0,
                               ch_message =
                                 \<lparr>msg_role = Assistant, msg_content = text_content text,
                                  msg_name = None, msg_tool_calls = some_list tool_calls,
                                  msg_tool_call_id = None, msg_reasoning = reasoning,
                                  msg_cache_control = None\<rparr>,
                               ch_finish_reason = finish_reason, ch_logprobs = None\<rparr>],
                           rs_usage = Some (gemini_usage (grs_usage_metadata wire)),
                           rs_cost_usd = None\<rparr>))"

section \<open>Streams\<close>

definition gemini_event :: "ge_codec \<Rightarrow> string \<Rightarrow> (nat \<Rightarrow> nat) \<Rightarrow> string + string
    \<Rightarrow> (provider_error + chat_chunk) option" where
  "gemini_event codec full_model clock ev =
     (case ev of
        Inl e \<Rightarrow> Some (Inl (Decode e))
      | Inr data \<Rightarrow>
          (case gx_response codec data of
             Inl e \<Rightarrow> Some (Inl (Decode e))
           | Inr wire \<Rightarrow>
               (case read_candidate (gx_print codec) clock wire of
                  (text, reasoning, tool_calls, finish_reason) \<Rightarrow>
                    let n = length tool_calls
                    in Some (Inr
                         \<lparr>ck_id = gen_id ''chatcmpl'' (clock n),
                          ck_created = provider_now (clock (n + 1)), ck_model = full_model,
                          ck_choices =
                            [\<lparr>cc_index = 0,
                              cc_delta =
                                \<lparr>dl_role = Some Assistant, dl_content = some_list text,
                                 dl_tool_calls = tool_call_deltas tool_calls,
                                 dl_reasoning = reasoning\<rparr>,
                              cc_finish_reason = finish_reason, cc_logprobs = None\<rparr>],
                          ck_usage =
                            (if 0 < gu_total_token_count (grs_usage_metadata wire)
                             then Some (gemini_usage (grs_usage_metadata wire)) else None),
                          ck_cost_usd = None\<rparr>))))"

definition gemini_chat_stream :: "ge_codec \<Rightarrow> (ge_body, 'w) net \<Rightarrow> gemini_provider \<Rightarrow> string
    \<Rightarrow> chat_request \<Rightarrow> string option \<Rightarrow> 'w \<Rightarrow> (provider_error + chat_stream) \<times> 'w" where
  "gemini_chat_stream codec net p model req api_key_override =
     exchange (gx_value codec) net
       (gemini_post p model ''streamGenerateContent'' [(''alt'', ''sse'')] api_key_override
          (GeChat (gemini_request (gx_value codec) req)))
       (\<lambda>resp w.
          Inr (filter_map_events
                 (\<lambda>n. gemini_event codec (''gemini/'' @ model) (nt_event_clock net w n))
                 0 (hr_events resp)))"

section \<open>Embeddings\<close>

definition gemini_embeddings :: "ge_codec \<Rightarrow> (ge_body, 'w) net \<Rightarrow> gemini_provider \<Rightarrow> string
    \<Rightarrow> embeddings_request \<Rightarrow> string option \<Rightarrow> 'w
    \<Rightarrow> (provider_error + embeddings_response) \<times> 'w" where
  "gemini_embeddings codec net p model req api_key_override =
     exchange (gx_value codec) net
       (gemini_post p model ''batchEmbedContents'' [] api_key_override
          (GeEmbed (map (\<lambda>text. \<lparr>gi_model = ''models/'' @ model, gi_parts = [text]\<rparr>)
                      (input_as_slice (er_input req)))))
       (\<lambda>resp w.
          case response_json (gx_embeddings codec) resp of
            Inl e \<Rightarrow> Inl e
          | Inr values \<Rightarrow>
              Inr \<lparr>es_data =
                     map (\<lambda>(index, v). \<lparr>ed_embedding = v, ed_index = index\<rparr>)
                       (enumerate 0 values),
                   es_model = ''gemini/'' @ model, es_usage = None\<rparr>)"

end
