(* ===== verification/Gemini_Facts.thy ===== *)
theory Gemini_Facts
  imports Gemini_Adapter Stream_Client
begin

text \<open>
  What the Gemini adapter guarantees: a function response goes out under the name of the call it
  answers, as long as the identifiers the adapter made up for the calls differ; and what a client
  assembles from the calls of a stream.
\<close>

section \<open>Identifiers of calls\<close>

lemma call_list_ids:
  "map tc_id (call_list print clock k fcs) = map (\<lambda>i. gen_id ''call'' (clock i)) [k..<k + length fcs]"
proof (induction fcs arbitrary: k)
  case Nil then show ?case by simp
next
  case (Cons fc fcs)
  have "[k..<k + length (fc # fcs)] = k # [Suc k..<Suc k + length fcs]"
    by (subst upt_rec) simp
  with Cons show ?case by (simp add: tool_call_function_def)
qed

lemma call_list_distinct:
  "distinct (map tc_id (call_list print clock 0 fcs)) = inj_on clock {..<length fcs}"
  by (simp add: call_list_ids distinct_map inj_on_def gen_id_inj atLeast0LessThan)

lemma length_call_list [simp]: "length (call_list print clock k fcs) = length fcs"
  by (induction fcs arbitrary: k) simp_all

section \<open>The names of the calls\<close>

definition calls_of :: "chat_message \<Rightarrow> tool_call list" where
  "calls_of m = (if msg_role m = Assistant then unwrap_or [] (msg_tool_calls m) else [])"

lemma note_calls_append: "note_calls (xs @ ys) names = note_calls ys (note_calls xs names)"
  by (simp add: note_calls_def)

lemma note_calls_map_of:
  "note_calls tcs names
     = names ++ map_of (rev (map (\<lambda>tc. (tc_id tc, call_name (tc_function tc))) tcs))"
proof (induction tcs arbitrary: names)
  case Nil then show ?case by (simp add: note_calls_def)
next
  case (Cons tc tcs)
  have "note_calls (tc # tcs) names = note_calls tcs (names(tc_id tc \<mapsto> call_name (tc_function tc)))"
    by (simp add: note_calls_def)
  with Cons show ?case by (auto simp: map_add_def fun_eq_iff split: option.split)
qed

lemma note_calls_distinct:
  assumes "distinct (map tc_id tcs)" and "tc \<in> set tcs"
  shows "note_calls tcs names (tc_id tc) = Some (call_name (tc_function tc))"
proof -
  let ?kvs = "rev (map (\<lambda>tc. (tc_id tc, call_name (tc_function tc))) tcs)"
  have "map fst ?kvs = rev (map tc_id tcs)" by (simp add: rev_map comp_def)
  with assms(1) have "distinct (map fst ?kvs)" by (simp del: rev_map)
  moreover have "(tc_id tc, call_name (tc_function tc)) \<in> set ?kvs" using assms(2) by auto
  ultimately have "map_of ?kvs (tc_id tc) = Some (call_name (tc_function tc))"
    by (rule map_of_is_SomeI)
  then show ?thesis by (simp add: note_calls_map_of map_add_Some_iff)
qed

lemma collect_contents_append:
  "collect_contents parse (xs @ ys) system contents names =
     (case collect_contents parse xs system contents names of (system', contents') \<Rightarrow>
        collect_contents parse ys system' contents' (note_calls (concat (map calls_of xs)) names))"
proof (induction xs arbitrary: system contents names)
  case Nil then show ?case by (simp add: note_calls_def)
next
  case (Cons x xs)
  show ?case
    by (cases "msg_role x") (simp_all add: Cons.IH Let_def calls_of_def note_calls_append)
qed

text \<open>A tool's answer to a call.\<close>

definition tool_reply :: "tool_call \<Rightarrow> string \<Rightarrow> chat_message" where
  "tool_reply tc text = (plain_message ToolRole text)\<lparr>msg_tool_call_id := Some (tc_id tc)\<rparr>"

definition response_content :: "tool_call \<Rightarrow> string \<Rightarrow> ge_content" where
  "response_content tc text =
     \<lparr>gc_role = ''user'', gc_parts = [function_response_part (call_name (tc_function tc)) text]\<rparr>"

lemma collect_replies:
  assumes "\<forall>tc\<in>set tcs. names (tc_id tc) = Some (call_name (tc_function tc))"
  shows "collect_contents parse (map2 tool_reply tcs texts) system contents names
    = (system, contents @ map2 response_content tcs texts)"
  using assms
proof (induction tcs arbitrary: texts contents)
  case Nil then show ?case by simp
next
  case (Cons tc tcs)
  show ?case
  proof (cases texts)
    case Nil then show ?thesis by simp
  next
    case (Cons t ts)
    with Cons.prems Cons.IH show ?thesis
      by (simp add: tool_reply_def response_content_def content_text_def plain_message_def Let_def)
  qed
qed

text \<open>
  \<^bold>\<open>C38.\<close> Tool use round trip with Gemini, which knows a call by its function's name and not by an
  identifier: when the readings of the clock behind the identifiers made up for an answer's calls
  differ, a client that sends that answer back followed by one result per call has each result
  attributed to the function it is the result of, after whatever came before.
\<close>

theorem gemini_results_attributed:
  assumes "tcs = candidate_tool_calls print clock c"
    and "inj_on clock {..<length tcs}"
    and "msg_role m = Assistant" and "msg_tool_calls m = Some tcs"
  shows "snd (build_contents parse (history @ m # map2 tool_reply tcs texts))
    = snd (build_contents parse (history @ [m])) @ map2 response_content tcs texts"
proof -
  let ?names = "note_calls (concat (map calls_of (history @ [m]))) Map.empty"
  have "distinct (map tc_id tcs)"
    using assms(1,2) by (simp add: candidate_tool_calls_def call_list_distinct)
  then have names: "\<forall>tc\<in>set tcs. ?names (tc_id tc) = Some (call_name (tc_function tc))"
    using assms(3,4) by (simp add: calls_of_def note_calls_append note_calls_distinct)
  obtain s cs where first: "collect_contents parse (history @ [m]) [] [] Map.empty = (s, cs)"
    by (cases "collect_contents parse (history @ [m]) [] [] Map.empty")
  have "collect_contents parse ((history @ [m]) @ map2 tool_reply tcs texts) [] [] Map.empty
      = (s, cs @ map2 response_content tcs texts)"
    by (simp only: collect_contents_append [of parse "history @ [m]"] first prod.case
        collect_replies [OF names])
  with first show ?thesis by (simp add: build_contents_def)
qed

text \<open>
  Two calls, and a clock that moves on between the two readings.
\<close>

definition two_calls :: ge_candidate where
  "two_calls =
     \<lparr>gca_parts =
        [\<lparr>gpt_text = [], gpt_function_call = Some \<lparr>gf_name = ''f'', gf_args = JNull\<rparr>, gpt_thought = False\<rparr>,
         \<lparr>gpt_text = [], gpt_function_call = Some \<lparr>gf_name = ''g'', gf_args = JNull\<rparr>, gpt_thought = False\<rparr>],
      gca_finish_reason = Some ''STOP''\<rparr>"

lemma two_calls_list:
  "candidate_tool_calls (\<lambda>_. ''null'') clock two_calls
     = [tool_call_function (gen_id ''call'' (clock 0)) ''f'' ''null'',
        tool_call_function (gen_id ''call'' (clock 1)) ''g'' ''null'']"
  by (simp add: candidate_tool_calls_def two_calls_def List.map_filter_simps)

theorem gemini_results_attributed_witness:
  "let tcs = candidate_tool_calls (\<lambda>_. ''null'') (\<lambda>k. k) two_calls;
       m = (assistant_message [])\<lparr>msg_tool_calls := Some tcs\<rparr>
   in drop 1 (snd (build_contents (\<lambda>_. Inl []) (m # map2 tool_reply tcs [''1'', ''2''])))
      = [\<lparr>gc_role = ''user'', gc_parts = [function_response_part ''f'' ''1'']\<rparr>,
         \<lparr>gc_role = ''user'', gc_parts = [function_response_part ''g'' ''2'']\<rparr>]"
proof -
  let ?tcs = "candidate_tool_calls (\<lambda>_. ''null'') (\<lambda>k. k) two_calls"
  let ?m = "(assistant_message [])\<lparr>msg_tool_calls := Some ?tcs\<rparr>"
  have "snd (build_contents (\<lambda>_. Inl []) ([] @ ?m # map2 tool_reply ?tcs [''1'', ''2'']))
      = snd (build_contents (\<lambda>_. Inl []) ([] @ [?m])) @ map2 response_content ?tcs [''1'', ''2'']"
    by (rule gemini_results_attributed [of _ "\<lambda>_. ''null''" "\<lambda>k. k" two_calls]) simp_all
  moreover have "length (snd (build_contents (\<lambda>_. Inl []) [?m])) = 1"
    by (simp add: build_contents_def)
  moreover have "map2 response_content ?tcs [''1'', ''2'']
      = [\<lparr>gc_role = ''user'', gc_parts = [function_response_part ''f'' ''1'']\<rparr>,
         \<lparr>gc_role = ''user'', gc_parts = [function_response_part ''g'' ''2'']\<rparr>]"
    by (simp add: two_calls_list response_content_def tool_call_function_def)
  ultimately show ?thesis by (simp add: Let_def)
qed

text \<open>
  Within one tick of the clock the identifiers coincide, and the results of all these calls go out
  under the name of the last one.
\<close>

lemma one_tick_one_name:
  assumes "clock 0 = clock 1"
    and "tcs = call_list print clock 0 [a, b]"
    and "msg_role m = Assistant" and "msg_tool_calls m = Some tcs" and "msg_content m = None"
  shows "drop 1 (snd (build_contents parse (m # map2 tool_reply tcs [s, t])))
    = [\<lparr>gc_role = ''user'', gc_parts = [function_response_part (gf_name b) s]\<rparr>,
       \<lparr>gc_role = ''user'', gc_parts = [function_response_part (gf_name b) t]\<rparr>]"
  using assms
  by (simp add: build_contents_def note_calls_def tool_call_function_def tool_reply_def
      plain_message_def content_text_def Let_def)

section \<open>Calls in a stream\<close>

lemma assemble_fresh:
  assumes "distinct (map tcd_index ds)" and "set (map tcd_index ds) \<inter> fst ` set acc = {}"
  shows "foldl assemble_call acc ds
    = acc @ map (\<lambda>d. (tcd_index d,
        tool_call_function (unwrap_or [] (tcd_id d)) (delta_name d) (delta_arguments d))) ds"
  using assms
proof (induction ds arbitrary: acc)
  case Nil then show ?case by simp
next
  case (Cons d ds)
  have "assemble_call acc d = acc @ [(tcd_index d,
      tool_call_function (unwrap_or [] (tcd_id d)) (delta_name d) (delta_arguments d))]"
    using Cons.prems(2) by (intro assemble_open) auto
  moreover have "set (map tcd_index ds) \<inter> fst ` set (acc @ [(tcd_index d,
      tool_call_function (unwrap_or [] (tcd_id d)) (delta_name d) (delta_arguments d))]) = {}"
    using Cons.prems by auto
  ultimately show ?case using Cons by simp
qed

definition is_function_call :: "tool_call \<Rightarrow> bool" where
  "is_function_call tc \<longleftrightarrow> tc_kind tc = ''function''"

lemma tool_call_eta:
  "is_function_call tc \<Longrightarrow>
   tool_call_function (tc_id tc) (call_name (tc_function tc)) (call_arguments (tc_function tc)) = tc"
  by (simp add: is_function_call_def tool_call_function_def)

lemma call_list_function: "tc \<in> set (call_list print clock k fcs) \<Longrightarrow> is_function_call tc"
  by (induction fcs arbitrary: k) (auto simp: is_function_call_def tool_call_function_def)

text \<open>
  The calls of one event of a Gemini stream reach the client whole: assembled from the deltas
  of its chunk they are the calls the non-streaming answer has. The indexes start from \<open>0\<close> in every
  chunk, though: of two calls that arrive in two events the client makes one, with the first one's
  name and the arguments of both.
\<close>

theorem gemini_stream_calls:
  assumes "tcs = candidate_tool_calls print clock c" and "length tcs < 2 ^ 32"
  shows "assembled (unwrap_or [] (tool_call_deltas tcs)) = tcs
    \<and> assembled (unwrap_or [] (tool_call_deltas [tool_call_function i f x])
                  @ unwrap_or [] (tool_call_deltas [tool_call_function j g y]))
        = [tool_call_function i f (x @ y)]"
proof
  let ?d = "\<lambda>(i, tc). \<lparr>tcd_index = of_nat i, tcd_id = Some (tc_id tc), tcd_kind = Some ''function'',
      tcd_function = Some \<lparr>fcd_name = Some (call_name (tc_function tc)),
                           fcd_arguments = Some (call_arguments (tc_function tc))\<rparr>\<rparr>"
  let ?ds = "map ?d (enumerate 0 tcs)"
  have deltas: "unwrap_or [] (tool_call_deltas tcs) = ?ds"
    by (simp add: tool_call_deltas_def some_list_def)
  have "map tcd_index ?ds = map of_nat [0..<length tcs]"
    by (simp add: comp_def case_prod_beta flip: map_map [of of_nat fst, unfolded comp_def])
  moreover have "inj_on (of_nat :: nat \<Rightarrow> u32) {0..<length tcs}"
    using assms(2) by (intro inj_onI) (auto simp: word_of_nat_eq_iff take_bit_nat_eq_self)
  ultimately have "distinct (map tcd_index ?ds)" by (simp only: distinct_map distinct_upt set_upt)
  then have "assembled ?ds = map (\<lambda>d.
      tool_call_function (unwrap_or [] (tcd_id d)) (delta_name d) (delta_arguments d)) ?ds"
    by (simp add: assembled_def assemble_fresh comp_def)
  also have "\<dots> = map (\<lambda>tc. tool_call_function (tc_id tc) (call_name (tc_function tc))
      (call_arguments (tc_function tc))) (map snd (enumerate 0 tcs))"
    by (simp add: delta_name_def delta_arguments_def case_prod_beta comp_def del: map_snd_enumerate)
  also have "\<dots> = tcs"
    using call_list_function by (auto simp: assms(1) candidate_tool_calls_def intro!: map_idI tool_call_eta)
  finally show "assembled (unwrap_or [] (tool_call_deltas tcs)) = tcs" by (simp only: deltas)
next
  show "assembled (unwrap_or [] (tool_call_deltas [tool_call_function i f x])
        @ unwrap_or [] (tool_call_deltas [tool_call_function j g y]))
      = [tool_call_function i f (x @ y)]"
    by (simp add: tool_call_deltas_def some_list_def assembled_def assemble_call_def delta_name_def
        delta_arguments_def tool_call_function_def extend_call_def)
qed

theorem gemini_stream_calls_witness:
  "length (candidate_tool_calls (\<lambda>_. ''null'') (\<lambda>k. k) two_calls) = 2
   \<and> assembled (unwrap_or [] (tool_call_deltas (candidate_tool_calls (\<lambda>_. ''null'') (\<lambda>k. k) two_calls)))
       = candidate_tool_calls (\<lambda>_. ''null'') (\<lambda>k. k) two_calls"
  using gemini_stream_calls [of "candidate_tool_calls (\<lambda>_. ''null'') (\<lambda>k. k) two_calls"
      "\<lambda>_. ''null''" "\<lambda>k. k" two_calls]
  by (simp add: two_calls_list)

end
