(* ===== verification/Config.thy ===== *)
theory Config
  imports Wire_Types
begin

text \<open>
  The configuration the router is built from (\<open>crates/router/src/config.rs\<close>): one record per
  \<open>config.toml\<close> section, and the values \<open>serde\<close> fills in for fields the file leaves out. Parsing
  TOML itself is the \<open>toml\<close> crate's work and is not modelled: a \<open>config\<close> is what it returns. A
  \<open>HashMap\<close> of the source (\<open>[providers.*]\<close>) is a partial function, a \<open>Vec\<close> a list.
\<close>

section \<open>Server and providers\<close>

definition default_host :: string where
  "default_host = ''0.0.0.0''"

definition default_port :: u16 where
  "default_port = 8080"

definition default_max_body_bytes :: nat where
  "default_max_body_bytes = 20 * 1024 * 1024"

record server_config =
  sc_host :: string
  sc_port :: u16
  sc_max_body_bytes :: nat
  sc_api_key_env :: "string option"
  sc_default_rate_limit_rpm :: "u32 option"
  sc_admin_key_env :: "string option"
  sc_max_concurrent_requests :: "nat option"
  sc_cors_allowed_origins :: "string list option"

definition default_server_config :: server_config where
  "default_server_config =
     \<lparr>sc_host = default_host, sc_port = default_port, sc_max_body_bytes = default_max_body_bytes,
      sc_api_key_env = None, sc_default_rate_limit_rpm = None, sc_admin_key_env = None,
      sc_max_concurrent_requests = None, sc_cors_allowed_origins = None\<rparr>"

datatype provider_kind = Openai | Anthropic | Gemini

definition default_provider_timeout_secs :: u64 where
  "default_provider_timeout_secs = 300"

record provider_config =
  pc_kind :: provider_kind
  pc_base_url :: string
  pc_api_key_env :: string
  pc_timeout_secs :: u64
  pc_zdr :: bool
  pc_no_training :: bool
  pc_requests_per_minute :: "u32 option"

definition default_fusion_timeout_secs :: u64 where
  "default_fusion_timeout_secs = 30"

datatype route_strategy = Fallback | Fusion

record route_alias =
  ra_alias :: string
  ra_chain :: "string list"
  ra_strategy :: route_strategy
  ra_judge :: "string option"
  ra_fusion_timeout_secs :: u64

record pricing_entry =
  pe_model :: string
  pe_prompt_per_million :: f64
  pe_completion_per_million :: f64
  pe_cache_read_per_million :: "f64 option"
  pe_cache_write_per_million :: "f64 option"
  pe_context_length :: "u32 option"
  pe_quality_score :: "f64 option"

section \<open>Budgets and clients\<close>

datatype budget_period = Total | Daily | Weekly | Monthly

record free_tier_entry =
  ft_model :: string
  ft_monthly_free_tokens :: u64
  ft_period :: budget_period

definition default_free_tier_period :: budget_period where
  "default_free_tier_period = Monthly"

datatype client_role = Member | Admin

record client_config =
  cl_name :: string
  cl_api_key_env :: string
  cl_requests_per_minute :: u32
  cl_budget_usd :: "f64 option"
  cl_budget_period :: budget_period
  cl_budget_warning_threshold :: "f64 option"
  cl_organization :: "string option"
  cl_workspace :: "string option"
  cl_role :: client_role

section \<open>Persistence, policies and caches\<close>

datatype persistence_backend = Sqlite | Postgres

datatype postgres_tls_mode = Disable | Require

record persistence_config =
  pst_backend :: persistence_backend
  pst_sqlite_path :: "string option"
  pst_postgres_url_env :: "string option"
  pst_postgres_tls :: postgres_tls_mode

datatype mcp_upstream_transport =
    Stdio string "string list"
  | Http string "string option"

record mcp_upstream_config =
  mu_name :: string
  mu_transport :: mcp_upstream_transport

definition default_mcp_path :: string where
  "default_mcp_path = ''/mcp''"

definition default_mcp_reconnect_backoff_secs :: u64 where
  "default_mcp_reconnect_backoff_secs = 1"

definition default_mcp_reconnect_backoff_max_secs :: u64 where
  "default_mcp_reconnect_backoff_max_secs = 60"

record mcp_config =
  mcp_enabled :: bool
  mcp_path :: string
  mcp_upstreams :: "mcp_upstream_config list"
  mcp_reconnect_backoff_secs :: u64
  mcp_reconnect_backoff_max_secs :: u64
  mcp_max_reconnect_attempts :: "u32 option"

definition default_jwks_cache_secs :: u64 where
  "default_jwks_cache_secs = 300"

record jwt_config =
  jw_jwks_url :: "string option"
  jw_hs256_secret_env :: "string option"
  jw_issuer :: "string option"
  jw_audience :: "string option"
  jw_jwks_cache_secs :: u64
  jw_client_claim :: "string option"

record auto_routing_config =
  ar_simple_model :: string
  ar_medium_model :: string
  ar_complex_model :: string
  ar_simple_max_score :: u32
  ar_medium_max_score :: u32

definition default_simple_max_score :: u32 where
  "default_simple_max_score = 200"

definition default_medium_max_score :: u32 where
  "default_medium_max_score = 800"

record preset_config =
  pr_name :: string
  pr_model :: "string option"
  pr_system_prompt :: "string option"
  pr_provider :: "provider_preferences option"
  pr_temperature :: "f32 option"
  pr_top_p :: "f32 option"
  pr_max_tokens :: "u32 option"
  pr_stop :: "string list option"
  pr_top_k :: "u32 option"
  pr_min_p :: "f32 option"
  pr_top_a :: "f32 option"
  pr_frequency_penalty :: "f32 option"
  pr_presence_penalty :: "f32 option"
  pr_repetition_penalty :: "f32 option"
  pr_logit_bias :: "(string \<rightharpoonup> f32) option"
  pr_seed :: "i64 option"

datatype guardrail_action = Block | Redact

definition default_guardrail_replacement :: string where
  "default_guardrail_replacement = ''[redacted]''"

record guardrail_config =
  gc_name :: string
  gc_pattern :: string
  gc_action :: guardrail_action
  gc_replacement :: string

definition default_auxiliary_timeout_secs :: u64 where
  "default_auxiliary_timeout_secs = 10"

definition default_webhook_retry_backoff_secs :: u64 where
  "default_webhook_retry_backoff_secs = 1"

definition default_webhook_retry_backoff_max_secs :: u64 where
  "default_webhook_retry_backoff_max_secs = 30"

definition default_webhook_max_retries :: u32 where
  "default_webhook_max_retries = 3"

record webhook_config =
  wh_url :: string
  wh_auth_header_env :: "string option"
  wh_timeout_secs :: u64
  wh_signing_secret_env :: "string option"
  wh_retry_backoff_secs :: u64
  wh_retry_backoff_max_secs :: u64
  wh_max_retries :: u32

definition default_moderation_base_url :: string where
  "default_moderation_base_url = ''https://api.openai.com/v1''"

definition default_moderation_model :: string where
  "default_moderation_model = ''omni-moderation-latest''"

record moderation_config =
  mo_api_key_env :: string
  mo_base_url :: string
  mo_model :: string
  mo_timeout_secs :: u64

definition default_web_search_base_url :: string where
  "default_web_search_base_url = ''https://api.search.brave.com/res/v1/web/search''"

definition default_web_search_max_results :: u32 where
  "default_web_search_max_results = 5"

record web_search_config =
  ws_api_key_env :: string
  ws_base_url :: string
  ws_max_results :: u32
  ws_timeout_secs :: u64

definition default_cache_ttl_secs :: u64 where
  "default_cache_ttl_secs = 300"

definition default_cache_max_entries :: nat where
  "default_cache_max_entries = 1000"

definition default_similarity_threshold :: f64 where
  "default_similarity_threshold = 85 / 100"

datatype cache_mode = Exact | Semantic

record cache_config =
  ca_ttl_secs :: u64
  ca_max_entries :: nat
  ca_mode :: cache_mode
  ca_similarity_threshold :: f64
  ca_embedding_model :: "string option"

section \<open>The whole configuration\<close>

record config =
  cf_server :: server_config
  cf_providers :: "string \<rightharpoonup> provider_config"
  cf_routes :: "route_alias list"
  cf_pricing :: "pricing_entry list"
  cf_clients :: "client_config list"
  cf_persistence :: "persistence_config option"
  cf_webhook :: "webhook_config option"
  cf_guardrails :: "guardrail_config list"
  cf_presets :: "preset_config list"
  cf_auto_routing :: "auto_routing_config option"
  cf_moderation :: "moderation_config option"
  cf_web_search :: "web_search_config option"
  cf_cache :: "cache_config option"
  cf_free_tiers :: "free_tier_entry list"
  cf_jwt :: "jwt_config option"
  cf_mcp :: "mcp_config option"

text \<open>\<open>collect()\<close> of key/value pairs into a \<open>HashMap\<close>: the last pair of a key wins.\<close>

definition collect_map :: "('k \<times> 'v) list \<Rightarrow> ('k \<rightharpoonup> 'v)" where
  "collect_map kvs = map_of (rev kvs)"

lemma collect_map_Nil [simp]: "collect_map [] = Map.empty"
  by (simp add: collect_map_def)

lemma collect_map_snoc [simp]: "collect_map (kvs @ [(k, v)]) = (collect_map kvs)(k \<mapsto> v)"
  by (simp add: collect_map_def)

lemma dom_collect_map [simp]: "dom (collect_map kvs) = fst ` set kvs"
  by (simp add: collect_map_def dom_map_of_conv_image_fst)

lemma collect_map_SomeD: "collect_map kvs k = Some v \<Longrightarrow> (k, v) \<in> set kvs"
  by (auto simp: collect_map_def dest: map_of_SomeD)

section \<open>Finitely many kinds and periods\<close>

text \<open>The enumerations of the configuration, so that a property of all of them is decided by
  evaluation.\<close>

instantiation provider_kind :: enum
begin

definition enum_provider_kind :: "provider_kind list" where
  "enum_provider_kind = [Openai, Anthropic, Gemini]"

definition enum_all_provider_kind :: "(provider_kind \<Rightarrow> bool) \<Rightarrow> bool" where
  "enum_all_provider_kind P \<longleftrightarrow> P Openai \<and> P Anthropic \<and> P Gemini"

definition enum_ex_provider_kind :: "(provider_kind \<Rightarrow> bool) \<Rightarrow> bool" where
  "enum_ex_provider_kind P \<longleftrightarrow> P Openai \<or> P Anthropic \<or> P Gemini"

instance
proof
  show "(UNIV :: provider_kind set) = set enum_class.enum"
    by (auto simp: enum_provider_kind_def intro: provider_kind.exhaust)
  show "distinct (enum_class.enum :: provider_kind list)"
    by (simp add: enum_provider_kind_def)
  fix P :: "provider_kind \<Rightarrow> bool"
  show "enum_class.enum_all P \<longleftrightarrow> Ball UNIV P"
    by (metis (full_types) UNIV_I enum_all_provider_kind_def provider_kind.exhaust)
  show "enum_class.enum_ex P \<longleftrightarrow> Bex UNIV P"
    by (metis (full_types) UNIV_I enum_ex_provider_kind_def provider_kind.exhaust)
qed

end

instantiation budget_period :: enum
begin

definition enum_budget_period :: "budget_period list" where
  "enum_budget_period = [Total, Daily, Weekly, Monthly]"

definition enum_all_budget_period :: "(budget_period \<Rightarrow> bool) \<Rightarrow> bool" where
  "enum_all_budget_period P \<longleftrightarrow> P Total \<and> P Daily \<and> P Weekly \<and> P Monthly"

definition enum_ex_budget_period :: "(budget_period \<Rightarrow> bool) \<Rightarrow> bool" where
  "enum_ex_budget_period P \<longleftrightarrow> P Total \<or> P Daily \<or> P Weekly \<or> P Monthly"

instance
proof
  show "(UNIV :: budget_period set) = set enum_class.enum"
    by (auto simp: enum_budget_period_def intro: budget_period.exhaust)
  show "distinct (enum_class.enum :: budget_period list)"
    by (simp add: enum_budget_period_def)
  fix P :: "budget_period \<Rightarrow> bool"
  show "enum_class.enum_all P \<longleftrightarrow> Ball UNIV P"
    by (metis (full_types) UNIV_I enum_all_budget_period_def budget_period.exhaust)
  show "enum_class.enum_ex P \<longleftrightarrow> Bex UNIV P"
    by (metis (full_types) UNIV_I enum_ex_budget_period_def budget_period.exhaust)
qed

end

end
