(* ===== verification/Client_Budget.thy ===== *)
theory Client_Budget
  imports Config "HOL-Library.Signed_Division"
begin

text \<open>
  The calendar and period arithmetic behind spend budgets and free-tier counters
  (\<open>crates/router/src/client_budget.rs\<close>). A budget period is identified by a key that changes
  exactly when tracked amounts reset; the month key comes from a civil-date computation, which is
  checked here against an independent description of the Gregorian calendar.
\<close>

section \<open>Settings\<close>

record client_budget_setting =
  bs_budget_usd :: f64
  bs_period :: budget_period
  bs_warning_threshold :: "f64 option"

record spend_state =
  sp_period_key :: i64
  sp_spent_usd :: f64

definition default_spend_state :: spend_state where
  "default_spend_state = \<lparr>sp_period_key = 0, sp_spent_usd = 0\<rparr>"

definition settings_from_clients :: "client_config list \<Rightarrow> (string \<rightharpoonup> client_budget_setting)" where
  "settings_from_clients clients =
     collect_map (List.map_filter
       (\<lambda>c. map_option
              (\<lambda>b. (cl_name c,
                    \<lparr>bs_budget_usd = b, bs_period = cl_budget_period c,
                     bs_warning_threshold = cl_budget_warning_threshold c\<rparr>))
              (cl_budget_usd c))
       clients)"

section \<open>Civil dates\<close>

text \<open>Rust's \<open>/\<close> on \<open>i64\<close> truncates (\<open>sdiv\<close>); \<open>as i32\<close> keeps the low 32 bits.\<close>

definition as_i32 :: "int \<Rightarrow> int" where
  "as_i32 n = signed_take_bit 31 n"

definition ymd_from_days :: "i64 \<Rightarrow> int \<times> int \<times> int" where
  "ymd_from_days days =
     (let z = days + 719468;
          era = (if 0 \<le> z then z else z - 146096) sdiv 146097;
          doe = z - era * 146097;
          yoe = (doe - doe sdiv 1460 + doe sdiv 36524 - doe sdiv 146096) sdiv 365;
          y = yoe + era * 400;
          doy = doe - (365 * yoe + yoe sdiv 4 - yoe sdiv 100);
          mp = (5 * doy + 2) sdiv 153;
          d = doy - (153 * mp + 2) sdiv 5 + 1;
          m = (if mp < 10 then mp + 3 else mp - 9);
          y = (if m \<le> 2 then y + 1 else y)
      in (as_i32 y, m, d))"

definition year_month_from_unix :: "i64 \<Rightarrow> int \<times> int" where
  "year_month_from_unix unix_secs =
     (case ymd_from_days (unix_secs div 86400) of (y, m, d) \<Rightarrow> (y, m))"

fun period_key_at :: "budget_period \<Rightarrow> i64 \<Rightarrow> i64" where
  "period_key_at Total now_unix = 0"
| "period_key_at Daily now_unix = now_unix div 86400"
| "period_key_at Weekly now_unix = (now_unix div 86400) div 7"
| "period_key_at Monthly now_unix =
     (case year_month_from_unix now_unix of (year, month) \<Rightarrow> year * 12 + month)"

definition show_int_padded :: "nat \<Rightarrow> int \<Rightarrow> string" where
  "show_int_padded w n =
     (if n < 0 then CHR ''-'' # show_padded (w - 1) (nat (- n)) else show_padded w (nat n))"

definition day_string :: "i64 \<Rightarrow> string" where
  "day_string day_index =
     (case ymd_from_days day_index of (y, m, d) \<Rightarrow>
        show_int_padded 4 y @ ''-'' @ show_int_padded 2 m @ ''-'' @ show_int_padded 2 d)"

definition roll_period_if_needed :: "spend_state \<Rightarrow> i64 \<Rightarrow> spend_state" where
  "roll_period_if_needed state current_key =
     (if sp_period_key state \<noteq> current_key
      then state\<lparr>sp_period_key := current_key, sp_spent_usd := 0\<rparr>
      else state)"

section \<open>The Gregorian calendar\<close>

text \<open>
  The specification: leap years, lengths of months, and the number of a date counted from
  1970-01-01, all written from the calendar's rules and sharing nothing with the code above.
\<close>

definition is_leap :: "int \<Rightarrow> bool" where
  "is_leap y \<longleftrightarrow> (4 dvd y \<and> \<not> 100 dvd y) \<or> 400 dvd y"

definition days_in_month :: "int \<Rightarrow> int \<Rightarrow> int" where
  "days_in_month y m =
     (if m = 2 then (if is_leap y then 29 else 28)
      else if m \<in> {4, 6, 9, 11} then 30 else 31)"

definition valid_date :: "int \<Rightarrow> int \<Rightarrow> int \<Rightarrow> bool" where
  "valid_date y m d \<longleftrightarrow> 1 \<le> m \<and> m \<le> 12 \<and> 1 \<le> d \<and> d \<le> days_in_month y m"

definition leaps_to :: "int \<Rightarrow> int" where
  "leaps_to y = y div 4 - y div 100 + y div 400"

definition days_before_year :: "int \<Rightarrow> int" where
  "days_before_year y = 365 * (y - 1970) + leaps_to (y - 1) - leaps_to 1969"

definition days_before_month :: "int \<Rightarrow> int \<Rightarrow> int" where
  "days_before_month y m = sum_list (map (days_in_month y) [1..m - 1])"

definition day_number :: "int \<Rightarrow> int \<Rightarrow> int \<Rightarrow> int" where
  "day_number y m d = days_before_year y + days_before_month y m + d - 1"

lemma leaps_to_step: "leaps_to y = leaps_to (y - 1) + (if is_leap y then 1 else 0)"
proof -
  have one: "y div n = (y - 1) div n + (if n dvd y then 1 else 0)" if "0 < n" for n :: int
  proof (cases "n dvd y")
    case True
    then obtain k where k: "y = n * k" by blast
    have "(n * k - 1) div n = k - 1"
      using that by (intro int_div_pos_eq [where r = "n - 1"]) (auto simp: algebra_simps)
    with k that True show ?thesis by simp
  next
    case False
    then have "y mod n \<noteq> 0" by (simp add: dvd_eq_mod_eq_0)
    moreover have "0 \<le> y mod n" "y mod n < n" using that by simp_all
    ultimately have "(y - 1) div n = y div n"
      by (intro int_div_pos_eq [where r = "y mod n - 1"])
        (simp_all add: algebra_simps minus_mult_div_eq_mod [symmetric])
    with False show ?thesis by simp
  qed
  have "400 dvd y \<Longrightarrow> 100 dvd y" "100 dvd y \<Longrightarrow> 4 dvd y" by (auto elim: dvd_trans [rotated])
  then have days: "(if 4 dvd y then 1 else 0) - (if 100 dvd y then 1 else 0) + (if 400 dvd y then 1 else 0)
      = (if is_leap y then 1 else (0::int))"
    unfolding is_leap_def
    by (cases "400 dvd y"; cases "100 dvd y"; cases "4 dvd y") (simp_all only: if_True if_False simp_thms, simp_all)
  have split: "a - b + c = (a' - b' + c') + (p - q + r)" if "a = a' + p" "b = b' + q" "c = c' + r"
    for a b c a' b' c' p q r :: int
    using that by simp
  show ?thesis
    unfolding leaps_to_def days [symmetric] by (rule split) (rule one, simp)+
qed

lemma days_before_year_step:
  "days_before_year (y + 1) = days_before_year y + (if is_leap y then 366 else 365)"
  using leaps_to_step [of y] by (simp add: days_before_year_def)

lemma days_before_month_table:
  "days_before_month y 1 = 0"
  "days_before_month y 2 = 31"
  "3 \<le> m \<Longrightarrow> m \<le> 12 \<Longrightarrow>
     days_before_month y m
       = (if is_leap y then 60 else 59)
         + (if m = 3 then 0 else if m = 4 then 31 else if m = 5 then 61 else if m = 6 then 92
            else if m = 7 then 122 else if m = 8 then 153 else if m = 9 then 184
            else if m = 10 then 214 else if m = 11 then 245 else 275)"
proof -
  show "days_before_month y 1 = 0" "days_before_month y 2 = 31"
    by (simp_all add: days_before_month_def days_in_month_def upto.simps)
  assume "3 \<le> m" "m \<le> 12"
  then have "m = 3 \<or> m = 4 \<or> m = 5 \<or> m = 6 \<or> m = 7 \<or> m = 8 \<or> m = 9 \<or> m = 10 \<or> m = 11 \<or> m = 12"
    by presburger
  then show "days_before_month y m
       = (if is_leap y then 60 else 59)
         + (if m = 3 then 0 else if m = 4 then 31 else if m = 5 then 61 else if m = 6 then 92
            else if m = 7 then 122 else if m = 8 then 153 else if m = 9 then 184
            else if m = 10 then 214 else if m = 11 then 245 else 275)"
    by (elim disjE) (simp_all add: days_before_month_def days_in_month_def upto.simps)
qed

section \<open>The days of a 400-year era\<close>

text \<open>The code counts years from March: year \<open>k\<close> of an era begins at day \<open>era_start k\<close>.\<close>

definition era_start :: "int \<Rightarrow> int" where
  "era_start k = 365 * k + k div 4 - k div 100 + k div 400"

definition era_year :: "int \<Rightarrow> int" where
  "era_year doe = (doe - doe div 1460 + doe div 36524 - doe div 146096) div 365"

lemma sdiv_pos: "0 \<le> a \<Longrightarrow> 0 < b \<Longrightarrow> a sdiv b = a div b" for a b :: int
  by (simp add: signed_divide_int_def sgn_if)

lemma era_year_mono:
  assumes "a \<le> b" shows "era_year a \<le> era_year b"
proof -
  have sub: "x - x div n \<le> y - y div n" if "x \<le> y" "1 < n" for x y n :: int
  proof -
    have "y div n = (x + (y - x)) div n" by simp
    also have "\<dots> \<le> (x + n * (y - x)) div n"
      using that mult_right_mono [of 1 n "y - x"] by (intro zdiv_mono1) simp_all
    also have "\<dots> = x div n + (y - x)" using that by simp
    finally show ?thesis by simp
  qed
  have quart: "x div 146096 = (x div 36524) div 4" for x :: int
    by (simp add: zdiv_zmult2_eq [symmetric])
  have "a - a div 1460 \<le> b - b div 1460" using assms by (rule sub) simp
  moreover have "a div 36524 - a div 146096 \<le> b div 36524 - b div 146096"
    unfolding quart using assms by (intro sub zdiv_mono1) simp_all
  ultimately show ?thesis unfolding era_year_def by (intro zdiv_mono1) simp_all
qed

text \<open>At the first and the last day of each of the 400 years, by evaluation.\<close>

lemma era_year_ends:
  "\<forall>k\<in>set [0..399]. era_year (era_start k) = k \<and> era_year (era_start (k + 1) - 1) = k"
  by code_simp

lemma era_year_char:
  assumes "0 \<le> k" "k < 400" "era_start k \<le> doe" "doe < era_start (k + 1)"
  shows "era_year doe = k"
proof -
  have "k \<in> set [0..399]" using assms by simp
  then have "era_year (era_start k) = k" "era_year (era_start (k + 1) - 1) = k"
    using era_year_ends by blast+
  moreover have "era_year (era_start k) \<le> era_year doe"
    "era_year doe \<le> era_year (era_start (k + 1) - 1)"
    using assms by (simp_all add: era_year_mono)
  ultimately show ?thesis by simp
qed

lemma era_year_exists:
  assumes "0 \<le> doe" "doe < 146097"
  shows "\<exists>k. 0 \<le> k \<and> k < 400 \<and> era_start k \<le> doe \<and> doe < era_start (k + 1)"
proof -
  have "\<exists>k<n. era_start (int k) \<le> doe \<and> doe < era_start (int k + 1)"
    if "doe < era_start (int n)" for n
    using that
  proof (induction n)
    case 0 then show ?case using assms by (simp add: era_start_def)
  next
    case (Suc n)
    then show ?case
      by (cases "doe < era_start (int n)") (auto simp: less_Suc_eq add.commute)
  qed
  moreover have "doe < era_start (int 400)" using assms(2) by (simp add: era_start_def)
  ultimately obtain k :: nat where "k < 400" "era_start (int k) \<le> doe" "doe < era_start (int k + 1)"
    by blast
  then show ?thesis by (intro exI [of _ "int k"]) simp
qed

lemma era_start_step: "era_start (k + 1) = era_start k + (if is_leap (k + 1) then 366 else 365)"
  using leaps_to_step [of "k + 1"]
  by (cases "is_leap (k + 1)") (simp_all add: era_start_def leaps_to_def)

text \<open>Months counted from March: for each day of a year, month and day of the month.\<close>

definition march_days :: "int \<Rightarrow> int" where
  "march_days mp = (153 * mp + 2) div 5"

lemma march_table:
  "\<forall>doy\<in>set [0..365].
     (let mp = (5 * doy + 2) div 153; d = doy - march_days mp + 1
      in 0 \<le> mp \<and> mp \<le> 11 \<and> 1 \<le> d
         \<and> d \<le> (if mp = 11 then (if doy = 365 then 29 else 28)
                 else if mp \<in> set [1, 3, 6, 8] then 30 else 31))"
  by code_simp

section \<open>Correctness of the date computation\<close>

lemma ymd_from_days_unfold:
  assumes "z = days + 719468" "doe = z mod 146097" "k = era_year doe" "y = k + z div 146097 * 400"
    and "doy = doe - (365 * k + k div 4 - k div 100)" "mp = (5 * doy + 2) div 153"
    and "0 \<le> k" "0 \<le> doy" "mp \<le> 11"
  shows "ymd_from_days days =
    (as_i32 (if mp < 10 then y else y + 1),
     if mp < 10 then mp + 3 else mp - 9, doy - march_days mp + 1)"
proof -
  have era: "(if 0 \<le> z then z else z - 146096) sdiv 146097 = z div 146097"
  proof (cases "0 \<le> z")
    case True then show ?thesis by (simp add: sdiv_pos)
  next
    case False
    have "- ((146096 - z) div 146097) = z div 146097"
    proof -
      have "(146096 - z) div 146097 = - (z div 146097)"
        by (intro int_div_pos_eq [where r = "146096 - z mod 146097"])
          (simp_all add: minus_mult_div_eq_mod [symmetric] algebra_simps)
      then show ?thesis by simp
    qed
    with False show ?thesis by (simp add: signed_divide_int_def sgn_if abs_if)
  qed
  have doe: "z - z div 146097 * 146097 = doe" "0 \<le> doe" "doe < 146097"
    using assms(2) by (simp_all add: minus_div_mult_eq_mod)
  have "doe div 1460 \<le> doe div 1" "doe div 146096 \<le> doe div 36524"
    using doe(2) by (intro zdiv_mono2; simp)+
  then have yoe: "(doe - doe sdiv 1460 + doe sdiv 36524 - doe sdiv 146096) sdiv 365 = k"
    using doe(2) assms(3) by (simp add: sdiv_pos era_year_def)
  have mp: "0 \<le> mp" using assms(6,8) by simp
  have kd: "k sdiv 4 = k div 4" "k sdiv 100 = k div 100"
    using assms(7) by (simp_all add: sdiv_pos)
  have md: "(5 * doy + 2) sdiv 153 = mp" "(153 * mp + 2) sdiv 5 = march_days mp"
    using assms(6,8) mp by (simp_all add: sdiv_pos march_days_def)
  have fin: "(as_i32 (if (if mp < 10 then mp + 3 else mp - 9) \<le> 2 then y + 1 else y),
       if mp < 10 then mp + 3 else mp - 9, doy - march_days mp + 1)
     = (as_i32 (if mp < 10 then y else y + 1),
        if mp < 10 then mp + 3 else mp - 9, doy - march_days mp + 1)"
    using mp assms(9) by simp
  show ?thesis
    unfolding ymd_from_days_def Let_def assms(1) [symmetric] era doe(1) yoe kd
      assms(4,5) [symmetric] md by (rule fin)
qed

lemma as_i32_id: "- (2 ^ 31) \<le> n \<Longrightarrow> n < 2 ^ 31 \<Longrightarrow> as_i32 n = n"
  by (simp add: as_i32_def signed_take_bit_int_eq_self)

lemma days_before_year_era:
  "days_before_year (k + era * 400 + 1) = 146097 * era + era_start k - 719162"
proof -
  have "(k + era * 400) div 4 = k div 4 + era * 100" "(k + era * 400) div 100 = k div 100 + era * 4"
    "(k + era * 400) div 400 = k div 400 + era"
    using div_mult_self1 [of 4 k "era * 100"] div_mult_self1 [of 100 k "era * 4"]
      div_mult_self1 [of 400 k era] by simp_all
  then show ?thesis by (simp add: days_before_year_def leaps_to_def era_start_def)
qed

lemma is_leap_era: "is_leap (k + era * 400 + 1) = is_leap (k + 1)"
proof -
  have "n dvd k + era * 400 + 1 \<longleftrightarrow> n dvd k + 1" if "n dvd 400" for n :: int
  proof -
    have "n dvd era * 400" using that by simp
    then show ?thesis by (metis add.commute add.left_commute dvd_add_right_iff)
  qed
  then show ?thesis by (simp add: is_leap_def)
qed

text \<open>Within one March-based year: date and month table agree with the calendar.\<close>

lemma march_date:
  assumes "0 \<le> mp" "mp \<le> 11" "d = doy - march_days mp + 1"
    and "y' = (if mp < 10 then y else y + 1)" "m = (if mp < 10 then mp + 3 else mp - 9)"
  shows "day_number y' m d = days_before_year (y + 1) - 306 + doy"
proof -
  have "mp = 0 \<or> mp = 1 \<or> mp = 2 \<or> mp = 3 \<or> mp = 4 \<or> mp = 5 \<or> mp = 6 \<or> mp = 7 \<or> mp = 8
      \<or> mp = 9 \<or> mp = 10 \<or> mp = 11" using assms(1,2) by presburger
  then show ?thesis
    using days_before_year_step [of y] assms(3-5)
    by (elim disjE) (simp_all add: day_number_def days_before_month_table march_days_def)
qed

lemma march_valid:
  assumes "0 \<le> doy" "doy \<le> 365" "doy = 365 \<Longrightarrow> is_leap (y + 1)"
    and "mp = (5 * doy + 2) div 153" "d = doy - march_days mp + 1"
    and "y' = (if mp < 10 then y else y + 1)" "m = (if mp < 10 then mp + 3 else mp - 9)"
  shows "0 \<le> mp \<and> mp \<le> 11 \<and> valid_date y' m d"
proof -
  have "doy \<in> set [0..365]" using assms(1,2) by simp
  then have t: "0 \<le> mp" "mp \<le> 11" "1 \<le> d"
      "d \<le> (if mp = 11 then (if doy = 365 then 29 else 28)
             else if mp \<in> set [1, 3, 6, 8] then 30 else 31)"
    using march_table unfolding Let_def assms(4,5) by blast+
  then show ?thesis
    using assms(3,6,7) by (auto simp: valid_date_def days_in_month_def split: if_splits)
qed

lemma ymd_from_days_spec:
  assumes "\<bar>days\<bar> \<le> 700000000000"
  shows "\<exists>y m d. ymd_from_days days = (y, m, d) \<and> valid_date y m d \<and> day_number y m d = days"
proof -
  define z where "z = days + 719468"
  define era where "era = z div 146097"
  define doe where "doe = z mod 146097"
  obtain k where k: "0 \<le> k" "k < 400" "era_start k \<le> doe" "doe < era_start (k + 1)"
    using era_year_exists [of doe] by (auto simp: doe_def)
  define doy where "doy = doe - (365 * k + k div 4 - k div 100)"
  define mp where "mp = (5 * doy + 2) div 153"
  define y where "y = k + era * 400"
  define d where "d = doy - march_days mp + 1"
  define m where "m = (if mp < 10 then mp + 3 else mp - 9)"
  define y' where "y' = (if mp < 10 then y else y + 1)"
  have "k div 400 = 0" using k by simp
  then have doy: "doy = doe - era_start k" by (simp add: doy_def era_start_def)
  have r: "0 \<le> doy" "doy \<le> 365" "doy = 365 \<Longrightarrow> is_leap (y + 1)"
    using k era_start_step [of k] is_leap_era [of k era] unfolding doy y_def
    by (auto split: if_splits)
  note v = march_valid [OF r mp_def d_def y'_def m_def]
  have days: "days = 146097 * era + era_start k + doy - 719468"
    by (simp add: doy era_def doe_def z_def)
  have "day_number y' m d = days"
    using march_date [of mp d doy y' y m] v d_def y'_def m_def days_before_year_era [of k era] days
    by (simp add: y_def)
  moreover have "y' = as_i32 y'"
  proof -
    have "\<bar>era\<bar> \<le> 5000000" unfolding era_def z_def using assms by linarith
    then show ?thesis using k by (intro as_i32_id [symmetric]) (auto simp: y'_def y_def)
  qed
  moreover have "ymd_from_days days = (as_i32 y', m, d)"
    unfolding y'_def m_def d_def
    using v r k era_year_char [OF k] y_def
    by (intro ymd_from_days_unfold [OF z_def doe_def _ _ doy_def mp_def]) (simp_all add: era_def)
  ultimately show ?thesis using v by metis
qed

text \<open>A date is determined by its number.\<close>

lemma days_before_month_bounds:
  "valid_date y m d \<Longrightarrow> 0 \<le> days_before_month y m + d - 1
     \<and> days_before_month y m + d - 1 < (if is_leap y then 366 else 365)"
proof -
  assume v: "valid_date y m d"
  then have "m = 1 \<or> m = 2 \<or> m = 3 \<or> m = 4 \<or> m = 5 \<or> m = 6 \<or> m = 7 \<or> m = 8 \<or> m = 9 \<or> m = 10
      \<or> m = 11 \<or> m = 12" unfolding valid_date_def by presburger
  then show ?thesis
    using v by (elim disjE) (auto simp: valid_date_def days_before_month_table days_in_month_def)
qed

lemma day_number_month_inj:
  assumes "valid_date y m d" "valid_date y m' d'" "m < m'"
  shows "days_before_month y m + d \<le> days_before_month y m'"
proof -
  have cum: "days_before_month y (n + 1) = days_before_month y n + days_in_month y n" if "1 \<le> n" for n
    using that by (simp add: days_before_month_def upto_rec2)
  have nonneg: "0 \<le> days_in_month y n" for n by (simp add: days_in_month_def)
  have mono: "days_before_month y (m + 1) \<le> days_before_month y (m + 1 + int j)" for j
  proof (induction j)
    case (Suc j)
    then show ?case using cum [of "m + 1 + int j"] nonneg [of "m + 1 + int j"] assms(1)
      by (simp add: valid_date_def algebra_simps)
  qed simp
  have "days_before_month y m' = days_before_month y (m + 1 + int (nat (m' - m - 1)))"
    using assms(3) by simp
  with mono [of "nat (m' - m - 1)"] cum [of m] assms(1) show ?thesis
    by (simp add: valid_date_def)
qed

lemma days_before_year_mono: "y \<le> y' \<Longrightarrow> days_before_year y \<le> days_before_year y'"
proof -
  assume "y \<le> y'"
  moreover have "days_before_year y \<le> days_before_year (y + int j)" for j
  proof (induction j)
    case (Suc j)
    then show ?case using days_before_year_step [of "y + int j"]
      by (simp add: algebra_simps split: if_splits)
  qed simp
  ultimately show ?thesis by (metis zle_iff_zadd)
qed

lemma day_number_year_less:
  assumes "valid_date y m d" "valid_date y' m' d'" "y < y'"
  shows "day_number y m d < day_number y' m' d'"
  using days_before_month_bounds [OF assms(1)] days_before_month_bounds [OF assms(2)]
    days_before_year_mono [of "y + 1" y'] days_before_year_step [of y] assms(3)
  by (simp add: day_number_def)

lemma day_number_inj:
  assumes "valid_date y m d" "valid_date y' m' d'" "day_number y m d = day_number y' m' d'"
  shows "y = y' \<and> m = m' \<and> d = d'"
proof -
  have y: "y = y'" using day_number_year_less assms by (metis less_irrefl linorder_neq_iff)
  have "m = m'"
  proof (rule ccontr)
    assume "m \<noteq> m'"
    then have "m < m' \<or> m' < m" by auto
    then show False
      using day_number_month_inj assms y by (auto simp: day_number_def valid_date_def) fastforce+
  qed
  with y assms(3) show ?thesis by (simp add: day_number_def)
qed


lemma ymd_from_days_iff:
  assumes "\<bar>days\<bar> \<le> 700000000000"
  shows "ymd_from_days days = (y, m, d) \<longleftrightarrow> valid_date y m d \<and> day_number y m d = days"
  using ymd_from_days_spec [OF assms] day_number_inj by (metis prod.inject)

text \<open>
  The civil-date computation is the Gregorian calendar: for every day within some 1.9 billion
  years of 1970, \<open>ymd_from_days\<close> returns a date exactly when it is a valid date with that day
  number, so it is total, never out of range, and inverse to the calendar's own count of days.
\<close>

theorem ymd_from_days_correct:
  assumes "\<bar>days\<bar> \<le> 700000000000"
  shows "ymd_from_days days = (y, m, d) \<longleftrightarrow> valid_date y m d \<and> day_number y m d = days"
  using assms by (rule ymd_from_days_iff)

theorem ymd_from_days_correct_witness:
  "valid_date 2024 2 29 \<and> ymd_from_days 19782 = (2024, 2, 29)"
proof -
  have d: "day_number 2024 2 29 = 19782" "valid_date 2024 2 29" by code_simp+
  then show ?thesis using ymd_from_days_correct [of 19782 2024 2 29] by simp
qed

text \<open>
  The monthly budget key identifies the calendar month: two instants (within some 1.9 billion
  years of 1970) have the same key exactly when their dates have the same year and month.
\<close>

theorem monthly_key_is_month:
  assumes "\<bar>t\<bar> \<le> 60000000000000000" "\<bar>t'\<bar> \<le> 60000000000000000"
    and "valid_date y m d" "day_number y m d = t div 86400"
    and "valid_date y' m' d'" "day_number y' m' d' = t' div 86400"
  shows "period_key_at Monthly t = period_key_at Monthly t' \<longleftrightarrow> y = y' \<and> m = m'"
proof -
  have b: "\<bar>t div 86400\<bar> \<le> 700000000000" "\<bar>t' div 86400\<bar> \<le> 700000000000"
    using assms(1,2) by linarith+
  have k: "period_key_at Monthly t = y * 12 + m" "period_key_at Monthly t' = y' * 12 + m'"
    using ymd_from_days_iff [OF b(1), of y m d] ymd_from_days_iff [OF b(2), of y' m' d']
      assms(3-6) by (simp_all add: year_month_from_unix_def)
  have "1 \<le> m \<and> m \<le> 12 \<and> 1 \<le> m' \<and> m' \<le> 12" using assms(3,5) by (simp add: valid_date_def)
  then have "y * 12 + m = y' * 12 + m' \<longleftrightarrow> y = y' \<and> m = m'"
    by (cases "y < y'"; cases "y' < y") auto
  with k show ?thesis by simp
qed

theorem monthly_key_is_month_witness:
  "period_key_at Monthly 1709251199 \<noteq> period_key_at Monthly 1709251200"
proof -
  have "valid_date 2024 2 29" "day_number 2024 2 29 = 1709251199 div 86400"
    "valid_date 2024 3 1" "day_number 2024 3 1 = 1709251200 div 86400" by code_simp+
  then show ?thesis
    using monthly_key_is_month [of 1709251199 1709251200 2024 2 29 2024 3 1] by simp
qed

section \<open>Amounts tracked per period\<close>

text \<open>
  The contract of a counter that restarts when its period does: \<open>roll\<close> brings it to a period,
  \<open>add\<close> counts into the current one. Spend (dollars) and free-tier usage (tokens) both are such
  counters. A run of events, each with the period key of its time, adds up exactly the events of
  the final period.
\<close>

fun record_all :: "('s \<Rightarrow> int \<Rightarrow> 's) \<Rightarrow> ('s \<Rightarrow> 'n \<Rightarrow> 's) \<Rightarrow> 's \<Rightarrow> (int \<times> 'n) list \<Rightarrow> 's" where
  "record_all roll add s [] = s"
| "record_all roll add s ((k, x) # evs) = record_all roll add (add (roll s k) x) evs"

locale period_ledger =
  fixes key :: "'s \<Rightarrow> int"
    and amount :: "'s \<Rightarrow> 'n"
    and zero :: 'n
    and comb :: "'n \<Rightarrow> 'n \<Rightarrow> 'n"
    and roll :: "'s \<Rightarrow> int \<Rightarrow> 's"
    and add :: "'s \<Rightarrow> 'n \<Rightarrow> 's"
  assumes roll_same: "key s = k \<Longrightarrow> roll s k = s"
    and key_roll: "key (roll s k) = k"
    and amount_roll: "key s \<noteq> k \<Longrightarrow> amount (roll s k) = zero"
    and key_add: "key (add s x) = key s"
    and amount_add: "amount (add s x) = comb (amount s) x"
begin

lemma roll_idem: "roll (roll s k) k = roll s k"
  by (rule roll_same) (rule key_roll)

lemma record_all_append:
  "record_all roll add s (evs @ evs') = record_all roll add (record_all roll add s evs) evs'"
  by (induction evs arbitrary: s) auto

lemma record_same_period:
  "\<forall>e\<in>set evs. fst e = k \<Longrightarrow> key s = k \<Longrightarrow>
     key (record_all roll add s evs) = k
     \<and> amount (record_all roll add s evs) = foldl comb (amount s) (map snd evs)"
  by (induction evs arbitrary: s) (auto simp: roll_same key_add amount_add)

lemma record_after_rollover:
  assumes "\<forall>e\<in>set (e0 # evs). fst e = k" and "key s \<noteq> k"
  shows "amount (record_all roll add s (e0 # evs)) = foldl comb zero (map snd (e0 # evs))"
proof -
  obtain x where e0: "e0 = (k, x)" using assms(1) by (cases e0) auto
  have "key (add (roll s k) x) = k" "amount (add (roll s k) x) = comb zero x"
    using assms(2) by (simp_all add: key_add key_roll amount_add amount_roll)
  with record_same_period [of evs k "add (roll s k) x"] assms(1) show ?thesis by (simp add: e0)
qed

end

definition add_spend :: "spend_state \<Rightarrow> f64 \<Rightarrow> spend_state" where
  "add_spend state cost = state\<lparr>sp_spent_usd := sp_spent_usd state + cost\<rparr>"

interpretation spend: period_ledger sp_period_key sp_spent_usd 0 "(+)" roll_period_if_needed add_spend
  by unfold_locales (simp_all add: roll_period_if_needed_def add_spend_def)

lemma foldl_plus: "foldl (+) a xs = a + sum_list xs" for a :: real
  by (induction xs arbitrary: a) auto

end
