(* ===== verification/Persistence.thy ===== *)
theory Persistence
  imports Wire_Types Client_Budget
begin

text \<open>
  The durable store behind usage reports, client budgets and usage history
  (\<open>crates/router/src/persistence.rs\<close>): the tables, the upsert each event executes, and the pending
  writes. The SQLite backend hands events to one writer thread, which executes them in the order
  they were sent; the Postgres backend spawns a task per event, so any pending one may run next.
  A write or read while the database is unreachable fails: the write is dropped with a warning.
  What the database engines do with an \<open>INSERT .. ON CONFLICT DO UPDATE\<close> is SQL's documented
  meaning; \<open>BIGINT\<close> columns are unbounded integers here.
\<close>

section \<open>Tables and events\<close>

record usage_stats =
  uz_requests :: u64
  uz_prompt_tokens :: u64
  uz_completion_tokens :: u64
  uz_cost_usd :: f64

definition default_usage_stats :: usage_stats where
  "default_usage_stats =
     \<lparr>uz_requests = 0, uz_prompt_tokens = 0, uz_completion_tokens = 0, uz_cost_usd = 0\<rparr>"

record usage_row =
  ur_requests :: int
  ur_prompt_tokens :: int
  ur_completion_tokens :: int
  ur_cost_usd :: f64

record daily_client_usage =
  du_day :: i64
  du_requests :: u64
  du_prompt_tokens :: u64
  du_completion_tokens :: u64
  du_cost_usd :: f64

record database =
  db_usage_stats :: "string \<rightharpoonup> usage_row"
  db_client_spend :: "string \<rightharpoonup> i64 \<times> f64"
  db_client_daily_usage :: "(string \<times> i64) \<rightharpoonup> usage_row"

definition empty_database :: database where
  "empty_database =
     \<lparr>db_usage_stats = Map.empty, db_client_spend = Map.empty, db_client_daily_usage = Map.empty\<rparr>"

datatype db_write =
    UsageEvent string u32 u32 "f64 option"
  | ClientSpend string i64 f64
  | ResetClientSpend string i64
  | DailyClientUsage string i64 u32 u32 "f64 option"

section \<open>Executing one event\<close>

definition upsert_usage :: "u32 \<Rightarrow> u32 \<Rightarrow> f64 option \<Rightarrow> usage_row option \<Rightarrow> usage_row" where
  "upsert_usage prompt completion cost row =
     (case row of
        None \<Rightarrow> \<lparr>ur_requests = 1, ur_prompt_tokens = uint prompt,
                 ur_completion_tokens = uint completion, ur_cost_usd = unwrap_or 0 cost\<rparr>
      | Some r \<Rightarrow> \<lparr>ur_requests = ur_requests r + 1,
                   ur_prompt_tokens = ur_prompt_tokens r + uint prompt,
                   ur_completion_tokens = ur_completion_tokens r + uint completion,
                   ur_cost_usd = ur_cost_usd r + unwrap_or 0 cost\<rparr>)"

definition upsert_spend :: "i64 \<Rightarrow> f64 \<Rightarrow> (i64 \<times> f64) option \<Rightarrow> i64 \<times> f64" where
  "upsert_spend period_key cost row =
     (case row of
        None \<Rightarrow> (period_key, cost)
      | Some (k, spent) \<Rightarrow> (period_key, if k = period_key then spent + cost else cost))"

fun execute_write :: "db_write \<Rightarrow> database \<Rightarrow> database" where
  "execute_write (UsageEvent key prompt completion cost) db =
     db\<lparr>db_usage_stats := (db_usage_stats db)
          (key \<mapsto> upsert_usage prompt completion cost (db_usage_stats db key))\<rparr>"
| "execute_write (ClientSpend client period_key cost) db =
     db\<lparr>db_client_spend := (db_client_spend db)
          (client \<mapsto> upsert_spend period_key cost (db_client_spend db client))\<rparr>"
| "execute_write (ResetClientSpend client period_key) db =
     db\<lparr>db_client_spend := (db_client_spend db)(client \<mapsto> (period_key, 0))\<rparr>"
| "execute_write (DailyClientUsage client day prompt completion cost) db =
     db\<lparr>db_client_daily_usage := (db_client_daily_usage db)
          ((client, day) \<mapsto>
             upsert_usage prompt completion cost (db_client_daily_usage db (client, day)))\<rparr>"

section \<open>The handle a router holds\<close>

datatype backend = SqliteBackend | PostgresBackend

record persistence =
  ps_backend :: backend
  ps_reachable :: bool
  ps_pending :: "db_write list"
  ps_db :: database

definition enqueue :: "db_write \<Rightarrow> persistence \<Rightarrow> persistence" where
  "enqueue write ps = ps\<lparr>ps_pending := ps_pending ps @ [write]\<rparr>"

definition persistence_record :: "string \<Rightarrow> usage \<Rightarrow> f64 option \<Rightarrow> persistence \<Rightarrow> persistence" where
  "persistence_record key u cost_usd =
     enqueue (UsageEvent key (us_prompt_tokens u) (us_completion_tokens u) cost_usd)"

definition persistence_record_client_spend ::
  "string \<Rightarrow> i64 \<Rightarrow> f64 \<Rightarrow> persistence \<Rightarrow> persistence" where
  "persistence_record_client_spend client period_key cost_usd =
     enqueue (ClientSpend client period_key cost_usd)"

definition persistence_reset_client_spend :: "string \<Rightarrow> i64 \<Rightarrow> persistence \<Rightarrow> persistence" where
  "persistence_reset_client_spend client period_key = enqueue (ResetClientSpend client period_key)"

definition record_daily_client_usage ::
  "string \<Rightarrow> i64 \<Rightarrow> usage \<Rightarrow> f64 option \<Rightarrow> persistence \<Rightarrow> persistence" where
  "record_daily_client_usage client day u cost_usd =
     enqueue (DailyClientUsage client day (us_prompt_tokens u) (us_completion_tokens u) cost_usd)"

text \<open>Reads; \<open>None\<close> is the error of an unreachable database.\<close>

definition row_stats :: "usage_row \<Rightarrow> usage_stats" where
  "row_stats r =
     \<lparr>uz_requests = word_of_int (ur_requests r), uz_prompt_tokens = word_of_int (ur_prompt_tokens r),
      uz_completion_tokens = word_of_int (ur_completion_tokens r), uz_cost_usd = ur_cost_usd r\<rparr>"

definition load_all :: "persistence \<Rightarrow> (string \<rightharpoonup> usage_stats) option" where
  "load_all ps =
     (if ps_reachable ps then Some (map_option row_stats \<circ> db_usage_stats (ps_db ps)) else None)"

definition usage_snapshot_of :: "persistence \<Rightarrow> (string \<rightharpoonup> usage_stats) option" where
  "usage_snapshot_of = load_all"

definition read_client_spend :: "string \<Rightarrow> persistence \<Rightarrow> (i64 \<times> f64) option option" where
  "read_client_spend client ps =
     (if ps_reachable ps then Some (db_client_spend (ps_db ps) client) else None)"

text \<open>\<open>SELECT .. WHERE client_name = ? AND day >= ? ORDER BY day ASC\<close>, over the stored days.\<close>

definition daily_row :: "i64 \<Rightarrow> usage_row \<Rightarrow> daily_client_usage" where
  "daily_row day r =
     \<lparr>du_day = day, du_requests = word_of_int (ur_requests r),
      du_prompt_tokens = word_of_int (ur_prompt_tokens r),
      du_completion_tokens = word_of_int (ur_completion_tokens r), du_cost_usd = ur_cost_usd r\<rparr>"

definition client_days :: "database \<Rightarrow> string \<Rightarrow> i64 \<Rightarrow> i64 set" where
  "client_days db client since = {d. since \<le> d \<and> db_client_daily_usage db (client, d) \<noteq> None}"

definition read_usage_history :: "string \<Rightarrow> i64 \<Rightarrow> persistence \<Rightarrow> daily_client_usage list option" where
  "read_usage_history client since_day ps =
     (if ps_reachable ps
      then Some (map (\<lambda>d. daily_row d (the (db_client_daily_usage (ps_db ps) (client, d))))
                  (sorted_list_of_set (client_days (ps_db ps) client since_day)))
      else None)"

definition ping :: "persistence \<Rightarrow> bool" where
  "ping ps = ps_reachable ps"

section \<open>The writers\<close>

text \<open>The event at position \<open>i\<close> leaves the queue; it is lost when the database is unreachable.\<close>

definition run_write :: "nat \<Rightarrow> persistence \<Rightarrow> persistence" where
  "run_write i ps =
     ps\<lparr>ps_pending := take i (ps_pending ps) @ drop (Suc i) (ps_pending ps),
        ps_db := (if ps_reachable ps then execute_write (ps_pending ps ! i) (ps_db ps)
                  else ps_db ps)\<rparr>"

inductive writer_step :: "persistence \<Rightarrow> persistence \<Rightarrow> bool" where
  sqlite: "ps_backend ps = SqliteBackend \<Longrightarrow> ps_pending ps \<noteq> [] \<Longrightarrow> writer_step ps (run_write 0 ps)"
| postgres: "ps_backend ps = PostgresBackend \<Longrightarrow> i < length (ps_pending ps) \<Longrightarrow>
    writer_step ps (run_write i ps)"

inductive_cases writer_stepE: "writer_step ps ps'"

text \<open>Runs of the writers until nothing is pending.\<close>

definition drained :: "persistence \<Rightarrow> persistence \<Rightarrow> bool" where
  "drained ps ps' \<longleftrightarrow> writer_step\<^sup>*\<^sup>* ps ps' \<and> ps_pending ps' = []"

section \<open>Facts\<close>

lemma enqueue_simps [simp]:
  "ps_db (enqueue w ps) = ps_db ps" "ps_reachable (enqueue w ps) = ps_reachable ps"
  "ps_backend (enqueue w ps) = ps_backend ps" "ps_pending (enqueue w ps) = ps_pending ps @ [w]"
  by (simp_all add: enqueue_def)

lemma run_write_simps [simp]:
  "ps_backend (run_write i ps) = ps_backend ps" "ps_reachable (run_write i ps) = ps_reachable ps"
  "ps_pending (run_write i ps) = take i (ps_pending ps) @ drop (Suc i) (ps_pending ps)"
  by (simp_all add: run_write_def)

lemma writer_step_frame:
  "writer_step ps ps' \<Longrightarrow> ps_backend ps' = ps_backend ps \<and> ps_reachable ps' = ps_reachable ps"
  by (auto elim: writer_stepE)

lemma writer_steps_frame:
  "writer_step\<^sup>*\<^sup>* ps ps' \<Longrightarrow> ps_backend ps' = ps_backend ps \<and> ps_reachable ps' = ps_reachable ps"
  by (induction rule: rtranclp_induct) (auto dest: writer_step_frame)

lemma execute_split:
  "xs = take i ws @ drop (Suc i) ws \<Longrightarrow> i < length ws \<Longrightarrow> mset ws = add_mset (ws ! i) (mset xs)"
  by (metis Cons_nth_drop_Suc append_take_drop_id mset.simps(2) mset_append union_mset_add_mset_right)

text \<open>Whatever order the writers choose, a drained queue has executed a permutation of it, and the
  SQLite writer the queue itself.\<close>

lemma drained_executes:
  assumes "writer_step\<^sup>*\<^sup>* ps ps'" and "ps_reachable ps"
  shows "\<exists>ws. mset (ps_pending ps) = mset ws + mset (ps_pending ps')
           \<and> ps_db ps' = fold execute_write ws (ps_db ps)
           \<and> (ps_backend ps = SqliteBackend \<longrightarrow> ps_pending ps = ws @ ps_pending ps')"
  using assms(1)
proof (induction rule: rtranclp_induct)
  case base then show ?case by (intro exI [of _ "[]"]) simp
next
  case (step ps1 ps2)
  then obtain ws where ws: "mset (ps_pending ps) = mset ws + mset (ps_pending ps1)"
    "ps_db ps1 = fold execute_write ws (ps_db ps)"
    "ps_backend ps = SqliteBackend \<longrightarrow> ps_pending ps = ws @ ps_pending ps1" by blast
  have frame: "ps_backend ps1 = ps_backend ps" "ps_reachable ps1"
    using writer_steps_frame [OF step.hyps(1)] assms(2) by simp_all
  from step.hyps(2) obtain i where i: "i < length (ps_pending ps1)" "ps2 = run_write i ps1"
    "ps_backend ps1 = SqliteBackend \<longrightarrow> i = 0"
    by (auto elim: writer_stepE)
  let ?w = "ps_pending ps1 ! i"
  have "mset (ps_pending ps1) = add_mset ?w (mset (ps_pending ps2))"
    using i by (intro execute_split) simp_all
  moreover have "ps_backend ps = SqliteBackend \<longrightarrow> ps_pending ps1 = ?w # ps_pending ps2"
    using i frame by (cases "ps_pending ps1") simp_all
  moreover have "ps_db ps2 = fold execute_write (ws @ [?w]) (ps_db ps)"
    using i frame ws by (simp add: run_write_def)
  ultimately show ?case using ws by (intro exI [of _ "ws @ [?w]"]) simp
qed

section \<open>What a drained queue leaves in the tables\<close>

text \<open>The counts an event adds to a usage row, and a row with the counts of many events added.\<close>

fun usage_of :: "string \<Rightarrow> db_write \<Rightarrow> (u32 \<times> u32 \<times> f64 option) option" where
  "usage_of key (UsageEvent k p c cost) = (if k = key then Some (p, c, cost) else None)"
| "usage_of key _ = None"

fun daily_of :: "string \<times> i64 \<Rightarrow> db_write \<Rightarrow> (u32 \<times> u32 \<times> f64 option) option" where
  "daily_of key (DailyClientUsage client day p c cost) =
     (if (client, day) = key then Some (p, c, cost) else None)"
| "daily_of key _ = None"

definition zero_row :: usage_row where
  "zero_row = \<lparr>ur_requests = 0, ur_prompt_tokens = 0, ur_completion_tokens = 0, ur_cost_usd = 0\<rparr>"

definition row_plus :: "usage_row option \<Rightarrow> (u32 \<times> u32 \<times> f64 option) list \<Rightarrow> usage_row option" where
  "row_plus old evs =
     (if evs = [] then old
      else let r = unwrap_or zero_row old in
        Some \<lparr>ur_requests = ur_requests r + int (length evs),
              ur_prompt_tokens = ur_prompt_tokens r + (\<Sum>(p, c, cost)\<leftarrow>evs. uint p),
              ur_completion_tokens = ur_completion_tokens r + (\<Sum>(p, c, cost)\<leftarrow>evs. uint c),
              ur_cost_usd = ur_cost_usd r + (\<Sum>(p, c, cost)\<leftarrow>evs. unwrap_or 0 cost)\<rparr>)"

lemma row_plus_Cons:
  "row_plus old ((p, c, cost) # evs) = row_plus (Some (upsert_usage p c cost old)) evs"
  by (cases old) (auto simp: row_plus_def upsert_usage_def Let_def zero_row_def)

lemma row_plus_perm: "mset evs = mset evs' \<Longrightarrow> row_plus old evs = row_plus old evs'"
proof -
  assume eq: "mset evs = mset evs'"
  have sums: "(\<Sum>x\<leftarrow>evs. f x) = (\<Sum>x\<leftarrow>evs'. f x)"
    for f :: "u32 \<times> u32 \<times> f64 option \<Rightarrow> 'n::comm_monoid_add"
    using eq by (metis mset_map sum_mset_sum_list)
  have "evs = [] \<longleftrightarrow> evs' = []" using eq by (metis mset_zero_iff)
  then show ?thesis
    using mset_eq_length [OF eq] by (simp only: row_plus_def Let_def sums)
qed

lemma execute_usage:
  "db_usage_stats (fold execute_write ws db) key =
     row_plus (db_usage_stats db key) (List.map_filter (usage_of key) ws)"
proof (induction ws arbitrary: db)
  case Nil then show ?case by (simp add: List.map_filter_simps row_plus_def)
next
  case (Cons w ws)
  show ?case by (cases w) (simp_all add: Cons.IH List.map_filter_simps row_plus_Cons)
qed

lemma execute_daily:
  "db_client_daily_usage (fold execute_write ws db) key =
     row_plus (db_client_daily_usage db key) (List.map_filter (daily_of key) ws)"
proof (induction ws arbitrary: db)
  case Nil then show ?case by (simp add: List.map_filter_simps row_plus_def)
next
  case (Cons w ws)
  show ?case by (cases w) (auto simp: Cons.IH List.map_filter_simps row_plus_Cons)
qed

lemma mset_map_filter: "mset xs = mset ys \<Longrightarrow> mset (List.map_filter f xs) = mset (List.map_filter f ys)"
proof -
  assume eq: "mset xs = mset ys"
  have "mset (filter P xs) = mset (filter P ys)" for P
    by (simp add: eq)
  then show ?thesis by (simp add: List.map_filter_def)
qed

text \<open>
  \<^bold>\<open>C26.\<close> Once every pending write of a reachable database has run, in whatever order the backend
  chose, each usage row and each client's daily row is the row it was plus the request count, the
  token counts and the costs of exactly the pending events of its key; a key with no event keeps its
  row (or its absence).
\<close>

theorem drained_rows_exact:
  assumes "drained ps ps'" and "ps_reachable ps"
  shows "db_usage_stats (ps_db ps') key =
           row_plus (db_usage_stats (ps_db ps) key) (List.map_filter (usage_of key) (ps_pending ps))
    \<and> db_client_daily_usage (ps_db ps') (client, day) =
           row_plus (db_client_daily_usage (ps_db ps) (client, day))
             (List.map_filter (daily_of (client, day)) (ps_pending ps))"
proof -
  from drained_executes [of ps ps'] assms obtain ws where
    ws: "mset (ps_pending ps) = mset ws" "ps_db ps' = fold execute_write ws (ps_db ps)"
    by (auto simp: drained_def)
  have "mset (List.map_filter f ws) = mset (List.map_filter f (ps_pending ps))"
    for f :: "db_write \<Rightarrow> (u32 \<times> u32 \<times> f64 option) option"
    using ws(1) by (intro mset_map_filter) simp
  with ws(2) show ?thesis by (auto simp: execute_usage execute_daily intro: row_plus_perm)
qed

lemma three_steps: "r a b \<Longrightarrow> r b c \<Longrightarrow> r c d \<Longrightarrow> r\<^sup>*\<^sup>* a d"
  by (blast intro: converse_rtranclp_into_rtranclp)

definition sample_persistence :: "backend \<Rightarrow> persistence" where
  "sample_persistence b =
     \<lparr>ps_backend = b, ps_reachable = True,
      ps_pending = [UsageEvent ''a/b'' 10 5 (Some 2), ClientSpend ''acme'' 3 1,
                    UsageEvent ''a/b'' 1 2 None],
      ps_db = empty_database\<rparr>"

lemma sample_drained:
  "drained (sample_persistence PostgresBackend)
     (run_write 0 (run_write 0 (run_write 2 (sample_persistence PostgresBackend))))"
proof -
  let ?p0 = "sample_persistence PostgresBackend"
  have steps: "writer_step ?p0 (run_write 2 ?p0)"
    "writer_step (run_write 2 ?p0) (run_write 0 (run_write 2 ?p0))"
    "writer_step (run_write 0 (run_write 2 ?p0)) (run_write 0 (run_write 0 (run_write 2 ?p0)))"
    by (rule writer_step.postgres; simp add: sample_persistence_def)+
  then have "writer_step\<^sup>*\<^sup>* ?p0 (run_write 0 (run_write 0 (run_write 2 ?p0)))"
    by (rule three_steps)
  then show ?thesis by (simp add: drained_def sample_persistence_def)
qed

theorem drained_rows_exact_witness:
  "db_usage_stats
     (ps_db (run_write 0 (run_write 0 (run_write 2 (sample_persistence PostgresBackend))))) ''a/b''
   = Some \<lparr>ur_requests = 2, ur_prompt_tokens = 11, ur_completion_tokens = 7, ur_cost_usd = 2\<rparr>"
  using drained_rows_exact [OF sample_drained, of "''a/b''"]
  by (simp add: sample_persistence_def List.map_filter_simps row_plus_def zero_row_def
      empty_database_def)

section \<open>Client spend: the table refines the in-memory ledger\<close>

text \<open>A row (or its absence) stands for the in-memory state a process would hold; a state that was
  never touched, with nothing spent, may have no row.\<close>

definition spend_rel :: "(i64 \<times> f64) option \<Rightarrow> spend_state \<Rightarrow> bool" where
  "spend_rel row st \<longleftrightarrow>
     (case row of
        None \<Rightarrow> sp_spent_usd st = 0
      | Some (k, spent) \<Rightarrow> sp_period_key st = k \<and> sp_spent_usd st = spent)"

lemma upsert_spend_rel:
  "spend_rel row st \<Longrightarrow>
     spend_rel (Some (upsert_spend k c row)) (add_spend (roll_period_if_needed st k) c)"
  by (auto simp: spend_rel_def upsert_spend_def add_spend_def roll_period_if_needed_def
      split: option.splits)

lemma execute_spend:
  "spend_rel (db_client_spend db client) st \<Longrightarrow>
     spend_rel
       (db_client_spend (fold execute_write (map (\<lambda>(k, c). ClientSpend client k c) evs) db) client)
       (record_all roll_period_if_needed add_spend st evs)"
proof (induction evs arbitrary: db st)
  case Nil then show ?case by simp
next
  case (Cons e evs)
  obtain k c where e: "e = (k, c)" by fastforce
  from Cons.prems have "spend_rel (db_client_spend (execute_write (ClientSpend client k c) db) client)
      (add_spend (roll_period_if_needed st k) c)"
    by (simp add: upsert_spend_rel)
  from Cons.IH [OF this] show ?case by (simp add: e)
qed

lemma pending_after_spend:
  "ps_pending (fold (\<lambda>(k, c). persistence_record_client_spend client k c) evs ps) =
     ps_pending ps @ map (\<lambda>(k, c). ClientSpend client k c) evs"
  "ps_db (fold (\<lambda>(k, c). persistence_record_client_spend client k c) evs ps) = ps_db ps"
  "ps_reachable (fold (\<lambda>(k, c). persistence_record_client_spend client k c) evs ps)
     = ps_reachable ps"
  "ps_backend (fold (\<lambda>(k, c). persistence_record_client_spend client k c) evs ps) = ps_backend ps"
  by (induction evs arbitrary: ps) (auto simp: persistence_record_client_spend_def)

text \<open>
  The SQLite table implements the in-memory spend ledger: after any sequence of spend events,
  each with the period key of its time, has been recorded on a quiescent, reachable store and the
  writer has drained, the client's row holds the period key and the amount the in-memory ledger
  would hold after the same events, rollovers included.
\<close>

theorem sqlite_spend_refines_ledger:
  assumes "ps_backend ps = SqliteBackend" and "ps_reachable ps" and "ps_pending ps = []"
    and "spend_rel (db_client_spend (ps_db ps) client) st"
    and "drained (fold (\<lambda>(k, c). persistence_record_client_spend client k c) evs ps) ps'"
  shows "spend_rel (db_client_spend (ps_db ps') client)
           (record_all roll_period_if_needed add_spend st evs)"
proof -
  let ?q = "fold (\<lambda>(k, c). persistence_record_client_spend client k c) evs ps"
  from assms(5) have "writer_step\<^sup>*\<^sup>* ?q ps'" "ps_pending ps' = []" by (auto simp: drained_def)
  with drained_executes [of ?q ps'] assms(1,2)
  have "ps_db ps' = fold execute_write (ps_pending ?q) (ps_db ?q)"
    by (auto simp: pending_after_spend)
  with assms(3,4) show ?thesis by (simp add: pending_after_spend execute_spend)
qed

theorem sqlite_spend_refines_ledger_witness:
  "\<exists>ps' :: persistence. spend_rel (db_client_spend (ps_db ps') ''acme'') \<lparr>sp_period_key = 8, sp_spent_usd = 5\<rparr>
     \<and> ps_pending ps' = []"
proof -
  let ?ps = "\<lparr>ps_backend = SqliteBackend, ps_reachable = True, ps_pending = [],
              ps_db = empty_database\<rparr>"
  let ?evs = "[(7, 1), (8, 2), (8, 3)] :: (int \<times> real) list"
  let ?q = "fold (\<lambda>(k, c). persistence_record_client_spend ''acme'' k c) ?evs ?ps"
  let ?p' = "run_write 0 (run_write 0 (run_write 0 ?q))"
  have "writer_step ?q (run_write 0 ?q)"
    "writer_step (run_write 0 ?q) (run_write 0 (run_write 0 ?q))"
    "writer_step (run_write 0 (run_write 0 ?q)) ?p'"
    by (rule writer_step.sqlite; simp add: persistence_record_client_spend_def)+
  then have "writer_step\<^sup>*\<^sup>* ?q ?p'" by (rule three_steps)
  then have "drained ?q ?p'" by (simp add: drained_def persistence_record_client_spend_def)
  from sqlite_spend_refines_ledger [OF _ _ _ _ this, of default_spend_state]
  have "spend_rel (db_client_spend (ps_db ?p') ''acme'')
          (record_all roll_period_if_needed add_spend default_spend_state ?evs)"
    by (simp add: spend_rel_def empty_database_def default_spend_state_def)
  then have "spend_rel (db_client_spend (ps_db ?p') ''acme'') \<lparr>sp_period_key = 8, sp_spent_usd = 5\<rparr>"
    by (simp add: default_spend_state_def roll_period_if_needed_def add_spend_def)
  moreover have "ps_pending ?p' = []" by (simp add: persistence_record_client_spend_def)
  ultimately show ?thesis by blast
qed

end
