(* ===== verification/Metrics.thy ===== *)
theory Metrics
  imports Prelude
begin

text \<open>
  The counters behind \<open>GET /metrics\<close> (\<open>crates/router/src/metrics.rs\<close>). A labelled family is a map
  from label values to its series, which exists once it has been touched; integer counters are
  64-bit and wrap. A histogram keeps the list of its observations, oldest last: the bucket counts
  the exposition format prints are functions of it and of the bucket bounds. Registration and the
  text encoding are the \<open>prometheus\<close> crate's.
\<close>

type_synonym label2 = "string \<times> string"
type_synonym label3 = "string \<times> string \<times> string"

record metrics =
  mt_dispatch_attempts_total :: "label3 \<rightharpoonup> u64"
  mt_prompt_tokens_total :: "label2 \<rightharpoonup> u64"
  mt_completion_tokens_total :: "label2 \<rightharpoonup> u64"
  mt_cost_usd_total :: "label2 \<rightharpoonup> f64"
  mt_response_latency_seconds :: "label2 \<rightharpoonup> f64 list"
  mt_throughput_tokens_per_second :: "label2 \<rightharpoonup> f64 list"
  mt_provider_configured :: "string \<rightharpoonup> i64"
  mt_inbound_rate_limit_rejections_total :: "string \<rightharpoonup> u64"
  mt_client_budget_rejections_total :: "string \<rightharpoonup> u64"
  mt_moderation_blocked_total :: "string \<rightharpoonup> u64"
  mt_web_search_total :: "string \<rightharpoonup> u64"
  mt_cache_lookups_total :: "string \<rightharpoonup> u64"

definition latency_buckets_seconds :: "f64 list" where
  "latency_buckets_seconds = [0.1, 0.25, 0.5, 1, 2.5, 5, 10, 20, 40, 80]"

definition throughput_buckets_tps :: "f64 list" where
  "throughput_buckets_tps = [5, 10, 20, 40, 80, 160, 320]"

definition new_metrics :: metrics where
  "new_metrics =
     \<lparr>mt_dispatch_attempts_total = Map.empty, mt_prompt_tokens_total = Map.empty,
      mt_completion_tokens_total = Map.empty, mt_cost_usd_total = Map.empty,
      mt_response_latency_seconds = Map.empty, mt_throughput_tokens_per_second = Map.empty,
      mt_provider_configured = Map.empty, mt_inbound_rate_limit_rejections_total = Map.empty,
      mt_client_budget_rejections_total = Map.empty, mt_moderation_blocked_total = Map.empty,
      mt_web_search_total = Map.empty, mt_cache_lookups_total = Map.empty\<rparr>"

text \<open>\<open>with_label_values(l).inc_by(n)\<close> and \<open>with_label_values(l).observe(x)\<close>.\<close>

definition inc_by :: "'l \<Rightarrow> 'n::comm_monoid_add \<Rightarrow> ('l \<rightharpoonup> 'n) \<Rightarrow> ('l \<rightharpoonup> 'n)" where
  "inc_by l n m = m(l \<mapsto> unwrap_or 0 (m l) + n)"

definition observe :: "'l \<Rightarrow> f64 \<Rightarrow> ('l \<rightharpoonup> f64 list) \<Rightarrow> ('l \<rightharpoonup> f64 list)" where
  "observe l x m = m(l \<mapsto> x # unwrap_or [] (m l))"

definition set_provider_configured :: "string \<Rightarrow> bool \<Rightarrow> metrics \<Rightarrow> metrics" where
  "set_provider_configured provider configured mt =
     mt\<lparr>mt_provider_configured :=
        (mt_provider_configured mt)(provider \<mapsto> (if configured then 1 else 0))\<rparr>"

definition record_attempt :: "string \<Rightarrow> string \<Rightarrow> string \<Rightarrow> metrics \<Rightarrow> metrics" where
  "record_attempt provider model outcome mt =
     mt\<lparr>mt_dispatch_attempts_total :=
        inc_by (provider, model, outcome) 1 (mt_dispatch_attempts_total mt)\<rparr>"

definition observe_latency_seconds :: "string \<Rightarrow> string \<Rightarrow> f64 \<Rightarrow> metrics \<Rightarrow> metrics" where
  "observe_latency_seconds provider model seconds mt =
     mt\<lparr>mt_response_latency_seconds :=
        observe (provider, model) seconds (mt_response_latency_seconds mt)\<rparr>"

definition observe_throughput_tps :: "string \<Rightarrow> string \<Rightarrow> f64 \<Rightarrow> metrics \<Rightarrow> metrics" where
  "observe_throughput_tps provider model tps mt =
     mt\<lparr>mt_throughput_tokens_per_second :=
        observe (provider, model) tps (mt_throughput_tokens_per_second mt)\<rparr>"

definition record_tokens_and_cost ::
  "string \<Rightarrow> string \<Rightarrow> u32 \<Rightarrow> u32 \<Rightarrow> f64 option \<Rightarrow> metrics \<Rightarrow> metrics" where
  "record_tokens_and_cost provider model prompt_tokens completion_tokens cost_usd mt =
     mt\<lparr>mt_prompt_tokens_total :=
          inc_by (provider, model) (ucast prompt_tokens) (mt_prompt_tokens_total mt),
        mt_completion_tokens_total :=
          inc_by (provider, model) (ucast completion_tokens) (mt_completion_tokens_total mt),
        mt_cost_usd_total :=
          (case cost_usd of
             None \<Rightarrow> mt_cost_usd_total mt
           | Some cost \<Rightarrow> inc_by (provider, model) cost (mt_cost_usd_total mt))\<rparr>"

definition record_inbound_rate_limit_rejection :: "string \<Rightarrow> metrics \<Rightarrow> metrics" where
  "record_inbound_rate_limit_rejection identity mt =
     mt\<lparr>mt_inbound_rate_limit_rejections_total :=
        inc_by identity 1 (mt_inbound_rate_limit_rejections_total mt)\<rparr>"

definition record_client_budget_rejection :: "string \<Rightarrow> metrics \<Rightarrow> metrics" where
  "record_client_budget_rejection client_name mt =
     mt\<lparr>mt_client_budget_rejections_total :=
        inc_by client_name 1 (mt_client_budget_rejections_total mt)\<rparr>"

definition record_moderation_blocked :: "string \<Rightarrow> metrics \<Rightarrow> metrics" where
  "record_moderation_blocked category mt =
     mt\<lparr>mt_moderation_blocked_total := inc_by category 1 (mt_moderation_blocked_total mt)\<rparr>"

definition record_web_search :: "string \<Rightarrow> metrics \<Rightarrow> metrics" where
  "record_web_search outcome mt =
     mt\<lparr>mt_web_search_total := inc_by outcome 1 (mt_web_search_total mt)\<rparr>"

definition record_cache_lookup :: "string \<Rightarrow> metrics \<Rightarrow> metrics" where
  "record_cache_lookup outcome mt =
     mt\<lparr>mt_cache_lookups_total := inc_by outcome 1 (mt_cache_lookups_total mt)\<rparr>"

section \<open>Reading a counter\<close>

definition counter :: "('l \<rightharpoonup> 'n::comm_monoid_add) \<Rightarrow> 'l \<Rightarrow> 'n" where
  "counter m l = unwrap_or 0 (m l)"

lemma counter_inc_by [simp]:
  "counter (inc_by l n m) l' = (if l' = l then counter m l + n else counter m l')"
  by (simp add: counter_def inc_by_def)

lemma counter_empty [simp]: "counter Map.empty l = 0"
  by (simp add: counter_def)

abbreviation attempts :: "metrics \<Rightarrow> string \<Rightarrow> string \<Rightarrow> string \<Rightarrow> u64" where
  "attempts mt p m out \<equiv> counter (mt_dispatch_attempts_total mt) (p, m, out)"

lemma attempts_record [simp]:
  "attempts (record_attempt p m out mt) p' m' out' =
     attempts mt p' m' out' + (if (p', m', out') = (p, m, out) then 1 else 0)"
  by (simp add: record_attempt_def)

lemma metrics_frame [frame_simps]:
  "mt_dispatch_attempts_total (observe_latency_seconds p m x mt) = mt_dispatch_attempts_total mt"
  "mt_dispatch_attempts_total (observe_throughput_tps p m x mt) = mt_dispatch_attempts_total mt"
  "mt_dispatch_attempts_total (record_tokens_and_cost p m a b c mt) = mt_dispatch_attempts_total mt"
  "mt_dispatch_attempts_total (record_cache_lookup out mt) = mt_dispatch_attempts_total mt"
  "mt_prompt_tokens_total (record_attempt p m out mt) = mt_prompt_tokens_total mt"
  "mt_cost_usd_total (record_attempt p m out mt) = mt_cost_usd_total mt"
  by (simp_all add: observe_latency_seconds_def observe_throughput_tps_def record_attempt_def
      record_tokens_and_cost_def record_cache_lookup_def)

end
