(* ===== verification/Pricing.thy ===== *)
theory Pricing
  imports Persistence Metrics Config
begin

text \<open>
  Static prices, the parameters each provider kind supports, and the accounting of one response's
  usage (\<open>crates/router/src/lib.rs\<close>: \<open>PriceRates\<close>, \<open>supported_params\<close>, \<open>active_params\<close>,
  \<open>record_usage\<close>, \<open>sum_usage\<close>). Token counters of a single response are \<open>u32\<close>, cumulative
  ones \<open>u64\<close>, both wrapping; amounts of money are real numbers.
\<close>

section \<open>Rates\<close>

record price_rates =
  px_prompt_ppm :: f64
  px_completion_ppm :: f64
  px_cache_read_ppm :: f64
  px_cache_write_ppm :: f64
  px_context_length :: "u32 option"
  px_quality_score :: "f64 option"

definition price_rates_of :: "pricing_entry \<Rightarrow> price_rates" where
  "price_rates_of p =
     \<lparr>px_prompt_ppm = pe_prompt_per_million p,
      px_completion_ppm = pe_completion_per_million p,
      px_cache_read_ppm = unwrap_or (pe_prompt_per_million p) (pe_cache_read_per_million p),
      px_cache_write_ppm = unwrap_or (pe_prompt_per_million p) (pe_cache_write_per_million p),
      px_context_length = pe_context_length p,
      px_quality_score = pe_quality_score p\<rparr>"

text \<open>\<open>format!("{provider}/{model}")\<close>, the key of every per-model table.\<close>

definition model_key :: "string \<Rightarrow> string \<Rightarrow> string" where
  "model_key provider model = provider @ ''/'' @ model"

section \<open>Parameters\<close>

definition supported_params :: "provider_kind \<Rightarrow> string list" where
  "supported_params kind =
     [''temperature'', ''top_p'', ''max_tokens'', ''stop'', ''tools'', ''tool_choice'',
      ''response_format'', ''reasoning'', ''top_k'']
     @ (case kind of
          Openai \<Rightarrow>
            [''min_p'', ''top_a'', ''frequency_penalty'', ''presence_penalty'',
             ''repetition_penalty'', ''logit_bias'', ''seed'', ''logprobs'']
        | Anthropic \<Rightarrow> [''cache_control'']
        | Gemini \<Rightarrow> [''frequency_penalty'', ''presence_penalty'', ''seed''])"

definition when_set :: "bool \<Rightarrow> string \<Rightarrow> string list" where
  "when_set b name = (if b then [name] else [])"

definition active_params :: "chat_request \<Rightarrow> string list" where
  "active_params req =
     when_set (cr_tools req \<noteq> None) ''tools''
     @ when_set (cr_tool_choice req \<noteq> None) ''tool_choice''
     @ when_set (cr_response_format req \<noteq> None) ''response_format''
     @ when_set (cr_reasoning req \<noteq> None) ''reasoning''
     @ when_set (cr_top_k req \<noteq> None) ''top_k''
     @ when_set (cr_min_p req \<noteq> None) ''min_p''
     @ when_set (cr_top_a req \<noteq> None) ''top_a''
     @ when_set (cr_frequency_penalty req \<noteq> None) ''frequency_penalty''
     @ when_set (cr_presence_penalty req \<noteq> None) ''presence_penalty''
     @ when_set (cr_repetition_penalty req \<noteq> None) ''repetition_penalty''
     @ when_set (cr_logit_bias req \<noteq> None) ''logit_bias''
     @ when_set (cr_seed req \<noteq> None) ''seed''
     @ when_set (cr_logprobs req \<noteq> None) ''logprobs''
     @ when_set (list_ex (\<lambda>m. msg_cache_control m \<noteq> None) (cr_messages req)) ''cache_control''"

section \<open>Accounting of one response\<close>

definition cost_of :: "price_rates \<Rightarrow> usage \<Rightarrow> f64" where
  "cost_of rates u =
     (let cached = unsigned (unwrap_or 0 (us_cached_tokens u));
          cache_write = unsigned (unwrap_or 0 (us_cache_creation_tokens u));
          fresh_prompt = unsigned (us_prompt_tokens u) - cached - cache_write
      in (fresh_prompt * px_prompt_ppm rates + cached * px_cache_read_ppm rates
          + cache_write * px_cache_write_ppm rates
          + unsigned (us_completion_tokens u) * px_completion_ppm rates) / 1000000)"

definition add_usage :: "usage \<Rightarrow> f64 option \<Rightarrow> usage_stats \<Rightarrow> usage_stats" where
  "add_usage u cost s =
     s\<lparr>uz_requests := uz_requests s + 1,
       uz_prompt_tokens := uz_prompt_tokens s + ucast (us_prompt_tokens u),
       uz_completion_tokens := uz_completion_tokens s + ucast (us_completion_tokens u),
       uz_cost_usd := (case cost of None \<Rightarrow> uz_cost_usd s | Some c \<Rightarrow> uz_cost_usd s + c)\<rparr>"

text \<open>The computed cost, the in-memory map with the response folded in, and the store with the
  event enqueued when there is one.\<close>

definition record_usage ::
  "(string \<rightharpoonup> price_rates) \<Rightarrow> string \<Rightarrow> string \<Rightarrow> usage
    \<Rightarrow> (string \<rightharpoonup> usage_stats) \<times> persistence option
    \<Rightarrow> f64 option \<times> (string \<rightharpoonup> usage_stats) \<times> persistence option" where
  "record_usage pricing provider model u st =
     (let key = model_key provider model;
          cost = map_option (\<lambda>rates. cost_of rates u) (pricing key)
      in (cost,
          (fst st)(key \<mapsto> add_usage u cost (unwrap_or default_usage_stats (fst st key))),
          map_option (persistence_record key u cost) (snd st)))"

definition sum_tokens :: "u32 option \<Rightarrow> u32 option \<Rightarrow> u32 option" where
  "sum_tokens a b =
     (case a of
        Some n \<Rightarrow> Some (case b of Some m \<Rightarrow> n + m | None \<Rightarrow> n)
      | None \<Rightarrow> b)"

definition sum_usage :: "usage \<Rightarrow> usage \<Rightarrow> usage" where
  "sum_usage a b =
     \<lparr>us_prompt_tokens = us_prompt_tokens a + us_prompt_tokens b,
      us_completion_tokens = us_completion_tokens a + us_completion_tokens b,
      us_total_tokens = us_total_tokens a + us_total_tokens b,
      us_cached_tokens = sum_tokens (us_cached_tokens a) (us_cached_tokens b),
      us_cache_creation_tokens =
        sum_tokens (us_cache_creation_tokens a) (us_cache_creation_tokens b)\<rparr>"

section \<open>Facts\<close>

lemma sum_tokens_assoc: "sum_tokens (sum_tokens a b) c = sum_tokens a (sum_tokens b c)"
  by (simp add: sum_tokens_def add.assoc split: option.splits)

lemma sum_tokens_commute: "sum_tokens a b = sum_tokens b a"
  by (simp add: sum_tokens_def add.commute split: option.splits)

lemma sum_usage_assoc: "sum_usage (sum_usage a b) c = sum_usage a (sum_usage b c)"
  by (simp add: sum_usage_def sum_tokens_assoc add.assoc)

lemma sum_usage_commute: "sum_usage a b = sum_usage b a"
  by (simp add: sum_usage_def sum_tokens_commute [of "us_cached_tokens a"]
      sum_tokens_commute [of "us_cache_creation_tokens a"] add.commute)

text \<open>Without wrap-around the price of a sum of usages is the sum of the prices.\<close>

lemma unsigned_add_real:
  "uint a + uint b < 2 ^ 32 \<Longrightarrow> (unsigned (a + b) :: real) = unsigned a + unsigned b" for a b :: u32
proof -
  assume "uint a + uint b < 2 ^ 32"
  then have "uint (a + b) = uint a + uint b" by (simp add: uint_word_ariths)
  then have "(of_int (uint (a + b)) :: real) = of_int (uint a) + of_int (uint b)" by simp
  then show ?thesis by simp
qed

definition token_fields :: "usage \<Rightarrow> u32 list" where
  "token_fields u =
     [us_prompt_tokens u, us_completion_tokens u, unwrap_or 0 (us_cached_tokens u),
      unwrap_or 0 (us_cache_creation_tokens u)]"

lemma unwrap_sum_tokens: "unwrap_or 0 (sum_tokens a b) = unwrap_or 0 a + unwrap_or 0 b"
  by (simp add: sum_tokens_def split: option.splits)

text \<open>
  The price of a fused answer is the price of its parts: the cost of a sum of two usages at
  the same rates is the sum of their costs, as long as no token counter exceeds 32 bits, and the
  order in which usages are summed does not matter.
\<close>

theorem fused_cost_additive:
  assumes "\<forall>(x, y) \<in> set (zip (token_fields a) (token_fields b)). uint x + uint y < 2 ^ 32"
  shows "cost_of rates (sum_usage a b) = cost_of rates a + cost_of rates b
    \<and> sum_usage a b = sum_usage b a
    \<and> sum_usage (sum_usage a b) c = sum_usage a (sum_usage b c)"
proof -
  have "cost_of rates (sum_usage a b) = cost_of rates a + cost_of rates b"
    using assms
    by (simp add: cost_of_def sum_usage_def token_fields_def unwrap_sum_tokens unsigned_add_real
        Let_def field_simps)
  then show ?thesis using sum_usage_commute sum_usage_assoc by blast
qed

definition sample_usage :: usage where
  "sample_usage =
     \<lparr>us_prompt_tokens = 1000000, us_completion_tokens = 500000, us_total_tokens = 1500000,
      us_cached_tokens = Some 250000, us_cache_creation_tokens = None\<rparr>"

definition sample_rates :: price_rates where
  "sample_rates =
     \<lparr>px_prompt_ppm = 4, px_completion_ppm = 8, px_cache_read_ppm = 1, px_cache_write_ppm = 4,
      px_context_length = Some 1000, px_quality_score = None\<rparr>"

theorem fused_cost_additive_witness:
  "cost_of sample_rates (sum_usage sample_usage sample_usage)
     = cost_of sample_rates sample_usage + cost_of sample_rates sample_usage
   \<and> cost_of sample_rates sample_usage = 7.25"
  using fused_cost_additive [of sample_usage sample_usage sample_rates]
  by (simp add: token_fields_def sample_usage_def sample_rates_def cost_of_def)

section \<open>The two usage tables agree\<close>

text \<open>A sequence of responses recorded one after another.\<close>

definition record_usages ::
  "(string \<rightharpoonup> price_rates) \<Rightarrow> (string \<times> string \<times> usage) list
    \<Rightarrow> (string \<rightharpoonup> usage_stats) \<times> persistence option
    \<Rightarrow> (string \<rightharpoonup> usage_stats) \<times> persistence option" where
  "record_usages pricing evs st = fold (\<lambda>(p, m, u) s. snd (record_usage pricing p m u s)) evs st"

definition usage_write :: "(string \<rightharpoonup> price_rates) \<Rightarrow> string \<times> string \<times> usage \<Rightarrow> db_write" where
  "usage_write pricing ev =
     (case ev of (p, m, u) \<Rightarrow>
        UsageEvent (model_key p m) (us_prompt_tokens u) (us_completion_tokens u)
          (map_option (\<lambda>rates. cost_of rates u) (pricing (model_key p m))))"

lemma record_usages_simps [simp]:
  "record_usages pricing [] st = st"
  "record_usages pricing ((p, m, u) # evs) st =
     record_usages pricing evs (snd (record_usage pricing p m u st))"
  by (simp_all add: record_usages_def)

lemma record_usages_persistence:
  "snd (record_usages pricing evs (mem, Some ps)) =
     Some (ps\<lparr>ps_pending := ps_pending ps @ map (usage_write pricing) evs\<rparr>)"
proof (induction evs arbitrary: mem ps)
  case Nil then show ?case by simp
next
  case (Cons ev evs)
  obtain p m u where "ev = (p, m, u)" by (cases ev)
  then show ?case
    by (simp add: record_usage_def Let_def Cons.IH persistence_record_def enqueue_def
        usage_write_def)
qed

lemma row_stats_upsert:
  "row_stats (upsert_usage (us_prompt_tokens u) (us_completion_tokens u) cost row)
     = add_usage u cost (unwrap_or default_usage_stats (map_option row_stats row))"
  by (cases row; cases cost)
    (simp_all add: row_stats_def upsert_usage_def add_usage_def default_usage_stats_def
      wi_hom_add [symmetric] of_int_uint)

lemma record_usages_memory:
  "fst st key = map_option row_stats row \<Longrightarrow>
     fst (record_usages pricing evs st) key =
       map_option row_stats
         (row_plus row (List.map_filter (usage_of key) (map (usage_write pricing) evs)))"
proof (induction evs arbitrary: st row)
  case Nil then show ?case by (simp add: List.map_filter_simps row_plus_def)
next
  case (Cons ev evs)
  obtain p m u where ev: "ev = (p, m, u)" by (cases ev)
  let ?st = "snd (record_usage pricing p m u st)"
  let ?cost = "map_option (\<lambda>rates. cost_of rates u) (pricing (model_key p m))"
  show ?case
  proof (cases "model_key p m = key")
    case True
    have "fst ?st key = map_option row_stats
        (Some (upsert_usage (us_prompt_tokens u) (us_completion_tokens u) ?cost row))"
      using Cons.prems True by (simp add: record_usage_def Let_def row_stats_upsert)
    from Cons.IH [OF this] True show ?thesis
      by (simp add: ev usage_write_def List.map_filter_simps row_plus_Cons)
  next
    case False
    then have "fst ?st key = map_option row_stats row"
      using Cons.prems by (simp add: record_usage_def Let_def)
    from Cons.IH [OF this] False show ?thesis
      by (simp add: ev usage_write_def List.map_filter_simps)
  qed
qed

text \<open>
  \<^bold>\<open>C27.\<close> The usage report does not depend on where it is read from: if the in-memory table was seeded
  from the store and responses are then recorded, the store, once its writer has drained (in any
  order), reads back exactly the in-memory table.
\<close>

theorem persisted_usage_refines_memory:
  assumes "load_all ps = Some mem" and "ps_pending ps = []"
    and "record_usages pricing evs (mem, Some ps) = (mem', Some ps1)"
    and "drained ps1 ps2"
  shows "usage_snapshot_of ps2 = Some mem'"
proof -
  from assms(1) have reach: "ps_reachable ps" and mem: "mem = map_option row_stats \<circ> db_usage_stats (ps_db ps)"
    by (auto simp: load_all_def split: if_splits)
  have ps1: "ps1 = ps\<lparr>ps_pending := map (usage_write pricing) evs\<rparr>"
    using record_usages_persistence [of pricing evs mem ps] assms(2,3) by simp
  have "ps_reachable ps2"
    using writer_steps_frame [of ps1 ps2] assms(4) reach ps1 by (simp add: drained_def)
  moreover from drained_executes [of ps1 ps2] assms(4) reach ps1 obtain ws where
    ws: "mset (map (usage_write pricing) evs) = mset ws" "ps_db ps2 = fold execute_write ws (ps_db ps)"
    by (auto simp: drained_def)
  moreover have "mem' key = map_option row_stats (db_usage_stats (ps_db ps2) key)" for key
  proof -
    have "mset (List.map_filter (usage_of key) ws)
        = mset (List.map_filter (usage_of key) (map (usage_write pricing) evs))"
      using ws(1) by (intro mset_map_filter) simp
    from row_plus_perm [OF this] show ?thesis
      using record_usages_memory [of "(mem, Some ps)" key "db_usage_stats (ps_db ps) key" pricing evs]
        assms(3) mem ws(2)
      by (simp add: execute_usage)
  qed
  ultimately show ?thesis by (auto simp: usage_snapshot_of_def load_all_def)
qed

theorem persisted_usage_refines_memory_witness:
  "\<exists>ps2 :: persistence. \<exists>mem'. usage_snapshot_of ps2 = Some mem'
     \<and> map_option uz_requests (mem' ''a/m'') = Some 1
     \<and> map_option uz_cost_usd (mem' ''a/m'') = Some 7.25"
proof -
  let ?ps = "\<lparr>ps_backend = PostgresBackend, ps_reachable = True, ps_pending = [],
              ps_db = empty_database\<rparr> :: persistence"
  let ?pricing = "[''a/m'' \<mapsto> sample_rates]"
  let ?st = "record_usages ?pricing [(''a'', ''m'', sample_usage)] (Map.empty, Some ?ps)"
  define ps1 where "ps1 = ?ps\<lparr>ps_pending := ps_pending ?ps
      @ map (usage_write ?pricing) [(''a'', ''m'', sample_usage)]\<rparr>"
  have ps1: "snd ?st = Some ps1" unfolding ps1_def by (rule record_usages_persistence)
  have "ps_backend ps1 = PostgresBackend" "length (ps_pending ps1) = 1" by (simp_all add: ps1_def)
  then have "drained ps1 (run_write 0 ps1)"
    by (auto simp: drained_def intro!: writer_step.postgres)
  moreover have "?st = (fst ?st, Some ps1)" using ps1 by (metis prod.collapse)
  ultimately have "usage_snapshot_of (run_write 0 ps1) = Some (fst ?st)"
    using persisted_usage_refines_memory [of ?ps Map.empty ?pricing "[(''a'', ''m'', sample_usage)]"
        "fst ?st" ps1 "run_write 0 ps1"]
    by (simp add: load_all_def empty_database_def fun_eq_iff del: record_usages_simps)
  moreover have "fst ?st ''a/m'' = Some (add_usage sample_usage (Some (cost_of sample_rates sample_usage))
      default_usage_stats)"
    by (simp add: record_usage_def Let_def model_key_def)
  moreover have "cost_of sample_rates sample_usage = 7.25"
    by (simp add: sample_usage_def sample_rates_def cost_of_def)
  ultimately show ?thesis
    by (intro exI [of _ "run_write 0 ps1"] exI [of _ "fst ?st"] conjI)
      (simp_all add: add_usage_def default_usage_stats_def del: record_usages_simps)
qed

end
