(* ===== verification/Caches.thy ===== *)
theory Caches
  imports Config
begin

text \<open>
  The bounded, insertion-ordered stores of the router: the exact-match and the semantic response
  cache (\<open>crates/router/src/cache.rs\<close>), the per-request generation records and the reasoning traces
  kept for replay (\<open>GenerationCache\<close>, \<open>ReasoningReplayCache\<close> in \<open>crates/router/src/lib.rs\<close>). The
  first three share one eviction discipline, stated once as a locale and interpreted on each.
\<close>

section \<open>The stores\<close>

record generation_record =
  gr_id :: string
  gr_model :: string
  gr_created :: i64
  gr_prompt_tokens :: u64
  gr_completion_tokens :: u64
  gr_total_tokens :: u64
  gr_cost_usd :: "f64 option"

record generation_cache =
  gn_order :: "string list"
  gn_by_id :: "string \<rightharpoonup> generation_record"

definition GENERATION_CACHE_CAPACITY :: nat where
  "GENERATION_CACHE_CAPACITY = 1000"

definition empty_generation_cache :: generation_cache where
  "empty_generation_cache = \<lparr>gn_order = [], gn_by_id = Map.empty\<rparr>"

definition generation_insert :: "generation_record \<Rightarrow> generation_cache \<Rightarrow> generation_cache" where
  "generation_insert rec c =
     (let c1 = (if gn_by_id c (gr_id rec) = None then
                  (let order = gn_order c @ [gr_id rec]
                   in if GENERATION_CACHE_CAPACITY < length order then
                        (case order of
                           oldest # rest \<Rightarrow>
                             c\<lparr>gn_order := rest, gn_by_id := (gn_by_id c)(oldest := None)\<rparr>
                         | [] \<Rightarrow> c\<lparr>gn_order := order\<rparr>)
                      else c\<lparr>gn_order := order\<rparr>)
                else c)
      in c1\<lparr>gn_by_id := (gn_by_id c1)(gr_id rec \<mapsto> rec)\<rparr>)"

definition generation_get :: "string \<Rightarrow> generation_cache \<Rightarrow> generation_record option" where
  "generation_get i c = gn_by_id c i"

record reasoning_replay_cache =
  rr_order :: "string list"
  rr_by_tool_call_id :: "string \<rightharpoonup> string"

definition REASONING_REPLAY_CACHE_CAPACITY :: nat where
  "REASONING_REPLAY_CACHE_CAPACITY = 1000"

definition empty_reasoning_cache :: reasoning_replay_cache where
  "empty_reasoning_cache = \<lparr>rr_order = [], rr_by_tool_call_id = Map.empty\<rparr>"

definition reasoning_insert ::
  "string \<Rightarrow> string \<Rightarrow> reasoning_replay_cache \<Rightarrow> reasoning_replay_cache" where
  "reasoning_insert tool_call_id reasoning c =
     (let c1 = (if rr_by_tool_call_id c tool_call_id = None then
                  (let order = rr_order c @ [tool_call_id]
                   in if REASONING_REPLAY_CACHE_CAPACITY < length order then
                        (case order of
                           oldest # rest \<Rightarrow>
                             c\<lparr>rr_order := rest,
                               rr_by_tool_call_id := (rr_by_tool_call_id c)(oldest := None)\<rparr>
                         | [] \<Rightarrow> c\<lparr>rr_order := order\<rparr>)
                      else c\<lparr>rr_order := order\<rparr>)
                else c)
      in c1\<lparr>rr_by_tool_call_id := (rr_by_tool_call_id c1)(tool_call_id \<mapsto> reasoning)\<rparr>)"

definition reasoning_get :: "string \<Rightarrow> reasoning_replay_cache \<Rightarrow> string option" where
  "reasoning_get tool_call_id c = rr_by_tool_call_id c tool_call_id"

text \<open>A \<open>Duration\<close> is a number of nanoseconds.\<close>

definition duration_from_secs :: "u64 \<Rightarrow> nat" where
  "duration_from_secs s = unat s * 10 ^ 9"

record response_cache =
  rc_ttl :: nat
  rc_max_entries :: nat
  rc_order :: "u64 list"
  rc_entries :: "u64 \<rightharpoonup> instant \<times> chat_response"

definition new_response_cache :: "cache_config \<Rightarrow> response_cache" where
  "new_response_cache cfg =
     \<lparr>rc_ttl = duration_from_secs (ca_ttl_secs cfg), rc_max_entries = max (ca_max_entries cfg) 1,
      rc_order = [], rc_entries = Map.empty\<rparr>"

text \<open>
  The keys: \<open>hash\<close> stands for the standard library's hash of the request's JSON text.
\<close>

definition key_for :: "(chat_request \<Rightarrow> u64) \<Rightarrow> chat_request \<Rightarrow> u64" where
  "key_for hash req = hash req"

definition scope_key_for :: "(chat_request \<Rightarrow> u64) \<Rightarrow> chat_request \<Rightarrow> u64" where
  "scope_key_for hash req = hash (req\<lparr>cr_messages := []\<rparr>)"

definition response_get ::
  "instant \<Rightarrow> u64 \<Rightarrow> response_cache \<Rightarrow> chat_response option \<times> response_cache" where
  "response_get now k c =
     (case rc_entries c k of
        None \<Rightarrow> (None, c)
      | Some (inserted_at, resp) \<Rightarrow>
          if rc_ttl c < now - inserted_at
          then (None, c\<lparr>rc_entries := (rc_entries c)(k := None)\<rparr>)
          else (Some resp, c))"

definition response_insert ::
  "instant \<Rightarrow> u64 \<Rightarrow> chat_response \<Rightarrow> response_cache \<Rightarrow> response_cache" where
  "response_insert now k resp c =
     (let c1 = (if rc_entries c k = None then
                  (let order = rc_order c @ [k]
                   in if rc_max_entries c < length order then
                        (case order of
                           oldest # rest \<Rightarrow>
                             c\<lparr>rc_order := rest, rc_entries := (rc_entries c)(oldest := None)\<rparr>
                         | [] \<Rightarrow> c\<lparr>rc_order := order\<rparr>)
                      else c\<lparr>rc_order := order\<rparr>)
                else c)
      in c1\<lparr>rc_entries := (rc_entries c1)(k \<mapsto> (now, resp))\<rparr>)"

section \<open>The eviction discipline\<close>

text \<open>
  A store with an order of keys, a table of entries and a positive capacity. A key already in the
  table is overwritten in place; a new key goes to the back of the order and, beyond the capacity,
  drops whatever key is at its front. \<open>wrap\<close> is what is stored for a key and a value.
\<close>

fun put_all :: "('k \<Rightarrow> 'v \<Rightarrow> 's \<Rightarrow> 's) \<Rightarrow> 's \<Rightarrow> ('k \<times> 'v) list \<Rightarrow> 's" where
  "put_all put s [] = s"
| "put_all put s ((k, v) # kvs) = put_all put (put k v s) kvs"

lemma put_all_snoc: "put_all put s (kvs @ [(k, v)]) = put k v (put_all put s kvs)"
  by (induction kvs arbitrary: s) auto

locale fifo_store =
  fixes order :: "'s \<Rightarrow> 'k list"
    and entries :: "'s \<Rightarrow> ('k \<rightharpoonup> 'v)"
    and cap :: "'s \<Rightarrow> nat"
    and wrap :: "'k \<Rightarrow> 'v \<Rightarrow> 'v"
    and put :: "'k \<Rightarrow> 'v \<Rightarrow> 's \<Rightarrow> 's"
  assumes order_put:
    "order (put k v s) =
       (if entries s k \<noteq> None then order s
        else if length (order s) < cap s then order s @ [k] else tl (order s @ [k]))"
    and entries_put:
    "entries (put k v s) =
       (if entries s k \<noteq> None \<or> length (order s) < cap s then entries s
        else (entries s)(hd (order s @ [k]) := None))(k \<mapsto> wrap k v)"
    and cap_put: "cap (put k v s) = cap s"
begin

text \<open>\<open>sound\<close>: the capacity is positive, the order holds at most that many keys, and every entry's
  key is in the order (the order may hold keys whose entry is gone).\<close>

lemma sound_put:
  assumes "0 < cap s" "length (order s) \<le> cap s" "dom (entries s) \<subseteq> set (order s)"
  shows "length (order (put k v s)) \<le> cap (put k v s)
    \<and> dom (entries (put k v s)) \<subseteq> set (order (put k v s))"
proof -
  consider (hit) "entries s k \<noteq> None" | (room) "entries s k = None" "length (order s) < cap s"
    | (full) "entries s k = None" "\<not> length (order s) < cap s" by blast
  then show ?thesis
  proof cases
    case hit
    then have "k \<in> dom (entries s)" by auto
    with hit assms show ?thesis by (auto simp: order_put entries_put cap_put)
  next
    case room
    then show ?thesis using assms by (auto simp: order_put entries_put cap_put)
  next
    case full
    then obtain x xs where "order s = x # xs" using assms(1) by (cases "order s") auto
    then show ?thesis using full assms(2,3)
      by (auto simp: order_put entries_put cap_put split: if_splits)
  qed
qed

lemma size_bound:
  assumes "length (order s) \<le> cap s" "dom (entries s) \<subseteq> set (order s)"
  shows "finite (dom (entries s)) \<and> card (dom (entries s)) \<le> cap s"
proof -
  have "card (dom (entries s)) \<le> card (set (order s))"
    using assms(2) by (intro card_mono) auto
  also have "\<dots> \<le> length (order s)" by (rule card_length)
  finally show ?thesis using assms finite_subset by fastforce
qed

lemma put_get: "entries (put k v s) k = Some (wrap k v)"
  by (simp add: entries_put)

text \<open>Another key keeps its entry unless it is the one at the front of a full order.\<close>

lemma put_other:
  assumes "k' \<noteq> k" "entries s k \<noteq> None \<or> length (order s) < cap s \<or> k' \<noteq> hd (order s @ [k])"
  shows "entries (put k v s) k' = entries s k'"
  using assms by (auto simp: entries_put)

lemma put_shrinks: "k' \<noteq> k \<Longrightarrow> entries (put k v s) k' \<in> {entries s k', None}"
  by (auto simp: entries_put)

text \<open>
  Where entries only ever leave by eviction, the order lists exactly the keys of the table, once
  each; then a run of new keys that fits the capacity is retained in full.
\<close>

lemma exact_put:
  assumes "0 < cap s" "length (order s) \<le> cap s" "distinct (order s)"
    and "dom (entries s) = set (order s)"
  shows "distinct (order (put k v s)) \<and> dom (entries (put k v s)) = set (order (put k v s))"
proof -
  have mem: "entries s k = None \<longleftrightarrow> k \<notin> set (order s)" using assms(4) by auto
  consider (hit) "entries s k \<noteq> None" | (room) "entries s k = None" "length (order s) < cap s"
    | (full) "entries s k = None" "\<not> length (order s) < cap s" by blast
  then show ?thesis
  proof cases
    case hit
    then have "k \<in> dom (entries s)" by auto
    with hit assms(3,4) show ?thesis by (auto simp: order_put entries_put)
  next
    case room
    then show ?thesis using assms(3,4) mem by (auto simp: order_put entries_put)
  next
    case full
    then obtain x xs where "order s = x # xs" using assms(1) by (cases "order s") auto
    then show ?thesis using full assms(3,4) mem
      by (auto simp: order_put entries_put split: if_splits)
  qed
qed

lemma put_all_fresh:
  assumes "0 < cap s" "length (order s) \<le> cap s" "distinct (order s)"
    and "dom (entries s) = set (order s)"
    and "distinct (map fst kvs)" "fst ` set kvs \<inter> dom (entries s) = {}" "length kvs \<le> cap s"
  shows "cap (put_all put s kvs) = cap s
    \<and> order (put_all put s kvs)
        = drop (length (order s) + length kvs - cap s) (order s @ map fst kvs)
    \<and> dom (entries (put_all put s kvs)) = set (order (put_all put s kvs))
    \<and> (\<forall>(k, v)\<in>set kvs. entries (put_all put s kvs) k = Some (wrap k v))"
  using assms(5-7)
proof (induction kvs rule: rev_induct)
  case Nil then show ?case using assms by simp
next
  case (snoc kv kvs)
  obtain k v where kv: "kv = (k, v)" by (cases kv)
  define s' where "s' = put_all put s kvs"
  have IH: "cap s' = cap s"
      "order s' = drop (length (order s) + length kvs - cap s) (order s @ map fst kvs)"
      "dom (entries s') = set (order s')"
      "\<forall>(k, v)\<in>set kvs. entries s' k = Some (wrap k v)"
    using snoc by (auto simp: s'_def)
  have len: "length (order s') = min (cap s) (length (order s) + length kvs)"
    using assms(2) by (simp add: IH(2))
  have dist: "distinct (order s @ map fst (kvs @ [kv]))"
    using snoc.prems assms(3,4) by auto
  then have "distinct (order s @ map fst kvs)" by auto
  then have "distinct (order s')" unfolding IH(2) by (rule distinct_drop)
  moreover have "k \<notin> set (order s @ map fst kvs)" using dist by (auto simp: kv)
  then have "k \<notin> set (order s')" by (metis IH(2) in_set_dropD)
  then have k: "entries s' k = None" using IH(3) by auto
  ultimately have ex: "dom (entries (put k v s')) = set (order (put k v s'))"
    using exact_put [of s' k v] assms(1) IH(1,3) len by simp
  have ord: "order (put k v s')
      = drop (length (order s) + length (kvs @ [kv]) - cap s) (order s @ map fst (kvs @ [kv]))"
  proof (cases "length (order s') < cap s")
    case True
    then have "length (order s) + length kvs < cap s" using len by simp
    with True k show ?thesis by (simp add: order_put IH kv)
  next
    case False
    then have l: "cap s \<le> length (order s) + length kvs" using len by simp
    then have "order s' \<noteq> []" using len assms(1) by auto
    with False k have "order (put k v s') = tl (order s') @ [k]" by (simp add: order_put IH(1))
    also have "tl (order s') = drop (Suc (length (order s) + length kvs - cap s)) (order s @ map fst kvs)"
      by (simp only: IH(2) drop_Suc tl_drop)
    also have "\<dots> @ [k] = drop (Suc (length (order s) + length kvs - cap s))
        ((order s @ map fst kvs) @ [k])"
      using l assms(1) by (subst drop_append [of _ "order s @ map fst kvs"]) simp
    finally show ?thesis using l by (simp add: kv Suc_diff_le)
  qed
  have "entries (put k v s') k1 = Some (wrap k1 v1)" if "(k1, v1) \<in> set kvs" for k1 v1
  proof -
    have ne: "k1 \<noteq> k" using that snoc.prems(1) kv by force
    have "k1 \<noteq> hd (order s' @ [k])" if full: "\<not> length (order s') < cap s"
    proof -
      have n: "length (order s) + length kvs - cap s < length (order s)"
        using snoc.prems(3) assms(1) full len by simp
      then have "hd (order s') = order s ! (length (order s) + length kvs - cap s)"
        by (simp add: IH(2) hd_drop_conv_nth nth_append)
      moreover have "order s' \<noteq> []" using full assms(1) by auto
      ultimately have "hd (order s' @ [k]) \<in> set (order s)" using n by simp
      then show ?thesis using \<open>(k1, v1) \<in> set kvs\<close> dist by force
    qed
    then have "entries (put k v s') k1 = entries s' k1"
      using ne by (intro put_other) (auto simp: IH(1))
    with IH(4) that show ?thesis by auto
  qed
  then show ?case
    using ex ord IH(1) put_get [of k v s'] by (auto simp: put_all_snoc kv s'_def cap_put)
qed

end

text \<open>Invariants of the three stores, in terms of their own fields.\<close>

definition generation_inv :: "generation_cache \<Rightarrow> bool" where
  "generation_inv c \<longleftrightarrow> length (gn_order c) \<le> GENERATION_CACHE_CAPACITY
     \<and> distinct (gn_order c) \<and> dom (gn_by_id c) = set (gn_order c)
     \<and> (\<forall>i r. gn_by_id c i = Some r \<longrightarrow> gr_id r = i)"

definition reasoning_inv :: "reasoning_replay_cache \<Rightarrow> bool" where
  "reasoning_inv c \<longleftrightarrow> length (rr_order c) \<le> REASONING_REPLAY_CACHE_CAPACITY
     \<and> distinct (rr_order c) \<and> dom (rr_by_tool_call_id c) = set (rr_order c)"

definition response_inv :: "response_cache \<Rightarrow> bool" where
  "response_inv c \<longleftrightarrow> 0 < rc_max_entries c \<and> length (rc_order c) \<le> rc_max_entries c
     \<and> dom (rc_entries c) \<subseteq> set (rc_order c)"

text \<open>
  The generation cache is keyed by a field of what it stores, so it meets the contract with
  \<open>generation_insert\<close> applied to the record under its own key.
\<close>

interpretation gen: fifo_store gn_order gn_by_id "\<lambda>_. GENERATION_CACHE_CAPACITY"
  "\<lambda>k v. v\<lparr>gr_id := k\<rparr>" "\<lambda>k v. generation_insert (v\<lparr>gr_id := k\<rparr>)"
  by unfold_locales
    (auto simp: generation_insert_def Let_def neq_Nil_conv split: list.splits)

interpretation replay: fifo_store rr_order rr_by_tool_call_id "\<lambda>_. REASONING_REPLAY_CACHE_CAPACITY"
  "\<lambda>_ v. v" reasoning_insert
  by unfold_locales
    (auto simp: reasoning_insert_def Let_def neq_Nil_conv split: list.splits)

interpretation resp: fifo_store rc_order rc_entries rc_max_entries
  "\<lambda>_ v. v" "\<lambda>k (now, r). response_insert now k r"
  by unfold_locales
    (auto simp: response_insert_def Let_def neq_Nil_conv split: list.splits)


section \<open>Generation records and reasoning traces\<close>

lemma empty_generation_inv: "generation_inv empty_generation_cache"
  by (simp add: generation_inv_def empty_generation_cache_def)

lemma empty_reasoning_inv: "reasoning_inv empty_reasoning_cache"
  by (simp add: reasoning_inv_def empty_reasoning_cache_def)

lemma generation_insert_inv:
  assumes "generation_inv c" shows "generation_inv (generation_insert rec c)"
proof -
  have "gr_id r = i" if "gn_by_id (generation_insert rec c) i = Some r" for i r
    using that gen.put_shrinks [of i "gr_id rec" rec c] gen.put_get [of "gr_id rec" rec c] assms
    by (cases "i = gr_id rec") (auto simp: generation_inv_def)
  moreover have "0 < GENERATION_CACHE_CAPACITY" by (simp add: GENERATION_CACHE_CAPACITY_def)
  ultimately show ?thesis
    using gen.sound_put [of c "gr_id rec" rec] gen.exact_put [of c "gr_id rec" rec] assms
    by (simp add: generation_inv_def)
qed

lemma reasoning_insert_inv:
  assumes "reasoning_inv c" shows "reasoning_inv (reasoning_insert i r c)"
  using replay.sound_put [of c i r] replay.exact_put [of c i r] assms
  by (simp add: reasoning_inv_def REASONING_REPLAY_CACHE_CAPACITY_def)

text \<open>
  The last thousand requests can be looked up: whatever the cache holds, after up to
  \<open>GENERATION_CACHE_CAPACITY\<close> completed requests with new ids every one of them is found under its
  id with its own record, the cache holds at most a thousand records, and each record is filed
  under its own id.
\<close>

theorem recent_generations_found:
  assumes "generation_inv c" and "length rs \<le> GENERATION_CACHE_CAPACITY"
    and "distinct (map gr_id rs)" and "\<forall>r\<in>set rs. generation_get (gr_id r) c = None"
  shows "(\<forall>r\<in>set rs. generation_get (gr_id r) (fold generation_insert rs c) = Some r)
    \<and> (\<forall>i r. generation_get i (fold generation_insert rs c) = Some r \<longrightarrow> gr_id r = i)
    \<and> card (dom (gn_by_id (fold generation_insert rs c))) \<le> GENERATION_CACHE_CAPACITY"
proof -
  let ?kvs = "map (\<lambda>r. (gr_id r, r)) rs"
  have run: "fold generation_insert rs c
      = put_all (\<lambda>k v. generation_insert (v\<lparr>gr_id := k\<rparr>)) c ?kvs" for c
    by (induction rs arbitrary: c) auto
  have disj: "fst ` set ?kvs \<inter> dom (gn_by_id c) = {}"
    using assms(4) by (auto simp: generation_get_def)
  have "0 < GENERATION_CACHE_CAPACITY" by (simp add: GENERATION_CACHE_CAPACITY_def)
  then have "\<forall>(k, v)\<in>set ?kvs. gn_by_id (fold generation_insert rs c) k = Some (v\<lparr>gr_id := k\<rparr>)"
    using gen.put_all_fresh [OF _ _ _ _ _ disj] assms(1-3) unfolding run generation_inv_def
    by (simp add: comp_def)
  moreover have inv: "generation_inv (fold generation_insert rs c)"
    using assms(1) by (induction rs arbitrary: c) (auto intro: generation_insert_inv)
  ultimately show ?thesis
    using gen.size_bound [of "fold generation_insert rs c"]
    by (auto simp: generation_inv_def generation_get_def)
qed

definition sample_record :: "string \<Rightarrow> generation_record" where
  "sample_record i =
     \<lparr>gr_id = i, gr_model = ''openai/gpt'', gr_created = 0, gr_prompt_tokens = 1,
      gr_completion_tokens = 1, gr_total_tokens = 2, gr_cost_usd = None\<rparr>"

lemma gr_id_sample_record [simp]: "gr_id (sample_record i) = i"
  by (simp add: sample_record_def)

theorem recent_generations_found_witness:
  "generation_get ''a'' (fold generation_insert [sample_record ''a'', sample_record ''b'']
     empty_generation_cache) = Some (sample_record ''a'')"
proof -
  let ?rs = "[sample_record ''a'', sample_record ''b'']"
  have "length ?rs \<le> GENERATION_CACHE_CAPACITY" "distinct (map gr_id ?rs)"
    "\<forall>r\<in>set ?rs. generation_get (gr_id r) empty_generation_cache = None"
    by (simp_all add: GENERATION_CACHE_CAPACITY_def generation_get_def empty_generation_cache_def)
  from recent_generations_found [OF empty_generation_inv this]
  have "generation_get (gr_id (sample_record ''a'')) (fold generation_insert ?rs empty_generation_cache)
      = Some (sample_record ''a'')"
    by (meson list.set_intros(1))
  then show ?thesis by (simp only: gr_id_sample_record)
qed

section \<open>The exact-match response cache\<close>

lemma new_response_cache_inv: "response_inv (new_response_cache cfg)"
  by (simp add: response_inv_def new_response_cache_def)

lemma response_get_inv: "response_inv c \<Longrightarrow> response_inv (snd (response_get now k c))"
  by (auto simp: response_inv_def response_get_def split: option.splits)

lemma response_insert_inv: "response_inv c \<Longrightarrow> response_inv (response_insert now k r c)"
  using resp.sound_put [of c k "(now, r)"]
  by (auto simp: response_inv_def response_insert_def Let_def split: list.splits)

lemma response_get_simps [simp]:
  "rc_ttl (snd (response_get now k c)) = rc_ttl c"
  "rc_max_entries (snd (response_get now k c)) = rc_max_entries c"
  by (auto simp: response_get_def split: option.splits)

lemma response_insert_ttl [simp]: "rc_ttl (response_insert now k r c) = rc_ttl c"
  by (auto simp: response_insert_def Let_def split: list.splits)

lemma response_get_insert:
  "fst (response_get t k (response_insert t0 k r c)) = (if rc_ttl c < t - t0 then None else Some r)"
proof -
  have "rc_entries (response_insert t0 k r c) k = Some (t0, r)"
    using resp.put_get [of k "(t0, r)" c] by simp
  then show ?thesis by (simp add: response_get_def)
qed

datatype cache_op = Lookup instant u64 | Store instant u64 chat_response

fun cache_step :: "cache_op \<Rightarrow> response_cache \<Rightarrow> response_cache" where
  "cache_step (Lookup now k) c = snd (response_get now k c)"
| "cache_step (Store now k r) c = response_insert now k r c"

lemma cache_steps_inv: "response_inv c \<Longrightarrow> response_inv (fold cache_step ops c)"
proof (induction ops arbitrary: c)
  case (Cons op ops)
  then have "response_inv (cache_step op c)"
    by (cases op) (simp_all add: response_get_inv response_insert_inv)
  then show ?case using Cons.IH by simp
qed simp

lemma cache_steps_ttl: "rc_ttl (fold cache_step ops c) = rc_ttl c"
proof (induction ops arbitrary: c)
  case (Cons op ops) then show ?case by (cases op) simp_all
qed simp

text \<open>Every entry was stored, at the time it carries.\<close>

lemma cache_steps_origin:
  "\<forall>k t r. rc_entries c k = Some (t, r) \<longrightarrow> Store t k r \<in> S \<Longrightarrow> set ops \<subseteq> S \<Longrightarrow>
     rc_entries (fold cache_step ops c) k = Some (t, r) \<Longrightarrow> Store t k r \<in> S"
proof (induction ops arbitrary: c)
  case (Cons op ops)
  have "\<forall>k t r. rc_entries (cache_step op c) k = Some (t, r) \<longrightarrow> Store t k r \<in> S"
  proof (cases op)
    case (Lookup now k')
    then show ?thesis using Cons.prems(1) by (auto simp: response_get_def split: option.splits if_splits)
  next
    case (Store now k' r')
    have "rc_entries c k = Some (t, r)"
      if "rc_entries (response_insert now k' r' c) k = Some (t, r)" "k \<noteq> k'" for k t r
      using that resp.put_shrinks [of k k' "(now, r')" c] by auto
    moreover have "rc_entries (response_insert now k' r' c) k' = Some (now, r')"
      using resp.put_get [of k' "(now, r')" c] by simp
    moreover have "Store now k' r' \<in> S" using Cons.prems(2) Store by simp
    ultimately have "Store t k r \<in> S" if "rc_entries (response_insert now k' r' c) k = Some (t, r)" for k t r
      using that Cons.prems(1) by (cases "k = k'") simp_all
    then show ?thesis using Store by simp
  qed
  then show ?case using Cons.IH Cons.prems(2,3) by simp
qed auto

text \<open>
  The response cache is sound: after any sequence of lookups and stores on a new cache, a
  lookup answers only with a response stored under that very key no longer than the configured
  time-to-live ago, and the cache never holds more than \<open>max_entries\<close> (at least one) responses.
\<close>

theorem response_cache_sound:
  assumes "c = fold cache_step ops (new_response_cache cfg)"
  shows "(fst (response_get now k c) = Some r \<longrightarrow>
           (\<exists>t. Store t k r \<in> set ops \<and> now - t \<le> unat (ca_ttl_secs cfg) * 10 ^ 9))
    \<and> card (dom (rc_entries c)) \<le> max (ca_max_entries cfg) 1"
proof -
  have inv: "response_inv c" by (simp add: assms cache_steps_inv new_response_cache_inv)
  have me: "rc_max_entries (fold cache_step ops d) = rc_max_entries d" for d
  proof (induction ops arbitrary: d)
    case (Cons op ops)
    then show ?case
      using resp.cap_put [of _ "(_, _)" d] by (cases op) simp_all
  qed simp
  have "rc_ttl c = unat (ca_ttl_secs cfg) * 10 ^ 9"
    by (simp add: assms cache_steps_ttl new_response_cache_def duration_from_secs_def)
  moreover have "Store t k r \<in> set ops" if "rc_entries c k = Some (t, r)" for t
    using cache_steps_origin [of "new_response_cache cfg" "set ops" ops k t r] that assms
    by (simp add: new_response_cache_def)
  moreover have "card (dom (rc_entries c)) \<le> rc_max_entries c"
    using inv resp.size_bound by (simp add: response_inv_def)
  ultimately show ?thesis
    using me [of "new_response_cache cfg"]
    by (auto simp: response_get_def assms new_response_cache_def split: option.splits if_splits)
qed

definition sample_cache_config :: "nat \<Rightarrow> cache_config" where
  "sample_cache_config n =
     \<lparr>ca_ttl_secs = 300, ca_max_entries = n, ca_mode = Exact, ca_similarity_threshold = 85 / 100,
      ca_embedding_model = None\<rparr>"

definition sample_response :: "string \<Rightarrow> chat_response" where
  "sample_response i =
     \<lparr>rs_id = i, rs_created = 0, rs_model = ''openai/gpt'', rs_choices = [], rs_usage = None,
      rs_cost_usd = None\<rparr>"

theorem response_cache_sound_witness:
  "card (dom (rc_entries (fold cache_step [Store 0 7 (sample_response ''a''), Lookup 5 7]
     (new_response_cache (sample_cache_config 2))))) \<le> 2"
  using response_cache_sound [OF refl, of 0 7 "[Store 0 7 (sample_response ''a''), Lookup 5 7]"
      "sample_cache_config 2" "sample_response ''a''"]
  by (simp add: sample_cache_config_def)

text \<open>
  Expiry and eviction do not agree. An entry dropped because it expired keeps its place in the
  eviction order; stored again, its key stands there twice, and the older place evicts the fresh
  entry as soon as the order is full. Here a cache of two entries answers a request stored one
  nanosecond ago with a miss, although only one other response has been stored since.
\<close>

theorem expired_key_evicts_fresh_entry:
  "let ops = [Store 0 1 (sample_response ''a''), Lookup (301 * 10 ^ 9) 1,
              Store (301 * 10 ^ 9) 1 (sample_response ''a''),
              Store (301 * 10 ^ 9 + 1) 2 (sample_response ''b'')];
       c = fold cache_step ops (new_response_cache (sample_cache_config 2))
   in rc_order c = [1, 2] \<and> dom (rc_entries c) = {2}
      \<and> fst (response_get (301 * 10 ^ 9 + 1) 1 c) = None"
  by (simp add: new_response_cache_def sample_cache_config_def response_insert_def
      response_get_def duration_from_secs_def)

section \<open>The semantic response cache\<close>

definition dot :: "f32 list \<Rightarrow> f32 list \<Rightarrow> f32" where
  "dot a b = sum_list (map (\<lambda>(x, y). x * y) (zip a b))"

definition cosine_similarity :: "f32 list \<Rightarrow> f32 list \<Rightarrow> f64" where
  "cosine_similarity a b =
     (if length a \<noteq> length b \<or> a = [] then 0
      else (let norm_a = sqrt (dot a a); norm_b = sqrt (dot b b)
            in if norm_a = 0 \<or> norm_b = 0 then 0 else dot a b / (norm_a * norm_b)))"

record semantic_entry =
  se_scope_key :: u64
  se_embedding :: "f32 list"
  se_response :: chat_response
  se_inserted_at :: instant

record semantic_cache =
  sm_ttl :: nat
  sm_max_entries :: nat
  sm_threshold :: f64
  sm_entries :: "semantic_entry list"

definition new_semantic_cache :: "cache_config \<Rightarrow> semantic_cache" where
  "new_semantic_cache cfg =
     \<lparr>sm_ttl = duration_from_secs (ca_ttl_secs cfg), sm_max_entries = max (ca_max_entries cfg) 1,
      sm_threshold = ca_similarity_threshold cfg, sm_entries = []\<rparr>"

text \<open>\<open>Iterator::max_by\<close>: the last of the elements with the greatest key.\<close>

fun max_by :: "('a \<Rightarrow> f64) \<Rightarrow> 'a list \<Rightarrow> 'a option" where
  "max_by f [] = None"
| "max_by f (x # xs) =
     (case max_by f xs of
        None \<Rightarrow> Some x
      | Some y \<Rightarrow> if f x \<le> f y then Some y else Some x)"

definition semantic_get ::
  "instant \<Rightarrow> u64 \<Rightarrow> f32 list \<Rightarrow> semantic_cache \<Rightarrow> chat_response option \<times> semantic_cache" where
  "semantic_get now scope_key query c =
     (let c' = c\<lparr>sm_entries := filter (\<lambda>e. now - se_inserted_at e \<le> sm_ttl c) (sm_entries c)\<rparr>;
          scored = map (\<lambda>e. (cosine_similarity (se_embedding e) query, e))
                     (filter (\<lambda>e. se_scope_key e = scope_key) (sm_entries c'));
          hits = filter (\<lambda>(similarity, _). sm_threshold c \<le> similarity) scored
      in (map_option (\<lambda>(_, e). se_response e) (max_by fst hits), c'))"

definition semantic_insert ::
  "instant \<Rightarrow> u64 \<Rightarrow> f32 list \<Rightarrow> chat_response \<Rightarrow> semantic_cache \<Rightarrow> semantic_cache" where
  "semantic_insert now scope_key embedding resp c =
     (let entries = sm_entries c @ [\<lparr>se_scope_key = scope_key, se_embedding = embedding,
                                     se_response = resp, se_inserted_at = now\<rparr>]
      in c\<lparr>sm_entries := (if sm_max_entries c < length entries then tl entries else entries)\<rparr>)"

definition semantic_inv :: "semantic_cache \<Rightarrow> bool" where
  "semantic_inv c \<longleftrightarrow> 0 < sm_max_entries c \<and> length (sm_entries c) \<le> sm_max_entries c"

lemma new_semantic_cache_inv: "semantic_inv (new_semantic_cache cfg)"
  by (simp add: semantic_inv_def new_semantic_cache_def)

lemma semantic_get_inv: "semantic_inv c \<Longrightarrow> semantic_inv (snd (semantic_get now sk q c))"
  by (auto simp: semantic_inv_def semantic_get_def Let_def intro: le_trans [OF length_filter_le])

lemma semantic_insert_inv: "semantic_inv c \<Longrightarrow> semantic_inv (semantic_insert now sk e r c)"
  by (auto simp: semantic_inv_def semantic_insert_def Let_def)

lemma max_by_None [simp]: "max_by f xs = None \<longleftrightarrow> xs = []"
  by (cases xs) (auto split: option.splits)

lemma max_by_Some: "max_by f xs = Some y \<Longrightarrow> y \<in> set xs \<and> (\<forall>x\<in>set xs. f x \<le> f y)"
  by (induction xs arbitrary: y) (fastforce split: option.splits if_splits)+

text \<open>Cauchy and Schwarz, on lists.\<close>

lemma dot_self_nonneg: "0 \<le> dot a a"
  by (induction a) (auto simp: dot_def)

lemma dot_cauchy_schwarz: "length a = length b \<Longrightarrow> (dot a b)\<^sup>2 \<le> dot a a * dot b b"
proof (induction a b rule: list_induct2)
  case Nil then show ?case by (simp add: dot_def)
next
  case (Cons x xs y ys)
  let ?p = "dot xs ys" and ?A = "dot xs xs" and ?B = "dot ys ys"
  have A: "0 \<le> ?A" and B: "0 \<le> ?B" by (rule dot_self_nonneg)+
  have "(2 * x * y * ?p)\<^sup>2 \<le> (?A * y\<^sup>2 + ?B * x\<^sup>2)\<^sup>2"
  proof -
    have "(2 * x * y * ?p)\<^sup>2 = 4 * (x\<^sup>2 * y\<^sup>2) * ?p\<^sup>2" by (simp add: power2_eq_square)
    also have "\<dots> \<le> 4 * (x\<^sup>2 * y\<^sup>2) * (?A * ?B)"
      using Cons.IH by (intro mult_left_mono) simp_all
    also have "\<dots> \<le> (?A * y\<^sup>2 + ?B * x\<^sup>2)\<^sup>2"
      using zero_le_power2 [of "?A * y\<^sup>2 - ?B * x\<^sup>2"] by (simp add: power2_eq_square algebra_simps)
    finally show ?thesis .
  qed
  then have "2 * x * y * ?p \<le> ?A * y\<^sup>2 + ?B * x\<^sup>2"
    using A B by (simp add: abs_le_square_iff [symmetric])
  with Cons.IH show ?case by (simp add: dot_def power2_eq_square algebra_simps)
qed

lemma cosine_bounds: "\<bar>cosine_similarity a b\<bar> \<le> 1"
proof (cases "length a = length b \<and> dot a a \<noteq> 0 \<and> dot b b \<noteq> 0")
  case True
  then have pos: "0 < sqrt (dot a a) * sqrt (dot b b)"
    using dot_self_nonneg [of a] dot_self_nonneg [of b] by simp
  have "\<bar>dot a b\<bar> \<le> sqrt (dot a a * dot b b)"
    using dot_cauchy_schwarz [of a b] True by (metis real_sqrt_abs real_sqrt_le_iff)
  with pos show ?thesis by (auto simp: cosine_similarity_def Let_def real_sqrt_mult abs_divide)
qed (auto simp: cosine_similarity_def Let_def)

text \<open>
  A semantic hit is a best match in scope: the response returned was stored under the same
  scope key, no longer than the time-to-live ago, its similarity reaches the threshold and is at
  most 1, and no live entry in scope is more similar; a miss means no live entry in scope reaches
  the threshold. The lookup leaves at most as many entries as before, all live.
\<close>

theorem semantic_hit_best_match:
  assumes "semantic_get now sk q c = (res, c')"
  shows "case res of
      None \<Rightarrow> \<forall>e\<in>set (sm_entries c). se_scope_key e = sk \<longrightarrow> now - se_inserted_at e \<le> sm_ttl c \<longrightarrow>
                cosine_similarity (se_embedding e) q < sm_threshold c
    | Some r \<Rightarrow> \<exists>e\<in>set (sm_entries c). se_response e = r \<and> se_scope_key e = sk
                \<and> now - se_inserted_at e \<le> sm_ttl c
                \<and> sm_threshold c \<le> cosine_similarity (se_embedding e) q
                \<and> cosine_similarity (se_embedding e) q \<le> 1
                \<and> (\<forall>e'\<in>set (sm_entries c). se_scope_key e' = sk \<longrightarrow>
                     now - se_inserted_at e' \<le> sm_ttl c \<longrightarrow>
                     cosine_similarity (se_embedding e') q \<le> cosine_similarity (se_embedding e) q)"
proof (cases res)
  case None
  then show ?thesis
    using assms by (force simp: semantic_get_def Let_def filter_empty_conv)
next
  case (Some r)
  define live where "live = filter (\<lambda>e. se_scope_key e = sk)
      (filter (\<lambda>e. now - se_inserted_at e \<le> sm_ttl c) (sm_entries c))"
  define hits where "hits = filter (\<lambda>(s, _). sm_threshold c \<le> s)
      (map (\<lambda>e. (cosine_similarity (se_embedding e) q, e)) live)"
  obtain s e where best: "max_by fst hits = Some (s, e)" and r: "r = se_response e"
    using assms Some by (auto simp: semantic_get_def Let_def hits_def live_def)
  have e: "e \<in> set live" "s = cosine_similarity (se_embedding e) q" "sm_threshold c \<le> s"
    using max_by_Some [OF best] by (auto simp: hits_def)
  have "cosine_similarity (se_embedding e') q \<le> s" if "e' \<in> set live" for e'
    using max_by_Some [OF best] that e(3)
    by (cases "sm_threshold c \<le> cosine_similarity (se_embedding e') q")
      (force simp: hits_def)+
  with e r Some cosine_bounds [of "se_embedding e" q] show ?thesis
    by (auto simp: live_def abs_le_iff intro!: bexI [of _ e])
qed

theorem semantic_hit_best_match_witness:
  "fst (semantic_get 5 1 [1, 0] \<lparr>sm_ttl = 10, sm_max_entries = 2, sm_threshold = 1 / 2,
     sm_entries = [\<lparr>se_scope_key = 1, se_embedding = [2, 0], se_response = sample_response ''a'',
                    se_inserted_at = 0\<rparr>]\<rparr>) = Some (sample_response ''a'')"
  (is "fst (semantic_get 5 1 [1, 0] ?c) = _")
proof -
  have cos: "cosine_similarity [2, 0] [1, 0] = 1"
    by (simp add: cosine_similarity_def dot_def)
  obtain res c' where get: "semantic_get 5 1 [1, 0] ?c = (res, c')" by fastforce
  show ?thesis
    using semantic_hit_best_match [OF get] get cos by (cases res) auto
qed

end
