(* ===== verification/Rtk.thy ===== *)
theory Rtk
  imports Prelude
begin

text \<open>
  Compression of tool output for \<open>transforms: ["rtk"]\<close> (\<open>crates/router/src/rtk.rs\<close>): ANSI
  sequences are stripped, the text is classified by its content, and the category's line filter
  collapses what carries no information.
\<close>

datatype category = Git | Test | Build | Package | Generic

text \<open>The characters of a CSI sequence up to and including its final letter.\<close>

fun skip_csi :: "string \<Rightarrow> string" where
  "skip_csi [] = []"
| "skip_csi (c # cs) = (if is_ascii_alphabetic c then cs else skip_csi cs)"

lemma length_skip_csi: "length (skip_csi s) \<le> length s"
  by (induction s) auto

function strip_ansi :: "string \<Rightarrow> string" where
  "strip_ansi [] = []"
| "strip_ansi (c # cs) =
     (if c = CHR 27 \<and> cs \<noteq> [] \<and> hd cs = CHR ''['' then strip_ansi (skip_csi (tl cs))
      else c # strip_ansi cs)"
  by pat_completeness auto
termination
  by (relation "measure length") (auto simp: neq_Nil_conv le_imp_less_Suc length_skip_csi less_SucI)

definition first_line_is_commit :: "string \<Rightarrow> bool" where
  "first_line_is_commit text =
     (case lines text of
        [] \<Rightarrow> False
      | l # _ \<Rightarrow> starts_with l ''commit ''
          \<and> (case nth_word1 l of
                None \<Rightarrow> False
              | Some h \<Rightarrow> 7 \<le> length h \<and> list_all is_ascii_hexdigit h))"

definition is_test_result_line :: "string \<Rightarrow> bool" where
  "is_test_result_line line =
     (let l = trim_start line
      in starts_with l ''test '' \<and> (ends_with l '' ok'' \<or> ends_with l '' FAILED''))"

definition is_error_line :: "string \<Rightarrow> bool" where
  "is_error_line line =
     (let l = trim_start line in starts_with l ''error: '' \<or> starts_with l ''Error: '')"

definition classify :: "string \<Rightarrow> category" where
  "classify text =
     (let lower = to_ascii_lowercase text
      in if contains lower ''on branch '' \<or> contains lower ''nothing to commit''
            \<or> contains lower ''changes not staged'' \<or> contains lower ''changes to be committed''
            \<or> contains text ''diff --git '' \<or> first_line_is_commit text
         then Git
         else if contains text ''test result:'' \<or> contains lower ''tests passed''
            \<or> contains lower ''tests failed'' \<or> list_ex is_test_result_line (lines text)
            \<or> (contains lower ''passed'' \<and> contains lower ''failed'' \<and> CHR ''='' \<in> set text)
         then Test
         else if contains lower ''compiling '' \<or> contains text ''warning: ''
            \<or> contains text ''error['' \<or> list_ex is_error_line (lines text)
         then Build
         else if ((contains lower ''npm '' \<or> contains lower ''added '' \<or> contains lower ''resolving'')
              \<and> (contains lower '' packages'' \<or> contains lower ''dependencies''))
            \<or> contains lower ''successfully installed'' \<or> contains lower ''audited ''
         then Package
         else Generic)"

function dedupe_repeated_lines :: "string list \<Rightarrow> nat \<Rightarrow> string list" where
  "dedupe_repeated_lines [] threshold = []"
| "dedupe_repeated_lines (l # ls) threshold =
     (let rest = takeWhile (\<lambda>x. x = l) ls; run_len = Suc (length rest)
      in l # (if threshold \<le> run_len
              then [''... line repeated '' @ show_nat (run_len - 1) @ '' more times ...'']
              else rest)
           @ dedupe_repeated_lines (dropWhile (\<lambda>x. x = l) ls) threshold)"
  by pat_completeness auto
termination
  by (relation "measure (\<lambda>(ls, _). length ls)") (auto simp: le_imp_less_Suc length_dropWhile_le)

definition head_tail :: "string list \<Rightarrow> nat \<Rightarrow> nat \<Rightarrow> string list" where
  "head_tail ls head tail =
     (if length ls \<le> head + tail then ls
      else take head ls
           @ [''... '' @ show_nat (length ls - head - tail) @ '' lines omitted ...'']
           @ drop (length ls - tail) ls)"

definition compress_git :: "string \<Rightarrow> string" where
  "compress_git text = join [CHR 10] (head_tail (dedupe_repeated_lines (lines text) 3) 8 4)"

text \<open>
  The loop \<open>compress_test\<close> and \<open>compress_build\<close> share: runs of lines that satisfy \<open>p\<close> are counted
  and replaced by one marker when the run ends.
\<close>

fun omit_runs :: "(string \<Rightarrow> bool) \<Rightarrow> (nat \<Rightarrow> string) \<Rightarrow> nat \<Rightarrow> string list \<Rightarrow> string list" where
  "omit_runs p marker run [] = (if 0 < run then [marker run] else [])"
| "omit_runs p marker run (l # ls) =
     (if p l then omit_runs p marker (Suc run) ls
      else (if 0 < run then [marker run] else []) @ l # omit_runs p marker 0 ls)"

definition is_passing_test_line :: "string \<Rightarrow> bool" where
  "is_passing_test_line line =
     (let l = trim_start line in starts_with l ''test '' \<and> ends_with l '' ok'')"

definition compress_test :: "string \<Rightarrow> string" where
  "compress_test text =
     join [CHR 10] (omit_runs is_passing_test_line
       (\<lambda>run. ''... '' @ show_nat run @ '' passing test lines omitted ...'') 0 (lines text))"

definition is_compiling_line :: "string \<Rightarrow> bool" where
  "is_compiling_line line = starts_with (trim_start line) ''Compiling ''"

definition compress_build :: "string \<Rightarrow> string" where
  "compress_build text =
     join [CHR 10] (omit_runs is_compiling_line
       (\<lambda>run. ''... '' @ show_nat run @ '' '' @ [CHR 34] @ ''Compiling'' @ [CHR 34]
               @ '' lines omitted ...'') 0 (lines text))"

definition is_summary_like :: "string \<Rightarrow> bool" where
  "is_summary_like l =
     (let lower = to_ascii_lowercase l
      in contains lower ''added'' \<or> contains lower ''removed'' \<or> contains lower ''audited''
         \<or> contains lower ''successfully installed'' \<or> contains lower ''up to date''
         \<or> contains lower ''packages in'' \<or> contains lower ''vulnerabilit'')"

definition compress_package :: "string \<Rightarrow> string" where
  "compress_package text =
     (let ls = lines text; summary_lines = filter is_summary_like ls
      in if length ls \<le> 4 then text
         else if summary_lines \<noteq> [] then join [CHR 10] summary_lines
         else join [CHR 10] (head_tail ls 2 2))"

definition compress_generic :: "string \<Rightarrow> string" where
  "compress_generic text = join [CHR 10] (head_tail (dedupe_repeated_lines (lines text) 3) 40 40)"

definition compress :: "string \<Rightarrow> string" where
  "compress text =
     (let stripped = strip_ansi text
      in case classify stripped of
           Git \<Rightarrow> compress_git stripped
         | Test \<Rightarrow> compress_test stripped
         | Build \<Rightarrow> compress_build stripped
         | Package \<Rightarrow> compress_package stripped
         | Generic \<Rightarrow> compress_generic stripped)"

section \<open>Facts about the stages\<close>

lemma strip_ansi_plain: "CHR 27 \<notin> set s \<Longrightarrow> strip_ansi s = s"
  by (induction s) auto

lemma length_strip_ansi: "length (strip_ansi s) \<le> length s"
proof (induction s rule: strip_ansi.induct)
  case (2 c cs)
  show ?case
  proof (cases "c = CHR 27 \<and> cs \<noteq> [] \<and> hd cs = CHR ''[''")
    case True
    then have "length (strip_ansi (skip_csi (tl cs))) \<le> length (skip_csi (tl cs))" using 2 by blast
    also have "\<dots> \<le> length (tl cs)" by (rule length_skip_csi)
    finally show ?thesis using True by simp
  qed (use 2 in auto)
qed simp

lemma head_tail_length: "length (head_tail ls h t) \<le> h + t + 1"
  by (simp add: head_tail_def)

lemma head_tail_ends:
  "take h (head_tail ls h t) = take h ls
   \<and> drop (length (head_tail ls h t) - t) (head_tail ls h t) = drop (length ls - t) ls"
  by (auto simp: head_tail_def)

lemma dedupe_Nil [simp]: "dedupe_repeated_lines ls n = [] \<longleftrightarrow> ls = []"
  by (cases ls) (auto simp: Let_def)

lemma dedupe_length: "2 \<le> n \<Longrightarrow> length (dedupe_repeated_lines ls n) \<le> length ls"
proof (induction ls n rule: dedupe_repeated_lines.induct)
  case (2 l ls n)
  have "length (takeWhile (\<lambda>x. x = l) ls) + length (dropWhile (\<lambda>x. x = l) ls) = length ls"
    by (metis length_append takeWhile_dropWhile_id)
  moreover have "length (dedupe_repeated_lines (dropWhile (\<lambda>x. x = l) ls) n)
      \<le> length (dropWhile (\<lambda>x. x = l) ls)"
    using "2.IH" [OF refl refl] "2.prems" by simp
  ultimately show ?case using "2.prems" by (simp add: Let_def)
qed simp

lemma dedupe_singleton_Nil:
  "dedupe_repeated_lines ls n = [[]] \<longleftrightarrow> ls = [[]] \<and> 1 < n"
proof (cases ls)
  case (Cons l rest)
  have "takeWhile (\<lambda>x. x = l) rest = [] \<and> dropWhile (\<lambda>x. x = l) rest = [] \<longleftrightarrow> rest = []"
    by (cases rest) auto
  with Cons show ?thesis by (auto simp: Let_def)
qed simp

lemma omit_runs_Nil: "omit_runs p m run ls = [] \<longleftrightarrow> run = 0 \<and> ls = []"
  by (induction p m run ls rule: omit_runs.induct) auto

text \<open>Only lines that satisfy \<open>p\<close> are dropped, and the others keep their order.\<close>

lemma omit_runs_keeps:
  "(\<And>n. \<not> q (m n)) \<Longrightarrow> (\<And>l. q l \<Longrightarrow> \<not> p l) \<Longrightarrow>
     filter q (omit_runs p m run ls) = filter q ls"
  by (induction p m run ls rule: omit_runs.induct) auto

lemma join_Nil_iff: "join [c] ls = [] \<longleftrightarrow> ls = [] \<or> ls = [[]]"
  by (induction "[c]" ls rule: join.induct) auto

lemma contains_nonempty: "contains s n \<Longrightarrow> n \<noteq> [] \<Longrightarrow> s \<noteq> []"
  by auto

lemma lines_singleton_Nil: "lines s = [[]] \<longleftrightarrow> s = [CHR 10] \<or> s = [CHR 13, CHR 10]"
proof
  assume "lines s = [[]]"
  then obtain l t where nl: "split_nl s = [(l, t)]" and l: "(if t then strip_cr l else l) = []"
    by (auto simp: lines_def map_eq_Cons_conv)
  have unsplit: "s = l @ (if t then [CHR 10] else [])" if "split_nl s = [(l, t)]" for s l t
    using that
  proof (induction s arbitrary: l)
    case (Cons c cs)
    then show ?case by (auto split: if_splits list.splits)
  qed simp
  show "s = [CHR 10] \<or> s = [CHR 13, CHR 10]"
  proof (cases t)
    case False
    with unsplit [OF nl] l have "s = []" by simp
    with nl show ?thesis by simp
  next
    case True
    with l have "l = [] \<or> l = [CHR 13]" by (cases l rule: rev_cases) (auto simp: strip_cr_def split: if_splits)
    with unsplit [OF nl] True show ?thesis by auto
  qed
qed (auto simp: lines_def strip_cr_def)

text \<open>
  Compression empties a text only when nothing is left to say: the result is empty exactly when
  the text, once its ANSI sequences are stripped, is empty or a single line break.
\<close>

theorem compress_empty_iff:
  "compress text = [] \<longleftrightarrow> strip_ansi text \<in> {[], [CHR 10], [CHR 13, CHR 10]}"
proof -
  define s where "s = strip_ansi text"
  have hd: "head_tail ls h t = [] \<or> head_tail ls h t = [[]] \<longleftrightarrow> ls = [] \<or> ls = [[]]"
    if "1 \<le> h" "1 \<le> t" for ls h t
    using that by (cases "length ls \<le> h + t") (auto simp: head_tail_def append_eq_Cons_conv)
  have dedupe: "join [CHR 10] (head_tail (dedupe_repeated_lines (lines s) 3) h t) = []
      \<longleftrightarrow> lines s = [] \<or> lines s = [[]]" if "1 \<le> h" "1 \<le> t" for h t
    using that by (simp add: join_Nil_iff hd dedupe_singleton_Nil)
  have omit: "join [CHR 10] (omit_runs p m 0 (lines s)) = [] \<longleftrightarrow> lines s = [] \<or> lines s = [[]]"
    if "\<And>n. m n \<noteq> []" "\<not> p []" for p m
  proof -
    have "omit_runs p m n ls = [[]] \<longleftrightarrow> n = 0 \<and> ls = [[]]" for n ls
      using that by (induction p m n ls rule: omit_runs.induct) (auto simp: omit_runs_Nil)
    then show ?thesis by (simp add: join_Nil_iff omit_runs_Nil)
  qed
  have trim: "trim_start [] = []" by (subst trim_start.simps) simp
  have pass: "\<not> is_passing_test_line []" "\<not> is_compiling_line []"
    by (simp_all add: is_passing_test_line_def is_compiling_line_def starts_with_def trim)
  have package: "compress_package s = [] \<longleftrightarrow> lines s = [] \<or> lines s = [[]]"
    if "classify s = Package"
  proof -
    have cls: "classify [] = Generic" "classify [CHR 10] = Generic" "classify [CHR 13, CHR 10] = Generic"
      by code_simp+
    have "s \<noteq> []" "lines s \<noteq> [[]]" using that cls by (auto simp: lines_singleton_Nil)
    moreover have "filter is_summary_like (lines s) \<noteq> [[]]"
    proof
      assume "filter is_summary_like (lines s) = [[]]"
      then have "is_summary_like []" by (metis filter_eq_Cons_iff)
      then show False by (simp add: is_summary_like_def to_ascii_lowercase_def)
    qed
    ultimately show ?thesis by (auto simp: compress_package_def Let_def join_Nil_iff hd)
  qed
  have "compress text = [] \<longleftrightarrow> lines s = [] \<or> lines s = [[]]"
    using package
    by (simp add: compress_def Let_def s_def [symmetric] compress_git_def compress_test_def
        compress_build_def compress_generic_def dedupe omit pass split: category.split)
  then show ?thesis by (simp add: s_def lines_singleton_Nil)
qed

text \<open>
  The promise that a non-empty input never compresses to the empty string fails: a tool message
  holding only a colour reset compresses to nothing.
\<close>

theorem compress_can_empty:
  "[CHR 27, CHR ''['', CHR ''0'', CHR ''m''] \<noteq> [] \<and> compress [CHR 27, CHR ''['', CHR ''0'', CHR ''m''] = []"
  by code_simp

text \<open>
  Line filters are bounded and keep the ends: whatever the length of the output, a text
  classified as version-control output shrinks to at most 13 lines and one that fits no category to
  at most 81, in both cases keeping the first and the last lines of the deduplicated text.
\<close>

theorem compress_bounded:
  "(classify (strip_ansi text) = Git \<longrightarrow> (\<exists>ls. compress text = join [CHR 10] ls \<and> length ls \<le> 13
      \<and> take 8 ls = take 8 (dedupe_repeated_lines (lines (strip_ansi text)) 3)))
   \<and> (classify (strip_ansi text) = Generic \<longrightarrow> (\<exists>ls. compress text = join [CHR 10] ls \<and> length ls \<le> 81
      \<and> take 40 ls = take 40 (dedupe_repeated_lines (lines (strip_ansi text)) 3)))
   \<and> length (dedupe_repeated_lines (lines (strip_ansi text)) 3) \<le> length (lines (strip_ansi text))"
proof (intro conjI impI)
  let ?d = "dedupe_repeated_lines (lines (strip_ansi text)) 3"
  assume "classify (strip_ansi text) = Git"
  then show "\<exists>ls. compress text = join [CHR 10] ls \<and> length ls \<le> 13 \<and> take 8 ls = take 8 ?d"
    using head_tail_length [of ?d 8 4] head_tail_ends [of 8 ?d 4]
    by (intro exI [of _ "head_tail ?d 8 4"]) (simp add: compress_def Let_def compress_git_def)
next
  let ?d = "dedupe_repeated_lines (lines (strip_ansi text)) 3"
  assume "classify (strip_ansi text) = Generic"
  then show "\<exists>ls. compress text = join [CHR 10] ls \<and> length ls \<le> 81 \<and> take 40 ls = take 40 ?d"
    using head_tail_length [of ?d 40 40] head_tail_ends [of 40 ?d 40]
    by (intro exI [of _ "head_tail ?d 40 40"]) (simp add: compress_def Let_def compress_generic_def)
next
  show "length (dedupe_repeated_lines (lines (strip_ansi text)) 3) \<le> length (lines (strip_ansi text))"
    by (rule dedupe_length) simp
qed

theorem compress_bounded_witness:
  "classify (strip_ansi ''hello'') = Generic \<and> (\<exists>ls. compress ''hello'' = join [CHR 10] ls \<and> length ls \<le> 81)"
proof -
  have "classify (strip_ansi ''hello'') = Generic" by code_simp
  with compress_bounded [of "''hello''"] show ?thesis by auto
qed

end
