(* ===== verification/Transforms.thy ===== *)
theory Transforms
  imports Pricing Caches Rtk
begin

text \<open>
  What is done to a request on its way to one candidate (\<open>crates/router/src/lib.rs\<close>): middle-out
  truncation against the candidate's context length, compression of tool output, re-injection of
  cached reasoning, and the text the semantic cache embeds. Each \<open>maybe_\<close> function returns
  \<open>None\<close> when the request is to be sent as it is.
\<close>

section \<open>Middle-out\<close>

definition CHARS_PER_TOKEN_ESTIMATE :: nat where
  "CHARS_PER_TOKEN_ESTIMATE = 4"

definition estimate_tokens :: "chat_message \<Rightarrow> nat" where
  "estimate_tokens message =
     (case msg_content message of
        None \<Rightarrow> 0
      | Some c \<Rightarrow> length (as_plain_text c) div CHARS_PER_TOKEN_ESTIMATE)"

definition total_tokens :: "chat_message list \<Rightarrow> nat" where
  "total_tokens ms = sum_list (map estimate_tokens ms)"

function middle_out_loop :: "nat \<Rightarrow> nat \<Rightarrow> chat_message list \<Rightarrow> chat_message list" where
  "middle_out_loop budget_tokens sum_tokens_left kept =
     (if budget_tokens < sum_tokens_left \<and> 2 < length kept
      then middle_out_loop budget_tokens (sum_tokens_left - estimate_tokens (kept ! 1))
             (take 1 kept @ drop 2 kept)
      else kept)"
  by pat_completeness auto
termination
  by (relation "measure (\<lambda>(b, t, kept). length kept)") auto

declare middle_out_loop.simps [simp del]

definition apply_middle_out :: "chat_message list \<Rightarrow> nat \<Rightarrow> chat_message list" where
  "apply_middle_out messages budget_tokens =
     middle_out_loop budget_tokens (total_tokens messages) messages"

definition wants_transform :: "string \<Rightarrow> chat_request \<Rightarrow> bool" where
  "wants_transform name req =
     (case cr_transforms req of None \<Rightarrow> False | Some ts \<Rightarrow> list_ex (\<lambda>s. s = name) ts)"

definition maybe_apply_middle_out ::
  "chat_request \<Rightarrow> string \<Rightarrow> string \<Rightarrow> (string \<rightharpoonup> price_rates) \<Rightarrow> chat_request option" where
  "maybe_apply_middle_out req provider_name model_name pricing =
     (if \<not> wants_transform ''middle-out'' req then None
      else case Option.bind (pricing (model_key provider_name model_name)) px_context_length of
        None \<Rightarrow> None
      | Some context_length \<Rightarrow>
          (let reserved_for_completion = unat (unwrap_or 4096 (cr_max_tokens req));
               budget_tokens = unat context_length - reserved_for_completion
           in if total_tokens (cr_messages req) \<le> budget_tokens then None
              else Some (req\<lparr>cr_messages := apply_middle_out (cr_messages req) budget_tokens\<rparr>)))"

text \<open>The loop drops a prefix of the middle: the shortest one after which the rest fits.\<close>

lemma total_tokens_simps [simp]:
  "total_tokens [] = 0" "total_tokens (m # ms) = estimate_tokens m + total_tokens ms"
  "total_tokens (xs @ ys) = total_tokens xs + total_tokens ys"
  by (simp_all add: total_tokens_def)

lemma middle_out_stop: "\<not> (b < t \<and> 2 < length ms) \<Longrightarrow> middle_out_loop b t ms = ms"
  by (subst middle_out_loop.simps) auto

lemma middle_out_loop_drops:
  "\<exists>k. k \<le> length ms - 1 \<and>
     middle_out_loop b (total_tokens (m # ms)) (m # ms) = m # drop k ms
     \<and> (total_tokens (m # drop k ms) \<le> b \<or> length (drop k ms) \<le> 1)
     \<and> (\<forall>j<k. b < total_tokens (m # drop j ms))"
proof (induction ms)
  case Nil
  show ?case by (intro exI [of _ 0]) (simp add: middle_out_stop)
next
  case (Cons x ms)
  show ?case
  proof (cases "b < total_tokens (m # x # ms) \<and> ms \<noteq> []")
    case False
    then show ?thesis
      by (intro exI [of _ 0]) (auto simp: middle_out_stop not_less)
  next
    case True
    from Cons.IH obtain k where k: "k \<le> length ms - 1"
      "middle_out_loop b (total_tokens (m # ms)) (m # ms) = m # drop k ms"
      "total_tokens (m # drop k ms) \<le> b \<or> length (drop k ms) \<le> 1"
      "\<forall>j<k. b < total_tokens (m # drop j ms)" by blast
    have step: "middle_out_loop b (total_tokens (m # x # ms)) (m # x # ms)
        = middle_out_loop b (total_tokens (m # ms)) (m # ms)"
      using True by (subst middle_out_loop.simps) (simp add: Suc_less_eq length_greater_0_conv)
    have "\<forall>j<Suc k. b < total_tokens (m # drop j (x # ms))"
      using True k(4) by (auto simp: less_Suc_eq_0_disj)
    moreover have "Suc k \<le> length (x # ms) - 1" using k(1) True by (cases ms) auto
    ultimately show ?thesis using k(2,3) step by (intro exI [of _ "Suc k"]) simp
  qed
qed

lemma middle_out_fits:
  "total_tokens (apply_middle_out ms b) \<le> b \<or> length (apply_middle_out ms b) \<le> 2"
proof (cases ms)
  case Nil then show ?thesis by (simp add: apply_middle_out_def middle_out_stop)
next
  case (Cons m xs)
  from middle_out_loop_drops [of xs b m] show ?thesis
    by (auto simp: Cons apply_middle_out_def)
qed

text \<open>
  Middle-out truncation keeps the first and the last message and drops the fewest possible
  messages after the first: the result is the first message followed by a suffix of the rest, it
  fits the token budget unless only two messages (or fewer) are left, and dropping any fewer
  messages would not have fitted. It terminates on every conversation.
\<close>

theorem middle_out_minimal:
  assumes "ms \<noteq> []"
  shows "\<exists>k. apply_middle_out ms b = hd ms # drop (Suc k) ms
    \<and> last (apply_middle_out ms b) = last ms
    \<and> (total_tokens (apply_middle_out ms b) \<le> b \<or> length (apply_middle_out ms b) \<le> 2)
    \<and> (\<forall>j<k. b < total_tokens (hd ms # drop (Suc j) ms))"
proof -
  obtain m xs where ms: "ms = m # xs" using assms by (cases ms) auto
  from middle_out_loop_drops [of xs b m] obtain k where k: "k \<le> length xs - 1"
    "apply_middle_out ms b = m # drop k xs"
    "total_tokens (m # drop k xs) \<le> b \<or> length (drop k xs) \<le> 1"
    "\<forall>j<k. b < total_tokens (m # drop j xs)" by (auto simp: ms apply_middle_out_def)
  have "last (m # drop k xs) = last (m # xs)"
  proof (cases xs)
    case Nil then show ?thesis by simp
  next
    case (Cons y ys)
    with k(1) have "k < length xs" by simp
    then show ?thesis by (auto simp: last_drop)
  qed
  with k show ?thesis by (intro exI [of _ k]) (auto simp: ms)
qed

theorem middle_out_minimal_witness:
  "let ms = [user_message ''system prompt here'', user_message ''old question'',
             user_message ''older reply'', user_message ''now'']
   in hd (apply_middle_out ms 6) = user_message ''system prompt here''
      \<and> last (apply_middle_out ms 6) = user_message ''now''"
  unfolding Let_def
  using middle_out_minimal [of "[user_message ''system prompt here'', user_message ''old question'',
     user_message ''older reply'', user_message ''now'']" 6]
  by auto

section \<open>Compression of tool output\<close>

definition rtk_part :: "content_part \<Rightarrow> content_part \<times> bool" where
  "rtk_part part =
     (case part of
        TextPart text \<Rightarrow> (TextPart (compress text), compress text \<noteq> text)
      | p \<Rightarrow> (p, False))"

definition rtk_content :: "message_content \<Rightarrow> message_content \<times> bool" where
  "rtk_content content =
     (case content of
        Text text \<Rightarrow> (Text (compress text), compress text \<noteq> text)
      | Parts parts \<Rightarrow> (Parts (map (fst \<circ> rtk_part) parts), list_ex (snd \<circ> rtk_part) parts))"

definition rtk_message :: "chat_message \<Rightarrow> chat_message \<times> bool" where
  "rtk_message m =
     (if msg_role m \<noteq> ToolRole then (m, False)
      else case msg_content m of
        None \<Rightarrow> (m, False)
      | Some content \<Rightarrow>
          (m\<lparr>msg_content := Some (fst (rtk_content content))\<rparr>, snd (rtk_content content)))"

definition maybe_apply_rtk :: "chat_request \<Rightarrow> chat_request option" where
  "maybe_apply_rtk req =
     (if \<not> wants_transform ''rtk'' req then None
      else if list_ex (snd \<circ> rtk_message) (cr_messages req)
      then Some (req\<lparr>cr_messages := map (fst \<circ> rtk_message) (cr_messages req)\<rparr>)
      else None)"

lemma rtk_part_changed: "snd (rtk_part p) \<longleftrightarrow> fst (rtk_part p) \<noteq> p"
  by (cases p) (auto simp: rtk_part_def)

lemma rtk_content_changed: "snd (rtk_content c) \<longleftrightarrow> fst (rtk_content c) \<noteq> c"
proof (cases c)
  case (Parts ps)
  have "map (fst \<circ> rtk_part) ps = ps \<longleftrightarrow> (\<forall>p\<in>set ps. \<not> snd (rtk_part p))"
    by (induction ps) (auto simp: rtk_part_changed)
  then show ?thesis by (auto simp: rtk_content_def Parts list_ex_iff)
qed (simp add: rtk_content_def)

lemma rtk_message_changed: "snd (rtk_message m) \<longleftrightarrow> fst (rtk_message m) \<noteq> m"
proof -
  have "m\<lparr>msg_content := Some c\<rparr> = m \<longleftrightarrow> msg_content m = Some c" for c
    by (cases m) auto
  then show ?thesis
    by (auto simp: rtk_message_def rtk_content_changed split: option.splits)
qed

lemma rtk_message_frame:
  "msg_role m \<noteq> ToolRole \<Longrightarrow> fst (rtk_message m) = m"
  "(fst (rtk_message m))\<lparr>msg_content := msg_content m\<rparr> = m"
  by (auto simp: rtk_message_def split: option.splits)

section \<open>Reasoning replay\<close>

definition replay_reasoning :: "reasoning_replay_cache \<Rightarrow> chat_message \<Rightarrow> string option" where
  "replay_reasoning cache message =
     (if msg_reasoning message \<noteq> None then None
      else case msg_tool_calls message of
        Some (first_call # _) \<Rightarrow> reasoning_get (tc_id first_call) cache
      | _ \<Rightarrow> None)"

definition replay_message :: "reasoning_replay_cache \<Rightarrow> chat_message \<Rightarrow> chat_message" where
  "replay_message cache message =
     (case replay_reasoning cache message of
        None \<Rightarrow> message
      | Some reasoning \<Rightarrow> message\<lparr>msg_reasoning := Some reasoning\<rparr>)"

definition maybe_apply_reasoning_replay ::
  "chat_request \<Rightarrow> reasoning_replay_cache \<Rightarrow> chat_request option" where
  "maybe_apply_reasoning_replay req cache =
     (if list_ex (\<lambda>m. replay_reasoning cache m \<noteq> None) (cr_messages req)
      then Some (req\<lparr>cr_messages := map (replay_message cache) (cr_messages req)\<rparr>)
      else None)"

definition cache_choice_reasoning :: "choice \<Rightarrow> reasoning_replay_cache \<Rightarrow> reasoning_replay_cache" where
  "cache_choice_reasoning c cache =
     (case (msg_reasoning (ch_message c), msg_tool_calls (ch_message c)) of
        (Some reasoning, Some tool_calls) \<Rightarrow>
          fold (\<lambda>tool_call. reasoning_insert (tc_id tool_call) reasoning) tool_calls cache
      | _ \<Rightarrow> cache)"

definition cache_reasoning_for_replay ::
  "reasoning_replay_cache \<Rightarrow> chat_response \<Rightarrow> reasoning_replay_cache" where
  "cache_reasoning_for_replay cache resp = fold cache_choice_reasoning (rs_choices resp) cache"

lemma cache_choice_reasoning_inv: "reasoning_inv c \<Longrightarrow> reasoning_inv (cache_choice_reasoning ch c)"
proof -
  have "reasoning_inv c \<Longrightarrow> reasoning_inv (fold (\<lambda>t. reasoning_insert (tc_id t) r) ts c)" for r ts c
    by (induction ts arbitrary: c) (auto intro: reasoning_insert_inv)
  then show "reasoning_inv c \<Longrightarrow> reasoning_inv (cache_choice_reasoning ch c)"
    by (auto simp: cache_choice_reasoning_def split: option.splits)
qed

lemma cache_reasoning_inv: "reasoning_inv c \<Longrightarrow> reasoning_inv (cache_reasoning_for_replay c resp)"
proof -
  have "reasoning_inv c \<Longrightarrow> reasoning_inv (fold cache_choice_reasoning chs c)" for chs c
    by (induction chs arbitrary: c) (auto intro: cache_choice_reasoning_inv)
  then show "reasoning_inv c \<Longrightarrow> reasoning_inv (cache_reasoning_for_replay c resp)"
    by (simp add: cache_reasoning_for_replay_def)
qed



section \<open>The text the semantic cache embeds\<close>

fun role_debug_lowercase :: "role \<Rightarrow> string" where
  "role_debug_lowercase System = ''system''"
| "role_debug_lowercase User = ''user''"
| "role_debug_lowercase Assistant = ''assistant''"
| "role_debug_lowercase ToolRole = ''tool''"

definition request_text_for_embedding :: "chat_request \<Rightarrow> string" where
  "request_text_for_embedding req =
     join [CHR 10]
       (map (\<lambda>m. role_debug_lowercase (msg_role m) @ '': ''
                 @ (case msg_content m of None \<Rightarrow> [] | Some c \<Rightarrow> as_plain_text c))
          (cr_messages req))"

section \<open>The request one candidate receives\<close>

text \<open>The three transforms in the order dispatch applies them: reasoning replay, tool-output
  compression, and the truncation that fits what those left to the candidate's context.\<close>

definition request_to_send ::
  "chat_request \<Rightarrow> string \<Rightarrow> string \<Rightarrow> (string \<rightharpoonup> price_rates) \<Rightarrow> reasoning_replay_cache
    \<Rightarrow> chat_request" where
  "request_to_send req provider_name model_name pricing cache =
     (let replay_base = unwrap_or req (maybe_apply_reasoning_replay req cache);
          base_req = unwrap_or replay_base (maybe_apply_rtk replay_base)
      in unwrap_or base_req (maybe_apply_middle_out base_req provider_name model_name pricing))"

lemma unwrap_replay:
  "unwrap_or req (maybe_apply_reasoning_replay req cache) =
     req\<lparr>cr_messages := map (replay_message cache) (cr_messages req)\<rparr>"
proof (cases "list_ex (\<lambda>m. replay_reasoning cache m \<noteq> None) (cr_messages req)")
  case True then show ?thesis by (simp add: maybe_apply_reasoning_replay_def)
next
  case False
  then have "map (replay_message cache) (cr_messages req) = cr_messages req"
    by (intro map_idI) (auto simp: list_ex_iff replay_message_def)
  with False show ?thesis by (simp add: maybe_apply_reasoning_replay_def)
qed

lemma unwrap_rtk:
  "unwrap_or req (maybe_apply_rtk req) =
     (if wants_transform ''rtk'' req
      then req\<lparr>cr_messages := map (fst \<circ> rtk_message) (cr_messages req)\<rparr> else req)"
proof (cases "list_ex (snd \<circ> rtk_message) (cr_messages req)")
  case True then show ?thesis by (simp add: maybe_apply_rtk_def)
next
  case False
  then have "map (fst \<circ> rtk_message) (cr_messages req) = cr_messages req"
    by (intro map_idI) (auto simp: list_ex_iff rtk_message_changed)
  with False show ?thesis by (simp add: maybe_apply_rtk_def)
qed

text \<open>
  What a candidate is sent differs from the client's request in its messages only. Unless
  middle-out is requested the conversation keeps its length, its roles and its order, and a message
  is altered only by a replayed trace (an assistant turn with tool calls and no trace of its own) or
  by the compression of a tool message the client asked for; with middle-out and a known context
  length, what is sent is estimated to fit it beside the completion unless two messages or fewer are
  left.
\<close>

theorem request_to_send_frame:
  assumes "request_to_send req p m pricing cache = sent"
  shows "sent\<lparr>cr_messages := cr_messages req\<rparr> = req
    \<and> (\<not> wants_transform ''middle-out'' req \<longrightarrow>
         list_all2 (\<lambda>old new. msg_role new = msg_role old
             \<and> (wants_transform ''rtk'' req \<and> msg_role old = ToolRole
                  \<or> msg_content new = msg_content old)
             \<and> (msg_reasoning old \<noteq> None \<longrightarrow> msg_reasoning new = msg_reasoning old)
             \<and> msg_tool_calls new = msg_tool_calls old)
           (cr_messages req) (cr_messages sent))
    \<and> (wants_transform ''middle-out'' req \<longrightarrow>
         (\<forall>rates n. pricing (model_key p m) = Some rates \<and> px_context_length rates = Some n \<longrightarrow>
            total_tokens (cr_messages sent) \<le> unat n - unat (unwrap_or 4096 (cr_max_tokens req))
            \<or> length (cr_messages sent) \<le> 2))"
proof -
  define base where "base = map (\<lambda>x. if wants_transform ''rtk'' req then fst (rtk_message (replay_message cache x))
      else replay_message cache x) (cr_messages req)"
  have w: "wants_transform t (req\<lparr>cr_messages := ms\<rparr>) = wants_transform t req" for t ms
    by (simp add: wants_transform_def)
  have sent: "sent = unwrap_or (req\<lparr>cr_messages := base\<rparr>)
      (maybe_apply_middle_out (req\<lparr>cr_messages := base\<rparr>) p m pricing)"
    using assms
    by (cases "wants_transform ''rtk'' req")
      (simp_all add: request_to_send_def unwrap_replay unwrap_rtk w base_def comp_def Let_def)
  have "sent\<lparr>cr_messages := cr_messages req\<rparr> = req"
    unfolding sent by (simp add: maybe_apply_middle_out_def Let_def split: option.splits)
  moreover have "total_tokens (cr_messages sent) \<le> unat n - unat (unwrap_or 4096 (cr_max_tokens req))
      \<or> length (cr_messages sent) \<le> 2"
    if "wants_transform ''middle-out'' req" "pricing (model_key p m) = Some rates"
      "px_context_length rates = Some n" for rates n
    using that middle_out_fits [of base]
    by (auto simp: sent maybe_apply_middle_out_def w Let_def)
  moreover have "list_all2 (\<lambda>old new. msg_role new = msg_role old
      \<and> (wants_transform ''rtk'' req \<and> msg_role old = ToolRole \<or> msg_content new = msg_content old)
      \<and> (msg_reasoning old \<noteq> None \<longrightarrow> msg_reasoning new = msg_reasoning old)
      \<and> msg_tool_calls new = msg_tool_calls old) (cr_messages req) base"
    unfolding base_def list.rel_map
    by (rule list.rel_refl)
      (auto simp: rtk_message_def replay_message_def replay_reasoning_def split: option.splits)
  moreover have "\<not> wants_transform ''middle-out'' req \<Longrightarrow> cr_messages sent = base"
    by (simp add: sent maybe_apply_middle_out_def w)
  ultimately show ?thesis by auto
qed

theorem request_to_send_frame_witness:
  "let req = (bare_request ''auto'' [user_message ''0123456789'', user_message ''0123456789'',
                user_message ''0123456789''])
               \<lparr>cr_transforms := Some [''middle-out''], cr_max_tokens := Some 996\<rparr>;
       sent = request_to_send req ''a'' ''m'' [''a/m'' \<mapsto> sample_rates] empty_reasoning_cache
   in sent\<lparr>cr_messages := cr_messages req\<rparr> = req
      \<and> (total_tokens (cr_messages sent) \<le> 4 \<or> length (cr_messages sent) \<le> 2)"
proof -
  let ?req = "(bare_request ''auto'' [user_message ''0123456789'', user_message ''0123456789'',
                user_message ''0123456789''])
               \<lparr>cr_transforms := Some [''middle-out''], cr_max_tokens := Some 996\<rparr>"
  show ?thesis
    using request_to_send_frame [of ?req "''a''" "''m''" "[''a/m'' \<mapsto> sample_rates]"
        empty_reasoning_cache, OF refl]
    unfolding Let_def
    by (simp add: wants_transform_def model_key_def sample_rates_def)
qed

end
