(* ===== verification/Auto_Routing.thy ===== *)
theory Auto_Routing
  imports Transforms
begin

text \<open>
  \<open>model: "auto"\<close> (\<open>crates/router/src/auto_routing.rs\<close>): a complexity score of the request, the
  bias a caller puts on the configured thresholds, and the tier the score falls in. The score is a
  \<open>u32\<close>, its parts converted with \<open>as u32\<close>.
\<close>

definition TOOLS_BONUS :: u32 where "TOOLS_BONUS = 50"
definition REASONING_BONUS :: u32 where "REASONING_BONUS = 50"
definition JSON_SCHEMA_BONUS :: u32 where "JSON_SCHEMA_BONUS = 30"
definition CODE_BONUS :: u32 where "CODE_BONUS = 50"
definition PER_EXTRA_MESSAGE_BONUS :: u32 where "PER_EXTRA_MESSAGE_BONUS = 10"

definition message_contains_code :: "message_content option \<Rightarrow> bool" where
  "message_contains_code content =
     (case content of None \<Rightarrow> False | Some c \<Rightarrow> contains (as_plain_text c) ''```'')"

definition is_json_schema :: "response_format option \<Rightarrow> bool" where
  "is_json_schema f = (case f of Some (JsonSchema _) \<Rightarrow> True | _ \<Rightarrow> False)"

definition estimate_complexity :: "chat_request \<Rightarrow> u32" where
  "estimate_complexity req =
     sum_list (map (\<lambda>m. of_nat (estimate_tokens m)) (cr_messages req))
     + (if 1 < length (cr_messages req)
        then (of_nat (length (cr_messages req)) - 1) * PER_EXTRA_MESSAGE_BONUS else 0)
     + (if list_ex (\<lambda>m. message_contains_code (msg_content m)) (cr_messages req)
        then CODE_BONUS else 0)
     + (if cr_tools req \<noteq> None then TOOLS_BONUS else 0)
     + (if cr_reasoning req \<noteq> None then REASONING_BONUS else 0)
     + (if is_json_schema (cr_response_format req) then JSON_SCHEMA_BONUS else 0)"

definition bias_multiplier :: "string option \<Rightarrow> f64" where
  "bias_multiplier auto_bias =
     (if auto_bias = Some ''cost'' then 2 else if auto_bias = Some ''quality'' then 0.5 else 1)"

definition auto_bias_of :: "chat_request \<Rightarrow> string option" where
  "auto_bias_of req = Option.bind (cr_provider req) pp_auto_bias"

definition resolve_tier :: "auto_routing_config \<Rightarrow> chat_request \<Rightarrow> string" where
  "resolve_tier config req =
     (let score = estimate_complexity req;
          bias = bias_multiplier (auto_bias_of req);
          simple_max = f64_to_u32 (unsigned (ar_simple_max_score config) * bias);
          medium_max = f64_to_u32 (unsigned (ar_medium_max_score config) * bias)
      in if score \<le> simple_max then ar_simple_model config
         else if score \<le> medium_max then ar_medium_model config
         else ar_complex_model config)"

section \<open>Biases are ordered\<close>

text \<open>How pricey a resolved model is, for a configuration whose three tiers differ.\<close>

definition tier_rank :: "auto_routing_config \<Rightarrow> string \<Rightarrow> nat" where
  "tier_rank config m =
     (if m = ar_simple_model config then 0 else if m = ar_medium_model config then 1 else 2)"

lemma thresholds_mono:
  "b \<le> b' \<Longrightarrow> f64_to_u32 (unsigned (w :: u32) * b) \<le> f64_to_u32 (unsigned w * b')"
  by (intro f64_to_u32_mono mult_left_mono) simp_all

lemma tier_rank_resolve:
  assumes "distinct [ar_simple_model c, ar_medium_model c, ar_complex_model c]"
  shows "tier_rank c (resolve_tier c req) =
     (let bias = bias_multiplier (auto_bias_of req) in
      if estimate_complexity req \<le> f64_to_u32 (unsigned (ar_simple_max_score c) * bias) then 0
      else if estimate_complexity req \<le> f64_to_u32 (unsigned (ar_medium_max_score c) * bias) then 1
      else 2)"
  using assms by (auto simp: tier_rank_def resolve_tier_def Let_def)

text \<open>
  The bias of an auto-routed request only shifts it along the tiers: for the same messages,
  tools and formats, \<open>"cost"\<close> never picks a higher tier than no bias and \<open>"quality"\<close> never a lower
  one; an unknown bias is no bias; and whatever the score, one of the three configured models is
  picked.
\<close>

theorem auto_bias_monotone:
  assumes "distinct [ar_simple_model c, ar_medium_model c, ar_complex_model c]"
    and "\<forall>r\<in>{cost, quality}. estimate_complexity r = estimate_complexity balanced"
    and "auto_bias_of cost = Some ''cost''" and "auto_bias_of quality = Some ''quality''"
    and "auto_bias_of balanced \<notin> {Some ''cost'', Some ''quality''}"
  shows "tier_rank c (resolve_tier c cost) \<le> tier_rank c (resolve_tier c balanced)
    \<and> tier_rank c (resolve_tier c balanced) \<le> tier_rank c (resolve_tier c quality)
    \<and> resolve_tier c balanced \<in> {ar_simple_model c, ar_medium_model c, ar_complex_model c}"
proof -
  have b: "bias_multiplier (auto_bias_of cost) = 2" "bias_multiplier (auto_bias_of quality) = 0.5"
    "bias_multiplier (auto_bias_of balanced) = 1"
    using assms(3-5) by (auto simp: bias_multiplier_def)
  have s: "estimate_complexity cost = estimate_complexity balanced"
    "estimate_complexity quality = estimate_complexity balanced"
    using assms(2) by auto
  have up: "f64_to_u32 (unsigned (w :: u32)) \<le> f64_to_u32 (unsigned w * 2)"
    and down: "f64_to_u32 (unsigned w * 0.5) \<le> f64_to_u32 (unsigned w)" for w :: u32
    using thresholds_mono [of 1 2 w] thresholds_mono [of "0.5" 1 w] by simp_all
  have "tier_rank c (resolve_tier c cost) \<le> tier_rank c (resolve_tier c balanced)"
    using up [of "ar_simple_max_score c"] up [of "ar_medium_max_score c"]
    unfolding tier_rank_resolve [OF assms(1)] Let_def b s by auto
  moreover have "tier_rank c (resolve_tier c balanced) \<le> tier_rank c (resolve_tier c quality)"
    using down [of "ar_simple_max_score c"] down [of "ar_medium_max_score c"]
    unfolding tier_rank_resolve [OF assms(1)] Let_def b s by auto
  ultimately show ?thesis by (simp add: resolve_tier_def Let_def)
qed

definition sample_auto_routing :: auto_routing_config where
  "sample_auto_routing =
     \<lparr>ar_simple_model = ''s/1'', ar_medium_model = ''m/1'', ar_complex_model = ''c/1'',
      ar_simple_max_score = 30, ar_medium_max_score = 60\<rparr>"

definition biased_request :: "string option \<Rightarrow> chat_request" where
  "biased_request bias =
     (bare_request ''auto'' [user_message ''```x```''])
       \<lparr>cr_provider := Some (default_preferences\<lparr>pp_auto_bias := bias\<rparr>)\<rparr>"

theorem auto_bias_monotone_witness:
  "tier_rank sample_auto_routing (resolve_tier sample_auto_routing (biased_request (Some ''cost'')))
     \<le> tier_rank sample_auto_routing (resolve_tier sample_auto_routing (biased_request None))
   \<and> estimate_complexity (biased_request None) = 51"
proof -
  have score: "estimate_complexity (biased_request b) = 51" for b
    by (simp add: estimate_complexity_def biased_request_def estimate_tokens_def
        CHARS_PER_TOKEN_ESTIMATE_def message_contains_code_def CODE_BONUS_def is_json_schema_def)
  show ?thesis
    using auto_bias_monotone [of sample_auto_routing "biased_request (Some ''cost'')"
        "biased_request (Some ''quality'')" "biased_request None"]
    by (simp add: score) (simp add: sample_auto_routing_def auto_bias_of_def biased_request_def
        default_preferences_def)
qed

end
