(* ===== verification/Webhook.thy ===== *)
theory Webhook
  imports External Config
begin

text \<open>
  Budget events pushed to an operator's endpoint (\<open>crates/router/src/webhook.rs\<close>): the events, the
  signature of a body, and the delivery loop with its backoff. HMAC-SHA256 (the \<open>ring\<close> crate) and
  the JSON encoding of an event are parameters. A delivery runs in a spawned task; what a handler
  leaves behind is the event it spawned a task for. Durations are nanoseconds.
\<close>

datatype webhook_event =
    BudgetExceeded string f64 f64 budget_period
  | BudgetReset string f64 budget_period
  | BudgetWarning string f64 f64 f64 budget_period

record retry_policy =
  rp_initial_backoff :: nat
  rp_max_backoff :: nat
  rp_max_retries :: u32

definition retry_policy_of :: "webhook_config \<Rightarrow> retry_policy" where
  "retry_policy_of config =
     \<lparr>rp_initial_backoff = unat (wh_retry_backoff_secs config) * 1000000000,
      rp_max_backoff = unat (wh_retry_backoff_max_secs config) * 1000000000,
      rp_max_retries = wh_max_retries config\<rparr>"

definition next_backoff :: "nat \<Rightarrow> nat \<Rightarrow> nat" where
  "next_backoff current max_backoff = min (current * 2) max_backoff"

definition hex_digit :: "nat \<Rightarrow> char" where
  "hex_digit n = (if n < 10 then char_of (48 + n) else char_of (87 + n))"

definition hex_byte :: "u8 \<Rightarrow> string" where
  "hex_byte b = [hex_digit (unat b div 16), hex_digit (unat b mod 16)]"

definition sign_hex :: "(string \<Rightarrow> string \<Rightarrow> u8 list) \<Rightarrow> string \<Rightarrow> string \<Rightarrow> string" where
  "sign_hex hmac secret body = concat (map hex_byte (hmac secret body))"

record webhook_notifier =
  wn_url :: string
  wn_auth_header :: "string option"
  wn_timeout_secs :: u64
  wn_signing_secret :: "string option"
  wn_retry_policy :: retry_policy

definition notifier_from_config ::
  "webhook_config \<Rightarrow> string option \<Rightarrow> string option \<Rightarrow> webhook_notifier" where
  "notifier_from_config config auth_header signing_secret =
     \<lparr>wn_url = wh_url config, wn_auth_header = auth_header, wn_timeout_secs = wh_timeout_secs config,
      wn_signing_secret = signing_secret, wn_retry_policy = retry_policy_of config\<rparr>"

text \<open>The request one attempt posts.\<close>

record webhook_post =
  wp_url :: string
  wp_authorization :: "string option"
  wp_signature :: "string option"
  wp_body :: string

definition post_of ::
  "(string \<Rightarrow> string \<Rightarrow> u8 list) \<Rightarrow> (webhook_event \<Rightarrow> string) \<Rightarrow> webhook_notifier \<Rightarrow> webhook_event
    \<Rightarrow> webhook_post" where
  "post_of hmac to_json wn event =
     (let body = to_json event in
      \<lparr>wp_url = wn_url wn, wp_authorization = wn_auth_header wn,
       wp_signature = map_option (\<lambda>secret. ''sha256='' @ sign_hex hmac secret body) (wn_signing_secret wn),
       wp_body = body\<rparr>)"

text \<open>Whether a failed attempt may be followed by another; \<open>None\<close> when it was delivered.\<close>

definition retryable_reply :: "unit http_reply \<Rightarrow> bool option" where
  "retryable_reply reply =
     (case reply of
        SendFailed _ \<Rightarrow> Some True
      | Replied code _ _ \<Rightarrow> if is_success code then None else Some (is_server_error code))"

function deliver ::
  "('w \<Rightarrow> unit http_reply \<times> 'w) \<Rightarrow> (nat \<Rightarrow> 'w \<Rightarrow> 'w) \<Rightarrow> retry_policy \<Rightarrow> u32 \<Rightarrow> nat \<Rightarrow> 'w \<Rightarrow> 'w" where
  "deliver http_post sleep policy attempt backoff w =
     (case http_post w of (reply, w1) \<Rightarrow>
        (case retryable_reply reply of
           None \<Rightarrow> w1
         | Some retryable \<Rightarrow>
             if \<not> retryable \<or> rp_max_retries policy \<le> attempt then w1
             else deliver http_post sleep policy (attempt + 1)
                    (next_backoff backoff (rp_max_backoff policy)) (sleep backoff w1)))"
  by pat_completeness auto

termination deliver
proof (relation "measure (\<lambda>(_, _, policy, attempt, _, _). unat (rp_max_retries policy) - unat attempt)",
    goal_cases)
  case 1 then show ?case by simp
next
  case (2 http_post sleep policy attempt backoff w reply w1 retryable)
  then have less: "attempt < rp_max_retries policy" by (simp add: not_le)
  then have "unat attempt < unat (rp_max_retries policy)" by (simp add: word_less_nat_alt)
  with unat_Suc_less [OF less] show ?case by simp
qed

declare deliver.simps [simp del]

text \<open>The task a notification spawns, from its first attempt.\<close>

definition webhook_task ::
  "(webhook_post \<Rightarrow> 'w \<Rightarrow> unit http_reply \<times> 'w) \<Rightarrow> (nat \<Rightarrow> 'w \<Rightarrow> 'w)
    \<Rightarrow> (string \<Rightarrow> string \<Rightarrow> u8 list) \<Rightarrow> (webhook_event \<Rightarrow> string) \<Rightarrow> webhook_notifier
    \<Rightarrow> webhook_event \<Rightarrow> 'w \<Rightarrow> 'w" where
  "webhook_task http_post sleep hmac to_json wn event =
     deliver (http_post (post_of hmac to_json wn event)) sleep (wn_retry_policy wn) 0
       (rp_initial_backoff (wn_retry_policy wn))"

section \<open>Deliveries are bounded\<close>

text \<open>An endpoint and a timer that keep count: the posts made, and the sleeps, latest first.\<close>

definition counting_post ::
  "('w \<Rightarrow> unit http_reply \<times> 'w) \<Rightarrow> nat \<times> nat list \<times> 'w
    \<Rightarrow> unit http_reply \<times> nat \<times> nat list \<times> 'w" where
  "counting_post http_post s =
     (case s of (n, ds, w) \<Rightarrow> (case http_post w of (reply, w') \<Rightarrow> (reply, n + 1, ds, w')))"

definition counting_sleep :: "(nat \<Rightarrow> 'w \<Rightarrow> 'w) \<Rightarrow> nat \<Rightarrow> nat \<times> nat list \<times> 'w \<Rightarrow> nat \<times> nat list \<times> 'w"
  where
  "counting_sleep sleep d s = (case s of (n, ds, w) \<Rightarrow> (n, d # ds, sleep d w))"

fun backoff_after :: "retry_policy \<Rightarrow> nat \<Rightarrow> nat" where
  "backoff_after policy 0 = rp_initial_backoff policy"
| "backoff_after policy (Suc i) = next_backoff (backoff_after policy i) (rp_max_backoff policy)"

lemma backoff_after_closed:
  "backoff_after policy i =
     (if i = 0 then rp_initial_backoff policy
      else min (rp_initial_backoff policy * 2 ^ i) (rp_max_backoff policy))"
proof (induction i)
  case 0 then show ?case by simp
next
  case (Suc i) then show ?case by (cases i) (auto simp: next_backoff_def min_def)
qed

lemma deliver_counts:
  "\<exists>k w'. deliver (counting_post http_post) (counting_sleep sleep) policy attempt
        (backoff_after policy i) (n, ds, w)
      = (n + Suc k, map (backoff_after policy) (rev [i..<i + k]) @ ds, w')
    \<and> unat attempt + k \<le> max (unat attempt) (unat (rp_max_retries policy))"
proof (induction "unat (rp_max_retries policy) - unat attempt" arbitrary: attempt i n ds w rule: less_induct)
  case less
  obtain reply w1 where post: "http_post w = (reply, w1)" by fastforce
  show ?case
  proof (cases "retryable_reply reply = Some True \<and> attempt < rp_max_retries policy")
    case False
    then have "deliver (counting_post http_post) (counting_sleep sleep) policy attempt
        (backoff_after policy i) (n, ds, w) = (n + 1, ds, w1)"
      by (subst deliver.simps)
        (auto simp: counting_post_def post not_le split: option.splits)
    then show ?thesis by (intro exI [of _ 0] exI [of _ w1]) simp
  next
    case True
    then have lt: "attempt < rp_max_retries policy" by simp
    then have u: "unat attempt < unat (rp_max_retries policy)" "unat (attempt + 1) = unat attempt + 1"
      by (simp_all add: word_less_nat_alt unat_Suc_less [OF lt])
    let ?ds = "backoff_after policy i # ds"
    have step: "deliver (counting_post http_post) (counting_sleep sleep) policy attempt
        (backoff_after policy i) (n, ds, w)
      = deliver (counting_post http_post) (counting_sleep sleep) policy (attempt + 1)
          (backoff_after policy (Suc i)) (n + 1, ?ds, sleep (backoff_after policy i) w1)"
      using True lt [unfolded not_le [symmetric]]
      by (subst deliver.simps) (simp add: counting_post_def counting_sleep_def post)
    have "unat (rp_max_retries policy) - unat (attempt + 1) < unat (rp_max_retries policy) - unat attempt"
      using u by simp
    from less [OF this, of "Suc i" "n + 1" ?ds "sleep (backoff_after policy i) w1"]
    obtain k w' where k: "deliver (counting_post http_post) (counting_sleep sleep) policy (attempt + 1)
          (backoff_after policy (Suc i)) (n + 1, ?ds, sleep (backoff_after policy i) w1)
        = (n + 1 + Suc k, map (backoff_after policy) (rev [Suc i..<Suc i + k]) @ ?ds, w')"
      "unat (attempt + 1) + k \<le> max (unat (attempt + 1)) (unat (rp_max_retries policy))" by blast
    have "[i..<i + Suc k] = i # [Suc i..<Suc i + k]" by (simp add: upt_conv_Cons)
    then show ?thesis using k u step by (intro exI [of _ "Suc k"] exI [of _ w']) simp
  qed
qed

text \<open>
  \<^bold>\<open>C28.\<close> A webhook delivery always ends: whatever the endpoint answers, an event is posted at least
  once and at most \<open>max_retries + 1\<close> times, with one sleep between consecutive posts, the first of
  \<open>initial_backoff\<close> and each later one twice the previous, capped at \<open>max_backoff\<close>.
\<close>

theorem webhook_delivery_bounded:
  "\<exists>k w'. webhook_task (counting_post \<circ> http_post) (counting_sleep sleep) hmac to_json wn event (0, [], w)
      = (Suc k, map (\<lambda>i. if i = 0 then rp_initial_backoff (wn_retry_policy wn)
                         else min (rp_initial_backoff (wn_retry_policy wn) * 2 ^ i)
                                (rp_max_backoff (wn_retry_policy wn)))
                  (rev [0..<k]), w')
    \<and> k \<le> unat (rp_max_retries (wn_retry_policy wn))"
proof -
  let ?p = "wn_retry_policy wn"
  from deliver_counts [of "http_post (post_of hmac to_json wn event)" sleep ?p 0 0 0 "[]" w]
  obtain k w' where "webhook_task (counting_post \<circ> http_post) (counting_sleep sleep) hmac to_json wn event
        (0, [], w) = (Suc k, map (backoff_after ?p) (rev [0..<k]), w')"
    "k \<le> unat (rp_max_retries ?p)"
    by (auto simp: webhook_task_def)
  then show ?thesis by (intro exI [of _ k] exI [of _ w']) (simp add: backoff_after_closed)
qed

end
