(* ===== verification/Request_Policy.thy ===== *)
theory Request_Policy
  imports Config Metrics External "HOL-Library.List_Lexorder" "HOL-Library.Char_ord"
begin

text \<open>
  What happens to a request's content before dispatch: presets (\<open>presets.rs\<close>), web-search context
  (\<open>web_search.rs\<close>), guardrails (\<open>guardrails.rs\<close>) and moderation (\<open>moderation.rs\<close>), all under
  \<open>crates/router/src\<close>. The \<open>regex\<close> crate, the moderation endpoint and the search endpoint are
  parameters; what the code does with their answers is modelled.
\<close>

section \<open>Presets\<close>

definition fill_default :: "'a option \<Rightarrow> 'a option \<Rightarrow> 'a option" where
  "fill_default mine dflt = or_else mine dflt"

definition has_system_message :: "chat_message list \<Rightarrow> bool" where
  "has_system_message ms = list_ex (\<lambda>m. msg_role m = System) ms"

definition apply_preset_config :: "preset_config \<Rightarrow> chat_request \<Rightarrow> chat_request" where
  "apply_preset_config preset req =
     req\<lparr>cr_model := unwrap_or (cr_model req) (pr_model preset),
         cr_messages :=
           (case pr_system_prompt preset of
              None \<Rightarrow> cr_messages req
            | Some prompt \<Rightarrow>
                if has_system_message (cr_messages req) then cr_messages req
                else system_message prompt # cr_messages req),
         cr_provider := (if cr_provider req = None then pr_provider preset else cr_provider req),
         cr_temperature := fill_default (cr_temperature req) (pr_temperature preset),
         cr_top_p := fill_default (cr_top_p req) (pr_top_p preset),
         cr_max_tokens := fill_default (cr_max_tokens req) (pr_max_tokens preset),
         cr_stop := fill_default (cr_stop req) (pr_stop preset),
         cr_top_k := fill_default (cr_top_k req) (pr_top_k preset),
         cr_min_p := fill_default (cr_min_p req) (pr_min_p preset),
         cr_top_a := fill_default (cr_top_a req) (pr_top_a preset),
         cr_frequency_penalty := fill_default (cr_frequency_penalty req) (pr_frequency_penalty preset),
         cr_presence_penalty := fill_default (cr_presence_penalty req) (pr_presence_penalty preset),
         cr_repetition_penalty :=
           fill_default (cr_repetition_penalty req) (pr_repetition_penalty preset),
         cr_logit_bias := fill_default (cr_logit_bias req) (pr_logit_bias preset),
         cr_seed := fill_default (cr_seed req) (pr_seed preset)\<rparr>"

definition apply_preset ::
  "(string \<rightharpoonup> preset_config) \<Rightarrow> chat_request \<Rightarrow> router_error + chat_request" where
  "apply_preset presets req =
     (case cr_preset req of
        None \<Rightarrow> Inr req
      | Some name \<Rightarrow>
          (case presets name of
             None \<Rightarrow> Inl (UnknownPreset name)
           | Some preset \<Rightarrow> Inr (apply_preset_config preset req)))"

lemma has_system_message_Cons [simp]:
  "has_system_message (m # ms) \<longleftrightarrow> msg_role m = System \<or> has_system_message ms"
  by (simp add: has_system_message_def)

text \<open>
  A preset only supplies defaults: of a known preset, every sampling field, the provider
  preferences and a system message the request already has are kept, the preset's model replaces
  the request's, the conversation is kept as a suffix, and applying the preset a second time
  changes nothing; an unknown name is an error and nothing else is.
\<close>

theorem preset_defaults:
  "(apply_preset presets req = Inl e
      \<longleftrightarrow> (\<exists>n. cr_preset req = Some n \<and> presets n = None \<and> e = UnknownPreset n))
   \<and> (apply_preset presets req = Inr req' \<longrightarrow>
        apply_preset presets req' = Inr req'
        \<and> suffix (cr_messages req) (cr_messages req')
        \<and> (has_system_message (cr_messages req) \<longrightarrow> cr_messages req' = cr_messages req)
        \<and> (cr_provider req \<noteq> None \<longrightarrow> cr_provider req' = cr_provider req)
        \<and> (cr_temperature req \<noteq> None \<longrightarrow> cr_temperature req' = cr_temperature req)
        \<and> (cr_max_tokens req \<noteq> None \<longrightarrow> cr_max_tokens req' = cr_max_tokens req)
        \<and> cr_tools req' = cr_tools req
        \<and> (\<forall>n p. cr_preset req = Some n \<and> presets n = Some p \<longrightarrow>
             cr_model req' = unwrap_or (cr_model req) (pr_model p)
             \<and> (cr_max_tokens req = None \<longrightarrow> cr_max_tokens req' = pr_max_tokens p)))"
proof (intro conjI impI)
  assume r: "apply_preset presets req = Inr req'"
  show "apply_preset presets req' = Inr req'"
  proof (cases "cr_preset req")
    case None with r show ?thesis by (simp add: apply_preset_def)
  next
    case (Some n)
    with r obtain p where p: "presets n = Some p" "req' = apply_preset_config p req"
      by (auto simp: apply_preset_def split: option.splits)
    have "apply_preset_config p req' = req'"
      unfolding p(2) by (cases "pr_model p"; cases "pr_system_prompt p"; cases "cr_provider req")
        (auto simp: apply_preset_config_def fill_default_def)
    moreover have "cr_preset req' = Some n" using p Some by (simp add: apply_preset_config_def)
    ultimately show ?thesis using p by (simp add: apply_preset_def)
  qed
  show "suffix (cr_messages req) (cr_messages req')"
    using r by (auto simp: apply_preset_def apply_preset_config_def suffix_Cons split: option.splits)
qed (auto simp: apply_preset_def apply_preset_config_def fill_default_def split: option.splits)

definition sample_preset :: preset_config where
  "sample_preset =
     \<lparr>pr_name = ''terse'', pr_model = Some ''smart'', pr_system_prompt = Some ''Be brief.'',
      pr_provider = None, pr_temperature = None, pr_top_p = None, pr_max_tokens = Some 256,
      pr_stop = None, pr_top_k = None, pr_min_p = None, pr_top_a = None,
      pr_frequency_penalty = None, pr_presence_penalty = None, pr_repetition_penalty = None,
      pr_logit_bias = None, pr_seed = None\<rparr>"

theorem preset_defaults_witness:
  "\<exists>req'. apply_preset [''terse'' \<mapsto> sample_preset]
       ((bare_request ''x/y'' [user_message ''hi''])\<lparr>cr_preset := Some ''terse''\<rparr>) = Inr req'
     \<and> cr_model req' = ''smart'' \<and> cr_max_tokens req' = Some 256"
proof -
  let ?r = "(bare_request ''x/y'' [user_message ''hi''])\<lparr>cr_preset := Some ''terse''\<rparr>"
  obtain req' where r: "apply_preset [''terse'' \<mapsto> sample_preset] ?r = Inr req'"
    by (simp add: apply_preset_def)
  have "cr_model req' = ''smart'' \<and> cr_max_tokens req' = Some 256"
    using preset_defaults [of "[''terse'' \<mapsto> sample_preset]" ?r _ req'] r
    by (simp add: sample_preset_def)
  with r show ?thesis by blast
qed

section \<open>Guardrails\<close>

text \<open>The regex engine: validity of a pattern, search, and replacement of every match.\<close>

record regex_engine =
  re_valid :: "string \<Rightarrow> bool"
  re_is_match :: "string \<Rightarrow> string \<Rightarrow> bool"
  re_replace_all :: "string \<Rightarrow> string \<Rightarrow> string \<Rightarrow> string"

record guardrail =
  gd_name :: string
  gd_action :: guardrail_action
  gd_replacement :: string
  gd_regex :: string

definition compile_guardrail :: "regex_engine \<Rightarrow> guardrail_config \<Rightarrow> guardrail option" where
  "compile_guardrail eng cfg =
     (if re_valid eng (gc_pattern cfg)
      then Some \<lparr>gd_name = gc_name cfg, gd_action = gc_action cfg,
                 gd_replacement = gc_replacement cfg, gd_regex = gc_pattern cfg\<rparr>
      else None)"

fun content_matches :: "regex_engine \<Rightarrow> string \<Rightarrow> message_content \<Rightarrow> bool" where
  "content_matches eng regex (Text text) = re_is_match eng regex text"
| "content_matches eng regex (Parts parts) =
     list_ex (\<lambda>part. case part of TextPart text \<Rightarrow> re_is_match eng regex text | _ \<Rightarrow> False) parts"

definition redact_text :: "regex_engine \<Rightarrow> string \<Rightarrow> string \<Rightarrow> string \<Rightarrow> string" where
  "redact_text eng regex replacement text =
     (if re_is_match eng regex text then re_replace_all eng regex text replacement else text)"

fun redact_content ::
  "regex_engine \<Rightarrow> string \<Rightarrow> string \<Rightarrow> message_content \<Rightarrow> message_content" where
  "redact_content eng regex replacement (Text text) = Text (redact_text eng regex replacement text)"
| "redact_content eng regex replacement (Parts parts) =
     Parts (map (\<lambda>part. case part of
                   TextPart text \<Rightarrow> TextPart (redact_text eng regex replacement text)
                 | p \<Rightarrow> p) parts)"

text \<open>One guardrail over the messages in order, then every guardrail in configuration order.\<close>

fun apply_guardrail ::
  "regex_engine \<Rightarrow> guardrail \<Rightarrow> chat_message list \<Rightarrow> string + chat_message list" where
  "apply_guardrail eng g [] = Inr []"
| "apply_guardrail eng g (m # ms) =
     (case msg_content m of
        None \<Rightarrow> map_sum id ((#) m) (apply_guardrail eng g ms)
      | Some content \<Rightarrow>
          (case gd_action g of
             Block \<Rightarrow>
               if content_matches eng (gd_regex g) content then Inl (gd_name g)
               else map_sum id ((#) m) (apply_guardrail eng g ms)
           | Redact \<Rightarrow>
               map_sum id
                 ((#) (m\<lparr>msg_content :=
                       Some (redact_content eng (gd_regex g) (gd_replacement g) content)\<rparr>))
                 (apply_guardrail eng g ms)))"

fun apply_guardrail_list ::
  "regex_engine \<Rightarrow> guardrail list \<Rightarrow> chat_message list \<Rightarrow> string + chat_message list" where
  "apply_guardrail_list eng [] ms = Inr ms"
| "apply_guardrail_list eng (g # gs) ms =
     (case apply_guardrail eng g ms of
        Inl name \<Rightarrow> Inl name
      | Inr ms' \<Rightarrow> apply_guardrail_list eng gs ms')"

definition apply_guardrails ::
  "regex_engine \<Rightarrow> guardrail list \<Rightarrow> chat_request \<Rightarrow> router_error + chat_request" where
  "apply_guardrails eng gs req =
     (case apply_guardrail_list eng gs (cr_messages req) of
        Inl name \<Rightarrow> Inl (GuardrailBlocked name)
      | Inr ms \<Rightarrow> Inr (req\<lparr>cr_messages := ms\<rparr>))"

text \<open>The specification: what one message looks like after the redactions of a list of guardrails,
  and whether a blocking guardrail objects to it.\<close>

definition redact_message :: "regex_engine \<Rightarrow> guardrail \<Rightarrow> chat_message \<Rightarrow> chat_message" where
  "redact_message eng g m =
     (if gd_action g = Redact
      then m\<lparr>msg_content := map_option (redact_content eng (gd_regex g) (gd_replacement g))
                              (msg_content m)\<rparr>
      else m)"

definition redacted :: "regex_engine \<Rightarrow> guardrail list \<Rightarrow> chat_message \<Rightarrow> chat_message" where
  "redacted eng gs m = fold (redact_message eng) gs m"

definition objects :: "regex_engine \<Rightarrow> guardrail \<Rightarrow> chat_message \<Rightarrow> bool" where
  "objects eng g m \<longleftrightarrow>
     gd_action g = Block \<and> (\<exists>c. msg_content m = Some c \<and> content_matches eng (gd_regex g) c)"

lemma apply_guardrail_spec:
  "apply_guardrail eng g ms =
     (if \<exists>m\<in>set ms. objects eng g m then Inl (gd_name g) else Inr (map (redact_message eng g) ms))"
proof (induction ms)
  case Nil then show ?case by simp
next
  case (Cons m ms)
  have block: "gd_action g = Block \<Longrightarrow> redact_message eng g = id"
    by (simp add: redact_message_def fun_eq_iff)
  show ?case
  proof (cases "gd_action g")
    case Block
    with Cons show ?thesis by (cases "msg_content m") (auto simp: objects_def block)
  next
    case Redact
    with Cons show ?thesis
      by (cases "msg_content m") (auto simp: objects_def redact_message_def)
  qed
qed

lemma apply_guardrail_list_Inr:
  "apply_guardrail_list eng gs ms = Inr ms' \<longleftrightarrow>
     ms' = map (redacted eng gs) ms
     \<and> (\<forall>i<length gs. \<forall>m\<in>set ms. \<not> objects eng (gs ! i) (redacted eng (take i gs) m))"
proof (induction gs arbitrary: ms)
  case Nil then show ?case by (auto simp: redacted_def)
next
  case (Cons g gs)
  have all: "(\<forall>i<Suc n. P i) \<longleftrightarrow> P 0 \<and> (\<forall>i<n. P (Suc i))" for P and n :: nat
    using less_Suc_eq_0_disj by auto
  show ?case
    by (simp add: apply_guardrail_spec Cons.IH all redacted_def comp_def)
qed

text \<open>
  Guardrails let a request through exactly when no blocking guardrail matches any text of any
  message as it stands after the redactions configured before it; the request that passes has every
  configured redaction applied, in order, to its messages and is otherwise unchanged.
\<close>

theorem guardrails_pass_iff:
  "apply_guardrails eng gs req = Inr req' \<longleftrightarrow>
     (\<forall>i<length gs. \<forall>m\<in>set (cr_messages req). \<not> objects eng (gs ! i) (redacted eng (take i gs) m))
     \<and> req' = req\<lparr>cr_messages := map (redacted eng gs) (cr_messages req)\<rparr>"
proof -
  have "apply_guardrails eng gs req = Inr req' \<longleftrightarrow>
      (\<exists>ms. apply_guardrail_list eng gs (cr_messages req) = Inr ms \<and> req' = req\<lparr>cr_messages := ms\<rparr>)"
    by (auto simp: apply_guardrails_def split: sum.splits)
  then show ?thesis by (auto simp: apply_guardrail_list_Inr)
qed

text \<open>A regex engine for evaluation: a pattern matches where it occurs as a substring.\<close>

definition literal_engine :: regex_engine where
  "literal_engine =
     \<lparr>re_valid = (\<lambda>p. p \<noteq> []), re_is_match = (\<lambda>p t. contains t p),
      re_replace_all = (\<lambda>p t r. r)\<rparr>"

theorem guardrails_pass_iff_witness:
  "apply_guardrails literal_engine
     [\<lparr>gd_name = ''pii'', gd_action = Redact, gd_replacement = ''[redacted]'', gd_regex = ''ssn''\<rparr>,
      \<lparr>gd_name = ''deny'', gd_action = Block, gd_replacement = [], gd_regex = ''ssn''\<rparr>]
     (bare_request ''a/b'' [user_message ''my ssn''])
   = Inr (bare_request ''a/b'' [user_message ''[redacted]''])"
  unfolding guardrails_pass_iff
  by (simp add: less_Suc_eq_0_disj nth_Cons' redacted_def redact_message_def objects_def
      redact_text_def literal_engine_def user_message_def plain_message_def bare_request_def)

text \<open>
  A blocked request names the first guardrail that objects: some blocking guardrail matches the
  text as redacted by the guardrails before it, none configured earlier does, and the error carries
  that guardrail's name with status 400.
\<close>

theorem guardrails_block_first:
  assumes "apply_guardrails eng gs req = Inl e"
  shows "\<exists>i<length gs. e = GuardrailBlocked (gd_name (gs ! i)) \<and> router_status_code e = 400
    \<and> (\<exists>m\<in>set (cr_messages req). objects eng (gs ! i) (redacted eng (take i gs) m))
    \<and> (\<forall>j<i. \<forall>m\<in>set (cr_messages req). \<not> objects eng (gs ! j) (redacted eng (take j gs) m))"
proof -
  have "\<exists>i<length gs. n = gd_name (gs ! i)
      \<and> (\<exists>m\<in>set ms. objects eng (gs ! i) (redacted eng (take i gs) m))
      \<and> (\<forall>j<i. \<forall>m\<in>set ms. \<not> objects eng (gs ! j) (redacted eng (take j gs) m))"
    if "apply_guardrail_list eng gs ms = Inl n" for n ms
    using that
  proof (induction gs arbitrary: ms)
    case (Cons g gs)
    show ?case
    proof (cases "\<exists>m\<in>set ms. objects eng g m")
      case True
      with Cons.prems show ?thesis
        by (intro exI [of _ 0]) (simp add: apply_guardrail_spec redacted_def)
    next
      case False
      with Cons.prems have "apply_guardrail_list eng gs (map (redact_message eng g) ms) = Inl n"
        by (simp add: apply_guardrail_spec)
      from Cons.IH [OF this] obtain i where "i < length gs" "n = gd_name (gs ! i)"
        "\<exists>m\<in>set (map (redact_message eng g) ms). objects eng (gs ! i) (redacted eng (take i gs) m)"
        "\<forall>j<i. \<forall>m\<in>set (map (redact_message eng g) ms).
            \<not> objects eng (gs ! j) (redacted eng (take j gs) m)"
        by blast
      with False show ?thesis
        by (intro exI [of _ "Suc i"]) (auto simp: redacted_def less_Suc_eq_0_disj)
    qed
  qed simp
  then show ?thesis
    using assms by (fastforce simp: apply_guardrails_def split: sum.splits)
qed

theorem guardrails_block_first_witness:
  "\<exists>m\<in>set [user_message ''a bomb'']. objects literal_engine
     \<lparr>gd_name = ''deny'', gd_action = Block, gd_replacement = [], gd_regex = ''bomb''\<rparr> m"
proof -
  let ?g = "\<lparr>gd_name = ''deny'', gd_action = Block, gd_replacement = [], gd_regex = ''bomb''\<rparr>"
  have "apply_guardrails literal_engine [?g] (bare_request ''a/b'' [user_message ''a bomb''])
      = Inl (GuardrailBlocked ''deny'')"
    by (simp add: apply_guardrails_def literal_engine_def)
  from guardrails_block_first [OF this] show ?thesis by (auto simp: redacted_def)
qed


section \<open>Web search\<close>

record search_result =
  sr_title :: string
  sr_url :: string
  sr_snippet :: string

record brave_result =
  br_title :: string
  br_url :: string
  br_description :: string

record web_search_client =
  wc_base_url :: string
  wc_api_key :: string
  wc_max_results :: u32
  wc_timeout_secs :: u64

definition new_web_search_client :: "web_search_config \<Rightarrow> string \<Rightarrow> web_search_client" where
  "new_web_search_client config api_key =
     \<lparr>wc_base_url = ws_base_url config, wc_api_key = api_key, wc_max_results = ws_max_results config,
      wc_timeout_secs = ws_timeout_secs config\<rparr>"

text \<open>The search response: its \<open>web\<close> object when it has one, as the list of its results.\<close>

definition search ::
  "(string \<Rightarrow> 'w \<Rightarrow> brave_result list option http_reply \<times> 'w) \<Rightarrow> string \<Rightarrow> 'w
    \<Rightarrow> (string + search_result list) \<times> 'w" where
  "search http_get query w =
     (case http_get query w of (reply, w') \<Rightarrow>
        (case reply of
           SendFailed e \<Rightarrow> (Inl e, w')
         | Replied code shown body \<Rightarrow>
             if \<not> is_success code then (Inl (''web search endpoint returned '' @ shown), w')
             else (case body of
                     Inl e \<Rightarrow> (Inl e, w')
                   | Inr web \<Rightarrow>
                       (Inr (map (\<lambda>r. \<lparr>sr_title = br_title r, sr_url = br_url r,
                                      sr_snippet = br_description r\<rparr>) (unwrap_or [] web)), w'))))"

definition last_user_query :: "chat_request \<Rightarrow> string option" where
  "last_user_query req =
     (case List.find (\<lambda>m. msg_role m = User) (rev (cr_messages req)) of
        None \<Rightarrow> None
      | Some m \<Rightarrow>
          (case msg_content m of
             None \<Rightarrow> None
           | Some content \<Rightarrow>
               let text = as_plain_text content in if is_blank text then None else Some text))"

text \<open>The separator of a result line is an em dash, three bytes of UTF-8.\<close>

definition em_dash :: string where
  "em_dash = [char_of (226::nat), char_of (128::nat), char_of (148::nat)]"

fun format_result_lines :: "nat \<Rightarrow> search_result list \<Rightarrow> string" where
  "format_result_lines i [] = []"
| "format_result_lines i (r # rs) =
     show_nat (i + 1) @ ''. '' @ sr_title r @ '' '' @ em_dash @ '' '' @ sr_snippet r @ '' (''
       @ sr_url r @ '')'' @ [CHR 10] @ format_result_lines (i + 1) rs"

definition format_results :: "search_result list \<Rightarrow> string" where
  "format_results results =
     ''[Web search results]'' @ [CHR 10] @ format_result_lines 0 results @ [CHR 10]"

fun prepend_to_parts :: "string \<Rightarrow> content_part list \<Rightarrow> content_part list option" where
  "prepend_to_parts pre [] = None"
| "prepend_to_parts pre (TextPart text # ps) = Some (TextPart (pre @ text) # ps)"
| "prepend_to_parts pre (p # ps) = map_option ((#) p) (prepend_to_parts pre ps)"

fun prepend_to_content :: "string \<Rightarrow> message_content \<Rightarrow> message_content" where
  "prepend_to_content pre (Text text) = Text (pre @ text)"
| "prepend_to_content pre (Parts parts) =
     (case prepend_to_parts pre parts of
        Some parts' \<Rightarrow> Parts parts'
      | None \<Rightarrow> Parts (TextPart pre # parts))"

text \<open>The first user message of the reversed conversation is changed, none when there is none.\<close>

fun prepend_to_first_user :: "string \<Rightarrow> chat_message list \<Rightarrow> chat_message list" where
  "prepend_to_first_user pre [] = []"
| "prepend_to_first_user pre (m # ms) =
     (if msg_role m = User
      then m\<lparr>msg_content := map_option (prepend_to_content pre) (msg_content m)\<rparr> # ms
      else m # prepend_to_first_user pre ms)"

definition prepend_to_last_user_message :: "string \<Rightarrow> chat_request \<Rightarrow> chat_request" where
  "prepend_to_last_user_message pre req =
     req\<lparr>cr_messages := rev (prepend_to_first_user pre (rev (cr_messages req)))\<rparr>"

text \<open>\<open>Router::apply_web_search\<close>: the request is changed only by a search that found something.\<close>

definition apply_web_search ::
  "(string \<Rightarrow> 'w \<Rightarrow> brave_result list option http_reply \<times> 'w) option \<Rightarrow> chat_request \<Rightarrow> metrics
    \<Rightarrow> 'w \<Rightarrow> chat_request \<times> metrics \<times> 'w" where
  "apply_web_search web_search req mt w =
     (if cr_web_search req \<noteq> Some True then (req, mt, w)
      else case web_search of
        None \<Rightarrow> (req, mt, w)
      | Some http_get \<Rightarrow>
          (case last_user_query req of
             None \<Rightarrow> (req, mt, w)
           | Some query \<Rightarrow>
               (case search http_get query w of
                  (Inr results, w') \<Rightarrow>
                    if results \<noteq> []
                    then (prepend_to_last_user_message (format_results results) req,
                          record_web_search ''results'' mt, w')
                    else (req, record_web_search ''no_results'' mt, w')
                | (Inl msg, w') \<Rightarrow> (req, record_web_search ''error'' mt, w'))))"

lemma prepend_to_parts_text:
  "prepend_to_parts pre ps = Some ps' \<Longrightarrow> as_plain_text (Parts ps') = pre @ as_plain_text (Parts ps)"
  by (induction pre ps arbitrary: ps' rule: prepend_to_parts.induct)
    (auto simp: List.map_filter_simps)

lemma prepend_to_content_text:
  "as_plain_text (prepend_to_content pre c) = pre @ as_plain_text c"
  by (cases c) (auto dest!: prepend_to_parts_text simp: List.map_filter_simps split: option.splits)

lemma prepend_to_first_user_find:
  "List.find (\<lambda>m. msg_role m = User) (prepend_to_first_user pre ms) =
     map_option (\<lambda>m. m\<lparr>msg_content := map_option (prepend_to_content pre) (msg_content m)\<rparr>)
       (List.find (\<lambda>m. msg_role m = User) ms)"
  by (induction ms) auto

lemma prepend_to_first_user_list_all2:
  "list_all2 (\<lambda>m m'. msg_role m \<noteq> User \<longrightarrow> m' = m) ms (prepend_to_first_user pre ms)"
  by (induction ms) (auto intro: list.rel_refl)

lemma prepend_to_last_user_message_frame:
  "list_all2 (\<lambda>m m'. msg_role m \<noteq> User \<longrightarrow> m' = m)
     (cr_messages req) (cr_messages (prepend_to_last_user_message pre req))"
  using prepend_to_first_user_list_all2 [of "rev (cr_messages req)" pre]
  by (simp add: prepend_to_last_user_message_def list_all2_rev1)

lemma search_world: "\<exists>r. search http_get q w = (r, snd (http_get q w))"
  by (auto simp: search_def split: prod.splits http_reply.splits sum.splits)

lemma not_blank: "ws_prefix s = 0 \<Longrightarrow> s \<noteq> [] \<Longrightarrow> \<not> is_blank s"
  unfolding is_blank_def by (subst trim_start.simps) simp

lemma format_results_not_blank: "\<not> is_blank (format_results rs @ q)"
  by (rule not_blank) (simp_all add: format_results_def ws_prefix_def ascii_ws_def)

lemma last_user_query_prepend:
  assumes "last_user_query req = Some q" and "\<not> is_blank (pre @ q)"
  shows "last_user_query (prepend_to_last_user_message pre req) = Some (pre @ q)"
  using assms
  by (auto simp: last_user_query_def prepend_to_last_user_message_def prepend_to_first_user_find
      prepend_to_content_text Let_def split: option.splits if_splits)

text \<open>
  Web search never fails a request and only adds context to its last user turn: every message
  of another role is untouched, as is everything but the messages; when a search finds results, the
  text of the last user message becomes the results block followed by its old text; otherwise the
  request is unchanged, and no search is made at all unless the request asked for one, a client is
  configured and the last user message has text.
\<close>

theorem web_search_prepends:
  assumes "apply_web_search web_search req mt w = (req', mt', w')"
  shows "(req' = req
          \<or> (\<exists>http_get q results w''. web_search = Some http_get \<and> last_user_query req = Some q
               \<and> search http_get q w = (Inr results, w'') \<and> results \<noteq> []
               \<and> last_user_query req' = Some (format_results results @ q)))
       \<and> list_all2 (\<lambda>m m'. msg_role m \<noteq> User \<longrightarrow> m' = m) (cr_messages req) (cr_messages req')
       \<and> req'\<lparr>cr_messages := cr_messages req\<rparr> = req
       \<and> (cr_web_search req \<noteq> Some True \<or> web_search = None \<or> last_user_query req = None
            \<longrightarrow> req' = req \<and> mt' = mt \<and> w' = w)"
proof -
  consider "req' = req"
      "cr_web_search req \<noteq> Some True \<or> web_search = None \<or> last_user_query req = None
         \<longrightarrow> mt' = mt \<and> w' = w"
    | http_get q results where "web_search = Some http_get" "last_user_query req = Some q"
      "cr_web_search req = Some True"
      "search http_get q w = (Inr results, w')" "results \<noteq> []"
      "req' = prepend_to_last_user_message (format_results results) req"
    using assms
    by (auto simp: apply_web_search_def split: if_splits option.splits prod.splits sum.splits)
  then show ?thesis
  proof cases
    case 1 then show ?thesis by (simp add: list.rel_refl)
  next
    case 2
    then show ?thesis
      by (auto simp: last_user_query_prepend format_results_not_blank
          prepend_to_last_user_message_frame) (simp add: prepend_to_last_user_message_def)
  qed
qed

definition sample_search :: "string \<Rightarrow> unit \<Rightarrow> brave_result list option http_reply \<times> unit" where
  "sample_search q w =
     (Replied 200 ''200 OK'' (Inr (Some [\<lparr>br_title = ''T'', br_url = ''u'', br_description = ''d''\<rparr>])),
      w)"

theorem web_search_prepends_witness:
  "let req = (bare_request ''a/b'' [user_message ''news?''])\<lparr>cr_web_search := Some True\<rparr>;
       req' = fst (apply_web_search (Some sample_search) req new_metrics ())
   in req' \<noteq> req
      \<and> last_user_query req' =
          Some (format_results [\<lparr>sr_title = ''T'', sr_url = ''u'', sr_snippet = ''d''\<rparr>] @ ''news?'')"
proof -
  let ?req = "(bare_request ''a/b'' [user_message ''news?''])\<lparr>cr_web_search := Some True\<rparr>"
  let ?rs = "[\<lparr>sr_title = ''T'', sr_url = ''u'', sr_snippet = ''d''\<rparr>]"
  have q: "last_user_query ?req = Some ''news?''"
    by (simp add: last_user_query_def not_blank ws_prefix_def ascii_ws_def)
  have s: "search sample_search ''news?'' () = (Inr ?rs, ())"
    by (simp add: search_def sample_search_def is_success_def)
  obtain req' mt' w' where r: "apply_web_search (Some sample_search) ?req new_metrics () = (req', mt', w')"
    by (rule prod_cases3)
  have changed: "req' \<noteq> ?req"
  proof
    assume "req' = ?req"
    with r q s have "prepend_to_last_user_message (format_results ?rs) ?req = ?req"
      by (simp add: apply_web_search_def)
    then show False
      by (simp add: prepend_to_last_user_message_def format_results_def user_message_def
          plain_message_def bare_request_def)
  qed
  with web_search_prepends [OF r] q s
  have "last_user_query req' = Some (format_results ?rs @ ''news?'')" by auto
  with changed r show ?thesis by (simp add: Let_def)
qed

section \<open>Moderation\<close>

datatype moderation_error =
    Flagged "string list"
  | RequestFailed string

record moderation_client =
  mc_base_url :: string
  mc_api_key :: string
  mc_model :: string
  mc_timeout_secs :: u64

definition new_moderation_client :: "moderation_config \<Rightarrow> string \<Rightarrow> moderation_client" where
  "new_moderation_client config api_key =
     \<lparr>mc_base_url = rev (dropWhile (\<lambda>c. c = CHR ''/'') (rev (mo_base_url config))),
      mc_api_key = api_key, mc_model = mo_model config, mc_timeout_secs = mo_timeout_secs config\<rparr>"

record moderation_result =
  mr_flagged :: bool
  mr_categories :: "(string \<times> bool) list"

definition content_segments :: "message_content \<Rightarrow> string list" where
  "content_segments content =
     (case content of Text text \<Rightarrow> [text] | Parts parts \<Rightarrow> List.map_filter part_text parts)"

definition collect_text :: "chat_request \<Rightarrow> string" where
  "collect_text req =
     join [CHR 10]
       (concat (map (\<lambda>m. case msg_content m of None \<Rightarrow> [] | Some content \<Rightarrow> content_segments content)
                  (cr_messages req)))"

definition flagged_categories :: "moderation_result list \<Rightarrow> string list" where
  "flagged_categories results =
     (case List.find mr_flagged results of
        None \<Rightarrow> []
      | Some r \<Rightarrow> sort (map fst (filter snd (mr_categories r))))"

text \<open>\<open>ModerationClient::check\<close>, on the request that posts the text to the configured endpoint.\<close>

definition moderation_check ::
  "(string \<Rightarrow> 'w \<Rightarrow> moderation_result list http_reply \<times> 'w) \<Rightarrow> chat_request \<Rightarrow> 'w
    \<Rightarrow> (moderation_error + unit) \<times> 'w" where
  "moderation_check http_post req w =
     (let text = collect_text req in
      if is_blank text then (Inr (), w)
      else case http_post text w of (reply, w') \<Rightarrow>
        (case reply of
           SendFailed e \<Rightarrow> (Inl (RequestFailed e), w')
         | Replied code shown body \<Rightarrow>
             if \<not> is_success code
             then (Inl (RequestFailed (''moderation endpoint returned '' @ shown)), w')
             else (case body of
                     Inl e \<Rightarrow> (Inl (RequestFailed e), w')
                   | Inr results \<Rightarrow>
                       (let cats = flagged_categories results in
                        if cats = [] then (Inr (), w') else (Inl (Flagged cats), w')))))"

text \<open>\<open>Router::apply_moderation\<close>: without a configured client a no-op; an unreachable backend lets
  the request through.\<close>

definition apply_moderation ::
  "(string \<Rightarrow> 'w \<Rightarrow> moderation_result list http_reply \<times> 'w) option \<Rightarrow> chat_request \<Rightarrow> metrics
    \<Rightarrow> 'w \<Rightarrow> (router_error + unit) \<times> metrics \<times> 'w" where
  "apply_moderation moderation req mt w =
     (case moderation of
        None \<Rightarrow> (Inr (), mt, w)
      | Some http_post \<Rightarrow>
          (case moderation_check http_post req w of
             (Inr _, w') \<Rightarrow> (Inr (), mt, w')
           | (Inl (Flagged categories), w') \<Rightarrow>
               (Inl (ModerationFlagged categories),
                fold record_moderation_blocked categories mt, w')
           | (Inl (RequestFailed msg), w') \<Rightarrow> (Inr (), mt, w')))"

lemma counter_moderation_fold:
  "counter (mt_moderation_blocked_total (fold record_moderation_blocked cs mt)) c =
     counter (mt_moderation_blocked_total mt) c + of_nat (count_list cs c)"
  by (induction cs arbitrary: mt) (simp_all add: record_moderation_blocked_def)

text \<open>
  Moderation blocks a request exactly when a client is configured, the collected text is not
  blank, the endpoint answers with a 2xx status and a decodable body, and the first flagged result
  names at least one category; the error lists that result's categories in order, each category's
  counter is raised once per listing, and every other outcome lets the request through unchanged in
  the metrics.
\<close>

theorem moderation_blocks_iff:
  "case apply_moderation moderation req mt w of (outcome, mt', w') \<Rightarrow>
     (outcome = Inl e \<longleftrightarrow>
        (\<exists>http_post code shown results.
           moderation = Some http_post \<and> \<not> is_blank (collect_text req)
           \<and> fst (http_post (collect_text req) w) = Replied code shown (Inr results)
           \<and> is_success code \<and> flagged_categories results \<noteq> []
           \<and> e = ModerationFlagged (flagged_categories results)))
     \<and> (outcome = Inr () \<longrightarrow> mt' = mt)
     \<and> (\<forall>cs. outcome = Inl (ModerationFlagged cs) \<longrightarrow> sorted cs
           \<and> (\<forall>c. counter (mt_moderation_blocked_total mt') c =
                 counter (mt_moderation_blocked_total mt) c + of_nat (count_list cs c)))"
proof -
  have sorted: "sorted (flagged_categories rs)" for rs
    by (simp add: flagged_categories_def split: option.splits)
  show ?thesis
  proof (cases moderation)
    case None then show ?thesis by (simp add: apply_moderation_def)
  next
    case (Some http_post)
    obtain reply w' where call: "http_post (collect_text req) w = (reply, w')" by fastforce
    have check: "moderation_check http_post req w =
        (if is_blank (collect_text req) then (Inr (), w)
         else case reply of
             Replied code shown (Inr results) \<Rightarrow>
               if is_success code \<and> flagged_categories results \<noteq> []
               then (Inl (Flagged (flagged_categories results)), w')
               else if is_success code then (Inr (), w')
               else (Inl (RequestFailed (''moderation endpoint returned '' @ shown)), w')
           | Replied code shown (Inl e) \<Rightarrow>
               (Inl (RequestFailed (if is_success code then e
                                    else ''moderation endpoint returned '' @ shown)), w')
           | SendFailed e \<Rightarrow> (Inl (RequestFailed e), w'))"
      by (simp add: moderation_check_def call Let_def split: http_reply.split sum.split)
    have moderated: "apply_moderation (Some http_post) req mt w =
        (case moderation_check http_post req w of
           (Inl (Flagged cs), v) \<Rightarrow>
             (Inl (ModerationFlagged cs), fold record_moderation_blocked cs mt, v)
         | (_, v) \<Rightarrow> (Inr (), mt, v))"
      by (simp add: apply_moderation_def
          split: prod.split sum.split moderation_error.split)
    show ?thesis
    proof (cases reply)
      case (SendFailed m)
      then show ?thesis by (simp add: moderated check call Some)
    next
      case (Replied code shown body)
      show ?thesis
        by (cases body) (auto simp: moderated check call Some Replied counter_moderation_fold sorted)
    qed
  qed
qed

text \<open>A flag without a category is not a block: the request the endpoint flagged is let through.\<close>

theorem flag_without_category_passes:
  "apply_moderation
     (Some (\<lambda>text w. (Replied 200 ''200 OK'' (Inr [\<lparr>mr_flagged = True, mr_categories = []\<rparr>]), w)))
     (bare_request ''a/b'' [user_message ''x'']) mt w = (Inr (), mt, w)"
  by (simp add: apply_moderation_def moderation_check_def flagged_categories_def is_success_def)

definition sample_moderation :: "string \<Rightarrow> unit \<Rightarrow> moderation_result list http_reply \<times> unit" where
  "sample_moderation text w =
     (Replied 200 ''200 OK''
        (Inr [\<lparr>mr_flagged = False, mr_categories = [(''hate'', True)]\<rparr>,
              \<lparr>mr_flagged = True, mr_categories = [(''violence'', True), (''hate'', False)]\<rparr>]), w)"

theorem moderation_blocks_iff_witness:
  "fst (apply_moderation (Some sample_moderation) (bare_request ''a/b'' [user_message ''x''])
          new_metrics ()) = Inl (ModerationFlagged [''violence''])"
proof -
  have "\<not> is_blank (collect_text (bare_request ''a/b'' [user_message ''x'']))"
    by (rule not_blank)
      (simp_all add: collect_text_def content_segments_def ws_prefix_def ascii_ws_def)
  then show ?thesis
    using moderation_blocks_iff [where moderation = "Some sample_moderation"
        and req = "bare_request ''a/b'' [user_message ''x'']" and mt = new_metrics and w = "()"
        and e = "ModerationFlagged [''violence'']"]
    by (simp add: sample_moderation_def flagged_categories_def is_success_def split: prod.splits)
qed

end
