(* ===== verification/Rate_Limit.thy ===== *)
theory Rate_Limit
  imports Prelude
begin

text \<open>
  The token-bucket rate limiter (\<open>crates/core/src/rate_limit.rs\<close>), used for inbound requests by the
  server and for the router's outbound self-throttle. A bucket holds up to \<open>capacity\<close> tokens and
  refills at \<open>capacity\<close> tokens per 60 seconds, computed from the clock on each access; a limiter maps
  identities to buckets.
\<close>

record token_bucket =
  tb_capacity :: f64
  tb_tokens :: f64
  tb_last_refill :: instant

record rate_limit_status =
  rl_limit :: u32
  rl_remaining :: u32
  rl_reset_secs :: f64
  rl_retry_after_secs :: f64

type_synonym rate_limiter = "string \<rightharpoonup> token_bucket"

definition elapsed_secs :: "instant \<Rightarrow> instant \<Rightarrow> f64" where
  "elapsed_secs now since = real (now - since) / 10 ^ 9"

definition new_bucket :: "f64 \<Rightarrow> instant \<Rightarrow> token_bucket" where
  "new_bucket capacity now = \<lparr>tb_capacity = capacity, tb_tokens = capacity, tb_last_refill = now\<rparr>"

definition refill :: "instant \<Rightarrow> token_bucket \<Rightarrow> token_bucket" where
  "refill now b =
     b\<lparr>tb_last_refill := now,
       tb_tokens := min (tb_tokens b + elapsed_secs now (tb_last_refill b) * (tb_capacity b / 60))
                        (tb_capacity b)\<rparr>"

definition reset_secs :: "token_bucket \<Rightarrow> f64" where
  "reset_secs b =
     (if tb_capacity b \<le> 0 then 0 else (tb_capacity b - tb_tokens b) / (tb_capacity b / 60))"

text \<open>\<open>Err\<close> is the left injection, \<open>Ok\<close> the right one.\<close>

definition try_acquire ::
  "instant \<Rightarrow> token_bucket \<Rightarrow> (rate_limit_status + rate_limit_status) \<times> token_bucket" where
  "try_acquire now b0 =
     (let b = refill now b0;
          limit = f64_to_u32 (max (tb_capacity b) 0)
      in if 1 \<le> tb_tokens b then
           (let b' = b\<lparr>tb_tokens := tb_tokens b - 1\<rparr>
            in (Inr \<lparr>rl_limit = limit, rl_remaining = f64_to_u32 (tb_tokens b'),
                     rl_reset_secs = reset_secs b', rl_retry_after_secs = 0\<rparr>, b'))
         else if tb_capacity b \<le> 0 then
           (Inl \<lparr>rl_limit = limit, rl_remaining = 0, rl_reset_secs = 60, rl_retry_after_secs = 60\<rparr>, b)
         else
           (Inl \<lparr>rl_limit = limit, rl_remaining = 0, rl_reset_secs = reset_secs b,
                 rl_retry_after_secs = (1 - tb_tokens b) / (tb_capacity b / 60)\<rparr>, b))"

definition check ::
  "string \<Rightarrow> u32 \<Rightarrow> instant \<Rightarrow> rate_limiter
     \<Rightarrow> (rate_limit_status + rate_limit_status) \<times> rate_limiter" where
  "check key requests_per_minute now buckets =
     (let bucket = (case buckets key of
                      Some b \<Rightarrow> b
                    | None \<Rightarrow> new_bucket (real (unat requests_per_minute)) now);
          (res, bucket') = try_acquire now bucket
      in (res, buckets(key \<mapsto> bucket')))"

section \<open>The bucket invariant\<close>

definition bucket_inv :: "token_bucket \<Rightarrow> bool" where
  "bucket_inv b \<longleftrightarrow> 0 \<le> tb_tokens b \<and> tb_tokens b \<le> tb_capacity b"

definition limiter_inv :: "rate_limiter \<Rightarrow> bool" where
  "limiter_inv m \<longleftrightarrow> (\<forall>k b. m k = Some b \<longrightarrow> bucket_inv b)"

lemma elapsed_nonneg [simp]: "0 \<le> elapsed_secs now since"
  by (simp add: elapsed_secs_def)

lemma refill_simps [simp]:
  "tb_capacity (refill now b) = tb_capacity b"
  "tb_last_refill (refill now b) = now"
  by (simp_all add: refill_def)

lemma refill_tokens:
  "tb_tokens (refill now b) =
     min (tb_tokens b + elapsed_secs now (tb_last_refill b) * (tb_capacity b / 60)) (tb_capacity b)"
  by (simp add: refill_def)

lemma refill_inv: "bucket_inv b \<Longrightarrow> bucket_inv (refill now b)"
  by (auto simp: bucket_inv_def refill_tokens)

lemma new_bucket_inv [simp]: "0 \<le> c \<Longrightarrow> bucket_inv (new_bucket c now)"
  by (simp add: bucket_inv_def new_bucket_def)

text \<open>\<open>try_acquire\<close> is a refill and, exactly when a token is there, its removal.\<close>

lemma try_acquire_bucket:
  "snd (try_acquire now b) =
     (let r = refill now b in if 1 \<le> tb_tokens r then r\<lparr>tb_tokens := tb_tokens r - 1\<rparr> else r)"
  by (simp add: try_acquire_def Let_def)

lemma try_acquire_ok: "isl (fst (try_acquire now b)) \<longleftrightarrow> tb_tokens (refill now b) < 1"
  by (auto simp: try_acquire_def Let_def)

lemma try_acquire_simps [simp]:
  "tb_capacity (snd (try_acquire now b)) = tb_capacity b"
  "tb_last_refill (snd (try_acquire now b)) = now"
  by (simp_all add: try_acquire_bucket Let_def)

lemma try_acquire_inv: "bucket_inv b \<Longrightarrow> bucket_inv (snd (try_acquire now b))"
  using refill_inv [of b now] by (auto simp: try_acquire_bucket Let_def bucket_inv_def)

text \<open>What one access spends and gains: the potential behind the window bound.\<close>

lemma try_acquire_potential:
  assumes "bucket_inv b"
  shows "(if isl (fst (try_acquire now b)) then 0 else 1) + tb_tokens (snd (try_acquire now b))
         \<le> tb_tokens b + elapsed_secs now (tb_last_refill b) * (tb_capacity b / 60)"
  by (auto simp: try_acquire_ok try_acquire_bucket Let_def refill_tokens)

lemma check_inv: "limiter_inv m \<Longrightarrow> limiter_inv (snd (check key rpm now m))"
  using try_acquire_inv [of "new_bucket (real (unat rpm)) now" now]
  by (auto simp: limiter_inv_def check_def split: prod.splits option.splits)
    (metis snd_conv try_acquire_inv)

lemma check_other_key [frame_simps]: "k \<noteq> key \<Longrightarrow> snd (check key rpm now m) k = m k"
  by (simp add: check_def Let_def split: prod.splits)

lemma check_existing:
  "m key = Some b \<Longrightarrow>
     check key rpm now m = (fst (try_acquire now b), m(key \<mapsto> snd (try_acquire now b)))"
  by (simp add: check_def split: prod.splits)

lemma check_new:
  "m key = None \<Longrightarrow>
     check key rpm now m =
       (let b = new_bucket (real (unat rpm)) now
        in (fst (try_acquire now b), m(key \<mapsto> snd (try_acquire now b))))"
  by (simp add: check_def split: prod.splits)

section \<open>Sequences of checks\<close>

text \<open>The checks of one identity at given times, counting the granted ones.\<close>

fun granted :: "string \<Rightarrow> u32 \<Rightarrow> instant list \<Rightarrow> rate_limiter \<Rightarrow> nat" where
  "granted key rpm [] m = 0"
| "granted key rpm (t # ts) m =
     (case check key rpm t m of (res, m') \<Rightarrow>
        (if isl res then 0 else 1) + granted key rpm ts m')"

lemma granted_potential:
  assumes "m key = Some b" and "bucket_inv b" and "sorted (tb_last_refill b # ts)"
  shows "real (granted key rpm ts m)
         \<le> tb_tokens b
            + elapsed_secs (last (tb_last_refill b # ts)) (tb_last_refill b) * (tb_capacity b / 60)"
  using assms
proof (induction ts arbitrary: m b)
  case Nil then show ?case by (simp add: bucket_inv_def elapsed_secs_def)
next
  case (Cons t ts)
  define b' where "b' = snd (try_acquire t b)"
  define g where "g = (if isl (fst (try_acquire t b)) then 0 else 1 :: nat)"
  define l where "l = last (t # ts)"
  have last: "tb_last_refill b' = t" and cap: "tb_capacity b' = tb_capacity b"
    by (simp_all add: b'_def)
  have inv': "bucket_inv b'" using Cons.prems(2) by (simp add: b'_def try_acquire_inv)
  have order: "tb_last_refill b \<le> t" "t \<le> l"
    using Cons.prems(3) by (auto simp: l_def intro: last_in_set)
  have step: "granted key rpm (t # ts) m = g + granted key rpm ts (m(key \<mapsto> b'))"
    using Cons.prems(1) by (simp add: check_existing g_def b'_def)
  have "sorted (tb_last_refill b' # ts)" using Cons.prems(3) last by simp
  moreover have "(m(key \<mapsto> b')) key = Some b'" by simp
  ultimately have "real (granted key rpm ts (m(key \<mapsto> b')))
        \<le> tb_tokens b' + elapsed_secs l t * (tb_capacity b / 60)"
    using Cons.IH [OF _ inv'] unfolding last cap l_def by blast
  moreover have "real g + tb_tokens b'
        \<le> tb_tokens b + elapsed_secs t (tb_last_refill b) * (tb_capacity b / 60)"
    using try_acquire_potential [OF Cons.prems(2), of t] by (simp add: g_def b'_def split: if_splits)
  moreover have "elapsed_secs l (tb_last_refill b)
      = elapsed_secs l t + elapsed_secs t (tb_last_refill b)"
    using order by (simp add: elapsed_secs_def field_simps of_nat_diff)
  ultimately show ?case
    using step by (simp add: l_def algebra_simps del: granted.simps)
qed

text \<open>
  \<^bold>\<open>C29.\<close> Rate bound: whatever the times of its requests, an identity is granted at most one full
  bucket plus the tokens that refill between the first and the last of them, that is
  \<open>rpm * (1 + T / 60)\<close> grants over \<open>T\<close> seconds, from the first sight of the identity on.
\<close>

theorem rate_bound:
  assumes "m key = None" and "sorted (t # ts)"
  shows "real (granted key rpm (t # ts) m)
         \<le> real (unat rpm) * (1 + elapsed_secs (last (t # ts)) t / 60)"
proof -
  define b where "b = new_bucket (real (unat rpm)) t"
  have b: "bucket_inv b" "tb_last_refill b = t" "tb_tokens b = real (unat rpm)"
      "tb_capacity b = real (unat rpm)"
    by (simp_all add: b_def new_bucket_def bucket_inv_def)
  have "granted key rpm (t # ts) m = granted key rpm (t # ts) (m(key \<mapsto> b))"
    using assms(1) by (simp add: check_new check_existing b_def Let_def)
  then show ?thesis
    using granted_potential [of "m(key \<mapsto> b)" key b "t # ts" rpm] b assms(2)
    by (simp add: algebra_simps del: granted.simps)
qed

theorem rate_bound_witness:
  "real (granted ''ip'' 2 [0, 0, 0, 30000000000, 30000000000] Map.empty) \<le> 3"
  using rate_bound [of Map.empty "''ip''" 0 "[0, 0, 30000000000, 30000000000]" 2]
  by (simp add: elapsed_secs_def)

text \<open>
  \<^bold>\<open>C30.\<close> A refusal's \<open>Retry-After\<close> is honest: with a limit of at least one request per minute, a
  request of the same identity made \<open>retry_after_secs\<close> or more after the refusal is granted, and
  no earlier one is.
\<close>

theorem retry_after_honest:
  assumes "m key = Some b" and "bucket_inv b" and "1 \<le> tb_capacity b"
    and "check key rpm now m = (Inl st, m')" and "now \<le> later"
  shows "isl (fst (check key rpm later m')) \<longleftrightarrow> elapsed_secs later now < rl_retry_after_secs st"
proof -
  define r where "r = refill now b"
  have few: "tb_tokens r < 1" and m': "m' = m(key \<mapsto> r)"
    using assms(1,4) try_acquire_ok [of now b]
    by (auto simp: check_existing try_acquire_bucket r_def Let_def)
  have st: "rl_retry_after_secs st = (1 - tb_tokens r) / (tb_capacity b / 60)"
    using assms(1,3,4) few by (auto simp: check_existing try_acquire_def r_def Let_def)
  have "isl (fst (check key rpm later m'))
      \<longleftrightarrow> tb_tokens r + elapsed_secs later now * (tb_capacity b / 60) < 1"
    using assms(3) m' by (auto simp: check_existing try_acquire_ok refill_tokens r_def)
  also have "\<dots> \<longleftrightarrow> elapsed_secs later now < (1 - tb_tokens r) / (tb_capacity b / 60)"
    using assms(3) by (simp add: field_simps)
  finally show ?thesis using st by simp
qed

theorem retry_after_honest_witness:
  "isl (fst (check ''c'' 1 (5 * 10 ^ 9)
      [''c'' \<mapsto> \<lparr>tb_capacity = 1, tb_tokens = 0, tb_last_refill = 0\<rparr>]))"
proof -
  let ?b = "\<lparr>tb_capacity = 1, tb_tokens = 0, tb_last_refill = 0\<rparr>"
  let ?m = "[''c'' \<mapsto> ?b]"
  have c: "check ''c'' 1 0 ?m = (Inl \<lparr>rl_limit = f64_to_u32 1, rl_remaining = 0, rl_reset_secs = 60,
      rl_retry_after_secs = 60\<rparr>, ?m)"
    by (simp add: check_def try_acquire_def refill_def elapsed_secs_def reset_secs_def)
  show ?thesis
    using retry_after_honest [OF _ _ _ c, where b = ?b and later = "5 * 10 ^ 9"]
    by (simp add: bucket_inv_def elapsed_secs_def)
qed

text \<open>
  The limit an identity is held to is the one of its first check: a later check with another
  \<open>requests_per_minute\<close> changes nothing.
\<close>

lemma check_ignores_new_rpm:
  "m key = Some b \<Longrightarrow> check key rpm now m = check key rpm' now m"
  by (simp add: check_existing)

end
