(* ===== verification/Free_Tiers.thy ===== *)
theory Free_Tiers
  imports Client_Budget
begin

text \<open>
  Operator-declared free-token budgets (\<open>crates/router/src/free_tiers.rs\<close>): token counters per
  "provider/model" that roll over with their period, saturate instead of wrapping, and are reported
  against the declared allowance.
\<close>

record free_tier_setting =
  fs_monthly_free_tokens :: u64
  fs_period :: budget_period

record token_state =
  ts_period_key :: i64
  ts_tokens_used :: u64

definition default_token_state :: token_state where
  "default_token_state = \<lparr>ts_period_key = 0, ts_tokens_used = 0\<rparr>"

record free_tier_status =
  st_monthly_free_tokens :: u64
  st_tokens_used :: u64
  st_tokens_remaining :: u64
  st_period :: budget_period

definition settings_from_config :: "free_tier_entry list \<Rightarrow> (string \<rightharpoonup> free_tier_setting)" where
  "settings_from_config entries =
     collect_map (map (\<lambda>e. (ft_model e,
       \<lparr>fs_monthly_free_tokens = ft_monthly_free_tokens e, fs_period = ft_period e\<rparr>)) entries)"

definition roll_period_if_needed_tokens :: "token_state \<Rightarrow> i64 \<Rightarrow> token_state" where
  "roll_period_if_needed_tokens state current_key =
     (if ts_period_key state \<noteq> current_key
      then state\<lparr>ts_period_key := current_key, ts_tokens_used := 0\<rparr>
      else state)"

definition add_tokens :: "token_state \<Rightarrow> u64 \<Rightarrow> token_state" where
  "add_tokens state tokens = state\<lparr>ts_tokens_used := sat_add_u64 (ts_tokens_used state) tokens\<rparr>"

definition record_tokens ::
  "(string \<rightharpoonup> free_tier_setting) \<Rightarrow> (string \<rightharpoonup> token_state) \<Rightarrow> string \<Rightarrow> u64 \<Rightarrow> i64
     \<Rightarrow> (string \<rightharpoonup> token_state)" where
  "record_tokens settings used k tokens now_unix =
     (case settings k of
        None \<Rightarrow> used
      | Some setting \<Rightarrow>
          (let current_key = period_key_at (fs_period setting) now_unix;
               state = unwrap_or default_token_state (used k)
           in used(k \<mapsto> add_tokens (roll_period_if_needed_tokens state current_key) tokens)))"

text \<open>The rolled state of one configured entry, which the snapshot reports and stores back.\<close>

definition rolled_entry :: "free_tier_setting \<Rightarrow> token_state option \<Rightarrow> i64 \<Rightarrow> token_state" where
  "rolled_entry setting st now_unix =
     roll_period_if_needed_tokens (unwrap_or default_token_state st)
       (period_key_at (fs_period setting) now_unix)"

definition status_snapshot ::
  "(string \<rightharpoonup> free_tier_setting) \<Rightarrow> (string \<rightharpoonup> token_state) \<Rightarrow> i64
     \<Rightarrow> (string \<rightharpoonup> free_tier_status) \<times> (string \<rightharpoonup> token_state)" where
  "status_snapshot settings used now_unix =
     ((\<lambda>k. map_option (\<lambda>setting.
         (let state = rolled_entry setting (used k) now_unix
          in \<lparr>st_monthly_free_tokens = fs_monthly_free_tokens setting,
              st_tokens_used = ts_tokens_used state,
              st_tokens_remaining =
                sat_sub_u64 (fs_monthly_free_tokens setting) (ts_tokens_used state),
              st_period = fs_period setting\<rparr>)) (settings k)),
      (\<lambda>k. case settings k of
             None \<Rightarrow> used k
           | Some setting \<Rightarrow> Some (rolled_entry setting (used k) now_unix)))"

interpretation tokens: period_ledger ts_period_key ts_tokens_used 0 sat_add_u64
  roll_period_if_needed_tokens add_tokens
  by unfold_locales (simp_all add: roll_period_if_needed_tokens_def add_tokens_def)

lemma unat_foldl_sat_add:
  "unat (foldl sat_add_u64 a xs) = min (unat a + sum_list (map unat xs)) (2 ^ 64 - 1)"
proof (induction xs arbitrary: a)
  case Nil
  have "unat a < 2 ^ 64" using unsigned_less [of a, where 'a = nat] by simp
  then show ?case by simp
next
  case (Cons x xs)
  then show ?case by (simp add: unat_sat_add_u64 min_def)
qed

section \<open>Reported usage\<close>

text \<open>A sequence of recordings for one model, each with the Unix time at which it happens.\<close>

fun record_run ::
  "(string \<rightharpoonup> free_tier_setting) \<Rightarrow> string \<Rightarrow> (i64 \<times> u64) list \<Rightarrow> (string \<rightharpoonup> token_state)
     \<Rightarrow> (string \<rightharpoonup> token_state)" where
  "record_run settings k [] used = used"
| "record_run settings k ((now, tokens) # evs) used =
     record_run settings k evs (record_tokens settings used k tokens now)"

lemma record_tokens_other [frame_simps]:
  "k' \<noteq> k \<Longrightarrow> record_tokens settings used k tokens now k' = used k'"
  by (simp add: record_tokens_def Let_def split: option.splits)

lemma record_run_ledger:
  "settings k = Some s \<Longrightarrow>
     unwrap_or default_token_state (record_run settings k evs used k)
     = record_all roll_period_if_needed_tokens add_tokens (unwrap_or default_token_state (used k))
         (map (\<lambda>(now, x). (period_key_at (fs_period s) now, x)) evs)"
  by (induction evs arbitrary: used) (auto simp: record_tokens_def Let_def)

text \<open>
  A free-tier report is exact: when the tokens of one model are recorded at times of one
  period and nothing was recorded for it before, the status reported within that period has
  \<open>tokens_used\<close> equal to the sum of the recorded tokens (capped at \<open>2^64 - 1\<close>, never wrapped) and
  \<open>tokens_remaining\<close> equal to what is left of the allowance (never negative).
\<close>

theorem free_tier_report_exact:
  assumes "settings k = Some s" and "used k = None"
    and "\<forall>(t, x)\<in>set evs. period_key_at (fs_period s) t = period_key_at (fs_period s) now"
    and "fst (status_snapshot settings (record_run settings k evs used) now) k = Some st"
  shows "unat (st_tokens_used st) = min (sum_list (map (unat \<circ> snd) evs)) (2 ^ 64 - 1)
    \<and> unat (st_tokens_remaining st)
      = unat (fs_monthly_free_tokens s) - min (sum_list (map (unat \<circ> snd) evs)) (2 ^ 64 - 1)"
proof -
  let ?p = "period_key_at (fs_period s) now"
  let ?evs = "map (\<lambda>(now, x). (period_key_at (fs_period s) now, x)) evs"
  let ?r = "record_all roll_period_if_needed_tokens add_tokens default_token_state ?evs"
  have keys: "\<forall>e\<in>set ?evs. fst e = ?p" using assms(3) by auto
  have "ts_tokens_used (roll_period_if_needed_tokens ?r ?p) = foldl sat_add_u64 0 (map snd ?evs)"
  proof (cases "?evs = [] \<or> ts_period_key default_token_state = ?p")
    case True
    then show ?thesis
      using tokens.record_same_period [OF keys]
      by (auto simp: roll_period_if_needed_tokens_def default_token_state_def)
  next
    case False
    then obtain e0 es where e: "?evs = e0 # es" by (cases ?evs) auto
    have "ts_period_key ?r = ?p"
      using keys False e tokens.record_same_period [of es ?p]
      by (cases e0) (simp add: tokens.key_add tokens.key_roll)
    then show ?thesis
      using tokens.record_after_rollover [of e0 es ?p default_token_state] keys False e
      by (simp add: tokens.roll_same)
  qed
  moreover have "snd \<circ> (\<lambda>(now :: i64, x :: u64). (period_key_at (fs_period s) now, x)) = snd"
    by auto
  ultimately have "ts_tokens_used (rolled_entry s (record_run settings k evs used k) now)
      = foldl sat_add_u64 0 (map snd evs)"
    using record_run_ledger [of settings k s evs used] assms(1,2) by (simp add: rolled_entry_def)
  then show ?thesis
    using assms(1,4) unat_foldl_sat_add [of 0 "map snd evs"]
    by (auto simp: status_snapshot_def unat_sat_sub_u64 Let_def comp_def)
qed

theorem free_tier_report_exact_witness:
  "unat (st_tokens_remaining (the (fst (status_snapshot [''m'' \<mapsto> \<lparr>fs_monthly_free_tokens = 100,
     fs_period = Daily\<rparr>] (record_run [''m'' \<mapsto> \<lparr>fs_monthly_free_tokens = 100, fs_period = Daily\<rparr>]
       ''m'' [(90000, 30), (100000, 20)] Map.empty) 170000) ''m''))) = 50"
proof -
  let ?s = "\<lparr>fs_monthly_free_tokens = 100, fs_period = Daily\<rparr>"
  let ?m = "[''m'' \<mapsto> ?s]" and ?evs = "[(90000, 30), (100000, 20)]"
  obtain st where st: "fst (status_snapshot ?m (record_run ?m ''m'' ?evs Map.empty) 170000) ''m'' = Some st"
    by (simp add: status_snapshot_def)
  have "unat (st_tokens_remaining st) = 50"
    using free_tier_report_exact [of ?m "''m''" ?s Map.empty ?evs 170000 st] st by simp
  with st show ?thesis by simp
qed

text \<open>Reporting twice at one time reports the same.\<close>

lemma status_snapshot_idem:
  "status_snapshot settings (snd (status_snapshot settings used now)) now
   = status_snapshot settings used now"
  by (auto simp: status_snapshot_def rolled_entry_def fun_eq_iff tokens.roll_idem Let_def
      split: option.splits)

lemma status_snapshot_dom: "dom (fst (status_snapshot settings used now)) = dom settings"
  by (auto simp: status_snapshot_def)

end
