(* ===== verification/Router_State.thy ===== *)
theory Router_State
  imports Auto_Routing Webhook Request_Policy Rate_Limit Free_Tiers
begin

text \<open>
  The state of a \<open>Router\<close> (\<open>crates/router/src/lib.rs\<close>): what configuration fixes at startup, and
  what its operations change (running averages, usage, caches, limiter, client budgets and spend,
  metrics), with its construction from a configuration. Locks are taken and released within one
  operation and guard exactly the state an operation updates, so operations are functions from
  state to state. The process environment is a map from variable names to values, and the
  opening of a database a function of its target.
\<close>

section \<open>The record\<close>

record provider_handle =
  ph_kind :: provider_kind
  ph_name :: string
  ph_base_url :: string
  ph_api_key :: string
  ph_timeout :: nat

record fusion_config =
  fc_judge :: string
  fc_timeout :: nat

record router =
  ro_providers :: "string \<rightharpoonup> provider_handle"
  ro_provider_kinds :: "string \<rightharpoonup> provider_kind"
  ro_routes :: "string \<rightharpoonup> string list"
  ro_fusion_routes :: "string \<rightharpoonup> fusion_config"
  ro_pricing :: "string \<rightharpoonup> price_rates"
  ro_zdr_providers :: "string set"
  ro_no_training_providers :: "string set"
  ro_latency :: "string \<rightharpoonup> f64"
  ro_throughput :: "string \<rightharpoonup> f64"
  ro_uptime :: "string \<rightharpoonup> f64"
  ro_usage :: "string \<rightharpoonup> usage_stats"
  ro_persistence :: "persistence option"
  ro_generations :: generation_cache
  ro_reasoning_replay :: reasoning_replay_cache
  ro_metrics :: metrics
  ro_provider_rpm :: "string \<rightharpoonup> u32"
  ro_outbound_limiter :: rate_limiter
  ro_client_budgets :: "string \<rightharpoonup> client_budget_setting"
  ro_client_spend :: "string \<rightharpoonup> spend_state"
  ro_webhook :: "webhook_notifier option"
  ro_notified :: "webhook_event list"
  ro_guardrails :: "guardrail list"
  ro_presets :: "string \<rightharpoonup> preset_config"
  ro_auto_routing :: "auto_routing_config option"
  ro_moderation :: "moderation_client option"
  ro_web_search :: "web_search_client option"
  ro_cache :: "response_cache option"
  ro_semantic_cache :: "semantic_cache option"
  ro_embedding_model :: "string option"
  ro_free_tier_settings :: "string \<rightharpoonup> free_tier_setting"
  ro_free_tier_usage :: "string \<rightharpoonup> token_state"

section \<open>Construction\<close>

text \<open>\<open>std::env::var\<close>, with an empty value treated as unset.\<close>

definition env_nonempty :: "(string \<rightharpoonup> string) \<Rightarrow> string \<Rightarrow> string option" where
  "env_nonempty env var =
     (case env var of None \<Rightarrow> None | Some v \<Rightarrow> if v = [] then None else Some v)"

datatype persistence_target =
    SqliteTarget string
  | PostgresTarget string postgres_tls_mode

definition resolve_persistence_target ::
  "(string \<rightharpoonup> string) \<Rightarrow> persistence_config \<Rightarrow> persistence_target option" where
  "resolve_persistence_target env config =
     (case pst_backend config of
        Sqlite \<Rightarrow> map_option SqliteTarget (pst_sqlite_path config)
      | Postgres \<Rightarrow>
          (case pst_postgres_url_env config of
             None \<Rightarrow> None
           | Some var \<Rightarrow>
               map_option (\<lambda>url. PostgresTarget url (pst_postgres_tls config)) (env_nonempty env var)))"

definition unresolved_route_providers :: "config \<Rightarrow> (string \<times> string \<times> string) list" where
  "unresolved_route_providers config =
     concat (map (\<lambda>route.
       List.map_filter (\<lambda>entry.
         case split_once CHR ''/'' entry of
           None \<Rightarrow> None
         | Some (provider_name, _) \<Rightarrow>
             if cf_providers config provider_name = None
             then Some (ra_alias route, provider_name, entry) else None)
       (ra_chain route)) (cf_routes config))"

definition provider_of :: "(string \<rightharpoonup> string) \<Rightarrow> string \<Rightarrow> provider_config \<Rightarrow> provider_handle option" where
  "provider_of env name cfg =
     map_option (\<lambda>key.
       \<lparr>ph_kind = pc_kind cfg, ph_name = name, ph_base_url = pc_base_url cfg, ph_api_key = key,
        ph_timeout = unat (pc_timeout_secs cfg) * 1000000000\<rparr>)
       (env_nonempty env (pc_api_key_env cfg))"

definition configured_map :: "(string \<rightharpoonup> string) \<Rightarrow> config \<Rightarrow> (string \<rightharpoonup> provider_handle)" where
  "configured_map env config name =
     (case cf_providers config name of None \<Rightarrow> None | Some cfg \<Rightarrow> provider_of env name cfg)"

definition fusion_entry :: "route_alias \<Rightarrow> (string \<times> fusion_config) option" where
  "fusion_entry r =
     (if ra_strategy r = Fusion
      then map_option (\<lambda>judge.
             (ra_alias r, \<lparr>fc_judge = judge,
                           fc_timeout = unat (ra_fusion_timeout_secs r) * 1000000000\<rparr>)) (ra_judge r)
      else None)"

definition embedding_resolvable :: "(string \<rightharpoonup> provider_handle) \<Rightarrow> cache_config \<Rightarrow> bool" where
  "embedding_resolvable providers cfg =
     (case Option.bind (ca_embedding_model cfg) (split_once CHR ''/'') of
        None \<Rightarrow> False
      | Some (provider, _) \<Rightarrow> providers provider \<noteq> None)"

definition caches_of ::
  "(string \<rightharpoonup> provider_handle) \<Rightarrow> cache_config option
    \<Rightarrow> response_cache option \<times> semantic_cache option \<times> string option" where
  "caches_of providers cache =
     (case cache of
        None \<Rightarrow> (None, None, None)
      | Some cfg \<Rightarrow>
          if ca_mode cfg = Exact then (Some (new_response_cache cfg), None, None)
          else if embedding_resolvable providers cfg
          then (None, Some (new_semantic_cache cfg), ca_embedding_model cfg)
          else (Some (new_response_cache cfg), None, None))"

definition webhook_of :: "(string \<rightharpoonup> string) \<Rightarrow> webhook_config \<Rightarrow> webhook_notifier" where
  "webhook_of env cfg =
     notifier_from_config cfg (Option.bind (wh_auth_header_env cfg) (env_nonempty env))
       (Option.bind (wh_signing_secret_env cfg) (env_nonempty env))"

definition from_config ::
  "(string \<rightharpoonup> string) \<Rightarrow> regex_engine \<Rightarrow> (persistence_target \<Rightarrow> persistence option) \<Rightarrow> config
    \<Rightarrow> router" where
  "from_config env regex open_db config =
     (let providers = configured_map env config;
          persistence = Option.bind
            (Option.bind (cf_persistence config) (resolve_persistence_target env)) open_db;
          (cache, semantic_cache, embedding_model) = caches_of providers (cf_cache config)
      in \<lparr>ro_providers = providers,
          ro_provider_kinds = map_option ph_kind \<circ> providers,
          ro_routes = collect_map (map (\<lambda>r. (ra_alias r, ra_chain r)) (cf_routes config)),
          ro_fusion_routes = collect_map (List.map_filter fusion_entry (cf_routes config)),
          ro_pricing = collect_map (map (\<lambda>p. (pe_model p, price_rates_of p)) (cf_pricing config)),
          ro_zdr_providers =
            {name. case cf_providers config name of None \<Rightarrow> False | Some cfg \<Rightarrow> pc_zdr cfg},
          ro_no_training_providers =
            {name. case cf_providers config name of None \<Rightarrow> False | Some cfg \<Rightarrow> pc_no_training cfg},
          ro_latency = Map.empty,
          ro_throughput = Map.empty,
          ro_uptime = Map.empty,
          ro_usage = (case persistence of
                        None \<Rightarrow> Map.empty
                      | Some p \<Rightarrow> unwrap_or Map.empty (load_all p)),
          ro_persistence = persistence,
          ro_generations = empty_generation_cache,
          ro_reasoning_replay = empty_reasoning_cache,
          ro_metrics =
            new_metrics\<lparr>mt_provider_configured :=
              (\<lambda>name. case cf_providers config name of
                 None \<Rightarrow> None
               | Some cfg \<Rightarrow> Some (if provider_of env name cfg = None then 0 else 1))\<rparr>,
          ro_provider_rpm = (\<lambda>name. Option.bind (cf_providers config name) pc_requests_per_minute),
          ro_outbound_limiter = Map.empty,
          ro_client_budgets = settings_from_clients (cf_clients config),
          ro_client_spend = Map.empty,
          ro_webhook = map_option (webhook_of env) (cf_webhook config),
          ro_notified = [],
          ro_guardrails = List.map_filter (compile_guardrail regex) (cf_guardrails config),
          ro_presets = collect_map (map (\<lambda>p. (pr_name p, p)) (cf_presets config)),
          ro_auto_routing = cf_auto_routing config,
          ro_moderation = Option.bind (cf_moderation config)
            (\<lambda>cfg. map_option (new_moderation_client cfg) (env_nonempty env (mo_api_key_env cfg))),
          ro_web_search = Option.bind (cf_web_search config)
            (\<lambda>cfg. map_option (new_web_search_client cfg) (env_nonempty env (ws_api_key_env cfg))),
          ro_cache = cache,
          ro_semantic_cache = semantic_cache,
          ro_embedding_model = embedding_model,
          ro_free_tier_settings = settings_from_config (cf_free_tiers config),
          ro_free_tier_usage = Map.empty\<rparr>)"

section \<open>Running averages\<close>

definition EWMA_ALPHA :: f64 where "EWMA_ALPHA = 0.3"

definition ewma_record :: "string \<Rightarrow> f64 \<Rightarrow> (string \<rightharpoonup> f64) \<Rightarrow> (string \<rightharpoonup> f64)" where
  "ewma_record key sample m =
     m(key \<mapsto> (case m key of
               Some avg \<Rightarrow> EWMA_ALPHA * sample + (1 - EWMA_ALPHA) * avg
             | None \<Rightarrow> sample))"

definition ewma_lookup :: "(string \<rightharpoonup> f64) \<Rightarrow> string \<Rightarrow> string \<Rightarrow> f64 \<Rightarrow> f64" where
  "ewma_lookup m provider model missing = unwrap_or missing (m (model_key provider model))"

lemma ewma_record_range:
  assumes "\<forall>k x. m k = Some x \<longrightarrow> lo \<le> x \<and> x \<le> hi" and "lo \<le> s" "s \<le> hi"
  shows "\<forall>k x. ewma_record key s m k = Some x \<longrightarrow> lo \<le> x \<and> x \<le> hi"
proof -
  have "lo \<le> EWMA_ALPHA * s + (1 - EWMA_ALPHA) * a \<and> EWMA_ALPHA * s + (1 - EWMA_ALPHA) * a \<le> hi"
    if "lo \<le> a" "a \<le> hi" for a
    using that assms(2,3) unfolding EWMA_ALPHA_def by (simp add: field_simps)
  then show ?thesis using assms by (auto simp: ewma_record_def split: option.splits if_splits)
qed

section \<open>The invariant of a router\<close>

text \<open>
  What every operation keeps: the caches' and the limiter's invariants, success rates between 0 and
  1, one caching mode at most (semantic exactly with an embedding model), provider kinds known
  exactly for the providers that were built, and free-tier usage tracked only where configured.
\<close>

definition unit_range :: "(string \<rightharpoonup> f64) \<Rightarrow> bool" where
  "unit_range m \<longleftrightarrow> (\<forall>k x. m k = Some x \<longrightarrow> 0 \<le> x \<and> x \<le> 1)"

definition router_inv :: "router \<Rightarrow> bool" where
  "router_inv r \<longleftrightarrow>
     generation_inv (ro_generations r) \<and> reasoning_inv (ro_reasoning_replay r)
     \<and> (\<forall>c. ro_cache r = Some c \<longrightarrow> response_inv c)
     \<and> (\<forall>c. ro_semantic_cache r = Some c \<longrightarrow> semantic_inv c)
     \<and> (ro_cache r = None \<or> ro_semantic_cache r = None)
     \<and> (ro_semantic_cache r = None \<longleftrightarrow> ro_embedding_model r = None)
     \<and> limiter_inv (ro_outbound_limiter r)
     \<and> unit_range (ro_uptime r)
     \<and> dom (ro_provider_kinds r) = dom (ro_providers r)
     \<and> dom (ro_free_tier_usage r) \<subseteq> dom (ro_free_tier_settings r)"

lemma router_invI:
  assumes "router_inv r" "ro_providers r' = ro_providers r" "ro_provider_kinds r' = ro_provider_kinds r"
    "ro_embedding_model r' = ro_embedding_model r"
    "ro_free_tier_settings r' = ro_free_tier_settings r"
    "ro_cache r' = ro_cache r" "ro_semantic_cache r' = ro_semantic_cache r"
    "generation_inv (ro_generations r) \<Longrightarrow> generation_inv (ro_generations r')"
    "reasoning_inv (ro_reasoning_replay r) \<Longrightarrow> reasoning_inv (ro_reasoning_replay r')"
    "limiter_inv (ro_outbound_limiter r) \<Longrightarrow> limiter_inv (ro_outbound_limiter r')"
    "unit_range (ro_uptime r) \<Longrightarrow> unit_range (ro_uptime r')"
    "dom (ro_free_tier_usage r) \<subseteq> dom (ro_free_tier_settings r) \<Longrightarrow>
       dom (ro_free_tier_usage r') \<subseteq> dom (ro_free_tier_settings r)"
  shows "router_inv r'"
  using assms(1) unfolding router_inv_def assms(2-7) using assms(8-12) by metis

lemma embedding_resolvable_iff:
  "embedding_resolvable ps cfg \<longleftrightarrow>
     (\<exists>m p rest. ca_embedding_model cfg = Some m \<and> split_once CHR ''/'' m = Some (p, rest)
        \<and> ps p \<noteq> None)"
  by (cases "ca_embedding_model cfg")
    (auto simp: embedding_resolvable_def simp del: split_once_None split: option.splits)

lemma from_config_inv: "router_inv (from_config env regex open_db config)"
  by (auto simp: router_inv_def from_config_def caches_of_def Let_def unit_range_def limiter_inv_def
      empty_generation_inv empty_reasoning_inv new_response_cache_inv new_semantic_cache_inv
      embedding_resolvable_iff split: option.splits if_splits)

text \<open>
  Startup never enables two caches: from any configuration, environment and database the built
  router satisfies its invariant; it has a cache of some kind exactly when \<open>[cache]\<close> is configured;
  the semantic one exactly when the mode is semantic and the embedding model names a provider that
  was built; and a provider is built exactly when its key variable is set and not empty.
\<close>

theorem startup_caches:
  "let r = from_config env regex open_db config in
     router_inv r
     \<and> (ro_cache r = None \<and> ro_semantic_cache r = None \<longleftrightarrow> cf_cache config = None)
     \<and> (ro_semantic_cache r \<noteq> None \<longleftrightarrow>
          (\<exists>cfg m p rest. cf_cache config = Some cfg \<and> ca_mode cfg \<noteq> Exact
             \<and> ca_embedding_model cfg = Some m \<and> m = p @ ''/'' @ rest \<and> CHR ''/'' \<notin> set p
             \<and> ro_providers r p \<noteq> None \<and> ro_embedding_model r = Some m))
     \<and> (\<forall>name. ro_providers r name \<noteq> None \<longleftrightarrow>
          (\<exists>cfg key. cf_providers config name = Some cfg \<and> env (pc_api_key_env cfg) = Some key
             \<and> key \<noteq> []))"
proof -
  let ?r = "from_config env regex open_db config"
  have resolv: "embedding_resolvable ps cfg \<longleftrightarrow> (\<exists>m p rest. ca_embedding_model cfg = Some m
      \<and> m = p @ ''/'' @ rest \<and> CHR ''/'' \<notin> set p \<and> ps p \<noteq> None)" for ps cfg
    by (simp add: embedding_resolvable_iff split_once_Some)
  have prov: "ro_providers ?r = configured_map env config"
    by (simp add: from_config_def Let_def split: prod.splits)
  have caches: "(ro_cache ?r, ro_semantic_cache ?r, ro_embedding_model ?r)
      = caches_of (configured_map env config) (cf_cache config)"
    by (simp add: from_config_def Let_def split: prod.splits)
  have built: "ro_providers ?r name \<noteq> None \<longleftrightarrow>
      (\<exists>cfg key. cf_providers config name = Some cfg \<and> env (pc_api_key_env cfg) = Some key \<and> key \<noteq> [])"
    for name
    by (auto simp: prov configured_map_def provider_of_def env_nonempty_def split: option.splits if_splits)
  have some: "ro_cache ?r = None \<and> ro_semantic_cache ?r = None \<longleftrightarrow> cf_cache config = None"
    using caches by (auto simp: caches_of_def split: option.splits if_splits)
  have "ro_semantic_cache ?r \<noteq> None \<longleftrightarrow>
      (\<exists>cfg. cf_cache config = Some cfg \<and> ca_mode cfg \<noteq> Exact
         \<and> embedding_resolvable (configured_map env config) cfg
         \<and> ro_embedding_model ?r = ca_embedding_model cfg)"
    using caches by (auto simp: caches_of_def split: option.splits if_splits)
  then have semantic: "ro_semantic_cache ?r \<noteq> None \<longleftrightarrow>
      (\<exists>cfg m p rest. cf_cache config = Some cfg \<and> ca_mode cfg \<noteq> Exact
         \<and> ca_embedding_model cfg = Some m \<and> m = p @ ''/'' @ rest \<and> CHR ''/'' \<notin> set p
         \<and> ro_providers ?r p \<noteq> None \<and> ro_embedding_model ?r = Some m)"
    unfolding resolv prov by metis
  show ?thesis
    unfolding Let_def by (intro conjI from_config_inv some semantic allI built)
qed

end
