(* ===== verification/Chain_Resolution.thy ===== *)
theory Chain_Resolution
  imports Router_State
begin

text \<open>
  From a request to the ordered chain of candidates that dispatch tries
  (\<open>crates/router/src/lib.rs\<close>): the model a request names or \<open>auto\<close> picks, the chain it stands for,
  the caller's provider preferences, the parameters and the price it insists on. A candidate is a
  pair of provider and model names. The clock a random shuffle seeds from, and the time a free-tier
  ranking reads, are arguments.
\<close>

type_synonym candidate = "string \<times> string"

section \<open>Resolution\<close>

fun split_entries :: "string list \<Rightarrow> router_error + candidate list" where
  "split_entries [] = Inr []"
| "split_entries (entry # entries) =
     (case split_once CHR ''/'' entry of
        None \<Rightarrow> Inl (InvalidModel entry)
      | Some c \<Rightarrow> map_sum id ((#) c) (split_entries entries))"

definition resolve_chain ::
  "router \<Rightarrow> string \<Rightarrow> string list option \<Rightarrow> router_error + candidate list" where
  "resolve_chain r model fallbacks =
     split_entries
       (if unwrap_or [] fallbacks \<noteq> [] then model # unwrap_or [] fallbacks
        else unwrap_or [model] (ro_routes r model))"

definition resolve_target_model :: "router \<Rightarrow> chat_request \<Rightarrow> string \<times> bool" where
  "resolve_target_model r req =
     (case ro_auto_routing r of
        Some config \<Rightarrow>
          if cr_model req = ''auto'' then (resolve_tier config req, True) else (cr_model req, False)
      | None \<Rightarrow> (cr_model req, False))"

definition auto_routed_price_preference ::
  "chat_request \<Rightarrow> bool \<Rightarrow> provider_preferences option" where
  "auto_routed_price_preference req was_auto_routed =
     (if \<not> was_auto_routed then None
      else if Option.bind (cr_provider req) pp_sort \<noteq> None then None
      else Some ((unwrap_or default_preferences (cr_provider req))\<lparr>pp_sort := Some ''price''\<rparr>))"

definition byok_key_for :: "chat_request \<Rightarrow> string \<Rightarrow> string option" where
  "byok_key_for req provider_name =
     Option.bind (Option.bind (cr_provider req) pp_byok) (\<lambda>m. m provider_name)"

section \<open>Preferences\<close>

text \<open>\<open>shuffle_chain\<close>: Fisher-Yates from a splitmix64 stream. The index \<open>j\<close> is taken modulo \<open>i + 1\<close>,
  which is below \<open>2 ^ 64\<close> for the length of a slice.\<close>

definition splitmix_gamma :: u64 where "splitmix_gamma = 0x9E3779B97F4A7C15"

definition splitmix_mix :: "u64 \<Rightarrow> u64" where
  "splitmix_mix z0 =
     (let z1 = Bit_Operations.xor z0 (drop_bit 30 z0) * 0xBF58476D1CE4E5B9;
          z2 = Bit_Operations.xor z1 (drop_bit 27 z1) * 0x94D049BB133111EB
      in Bit_Operations.xor z2 (drop_bit 31 z2))"

definition swap :: "nat \<Rightarrow> nat \<Rightarrow> 'a list \<Rightarrow> 'a list" where
  "swap i j xs = xs[i := xs ! j, j := xs ! i]"

fun shuffle_loop :: "nat \<Rightarrow> u64 \<Rightarrow> 'a list \<Rightarrow> 'a list" where
  "shuffle_loop 0 seed xs = xs"
| "shuffle_loop (Suc i) seed xs =
     (let seed' = seed + splitmix_gamma;
          j = unat (splitmix_mix seed') mod (Suc i + 1)
      in shuffle_loop i seed' (swap (Suc i) j xs))"

definition shuffle_chain :: "u64 \<Rightarrow> 'a list \<Rightarrow> 'a list" where
  "shuffle_chain nanos xs =
     shuffle_loop (length xs - 1) (Bit_Operations.xor nanos (of_nat (length xs) * splitmix_gamma)) xs"

definition free_tier_status :: "i64 \<Rightarrow> router \<Rightarrow> (string \<rightharpoonup> free_tier_status) \<times> router" where
  "free_tier_status now r =
     (case status_snapshot (ro_free_tier_settings r) (ro_free_tier_usage r) now of
        (status, used) \<Rightarrow> (status, r\<lparr>ro_free_tier_usage := used\<rparr>))"

definition UNHEALTHY_UPTIME_THRESHOLD :: f64 where "UNHEALTHY_UPTIME_THRESHOLD = 0.5"

definition unhealthy :: "router \<Rightarrow> candidate \<Rightarrow> bool" where
  "unhealthy r c =
     (case ro_uptime r (model_key (fst c) (snd c)) of
        None \<Rightarrow> False
      | Some rate \<Rightarrow> rate < UNHEALTHY_UPTIME_THRESHOLD)"

definition deprioritize_unhealthy :: "router \<Rightarrow> candidate list \<Rightarrow> candidate list" where
  "deprioritize_unhealthy r chain = sort_key (unhealthy r) chain"

definition rates_of :: "router \<Rightarrow> candidate \<Rightarrow> price_rates option" where
  "rates_of r c = ro_pricing r (model_key (fst c) (snd c))"

text \<open>The filters of a preference, one after another.\<close>

definition eligible :: "router \<Rightarrow> provider_preferences \<Rightarrow> candidate \<Rightarrow> bool" where
  "eligible r prefs c \<longleftrightarrow>
     (case pp_only prefs of None \<Rightarrow> True | Some only \<Rightarrow> list_ex (\<lambda>p. p = fst c) only)
     \<and> (case pp_ignore prefs of None \<Rightarrow> True | Some ignore \<Rightarrow> \<not> list_ex (\<lambda>p. p = fst c) ignore)
     \<and> (pp_zdr prefs = Some True \<longrightarrow> fst c \<in> ro_zdr_providers r)
     \<and> (pp_data_collection prefs = Some True \<longrightarrow> fst c \<in> ro_no_training_providers r)
     \<and> (case pp_max_price prefs of
          None \<Rightarrow> True
        | Some max_price \<Rightarrow>
            (case rates_of r c of None \<Rightarrow> False | Some rates \<Rightarrow> px_prompt_ppm rates \<le> max_price))"

definition sort_chain ::
  "router \<Rightarrow> u64 \<Rightarrow> i64 \<Rightarrow> string option \<Rightarrow> candidate list \<Rightarrow> candidate list \<times> router" where
  "sort_chain r nanos now order_by chain =
     (if order_by = Some ''price'' then
        (sort_key (\<lambda>c. unwrap_or f64_max (map_option px_prompt_ppm (rates_of r c))) chain, r)
      else if order_by = Some ''latency'' then
        (sort_key (\<lambda>(p, m). ewma_lookup (ro_latency r) p m f64_max) chain, r)
      else if order_by = Some ''throughput'' then
        (sort_desc (\<lambda>(p, m). ewma_lookup (ro_throughput r) p m 0) chain, r)
      else if order_by = Some ''uptime'' then
        (sort_desc (\<lambda>(p, m). ewma_lookup (ro_uptime r) p m 0) chain, r)
      else if order_by = Some ''quality'' then
        (sort_desc (\<lambda>c. unwrap_or f64_min (Option.bind (rates_of r c) px_quality_score)) chain, r)
      else if order_by = Some ''random'' then (shuffle_chain nanos chain, r)
      else if order_by = Some ''free_tier_remaining'' then
        (case free_tier_status now r of (status, r') \<Rightarrow>
           (sort_desc (\<lambda>(p, m). case status (model_key p m) of
                          Some s \<Rightarrow> unsigned (st_tokens_remaining s)
                        | None \<Rightarrow> f64_min) chain, r'))
      else (chain, r))"

definition apply_preferences ::
  "router \<Rightarrow> u64 \<Rightarrow> i64 \<Rightarrow> string \<Rightarrow> candidate list \<Rightarrow> provider_preferences option
    \<Rightarrow> (router_error + candidate list) \<times> router" where
  "apply_preferences r nanos now model chain prefs =
     (case prefs of
        None \<Rightarrow> (Inr (deprioritize_unhealthy r chain), r)
      | Some p \<Rightarrow>
          (let kept = filter (eligible r p) chain in
           if kept = [] then (Inl (NoEligibleProvider model), r)
           else case sort_chain r nanos now (pp_sort p) kept of (ranked, r') \<Rightarrow>
             (Inr (if pp_sort p \<noteq> Some ''uptime'' then deprioritize_unhealthy r' ranked else ranked),
              r')))"

section \<open>Required parameters and the price of a request\<close>

definition supports :: "router \<Rightarrow> chat_request \<Rightarrow> candidate \<Rightarrow> bool" where
  "supports r req c =
     (case ro_provider_kinds r (fst c) of
        None \<Rightarrow> False
      | Some kind \<Rightarrow> list_all (\<lambda>p. p \<in> set (supported_params kind)) (active_params req))"

definition filter_by_required_parameters ::
  "router \<Rightarrow> string \<Rightarrow> candidate list \<Rightarrow> chat_request \<Rightarrow> router_error + candidate list" where
  "filter_by_required_parameters r model chain req =
     (if \<not> unwrap_or False (Option.bind (cr_provider req) pp_require_parameters) then Inr chain
      else let kept = filter (supports r req) chain in
        if kept = [] then Inl (NoEligibleProvider model) else Inr kept)"

definition estimated_cost :: "router \<Rightarrow> u32 \<Rightarrow> candidate \<Rightarrow> f64 option" where
  "estimated_cost r max_tokens c =
     map_option (\<lambda>rates. unsigned max_tokens * px_completion_ppm rates / 1000000) (rates_of r c)"

definition fits_cap :: "router \<Rightarrow> u32 \<Rightarrow> f64 \<Rightarrow> candidate \<Rightarrow> bool" where
  "fits_cap r max_tokens cap c =
     (case estimated_cost r max_tokens c of None \<Rightarrow> False | Some cost \<Rightarrow> cost \<le> cap)"

definition by_cost :: "router \<Rightarrow> u32 \<Rightarrow> candidate list \<Rightarrow> candidate list" where
  "by_cost r max_tokens = sort_key (\<lambda>c. unwrap_or f64_max (estimated_cost r max_tokens c))"

definition apply_request_budget ::
  "router \<Rightarrow> string \<Rightarrow> candidate list \<Rightarrow> chat_request \<Rightarrow> router_error + candidate list" where
  "apply_request_budget r model chain req =
     (case (cr_provider req, Option.bind (cr_provider req) pp_max_request_price_usd, cr_max_tokens req) of
        (Some prefs, Some cap, Some max_tokens) \<Rightarrow>
          if chain = [] then Inr chain
          else (let fits = filter (fits_cap r max_tokens cap) chain;
                    strict = (pp_budget_fallback prefs = Some ''strict'')
                in if fits \<noteq> [] then Inr (by_cost r max_tokens (if strict then fits else chain))
                   else if strict then Inl (RequestBudgetExceeded model cap)
                   else Inr (by_cost r max_tokens chain))
      | _ \<Rightarrow> Inr chain)"

text \<open>The chain of a chat request, as both dispatch paths compute it.\<close>

definition effective_preferences ::
  "chat_request \<Rightarrow> bool \<Rightarrow> provider_preferences option" where
  "effective_preferences req was_auto_routed =
     or_else (auto_routed_price_preference req was_auto_routed) (cr_provider req)"

definition candidate_chain ::
  "router \<Rightarrow> u64 \<Rightarrow> i64 \<Rightarrow> chat_request \<Rightarrow> (router_error + candidate list) \<times> router" where
  "candidate_chain r nanos now req =
     (case resolve_target_model r req of (target, was_auto) \<Rightarrow>
        (case resolve_chain r target (cr_models req) of
           Inl e \<Rightarrow> (Inl e, r)
         | Inr chain0 \<Rightarrow>
             (case apply_preferences r nanos now target chain0 (effective_preferences req was_auto) of
                (Inl e, r1) \<Rightarrow> (Inl e, r1)
              | (Inr chain1, r1) \<Rightarrow>
                  (case filter_by_required_parameters r1 target chain1 req of
                     Inl e \<Rightarrow> (Inl e, r1)
                   | Inr chain2 \<Rightarrow> (apply_request_budget r1 target chain2 req, r1)))))"

section \<open>Shuffling is a permutation\<close>

lemma length_swap [simp]: "length (swap i j xs) = length xs"
  by (simp add: swap_def)

lemma mset_swap: "i < length xs \<Longrightarrow> j < length xs \<Longrightarrow> mset (swap i j xs) = mset xs"
  by (simp add: swap_def Multiset.mset_swap)

lemma mset_shuffle_loop: "i < length xs \<or> i = 0 \<Longrightarrow> mset (shuffle_loop i seed xs) = mset xs"
proof (induction i seed xs rule: shuffle_loop.induct)
  case (1 seed xs) then show ?case by simp
next
  case (2 i seed xs)
  let ?j = "unat (splitmix_mix (seed + splitmix_gamma)) mod (Suc i + 1)"
  have lt: "Suc i < length xs" using 2 by simp
  moreover have "?j < Suc i + 1" by simp
  ultimately have "?j < length xs" by linarith
  with 2 lt show ?case by (simp add: Let_def mset_swap)
qed

lemma mset_shuffle_chain [simp]: "mset (shuffle_chain nanos xs) = mset xs"
  unfolding shuffle_chain_def by (rule mset_shuffle_loop) (cases xs; simp)

section \<open>Stages of a chain\<close>

text \<open>
  What dispatch relies on of every stage after resolution: it only removes or reorders candidates,
  and a chain that had a candidate still has one unless the stage reports an error.
\<close>

locale chain_stage =
  fixes stage :: "candidate list \<Rightarrow> router_error + candidate list"
  assumes stage_sub: "stage chain = Inr chain' \<Longrightarrow> mset chain' \<subseteq># mset chain"
    and stage_nonempty: "stage chain = Inr chain' \<Longrightarrow> chain \<noteq> [] \<Longrightarrow> chain' \<noteq> []"
begin

lemma stage_members: "stage chain = Inr chain' \<Longrightarrow> set chain' \<subseteq> set chain"
  by (metis set_mset_mono set_mset_mset stage_sub)

lemma stage_trans:
  "stage chain = Inr chain' \<Longrightarrow> mset chain \<subseteq># mset chain0 \<Longrightarrow> (chain0 \<noteq> [] \<longrightarrow> chain \<noteq> []) \<Longrightarrow>
     mset chain' \<subseteq># mset chain0 \<and> (chain0 \<noteq> [] \<longrightarrow> chain' \<noteq> [])"
  using stage_nonempty stage_sub subset_mset.order_trans by blast

end

lemma sort_chain_mset: "mset (fst (sort_chain r nanos now order_by chain)) = mset chain"
  by (simp add: sort_chain_def split: prod.splits)

lemma sort_chain_router:
  "r\<lparr>ro_free_tier_usage := ro_free_tier_usage (snd (sort_chain r nanos now order_by chain))\<rparr>
     = snd (sort_chain r nanos now order_by chain)"
  by (simp add: sort_chain_def free_tier_status_def split: prod.splits)

lemma deprioritize_mset [simp]: "mset (deprioritize_unhealthy r chain) = mset chain"
  by (simp add: deprioritize_unhealthy_def)

lemma deprioritize_Nil [simp]: "deprioritize_unhealthy r chain = [] \<longleftrightarrow> chain = []"
  by (simp add: deprioritize_unhealthy_def)

lemma mset_filter_subset: "mset (filter P xs) \<subseteq># mset xs"
  by (simp add: multiset_filter_subset)

lemma apply_preferences_Some:
  assumes "apply_preferences r nanos now model chain (Some p) = (Inr chain', r')"
  shows "mset chain' = mset (filter (eligible r p) chain) \<and> chain' \<noteq> []"
proof -
  let ?kept = "filter (eligible r p) chain"
  have "?kept \<noteq> []" using assms by (auto simp: apply_preferences_def Let_def)
  moreover have "mset (fst (sort_chain r nanos now (pp_sort p) ?kept)) = mset ?kept"
    by (rule sort_chain_mset)
  ultimately have "mset chain' = mset ?kept"
    using assms
    by (auto simp: apply_preferences_def Let_def simp del: mset_filter split: prod.splits if_splits)
  with \<open>?kept \<noteq> []\<close> show ?thesis by (metis mset_zero_iff)
qed

interpretation preferences: chain_stage "\<lambda>chain. fst (apply_preferences r nanos now model chain prefs)"
  for r nanos now model prefs
proof
  fix chain chain'
  assume ok: "fst (apply_preferences r nanos now model chain prefs) = Inr chain'"
  have "mset chain' \<subseteq># mset chain \<and> (chain \<noteq> [] \<longrightarrow> chain' \<noteq> [])"
  proof (cases prefs)
    case None with ok show ?thesis by (auto simp: apply_preferences_def)
  next
    case (Some p)
    with ok have "apply_preferences r nanos now model chain (Some p)
        = (Inr chain', snd (apply_preferences r nanos now model chain prefs))"
      by (metis prod.collapse)
    from apply_preferences_Some [OF this] show ?thesis by (metis mset_filter_subset)
  qed
  then show "mset chain' \<subseteq># mset chain" and "chain \<noteq> [] \<Longrightarrow> chain' \<noteq> []" by auto
qed

interpretation parameters: chain_stage "\<lambda>chain. filter_by_required_parameters r model chain req"
  for r model req
proof
  fix chain chain'
  assume "filter_by_required_parameters r model chain req = Inr chain'"
  then show "mset chain' \<subseteq># mset chain" and "chain \<noteq> [] \<Longrightarrow> chain' \<noteq> []"
    by (auto simp: filter_by_required_parameters_def Let_def multiset_filter_subset split: if_splits)
qed

lemma by_cost_mset [simp]: "mset (by_cost r n chain) = mset chain"
  by (simp add: by_cost_def)

lemma by_cost_Nil [simp]: "by_cost r n chain = [] \<longleftrightarrow> chain = []"
  by (simp add: by_cost_def)

interpretation budget: chain_stage "\<lambda>chain. apply_request_budget r model chain req"
  for r model req
proof
  fix chain chain'
  assume "apply_request_budget r model chain req = Inr chain'"
  then show "mset chain' \<subseteq># mset chain" and "chain \<noteq> [] \<Longrightarrow> chain' \<noteq> []"
    by (auto simp: apply_request_budget_def Let_def multiset_filter_subset filter_empty_conv
        split: option.splits if_splits)
qed

section \<open>What a resolved chain is\<close>

definition chain_entries :: "router \<Rightarrow> string \<Rightarrow> string list option \<Rightarrow> string list" where
  "chain_entries r model fallbacks =
     (case fallbacks of
        Some (m # ms) \<Rightarrow> model # m # ms
      | _ \<Rightarrow> (case ro_routes r model of Some chain \<Rightarrow> chain | None \<Rightarrow> [model]))"

lemma resolve_chain_entries: "resolve_chain r model fb = split_entries (chain_entries r model fb)"
proof -
  have "(if unwrap_or [] fb \<noteq> [] then model # unwrap_or [] fb
         else unwrap_or [model] (ro_routes r model)) = chain_entries r model fb"
    by (auto simp: chain_entries_def neq_Nil_conv split: option.splits list.splits)
  then show ?thesis unfolding resolve_chain_def by (rule arg_cong)
qed

lemma split_entries_Inr:
  "split_entries es = Inr cs \<longleftrightarrow>
     es = map (\<lambda>(p, m). model_key p m) cs \<and> (\<forall>(p, m)\<in>set cs. CHR ''/'' \<notin> set p)"
proof (induction es arbitrary: cs)
  case Nil then show ?case by auto
next
  case (Cons e es)
  show ?case
  proof (cases "split_once CHR ''/'' e")
    case None
    then have "split_entries (e # es) = Inl (InvalidModel e)" by (simp del: split_once_None)
    with None show ?thesis by (cases cs) (auto simp: model_key_def)
  next
    case (Some c)
    obtain p m where c: "c = (p, m)" by (cases c)
    with Some have e: "e = p @ CHR ''/'' # m" "CHR ''/'' \<notin> set p" by (simp_all add: split_once_Some)
    have uniq: "(e = model_key p' m' \<and> CHR ''/'' \<notin> set p') \<longleftrightarrow> (p', m') = c" for p' m'
    proof -
      have "(e = model_key p' m' \<and> CHR ''/'' \<notin> set p') \<longleftrightarrow> split_once CHR ''/'' e = Some (p', m')"
        by (simp add: split_once_Some model_key_def)
      with Some show ?thesis by auto
    qed
    have step: "split_entries (e # es) = Inr cs \<longleftrightarrow> (\<exists>ds. split_entries es = Inr ds \<and> cs = c # ds)"
      using Some by (cases "split_entries es") auto
    show ?thesis
    proof (cases cs)
      case Nil then show ?thesis using step by simp
    next
      case (Cons d ds)
      obtain p' m' where d: "d = (p', m')" by (cases d)
      have "split_entries (e # es) = Inr cs \<longleftrightarrow> (p', m') = c \<and> split_entries es = Inr ds"
        using step Cons d by auto
      then show ?thesis unfolding Cons.IH uniq [symmetric] by (auto simp: Cons d)
    qed
  qed
qed

lemma split_entries_Inl:
  "split_entries es = Inl err \<longleftrightarrow>
     (\<exists>i<length es. err = InvalidModel (es ! i) \<and> CHR ''/'' \<notin> set (es ! i)
        \<and> (\<forall>j<i. CHR ''/'' \<in> set (es ! j)))"
proof (induction es)
  case Nil then show ?case by simp
next
  case (Cons e es)
  have ex: "(\<exists>i<Suc n. P i) \<longleftrightarrow> P 0 \<or> (\<exists>i<n. P (Suc i))" for P and n :: nat
    using less_Suc_eq_0_disj by auto
  have all: "(\<forall>j<Suc i. Q j) \<longleftrightarrow> Q 0 \<and> (\<forall>j<i. Q (Suc j))" for Q and i :: nat
    using less_Suc_eq_0_disj by auto
  show ?case
  proof (cases "CHR ''/'' \<in> set e")
    case False
    then have "split_once CHR ''/'' e = None" by simp
    then have "split_entries (e # es) = Inl (InvalidModel e)" by (simp del: split_once_None)
    then show ?thesis using False by (auto simp: ex all)
  next
    case True
    then have "split_once CHR ''/'' e \<noteq> None" by simp
    then obtain c where "split_once CHR ''/'' e = Some c" by blast
    then have "split_entries (e # es) = Inl err \<longleftrightarrow> split_entries es = Inl err"
      by (cases "split_entries es") auto
    with Cons.IH True show ?thesis by (simp add: ex all)
  qed
qed

text \<open>
  Resolution is a faithful reading of the chain: it succeeds exactly when every entry names a
  provider and a model, then yields one candidate per entry, in order, whose \<open>provider/model\<close> form
  is the entry itself; otherwise the error names the first entry without a slash. A request's own
  fallback list takes precedence over a configured alias.
\<close>

theorem resolve_chain_faithful:
  "(resolve_chain r model fb = Inr chain \<longleftrightarrow>
      map (\<lambda>(p, m). model_key p m) chain = chain_entries r model fb
      \<and> (\<forall>(p, m)\<in>set chain. CHR ''/'' \<notin> set p))
   \<and> (resolve_chain r model fb = Inl e \<longleftrightarrow>
      (\<exists>i<length (chain_entries r model fb).
         e = InvalidModel (chain_entries r model fb ! i)
         \<and> CHR ''/'' \<notin> set (chain_entries r model fb ! i)
         \<and> (\<forall>j<i. CHR ''/'' \<in> set (chain_entries r model fb ! j))))
   \<and> chain_entries r model (Some (f # fs)) = model # f # fs"
proof (intro conjI)
  show "resolve_chain r model fb = Inr chain \<longleftrightarrow>
      map (\<lambda>(p, m). model_key p m) chain = chain_entries r model fb
      \<and> (\<forall>(p, m)\<in>set chain. CHR ''/'' \<notin> set p)"
    unfolding resolve_chain_entries split_entries_Inr by (rule conj_cong) (rule eq_commute, simp)
  show "resolve_chain r model fb = Inl e \<longleftrightarrow>
      (\<exists>i<length (chain_entries r model fb).
         e = InvalidModel (chain_entries r model fb ! i)
         \<and> CHR ''/'' \<notin> set (chain_entries r model fb ! i)
         \<and> (\<forall>j<i. CHR ''/'' \<in> set (chain_entries r model fb ! j)))"
    unfolding resolve_chain_entries by (rule split_entries_Inl)
qed (simp add: chain_entries_def)

text \<open>A router for evaluation: a bare configuration with two providers and a route.\<close>

definition sample_provider :: "provider_kind \<Rightarrow> provider_config" where
  "sample_provider kind =
     \<lparr>pc_kind = kind, pc_base_url = ''http://x'', pc_api_key_env = ''KEY'', pc_timeout_secs = 30,
      pc_zdr = False, pc_no_training = False, pc_requests_per_minute = None\<rparr>"

definition sample_config :: config where
  "sample_config =
     \<lparr>cf_server = undefined,
      cf_providers = [''a'' \<mapsto> sample_provider Openai, ''b'' \<mapsto> sample_provider Anthropic],
      cf_routes = [\<lparr>ra_alias = ''smart'', ra_chain = [''a/x'', ''b/y''], ra_strategy = Fallback,
                    ra_judge = None, ra_fusion_timeout_secs = 30\<rparr>],
      cf_pricing = [\<lparr>pe_model = ''a/x'', pe_prompt_per_million = 5, pe_completion_per_million = 9,
                     pe_cache_read_per_million = None, pe_cache_write_per_million = None,
                     pe_context_length = None, pe_quality_score = None\<rparr>,
                    \<lparr>pe_model = ''b/y'', pe_prompt_per_million = 1, pe_completion_per_million = 3,
                     pe_cache_read_per_million = None, pe_cache_write_per_million = None,
                     pe_context_length = None, pe_quality_score = None\<rparr>],
      cf_clients = [], cf_persistence = None, cf_webhook = None, cf_guardrails = [],
      cf_presets = [], cf_auto_routing = None, cf_moderation = None, cf_web_search = None,
      cf_cache = None, cf_free_tiers = [], cf_jwt = None, cf_mcp = None\<rparr>"

definition sample_router :: router where
  "sample_router =
     from_config [''KEY'' \<mapsto> ''k''] literal_engine (\<lambda>_. None) sample_config"

lemma default_preferences_simps [simp]:
  "pp_only default_preferences = None" "pp_ignore default_preferences = None"
  "pp_sort default_preferences = None" "pp_zdr default_preferences = None"
  "pp_data_collection default_preferences = None" "pp_max_price default_preferences = None"
  "pp_require_parameters default_preferences = None"
  "pp_max_request_price_usd default_preferences = None"
  "pp_budget_fallback default_preferences = None"
  by (simp_all add: default_preferences_def)

lemma sample_router_simps [simp]:
  "ro_routes sample_router = [''smart'' \<mapsto> [''a/x'', ''b/y'']]"
  "ro_auto_routing sample_router = None"
  "ro_uptime sample_router = Map.empty"
  "ro_fusion_routes sample_router = Map.empty"
  "ro_cache sample_router = None" "ro_semantic_cache sample_router = None"
  "ro_provider_rpm sample_router = Map.empty"
  "ro_persistence sample_router = None" "ro_webhook sample_router = None"
  by (auto simp: sample_router_def from_config_def sample_config_def Let_def caches_of_def
      collect_map_def List.map_filter_simps fusion_entry_def sample_provider_def fun_eq_iff)

lemma sample_router_pricing [simp]:
  "map_option px_prompt_ppm (ro_pricing sample_router ''a/x'') = Some 5"
  "map_option px_prompt_ppm (ro_pricing sample_router ''b/y'') = Some 1"
  "map_option px_completion_ppm (ro_pricing sample_router ''a/x'') = Some 9"
  "map_option px_completion_ppm (ro_pricing sample_router ''b/y'') = Some 3"
  by (simp_all add: sample_router_def from_config_def sample_config_def Let_def caches_of_def
      collect_map_def price_rates_of_def)

lemma sample_chain:
  "resolve_chain sample_router ''smart'' None = Inr [(''a'', ''x''), (''b'', ''y'')]"
  by (simp add: resolve_chain_def)

theorem resolve_chain_faithful_witness:
  "map (\<lambda>(p, m). model_key p m) [(''a'', ''x''), (''b'', ''y'')]
     = chain_entries sample_router ''smart'' None
   \<and> resolve_chain sample_router ''nope'' None = Inl (InvalidModel ''nope'')"
proof
  show "map (\<lambda>(p, m). model_key p m) [(''a'', ''x''), (''b'', ''y'')]
      = chain_entries sample_router ''smart'' None"
    using resolve_chain_faithful [of sample_router "''smart''" None "[(''a'', ''x''), (''b'', ''y'')]"]
      sample_chain by blast
  show "resolve_chain sample_router ''nope'' None = Inl (InvalidModel ''nope'')"
    by (simp add: resolve_chain_def)
qed

section \<open>What preferences guarantee\<close>

lemma free_tier_frame:
  "eligible (r\<lparr>ro_free_tier_usage := u\<rparr>) = eligible r"
  "supports (r\<lparr>ro_free_tier_usage := u\<rparr>) = supports r"
  "fits_cap (r\<lparr>ro_free_tier_usage := u\<rparr>) = fits_cap r"
  "unhealthy (r\<lparr>ro_free_tier_usage := u\<rparr>) = unhealthy r"
  by (auto simp: eligible_def supports_def fits_cap_def estimated_cost_def rates_of_def unhealthy_def
      fun_eq_iff split: option.splits)

lemma apply_preferences_router:
  "r\<lparr>ro_free_tier_usage := ro_free_tier_usage (snd (apply_preferences r nanos now model chain prefs))\<rparr>
     = snd (apply_preferences r nanos now model chain prefs)"
  using sort_chain_router
  by (simp add: apply_preferences_def Let_def split: option.splits prod.split)
    (metis snd_conv)

lemma candidate_chain_stages:
  assumes "candidate_chain r nanos now req = (Inr chain, r')"
  shows "\<exists>target auto chain0 chain1 chain2.
    resolve_target_model r req = (target, auto)
    \<and> resolve_chain r target (cr_models req) = Inr chain0
    \<and> apply_preferences r nanos now target chain0 (effective_preferences req auto) = (Inr chain1, r')
    \<and> filter_by_required_parameters r' target chain1 req = Inr chain2
    \<and> apply_request_budget r' target chain2 req = Inr chain"
  using assms
  by (auto simp: candidate_chain_def split: prod.splits sum.splits)

text \<open>What each stage guarantees of the candidates it lets through.\<close>

lemma preferred_eligible:
  assumes "apply_preferences r nanos now target chain0 (effective_preferences req auto) = (Inr chain1, r')"
    and "cr_provider req = Some p" and "c \<in> set chain1"
  shows "eligible r p c"
proof -
  obtain q where q: "effective_preferences req auto = Some q" "eligible r q = eligible r p"
    using assms(2) by (cases "auto_routed_price_preference req auto")
      (auto simp: effective_preferences_def auto_routed_price_preference_def eligible_def fun_eq_iff
        split: if_splits)
  from apply_preferences_Some [of r nanos now target chain0 q chain1 r'] assms(1) q(1)
  have "mset chain1 = mset (filter (eligible r q) chain0)" by simp
  then have "set chain1 = set (filter (eligible r q) chain0)" by (rule mset_eq_setD)
  with assms(3) q(2) show ?thesis by auto
qed

lemma required_supported:
  assumes "filter_by_required_parameters (r\<lparr>ro_free_tier_usage := u\<rparr>) target chain1 req = Inr chain2"
    and "cr_provider req = Some p" and "pp_require_parameters p = Some True" and "c \<in> set chain2"
  shows "supports r req c"
  using assms by (auto simp: filter_by_required_parameters_def Let_def free_tier_frame split: if_splits)

lemma strict_budget_fits:
  assumes "apply_request_budget (r\<lparr>ro_free_tier_usage := u\<rparr>) target chain2 req = Inr chain"
    and "cr_provider req = Some p" and "pp_budget_fallback p = Some ''strict''"
    and "pp_max_request_price_usd p = Some cap" and "cr_max_tokens req = Some n" and "c \<in> set chain"
  shows "fits_cap r n cap c"
proof (cases "chain2 = []")
  case True with assms show ?thesis using budget.stage_members [OF assms(1)] by auto
next
  case False
  have "chain = by_cost (r\<lparr>ro_free_tier_usage := u\<rparr>) n (filter (fits_cap r n cap) chain2)"
    using assms(1-5) False by (auto simp: apply_request_budget_def Let_def free_tier_frame split: if_splits)
  with assms(6) show ?thesis by (simp add: by_cost_def)
qed

text \<open>
  \<^bold>\<open>C21.\<close> Dispatch only ever tries candidates the request allows: a computed chain is a selection,
  without repetition beyond the resolved chain's own, of the candidates the model resolves to, empty
  only if that is; each candidate passes every provider preference (allow and deny lists, zero data
  retention, no training, price ceiling), supports every parameter the request sets if it insists,
  and fits the request's price cap under the strict policy.
\<close>

theorem candidate_chain_sound:
  assumes "candidate_chain r nanos now req = (Inr chain, r')"
    and "resolve_target_model r req = (target, auto)"
  shows "\<exists>chain0. resolve_chain r target (cr_models req) = Inr chain0
    \<and> mset chain \<subseteq># mset chain0 \<and> (chain0 \<noteq> [] \<longrightarrow> chain \<noteq> [])
    \<and> (\<forall>c\<in>set chain.
         (\<forall>p. cr_provider req = Some p \<longrightarrow> eligible r p c
            \<and> (pp_require_parameters p = Some True \<longrightarrow> supports r req c)
            \<and> (\<forall>cap n. pp_budget_fallback p = Some ''strict'' \<and> pp_max_request_price_usd p = Some cap
                 \<and> cr_max_tokens req = Some n \<longrightarrow> fits_cap r n cap c)))"
proof -
  from candidate_chain_stages [OF assms(1)] assms(2) obtain chain0 chain1 chain2 where
    st: "resolve_chain r target (cr_models req) = Inr chain0"
    "apply_preferences r nanos now target chain0 (effective_preferences req auto) = (Inr chain1, r')"
    "filter_by_required_parameters r' target chain1 req = Inr chain2"
    "apply_request_budget r' target chain2 req = Inr chain" by auto
  have pref: "fst (apply_preferences r nanos now target chain0 (effective_preferences req auto))
      = Inr chain1" using st(2) by simp
  have sel: "mset chain \<subseteq># mset chain0 \<and> (chain0 \<noteq> [] \<longrightarrow> chain \<noteq> [])"
    using budget.stage_trans [OF st(4)] parameters.stage_trans [OF st(3)]
      preferences.stage_trans [OF pref] by blast
  have "r' = snd (apply_preferences r nanos now target chain0 (effective_preferences req auto))"
    using st(2) by simp
  with apply_preferences_router obtain u where r': "r' = r\<lparr>ro_free_tier_usage := u\<rparr>" by metis
  have "eligible r p c \<and> (pp_require_parameters p = Some True \<longrightarrow> supports r req c)
      \<and> (\<forall>cap n. pp_budget_fallback p = Some ''strict'' \<and> pp_max_request_price_usd p = Some cap
           \<and> cr_max_tokens req = Some n \<longrightarrow> fits_cap r n cap c)"
    if c: "c \<in> set chain" and p: "cr_provider req = Some p" for c p
  proof (intro conjI impI allI)
    have c2: "c \<in> set chain2" using c budget.stage_members [OF st(4)] by auto
    then have "c \<in> set chain1" using parameters.stage_members [OF st(3)] by auto
    with preferred_eligible [OF st(2) p] show "eligible r p c" .
    show "supports r req c" if "pp_require_parameters p = Some True"
      using required_supported [OF st(3) [unfolded r'] p that c2] .
    show "fits_cap r n cap c"
      if "pp_budget_fallback p = Some ''strict'' \<and> pp_max_request_price_usd p = Some cap
        \<and> cr_max_tokens req = Some n" for cap n
      using strict_budget_fits [OF st(4) [unfolded r'] p] that c by blast
  qed
  with st(1) sel show ?thesis by blast
qed

theorem candidate_chain_sound_witness:
  "let prefs = default_preferences\<lparr>pp_ignore := Some [''a'']\<rparr>;
       req = (bare_request ''smart'' [user_message ''hi''])\<lparr>cr_provider := Some prefs\<rparr>
   in fst (candidate_chain sample_router 0 0 req) = Inr [(''b'', ''y'')]
      \<and> eligible sample_router prefs (''b'', ''y'')"
proof -
  let ?prefs = "default_preferences\<lparr>pp_ignore := Some [''a'']\<rparr>"
  let ?req = "(bare_request ''smart'' [user_message ''hi''])\<lparr>cr_provider := Some ?prefs\<rparr>"
  have target: "resolve_target_model sample_router ?req = (''smart'', False)"
    by (simp add: resolve_target_model_def)
  have el: "eligible sample_router ?prefs (''b'', ''y'')" "\<not> eligible sample_router ?prefs (''a'', ''x'')"
    by (simp_all add: eligible_def)
  have chain: "candidate_chain sample_router 0 0 ?req = (Inr [(''b'', ''y'')], sample_router)"
    by (simp add: candidate_chain_def target sample_chain effective_preferences_def
        auto_routed_price_preference_def apply_preferences_def el Let_def)
      (simp add: sort_chain_def filter_by_required_parameters_def apply_request_budget_def
        deprioritize_unhealthy_def)
  have "eligible sample_router ?prefs (''b'', ''y'')"
    using candidate_chain_sound [OF chain target] by auto
  with chain show ?thesis by simp
qed

text \<open>
  A price-sorted chain is cheapest first within each health class: the result of applying
  preferences that sort by price is the eligible candidates, those with a success rate below the
  threshold after all others, and both groups in order of prompt price, unpriced ones last.
\<close>

theorem price_sort_orders:
  assumes "apply_preferences r nanos now model chain (Some p) = (Inr chain', r')"
    and "pp_sort p = Some ''price''"
  shows "\<exists>healthy sick. chain' = healthy @ sick
    \<and> (\<forall>c\<in>set healthy. \<not> unhealthy r c) \<and> (\<forall>c\<in>set sick. unhealthy r c)
    \<and> mset chain' = mset (filter (eligible r p) chain)
    \<and> sorted (map (\<lambda>c. unwrap_or f64_max (map_option px_prompt_ppm (rates_of r c))) healthy)
    \<and> sorted (map (\<lambda>c. unwrap_or f64_max (map_option px_prompt_ppm (rates_of r c))) sick)"
proof -
  let ?price = "\<lambda>c. unwrap_or f64_max (map_option px_prompt_ppm (rates_of r c))"
  let ?sorted = "sort_key ?price (filter (eligible r p) chain)"
  have "chain' = filter (\<lambda>c. \<not> unhealthy r c) ?sorted @ filter (unhealthy r) ?sorted"
    using assms
    by (auto simp: apply_preferences_def sort_chain_def Let_def deprioritize_unhealthy_def
        sort_key_bool split: if_splits)
  moreover have "sorted (map ?price (filter P ?sorted))" for P
    by (rule sorted_filter) simp
  ultimately show ?thesis
    using apply_preferences_Some [OF assms(1)]
    by (intro exI [of _ "filter (\<lambda>c. \<not> unhealthy r c) ?sorted"]
        exI [of _ "filter (unhealthy r) ?sorted"]) auto
qed

theorem price_sort_orders_witness:
  "fst (apply_preferences sample_router 0 0 ''smart'' [(''a'', ''x''), (''b'', ''y'')]
     (Some (default_preferences\<lparr>pp_sort := Some ''price''\<rparr>))) = Inr [(''b'', ''y''), (''a'', ''x'')]"
proof -
  let ?p = "default_preferences\<lparr>pp_sort := Some ''price''\<rparr>"
  let ?chain = "[(''a'', ''x''), (''b'', ''y'')]"
  let ?price = "\<lambda>c. unwrap_or f64_max (map_option px_prompt_ppm (rates_of sample_router c))"
  have price: "?price (''a'', ''x'') = 5" "?price (''b'', ''y'') = 1"
    by (simp_all add: rates_of_def model_key_def)
  have el: "filter (eligible sample_router ?p) ?chain = ?chain"
    by (simp add: eligible_def)
  have "fst (apply_preferences sample_router 0 0 ''smart'' ?chain (Some ?p)) \<noteq> Inl e" for e
    unfolding apply_preferences_def Let_def option.case el by (simp split: prod.split)
  then obtain chain' r' where ok: "apply_preferences sample_router 0 0 ''smart'' ?chain (Some ?p) = (Inr chain', r')"
    by (metis obj_sumE prod.collapse)
  from price_sort_orders [OF ok] obtain healthy sick where
    h: "chain' = healthy @ sick" "\<forall>c\<in>set sick. unhealthy sample_router c"
    "mset chain' = mset ?chain" "sorted (map ?price healthy)"
    using el by auto
  have "sick = []" using h(2) by (cases sick) (auto simp: unhealthy_def)
  with h have s: "sorted (map ?price chain')" and m: "mset chain' = mset ?chain" by simp_all
  have "length chain' = 2" using mset_eq_length [OF m] by simp
  then obtain x y where xy: "chain' = [x, y]" by (auto simp: length_Suc_conv numeral_2_eq_2)
  with m have "(x = (''a'', ''x'') \<and> y = (''b'', ''y'')) \<or> (x = (''b'', ''y'') \<and> y = (''a'', ''x''))"
    by (auto simp: add_eq_conv_ex)
  with s xy price have "chain' = [(''b'', ''y''), (''a'', ''x'')]" by auto
  with ok show ?thesis by simp
qed

text \<open>
  A request's price cap is enforced as its policy says: under \<open>"strict"\<close> the candidates whose
  worst-case completion cost is known and within the cap remain, cheapest first, and the request
  fails with the cap in the error exactly when there is none; under any other policy no candidate is
  lost, the request never fails for its price, and the cheapest candidate comes first.
\<close>

theorem request_budget_enforced:
  assumes "cr_provider req = Some p" and "pp_max_request_price_usd p = Some cap"
    and "cr_max_tokens req = Some n" and "chain \<noteq> []"
  shows "let cost = (\<lambda>c. unwrap_or f64_max (estimated_cost r n c)) in
    (if pp_budget_fallback p = Some ''strict'' then
       (apply_request_budget r model chain req = Inl e
          \<longleftrightarrow> (\<forall>c\<in>set chain. \<not> fits_cap r n cap c) \<and> e = RequestBudgetExceeded model cap)
       \<and> (apply_request_budget r model chain req = Inr out \<longrightarrow>
            mset out = mset (filter (fits_cap r n cap) chain) \<and> sorted (map cost out)
            \<and> (\<forall>c\<in>set out. \<exists>x. estimated_cost r n c = Some x \<and> x \<le> cap))
     else apply_request_budget r model chain req \<noteq> Inl e
       \<and> (apply_request_budget r model chain req = Inr out \<longrightarrow>
            mset out = mset chain \<and> sorted (map cost out)
            \<and> (\<forall>c\<in>set chain. cost (hd out) \<le> cost c)))"
proof -
  let ?cost = "\<lambda>c. unwrap_or f64_max (estimated_cost r n c)"
  let ?fits = "filter (fits_cap r n cap) chain"
  have run: "apply_request_budget r model chain req =
      (if pp_budget_fallback p = Some ''strict''
       then if ?fits = [] then Inl (RequestBudgetExceeded model cap) else Inr (by_cost r n ?fits)
       else Inr (by_cost r n chain))"
    using assms by (simp add: apply_request_budget_def Let_def)
  have sorted: "sorted (map ?cost (by_cost r n xs))" for xs
    by (simp add: by_cost_def)
  have hd: "?cost (hd (by_cost r n chain)) \<le> ?cost c" if "c \<in> set chain" for c
  proof -
    have "c \<in> set (by_cost r n chain)" using that by (simp add: by_cost_def)
    then show ?thesis using sorted [of chain] by (cases "by_cost r n chain") auto
  qed
  have within: "\<exists>x. estimated_cost r n c = Some x \<and> x \<le> cap" if "fits_cap r n cap c" for c
    using that by (simp add: fits_cap_def split: option.splits)
  have members: "set (by_cost r n xs) = set xs" for xs
    by (simp add: by_cost_def)
  show ?thesis
  proof (cases "pp_budget_fallback p = Some ''strict''")
    case True
    then show ?thesis
      using sorted [of ?fits] within by (auto simp: run Let_def filter_empty_conv members)
  next
    case False
    then show ?thesis using sorted [of chain] hd by (auto simp: run Let_def)
  qed
qed

definition capped_request :: "f64 \<Rightarrow> string option \<Rightarrow> chat_request" where
  "capped_request cap policy =
     (bare_request ''smart'' [user_message ''hi''])
       \<lparr>cr_max_tokens := Some 1000,
        cr_provider := Some (default_preferences
          \<lparr>pp_max_request_price_usd := Some cap, pp_budget_fallback := policy\<rparr>)\<rparr>"

lemma sample_costs:
  "estimated_cost sample_router 1000 (''a'', ''x'') = Some 0.009"
  "estimated_cost sample_router 1000 (''b'', ''y'') = Some 0.003"
  using sample_router_pricing(3,4)
  by (auto simp: estimated_cost_def rates_of_def model_key_def simp del: sample_router_pricing)

theorem request_budget_enforced_witness:
  "apply_request_budget sample_router ''smart'' [(''a'', ''x''), (''b'', ''y'')]
     (capped_request 0.001 (Some ''strict'')) = Inl (RequestBudgetExceeded ''smart'' 0.001)"
proof -
  let ?p = "default_preferences
    \<lparr>pp_max_request_price_usd := Some 0.001, pp_budget_fallback := Some ''strict''\<rparr>"
  have "\<forall>c\<in>set [(''a'', ''x''), (''b'', ''y'')]. \<not> fits_cap sample_router 1000 0.001 c"
    by (simp add: fits_cap_def sample_costs)
  then show ?thesis
    using request_budget_enforced [of "capped_request 0.001 (Some ''strict'')" ?p "0.001" 1000
        "[(''a'', ''x''), (''b'', ''y'')]" sample_router "''smart''"
        "RequestBudgetExceeded ''smart'' 0.001"]
    by (simp add: capped_request_def)
qed

text \<open>
  The price cap sorts the chain by cost alone, after unhealthy candidates were moved to its end: a
  provider whose every attempt failed is tried first again because it is the cheapest.
\<close>

theorem budget_sort_revives_unhealthy:
  "let r = sample_router\<lparr>ro_uptime := [''b/y'' \<mapsto> 0]\<rparr> in
     unhealthy r (''b'', ''y'') \<and> \<not> unhealthy r (''a'', ''x'')
     \<and> deprioritize_unhealthy r [(''b'', ''y''), (''a'', ''x'')] = [(''a'', ''x''), (''b'', ''y'')]
     \<and> fst (candidate_chain r 0 0 (capped_request 1 None)) = Inr [(''b'', ''y''), (''a'', ''x'')]"
proof -
  let ?r = "sample_router\<lparr>ro_uptime := [''b/y'' \<mapsto> 0]\<rparr>"
  let ?req = "capped_request 1 None"
  let ?p = "default_preferences\<lparr>pp_max_request_price_usd := Some 1, pp_budget_fallback := None\<rparr>"
  have health: "unhealthy ?r (''b'', ''y'')" "\<not> unhealthy ?r (''a'', ''x'')"
    by (simp_all add: unhealthy_def model_key_def UNHEALTHY_UPTIME_THRESHOLD_def)
  have dep: "deprioritize_unhealthy ?r [(''b'', ''y''), (''a'', ''x'')] = [(''a'', ''x''), (''b'', ''y'')]"
    "deprioritize_unhealthy ?r [(''a'', ''x''), (''b'', ''y'')] = [(''a'', ''x''), (''b'', ''y'')]"
    using health by (simp_all add: deprioritize_unhealthy_def sort_key_bool)
  have req: "cr_provider ?req = Some ?p" "cr_models ?req = None" "cr_model ?req = ''smart''"
    "cr_max_tokens ?req = Some 1000"
    by (simp_all add: capped_request_def)
  have target: "resolve_target_model ?r ?req = (''smart'', False)"
    by (simp add: resolve_target_model_def req)
  have chain0: "resolve_chain ?r ''smart'' None = Inr [(''a'', ''x''), (''b'', ''y'')]"
    by (simp add: resolve_chain_def)
  have prefs: "apply_preferences ?r 0 0 ''smart'' [(''a'', ''x''), (''b'', ''y'')] (Some ?p)
      = (Inr [(''a'', ''x''), (''b'', ''y'')], ?r)"
    by (simp add: apply_preferences_def eligible_def sort_chain_def dep Let_def)
  have cost: "estimated_cost ?r 1000 c = estimated_cost sample_router 1000 c" for c
    by (simp add: estimated_cost_def rates_of_def)
  have budget: "apply_request_budget ?r ''smart'' [(''a'', ''x''), (''b'', ''y'')] ?req
      = Inr [(''b'', ''y''), (''a'', ''x'')]"
    by (simp add: apply_request_budget_def req Let_def fits_cap_def cost sample_costs by_cost_def)
  have "fst (candidate_chain ?r 0 0 ?req) = Inr [(''b'', ''y''), (''a'', ''x'')]"
    by (simp add: candidate_chain_def target req chain0 effective_preferences_def
        auto_routed_price_preference_def prefs filter_by_required_parameters_def budget)
  with health dep show ?thesis by (simp add: Let_def)
qed

section \<open>Reports on the configuration and on observed performance\<close>

text \<open>\<open>priced_models\<close> lists a \<open>HashMap\<close> in no order: it is the set of the entries it reports.
  \<open>id.split('/').next()\<close> is what precedes the first slash, or all of it.\<close>

definition provider_part :: "string \<Rightarrow> string" where
  "provider_part i = takeWhile (\<lambda>c. c \<noteq> CHR ''/'') i"

definition model_info_of :: "router \<Rightarrow> string \<Rightarrow> price_rates \<Rightarrow> model_info option" where
  "model_info_of r i rates =
     map_option (\<lambda>kind.
       \<lparr>mi_id = i, mi_owned_by = provider_part i, mi_context_length = px_context_length rates,
        mi_pricing = Some \<lparr>mp_prompt = px_prompt_ppm rates, mp_completion = px_completion_ppm rates,
                           mp_cache_read = px_cache_read_ppm rates,
                           mp_cache_write = px_cache_write_ppm rates,
                           mp_quality_score = px_quality_score rates\<rparr>,
        mi_supported_params = Some (supported_params kind)\<rparr>)
       (ro_provider_kinds r (provider_part i))"

definition priced_models :: "router \<Rightarrow> model_info set" where
  "priced_models r =
     {info. \<exists>i rates. ro_pricing r i = Some rates \<and> model_info_of r i rates = Some info}"

record provider_stats =
  st_latency_ms :: "f64 option"
  st_throughput_tokens_per_sec :: "f64 option"
  st_uptime :: "f64 option"

definition provider_stats_of :: "router \<Rightarrow> string \<rightharpoonup> provider_stats" where
  "provider_stats_of r key =
     (if ro_latency r key = None \<and> ro_throughput r key = None \<and> ro_uptime r key = None then None
      else Some \<lparr>st_latency_ms = ro_latency r key,
                 st_throughput_tokens_per_sec = ro_throughput r key,
                 st_uptime = ro_uptime r key\<rparr>)"

definition usage_snapshot :: "router \<Rightarrow> (string \<rightharpoonup> usage_stats)" where
  "usage_snapshot r =
     (case ro_persistence r of
        None \<Rightarrow> ro_usage r
      | Some p \<Rightarrow> unwrap_or (ro_usage r) (usage_snapshot_of p))"

definition check_readiness :: "router \<Rightarrow> bool" where
  "check_readiness r = (case ro_persistence r of None \<Rightarrow> True | Some p \<Rightarrow> ping p)"

end
