(* ===== verification/Dispatch.thy ===== *)
theory Dispatch
  imports Chain_Resolution
begin

text \<open>
  Dispatch (\<open>crates/router/src/lib.rs\<close>): trying the candidates of a chain in order with one retry
  each, the accounting of a response, streaming, embeddings, fusion, and the cache-aware entry
  point. One request runs at a time: other requests a running process interleaves between awaits
  are not modelled. A panel's calls run concurrently in the world (\<open>rt_join_all\<close>) and touch no
  state of the router.
\<close>

type_synonym 'w rt = "(provider_handle, 'w) runtime"

section \<open>Retrying one candidate\<close>

definition SAME_PROVIDER_RETRIES :: nat where "SAME_PROVIDER_RETRIES = 1"
definition SAME_PROVIDER_RETRY_BACKOFF :: nat where "SAME_PROVIDER_RETRY_BACKOFF = 200"

fun retry_loop ::
  "nat \<Rightarrow> ('w \<Rightarrow> (provider_error + 'a) \<times> 'w) \<Rightarrow> (nat \<Rightarrow> 'w \<Rightarrow> 'w)
    \<Rightarrow> (provider_error + 'a) \<times> 'w \<Rightarrow> (provider_error + 'a) \<times> 'w" where
  "retry_loop 0 attempt sleep (result, w) = (result, w)"
| "retry_loop (Suc n) attempt sleep (result, w) =
     (case result of
        Inr x \<Rightarrow> (Inr x, w)
      | Inl e \<Rightarrow>
          if is_transient e
          then retry_loop n attempt sleep (attempt (sleep SAME_PROVIDER_RETRY_BACKOFF w))
          else (Inl e, w))"

definition retry_same_provider ::
  "('w \<Rightarrow> (provider_error + 'a) \<times> 'w) \<Rightarrow> (nat \<Rightarrow> 'w \<Rightarrow> 'w) \<Rightarrow> 'w \<Rightarrow> (provider_error + 'a) \<times> 'w"
  where
  "retry_same_provider attempt sleep w = retry_loop SAME_PROVIDER_RETRIES attempt sleep (attempt w)"

section \<open>Updates of the router's state\<close>

abbreviation update_metrics :: "(metrics \<Rightarrow> metrics) \<Rightarrow> router \<Rightarrow> router" where
  "update_metrics f r \<equiv> r\<lparr>ro_metrics := f (ro_metrics r)\<rparr>"

definition check_outbound_rate_limit ::
  "string \<Rightarrow> instant \<Rightarrow> router \<Rightarrow> (provider_error + unit) \<times> router" where
  "check_outbound_rate_limit provider_name now r =
     (case ro_provider_rpm r provider_name of
        None \<Rightarrow> (Inr (), r)
      | Some rpm \<Rightarrow>
          (case check provider_name rpm now (ro_outbound_limiter r) of (res, limiter) \<Rightarrow>
             (case res of
                Inr _ \<Rightarrow> Inr ()
              | Inl status \<Rightarrow> Inl (RateLimited
                  (Some (f64_to_u64 (of_int \<lceil>rl_retry_after_secs status\<rceil>)))),
              r\<lparr>ro_outbound_limiter := limiter\<rparr>)))"

definition record_latency :: "candidate \<Rightarrow> f64 \<Rightarrow> router \<Rightarrow> router" where
  "record_latency c elapsed r =
     r\<lparr>ro_latency := ewma_record (model_key (fst c) (snd c)) (elapsed * 1000) (ro_latency r),
       ro_metrics := observe_latency_seconds (fst c) (snd c) elapsed (ro_metrics r)\<rparr>"

definition record_uptime :: "candidate \<Rightarrow> f64 \<Rightarrow> router \<Rightarrow> router" where
  "record_uptime c sample r =
     r\<lparr>ro_uptime := ewma_record (model_key (fst c) (snd c)) sample (ro_uptime r)\<rparr>"

definition record_outcome :: "candidate \<Rightarrow> string \<Rightarrow> router \<Rightarrow> router" where
  "record_outcome c outcome = update_metrics (record_attempt (fst c) (snd c) outcome)"

definition record_throughput :: "candidate \<Rightarrow> usage \<Rightarrow> f64 \<Rightarrow> router \<Rightarrow> router" where
  "record_throughput c u elapsed r =
     (if 0 < us_completion_tokens u \<and> 0 < elapsed
      then let tps = unsigned (us_completion_tokens u) / elapsed in
        r\<lparr>ro_throughput := ewma_record (model_key (fst c) (snd c)) tps (ro_throughput r),
          ro_metrics := observe_throughput_tps (fst c) (snd c) tps (ro_metrics r)\<rparr>
      else r)"

text \<open>\<open>record_usage\<close> on the router's fields, with the token and cost counters that follow it.\<close>

definition record_usage_cost :: "candidate \<Rightarrow> usage \<Rightarrow> router \<Rightarrow> f64 option \<times> router" where
  "record_usage_cost c u r =
     (case record_usage (ro_pricing r) (fst c) (snd c) u (ro_usage r, ro_persistence r) of
        (cost, usage_map, persistence) \<Rightarrow>
          (cost,
           r\<lparr>ro_usage := usage_map, ro_persistence := persistence,
             ro_metrics := record_tokens_and_cost (fst c) (snd c) (us_prompt_tokens u)
                             (us_completion_tokens u) cost (ro_metrics r)\<rparr>))"

definition record_free_tier :: "candidate \<Rightarrow> usage \<Rightarrow> i64 \<Rightarrow> router \<Rightarrow> router" where
  "record_free_tier c u now r =
     r\<lparr>ro_free_tier_usage :=
        record_tokens (ro_free_tier_settings r) (ro_free_tier_usage r) (model_key (fst c) (snd c))
          (ucast (us_prompt_tokens u + us_completion_tokens u)) now\<rparr>"

definition record_generation :: "generation_record \<Rightarrow> router \<Rightarrow> router" where
  "record_generation rec r = r\<lparr>ro_generations := generation_insert rec (ro_generations r)\<rparr>"

definition generation_of ::
  "string \<Rightarrow> string \<Rightarrow> i64 \<Rightarrow> usage \<Rightarrow> f64 option \<Rightarrow> generation_record" where
  "generation_of i model created u cost =
     \<lparr>gr_id = i, gr_model = model, gr_created = created,
      gr_prompt_tokens = ucast (us_prompt_tokens u),
      gr_completion_tokens = ucast (us_completion_tokens u),
      gr_total_tokens = ucast (us_total_tokens u), gr_cost_usd = cost\<rparr>"

definition generation :: "string \<Rightarrow> router \<Rightarrow> generation_record option" where
  "generation i r = generation_get i (ro_generations r)"

section \<open>The fallback loop\<close>

text \<open>What trying one candidate comes to: it served the request, the loop falls through to the next
  one, or the request fails here.\<close>

datatype 'a tried =
    Served 'a
  | Fell router_error
  | Stopped router_error

fun run_chain ::
  "(candidate \<Rightarrow> router \<Rightarrow> 'w \<Rightarrow> 'a tried \<times> router \<times> 'w) \<Rightarrow> string \<Rightarrow> candidate list \<Rightarrow> u32
    \<Rightarrow> router_error option \<Rightarrow> router \<Rightarrow> 'w \<Rightarrow> (router_error + 'a \<times> u32) \<times> router \<times> 'w" where
  "run_chain step target [] tries last_err r w =
     (Inl (unwrap_or (InvalidModel target) last_err), r, w)"
| "run_chain step target (c # cs) tries last_err r w =
     (case step c r w of
        (Served x, r', w') \<Rightarrow> (Inr (x, tries + 1), r', w')
      | (Fell e, r', w') \<Rightarrow> run_chain step target cs (tries + 1) (Some e) r' w'
      | (Stopped e, r', w') \<Rightarrow> (Inl e, r', w'))"

text \<open>The part every candidate shares: skip it when it is not configured or over its own limit, else
  call it with retries and sort the outcome by the error's class. \<open>on_ok\<close> and \<open>on_error\<close> are the
  bookkeeping of the caller's kind of request.\<close>

definition try_candidate ::
  "'w rt \<Rightarrow> (provider_handle \<Rightarrow> candidate \<Rightarrow> router \<Rightarrow> 'w \<Rightarrow> (provider_error + 'a) \<times> 'w)
    \<Rightarrow> (candidate \<Rightarrow> instant \<Rightarrow> 'a \<Rightarrow> router \<Rightarrow> 'w \<Rightarrow> 'b \<times> router)
    \<Rightarrow> (candidate \<Rightarrow> router \<Rightarrow> router) \<Rightarrow> candidate \<Rightarrow> router \<Rightarrow> 'w
    \<Rightarrow> 'b tried \<times> router \<times> 'w" where
  "try_candidate rt call on_ok on_error c r w =
     (case ro_providers r (fst c) of
        None \<Rightarrow> (Fell (ProviderNotConfigured (fst c)), record_outcome c ''not_configured'' r, w)
      | Some provider \<Rightarrow>
          (case check_outbound_rate_limit (fst c) (rt_instant rt w) r of
             (Inl e, r1) \<Rightarrow> (Fell (ProviderErr e), record_outcome c ''rate_limited'' r1, w)
           | (Inr _, r1) \<Rightarrow>
               (let started_at = rt_instant rt w in
                case retry_same_provider (call provider c r1) (rt_sleep rt) w of
                  (Inr x, w1) \<Rightarrow>
                    (case on_ok c started_at x r1 w1 of (y, r2) \<Rightarrow> (Served y, r2, w1))
                | (Inl e, w1) \<Rightarrow>
                    if is_retryable e
                    then (Fell (ProviderErr e), record_outcome c ''retryable_error'' (on_error c r1), w1)
                    else (Stopped (ProviderErr e), record_outcome c ''error'' (on_error c r1), w1))))"

section \<open>Chat requests\<close>

definition call_chat ::
  "'w rt \<Rightarrow> chat_request \<Rightarrow> provider_handle \<Rightarrow> candidate \<Rightarrow> router \<Rightarrow> 'w
    \<Rightarrow> (provider_error + chat_response) \<times> 'w" where
  "call_chat rt req provider c r =
     rt_chat rt provider (snd c)
       (request_to_send req (fst c) (snd c) (ro_pricing r) (ro_reasoning_replay r))
       (byok_key_for req (fst c))"

text \<open>The usage of a response is recorded, its cost stamped on it, and the generation filed.\<close>

definition account_chat ::
  "'w rt \<Rightarrow> candidate \<Rightarrow> f64 \<Rightarrow> chat_response \<Rightarrow> router \<Rightarrow> 'w \<Rightarrow> chat_response \<times> router" where
  "account_chat rt c elapsed resp r w =
     (case rs_usage resp of
        None \<Rightarrow> (resp, r)
      | Some u \<Rightarrow>
          (case record_usage_cost c u (record_throughput c u elapsed r) of (cost, r1) \<Rightarrow>
             (resp\<lparr>rs_cost_usd := cost\<rparr>,
              record_generation
                (generation_of (rs_id resp) (rs_model resp) (rs_created resp) u cost)
                (record_free_tier c u (rt_unix rt w) r1))))"

definition chat_ok ::
  "'w rt \<Rightarrow> candidate \<Rightarrow> instant \<Rightarrow> chat_response \<Rightarrow> router \<Rightarrow> 'w \<Rightarrow> chat_response \<times> router" where
  "chat_ok rt c started_at resp r w =
     (let elapsed = elapsed_secs (rt_instant rt w) started_at;
          r1 = record_outcome c ''success'' (record_uptime c 1 (record_latency c elapsed r))
      in case account_chat rt c elapsed resp r1 w of (resp', r2) \<Rightarrow>
           (resp', r2\<lparr>ro_reasoning_replay :=
                      cache_reasoning_for_replay (ro_reasoning_replay r2) resp'\<rparr>))"

definition chat_step ::
  "'w rt \<Rightarrow> chat_request \<Rightarrow> candidate \<Rightarrow> router \<Rightarrow> 'w \<Rightarrow> chat_response tried \<times> router \<times> 'w" where
  "chat_step rt req = try_candidate rt (call_chat rt req) (chat_ok rt) (\<lambda>c. record_uptime c 0)"

section \<open>Streaming\<close>

text \<open>A stream handed to the HTTP layer: its items are instrumented as they are consumed.\<close>

record instrumented_stream =
  is_candidate :: candidate
  is_started_at :: instant
  is_items :: chat_stream

definition instrument_chunk ::
  "candidate \<Rightarrow> instant \<Rightarrow> instant \<Rightarrow> i64 \<Rightarrow> chat_chunk \<Rightarrow> router \<Rightarrow> chat_chunk \<times> router" where
  "instrument_chunk c started_at now unix chunk r =
     (case ck_usage chunk of
        None \<Rightarrow> (chunk, r)
      | Some u \<Rightarrow>
          if 0 < us_completion_tokens u then
            (case record_usage_cost c u (record_throughput c u (elapsed_secs now started_at) r) of
               (cost, r1) \<Rightarrow>
                 (chunk\<lparr>ck_cost_usd := cost\<rparr>,
                  record_generation
                    (generation_of (ck_id chunk) (ck_model chunk) (ck_created chunk) u cost)
                    (record_free_tier c u unix r1)))
          else (chunk, r))"

definition instrument_item ::
  "candidate \<Rightarrow> instant \<Rightarrow> instant \<Rightarrow> i64 \<Rightarrow> provider_error + chat_chunk \<Rightarrow> router
    \<Rightarrow> (provider_error + chat_chunk) \<times> router" where
  "instrument_item c started_at now unix item r =
     (case item of
        Inl e \<Rightarrow> (Inl e, r)
      | Inr chunk \<Rightarrow> (case instrument_chunk c started_at now unix chunk r of (chunk', r') \<Rightarrow> (Inr chunk', r')))"

text \<open>Consuming a stream: each item with the times at which it is polled.\<close>

fun consume_items ::
  "candidate \<Rightarrow> instant \<Rightarrow> (instant \<times> i64 \<times> (provider_error + chat_chunk)) list \<Rightarrow> router
    \<Rightarrow> chat_stream \<times> router" where
  "consume_items c started_at [] r = ([], r)"
| "consume_items c started_at ((now, unix, item) # items) r =
     (case instrument_item c started_at now unix item r of (item', r1) \<Rightarrow>
        (case consume_items c started_at items r1 of (out, r2) \<Rightarrow> (item' # out, r2)))"

definition call_chat_stream ::
  "'w rt \<Rightarrow> chat_request \<Rightarrow> provider_handle \<Rightarrow> candidate \<Rightarrow> router \<Rightarrow> 'w
    \<Rightarrow> (provider_error + chat_stream) \<times> 'w" where
  "call_chat_stream rt req provider c r =
     rt_chat_stream rt provider (snd c)
       (request_to_send req (fst c) (snd c) (ro_pricing r) (ro_reasoning_replay r))
       (byok_key_for req (fst c))"

definition stream_ok ::
  "'w rt \<Rightarrow> candidate \<Rightarrow> instant \<Rightarrow> chat_stream \<Rightarrow> router \<Rightarrow> 'w \<Rightarrow> instrumented_stream \<times> router" where
  "stream_ok rt c started_at stream r w =
     (\<lparr>is_candidate = c, is_started_at = started_at, is_items = stream\<rparr>,
      record_outcome c ''success''
        (record_uptime c 1 (record_latency c (elapsed_secs (rt_instant rt w) started_at) r)))"

definition stream_step ::
  "'w rt \<Rightarrow> chat_request \<Rightarrow> candidate \<Rightarrow> router \<Rightarrow> 'w \<Rightarrow> instrumented_stream tried \<times> router \<times> 'w"
  where
  "stream_step rt req = try_candidate rt (call_chat_stream rt req) (stream_ok rt) (\<lambda>c. record_uptime c 0)"

section \<open>Embeddings\<close>

definition embed_step ::
  "'w rt \<Rightarrow> embeddings_request \<Rightarrow> candidate \<Rightarrow> router \<Rightarrow> 'w
    \<Rightarrow> embeddings_response tried \<times> router \<times> 'w" where
  "embed_step rt req =
     try_candidate rt (\<lambda>provider c r. rt_embeddings rt provider (snd c) req None)
       (\<lambda>c started_at resp r w. (resp, record_outcome c ''success'' r)) (\<lambda>c r. r)"

definition embeddings ::
  "'w rt \<Rightarrow> embeddings_request \<Rightarrow> router \<Rightarrow> 'w
    \<Rightarrow> (router_error + embeddings_response) \<times> router \<times> 'w" where
  "embeddings rt req r w =
     (case resolve_chain r (er_model req) None of
        Inl e \<Rightarrow> (Inl e, r, w)
      | Inr chain \<Rightarrow>
          (case run_chain (embed_step rt req) (er_model req) chain 0 None r w of
             (res, r', w') \<Rightarrow> (map_sum id fst res, r', w')))"

section \<open>The loop tries candidates in order\<close>

lemma retry_loop_0 [simp]: "retry_loop 0 attempt sleep rw = rw"
  by (cases rw) simp

lemma retry_same_provider_unfold:
  "retry_same_provider attempt sleep w =
     (case attempt w of
        (Inr x, w1) \<Rightarrow> (Inr x, w1)
      | (Inl e, w1) \<Rightarrow>
          if is_transient e then attempt (sleep SAME_PROVIDER_RETRY_BACKOFF w1) else (Inl e, w1))"
  by (auto simp: retry_same_provider_def SAME_PROVIDER_RETRIES_def split: prod.split sum.split)

text \<open>The states a chain is tried from: the one before its \<open>i\<close>th candidate.\<close>

fun state_before ::
  "(candidate \<Rightarrow> router \<Rightarrow> 'w \<Rightarrow> 'a tried \<times> router \<times> 'w) \<Rightarrow> candidate list \<Rightarrow> router \<times> 'w \<Rightarrow> nat
    \<Rightarrow> router \<times> 'w" where
  "state_before step cs s 0 = s"
| "state_before step [] s (Suc i) = s"
| "state_before step (c # cs) s (Suc i) = state_before step cs (snd (step c (fst s) (snd s))) i"

definition tried_at ::
  "(candidate \<Rightarrow> router \<Rightarrow> 'w \<Rightarrow> 'a tried \<times> router \<times> 'w) \<Rightarrow> candidate list \<Rightarrow> router \<times> 'w \<Rightarrow> nat
    \<Rightarrow> 'a tried" where
  "tried_at step cs s i =
     (case state_before step cs s i of (r, w) \<Rightarrow> fst (step (cs ! i) r w))"

lemma tried_at_simps [simp]:
  "tried_at step (c # cs) s 0 = fst (step c (fst s) (snd s))"
  "tried_at step (c # cs) s (Suc i) = tried_at step cs (snd (step c (fst s) (snd s))) i"
  by (simp_all add: tried_at_def split: prod.split)

lemma run_chain_spec:
  assumes "run_chain step target cs n last_err r w = (res, r', w')"
  shows "(\<exists>i<length cs. (\<forall>j<i. \<exists>e. tried_at step cs (r, w) j = Fell e)
            \<and> ((\<exists>x. tried_at step cs (r, w) i = Served x \<and> res = Inr (x, n + of_nat (Suc i)))
               \<or> (\<exists>e. tried_at step cs (r, w) i = Stopped e \<and> res = Inl e))
            \<and> (r', w') = state_before step cs (r, w) (Suc i))
       \<or> ((\<forall>j<length cs. \<exists>e. tried_at step cs (r, w) j = Fell e)
            \<and> res = Inl (if cs = [] then unwrap_or (InvalidModel target) last_err
                         else case tried_at step cs (r, w) (length cs - 1) of
                           Fell e \<Rightarrow> e | _ \<Rightarrow> InvalidModel target)
            \<and> (r', w') = state_before step cs (r, w) (length cs))"
  using assms
proof (induction cs arbitrary: n last_err r w)
  case Nil then show ?case by auto
next
  case (Cons c cs)
  obtain t r1 w1 where step: "step c r w = (t, r1, w1)" by (rule prod_cases3)
  show ?case
  proof (cases t)
    case (Served x)
    with Cons.prems step show ?thesis by (intro disjI1 exI [of _ 0]) auto
  next
    case (Stopped e)
    with Cons.prems step show ?thesis by (intro disjI1 exI [of _ 0]) auto
  next
    case (Fell e)
    have all: "(\<forall>j<Suc m. P j) \<longleftrightarrow> P 0 \<and> (\<forall>j<m. P (Suc j))" for P and m :: nat
      using less_Suc_eq_0_disj by auto
    from Fell Cons.prems step have "run_chain step target cs (n + 1) (Some e) r1 w1 = (res, r', w')"
      by simp
    from Cons.IH [OF this] show ?thesis
    proof (rule disjE)
      assume "\<exists>i<length cs. (\<forall>j<i. \<exists>e. tried_at step cs (r1, w1) j = Fell e)
            \<and> ((\<exists>x. tried_at step cs (r1, w1) i = Served x \<and> res = Inr (x, n + 1 + of_nat (Suc i)))
               \<or> (\<exists>e. tried_at step cs (r1, w1) i = Stopped e \<and> res = Inl e))
            \<and> (r', w') = state_before step cs (r1, w1) (Suc i)"
      then obtain i where i: "i < length cs" "\<forall>j<i. \<exists>e. tried_at step cs (r1, w1) j = Fell e"
        "(\<exists>x. tried_at step cs (r1, w1) i = Served x \<and> res = Inr (x, n + 1 + of_nat (Suc i)))
          \<or> (\<exists>e. tried_at step cs (r1, w1) i = Stopped e \<and> res = Inl e)"
        "(r', w') = state_before step cs (r1, w1) (Suc i)" by blast
      then show ?thesis
        using step Fell by (intro disjI1 exI [of _ "Suc i"]) (auto simp: all algebra_simps)
    next
      assume h: "(\<forall>j<length cs. \<exists>e. tried_at step cs (r1, w1) j = Fell e)
            \<and> res = Inl (if cs = [] then unwrap_or (InvalidModel target) (Some e)
                         else case tried_at step cs (r1, w1) (length cs - 1) of
                           Fell e \<Rightarrow> e | _ \<Rightarrow> InvalidModel target)
            \<and> (r', w') = state_before step cs (r1, w1) (length cs)"
      then show ?thesis
        using step Fell by (intro disjI2) (cases cs; auto simp: all)
    qed
  qed
qed

section \<open>Every step keeps the router's invariant\<close>

text \<open>A property of the router that trying one candidate keeps is kept by a whole chain.\<close>

locale candidate_step =
  fixes step :: "candidate \<Rightarrow> router \<Rightarrow> 'w \<Rightarrow> 'a tried \<times> router \<times> 'w"
    and keeps :: "router \<Rightarrow> bool"
  assumes step_keeps: "keeps r \<Longrightarrow> keeps (fst (snd (step c r w)))"
begin

lemma run_chain_keeps: "keeps r \<Longrightarrow> keeps (fst (snd (run_chain step target cs n last_err r w)))"
proof (induction cs arbitrary: n last_err r w)
  case Nil then show ?case by simp
next
  case (Cons c cs)
  obtain t r1 w1 where step: "step c r w = (t, r1, w1)" by (rule prod_cases3)
  with step_keeps [OF Cons.prems, of c w] have "keeps r1" by simp
  with step Cons.IH show ?case by (cases t) auto
qed

end

lemma unit_range_ewma:
  "unit_range m \<Longrightarrow> 0 \<le> s \<Longrightarrow> s \<le> 1 \<Longrightarrow> unit_range (ewma_record k s m)"
  unfolding unit_range_def by (rule ewma_record_range)

lemma record_outcome_inv [intro]: "router_inv r \<Longrightarrow> router_inv (record_outcome c out r)"
  by (erule router_invI) (simp_all add: record_outcome_def)

lemma record_latency_inv [intro]: "router_inv r \<Longrightarrow> router_inv (record_latency c x r)"
  by (erule router_invI) (simp_all add: record_latency_def)

lemma record_uptime_inv [intro]:
  "router_inv r \<Longrightarrow> 0 \<le> s \<Longrightarrow> s \<le> 1 \<Longrightarrow> router_inv (record_uptime c s r)"
  by (erule router_invI) (simp_all add: record_uptime_def unit_range_ewma)

lemma record_throughput_inv [intro]: "router_inv r \<Longrightarrow> router_inv (record_throughput c u x r)"
  by (erule router_invI) (simp_all add: record_throughput_def Let_def)

lemma record_usage_cost_inv [intro]: "router_inv r \<Longrightarrow> router_inv (snd (record_usage_cost c u r))"
  by (erule router_invI) (simp_all add: record_usage_cost_def split: prod.splits)

lemma record_free_tier_inv [intro]: "router_inv r \<Longrightarrow> router_inv (record_free_tier c u now r)"
  by (erule router_invI)
    (auto simp: record_free_tier_def record_tokens_def Let_def split: option.splits)

lemma record_generation_inv [intro]: "router_inv r \<Longrightarrow> router_inv (record_generation rec r)"
  by (erule router_invI) (simp_all add: record_generation_def generation_insert_inv)

lemma check_outbound_inv [intro]:
  "router_inv r \<Longrightarrow> router_inv (snd (check_outbound_rate_limit p now r))"
proof -
  assume inv: "router_inv r"
  have "limiter_inv l" if "limiter_inv (ro_outbound_limiter r)"
    "check p rpm now (ro_outbound_limiter r) = (x, l)" for rpm x l
    using check_inv [OF that(1), of p rpm now] that(2) by simp
  with inv show ?thesis
    by (intro router_invI [OF inv])
      (auto simp: check_outbound_rate_limit_def split: option.splits prod.splits)
qed

lemma account_chat_inv [intro]:
  "router_inv r \<Longrightarrow> router_inv (snd (account_chat rt c x resp r w))"
proof -
  assume inv: "router_inv r"
  have "router_inv r1" if "record_usage_cost c u (record_throughput c u x r) = (cost, r1)" for u cost r1
    using record_usage_cost_inv [OF record_throughput_inv [OF inv], of c u c u x] that by simp
  with inv show ?thesis
    by (cases "rs_usage resp")
      (auto simp: account_chat_def split: prod.split intro!: record_generation_inv record_free_tier_inv)
qed

lemma chat_ok_inv: "router_inv r \<Longrightarrow> router_inv (snd (chat_ok rt c t0 resp r w))"
proof -
  assume inv: "router_inv r"
  let ?x = "elapsed_secs (rt_instant rt w) t0"
  let ?r1 = "record_outcome c ''success'' (record_uptime c 1 (record_latency c ?x r))"
  obtain resp' r2 where acc: "account_chat rt c ?x resp ?r1 w = (resp', r2)" by fastforce
  have "router_inv ?r1" using inv by (intro record_outcome_inv record_uptime_inv record_latency_inv) simp_all
  with account_chat_inv [of ?r1 rt c ?x resp w] acc have "router_inv r2" by simp
  then have "router_inv (r2\<lparr>ro_reasoning_replay := cache_reasoning_for_replay (ro_reasoning_replay r2) resp'\<rparr>)"
    by (rule router_invI) (simp_all add: cache_reasoning_inv)
  with acc show ?thesis by (simp add: chat_ok_def Let_def)
qed

lemma stream_ok_inv: "router_inv r \<Longrightarrow> router_inv (snd (stream_ok rt c t0 stream r w))"
  by (simp add: stream_ok_def record_outcome_inv record_uptime_inv record_latency_inv)

lemma try_candidate_keeps:
  assumes "K r"
    and "\<And>p now r. K r \<Longrightarrow> K (snd (check_outbound_rate_limit p now r))"
    and "\<And>c out r. K r \<Longrightarrow> K (record_outcome c out r)"
    and "\<And>c t0 x r w. K r \<Longrightarrow> K (snd (on_ok c t0 x r w))"
    and "\<And>c r. K r \<Longrightarrow> K (on_error c r)"
  shows "K (fst (snd (try_candidate rt call on_ok on_error c r w)))"
proof -
  obtain lim r1 where l: "check_outbound_rate_limit (fst c) (rt_instant rt w) r = (lim, r1)" by fastforce
  with assms(2) [OF assms(1)] have r1: "K r1" by (metis snd_conv)
  have "K r2" if "on_ok c t0 x r1 w1 = (y, r2)" for t0 x w1 y r2
    using assms(4) [OF r1] that by (metis snd_conv)
  moreover have "K (record_outcome c out (on_error c r1))" for out
    using assms(3) assms(5) [OF r1] by blast
  ultimately show ?thesis
    using assms(1,3) r1 l
    by (auto simp: try_candidate_def Let_def split: option.splits prod.splits sum.splits)
qed

lemmas try_candidate_inv =
  try_candidate_keeps [of router_inv, OF _ check_outbound_inv record_outcome_inv]

interpretation chat: candidate_step "chat_step rt req" router_inv for rt req
  unfolding chat_step_def
  by unfold_locales (rule try_candidate_inv; blast intro: chat_ok_inv record_uptime_inv zero_le_one order_refl)

interpretation stream: candidate_step "stream_step rt req" router_inv for rt req
  unfolding stream_step_def
  by unfold_locales (rule try_candidate_inv; blast intro: stream_ok_inv record_uptime_inv zero_le_one order_refl)

interpretation embed: candidate_step "embed_step rt req" router_inv for rt req
  unfolding embed_step_def
  by unfold_locales (rule try_candidate_inv; auto)

section \<open>Every step leaves the configuration alone\<close>

text \<open>A router with everything a dispatch may change erased.\<close>

definition fixed :: "router \<Rightarrow> router" where
  "fixed r = r\<lparr>ro_latency := Map.empty, ro_throughput := Map.empty, ro_uptime := Map.empty,
              ro_usage := Map.empty,
              ro_persistence := map_option (\<lambda>ps. ps\<lparr>ps_pending := []\<rparr>) (ro_persistence r),
              ro_generations := empty_generation_cache,
              ro_reasoning_replay := empty_reasoning_cache, ro_metrics := new_metrics,
              ro_outbound_limiter := Map.empty, ro_free_tier_usage := Map.empty\<rparr>"

lemma fixed_updates [simp]:
  "fixed (r\<lparr>ro_latency := a\<rparr>) = fixed r" "fixed (r\<lparr>ro_throughput := a\<rparr>) = fixed r"
  "fixed (r\<lparr>ro_uptime := a\<rparr>) = fixed r" "fixed (r\<lparr>ro_usage := b\<rparr>) = fixed r"
  "fixed (r\<lparr>ro_generations := e\<rparr>) = fixed r"
  "fixed (r\<lparr>ro_reasoning_replay := f\<rparr>) = fixed r" "fixed (r\<lparr>ro_metrics := g\<rparr>) = fixed r"
  "fixed (r\<lparr>ro_outbound_limiter := h\<rparr>) = fixed r" "fixed (r\<lparr>ro_free_tier_usage := i\<rparr>) = fixed r"
  by (simp_all add: fixed_def)

lemma fixedD:
  assumes "fixed r = fixed r'"
  shows "ro_providers r = ro_providers r'" "ro_routes r = ro_routes r'" "ro_pricing r = ro_pricing r'"
    "ro_cache r = ro_cache r'" "ro_semantic_cache r = ro_semantic_cache r'"
    "ro_embedding_model r = ro_embedding_model r'" "ro_fusion_routes r = ro_fusion_routes r'"
    "ro_auto_routing r = ro_auto_routing r'" "ro_provider_rpm r = ro_provider_rpm r'"
    "ro_client_spend r = ro_client_spend r'" "ro_client_budgets r = ro_client_budgets r'"
    "ro_notified r = ro_notified r'" "ro_free_tier_settings r = ro_free_tier_settings r'"
  using assms [THEN arg_cong, of ro_providers] assms [THEN arg_cong, of ro_routes]
    assms [THEN arg_cong, of ro_pricing] assms [THEN arg_cong, of ro_cache]
    assms [THEN arg_cong, of ro_semantic_cache] assms [THEN arg_cong, of ro_embedding_model]
    assms [THEN arg_cong, of ro_fusion_routes] assms [THEN arg_cong, of ro_auto_routing]
    assms [THEN arg_cong, of ro_provider_rpm] assms [THEN arg_cong, of ro_client_spend]
    assms [THEN arg_cong, of ro_client_budgets] assms [THEN arg_cong, of ro_notified]
    assms [THEN arg_cong, of ro_free_tier_settings]
  unfolding fixed_def by simp_all

lemma fixed_records [simp]:
  "fixed (record_outcome c out r) = fixed r" "fixed (record_latency c x r) = fixed r"
  "fixed (record_uptime c x r) = fixed r" "fixed (record_throughput c u x r) = fixed r"
  "fixed (record_free_tier c u n r) = fixed r" "fixed (record_generation g r) = fixed r"
  by (simp_all add: record_outcome_def record_latency_def record_uptime_def record_throughput_def
      record_free_tier_def record_generation_def Let_def)

lemma fixed_usage_cost [simp]: "fixed (snd (record_usage_cost c u r)) = fixed r"
  by (simp add: record_usage_cost_def record_usage_def Let_def fixed_def persistence_record_def
      enqueue_def option.map_comp comp_def)

lemma fixed_outbound [simp]: "fixed (snd (check_outbound_rate_limit p now r)) = fixed r"
  by (simp add: check_outbound_rate_limit_def case_prod_beta split: option.split)

lemma fixed_account_chat [simp]: "fixed (snd (account_chat rt c x resp r w)) = fixed r"
proof -
  have "fixed r1 = fixed r" if "record_usage_cost c u (record_throughput c u x r) = (cost, r1)" for u cost r1
    using fixed_usage_cost [of c u "record_throughput c u x r"] that by simp
  then show ?thesis by (auto simp: account_chat_def split: option.split prod.split)
qed

lemma fixed_chat_ok [simp]: "fixed (snd (chat_ok rt c t0 resp r w)) = fixed r"
  by (simp add: chat_ok_def Let_def case_prod_beta)

lemma fixed_stream_ok [simp]: "fixed (snd (stream_ok rt c t0 stream r w)) = fixed r"
  by (simp add: stream_ok_def)

interpretation chat_fixed: candidate_step "chat_step rt req" "\<lambda>r. fixed r = k" for rt req k
  unfolding chat_step_def by unfold_locales (rule try_candidate_keeps; simp)

interpretation stream_fixed: candidate_step "stream_step rt req" "\<lambda>r. fixed r = k" for rt req k
  unfolding stream_step_def by unfold_locales (rule try_candidate_keeps; simp)

interpretation embed_fixed: candidate_step "embed_step rt req" "\<lambda>r. fixed r = k" for rt req k
  unfolding embed_step_def by unfold_locales (rule try_candidate_keeps; simp)

end
