(* ===== verification/Sample_World.thy ===== *)
theory Sample_World
  imports Dispatch
begin

text \<open>
  A concrete world for evaluating dispatch: a clock in nanoseconds and the replies the providers
  will give, each with the time it takes. A call takes the next reply whoever it is made to; an
  exhausted script answers with an error. Panel tasks run one after another.
\<close>

type_synonym 'a reply = "nat \<times> (provider_error + 'a)"
type_synonym script = "nat \<times> chat_response reply list"

definition scripted_chat ::
  "provider_handle \<Rightarrow> string \<Rightarrow> chat_request \<Rightarrow> string option \<Rightarrow> script
    \<Rightarrow> (provider_error + chat_response) \<times> script" where
  "scripted_chat p m req key w =
     (case snd w of
        [] \<Rightarrow> (Inl (Other ''exhausted''), w)
      | (d, reply) # rest \<Rightarrow> (reply, (fst w + d, rest)))"

definition scripted_timeout ::
  "nat \<Rightarrow> (script \<Rightarrow> (provider_error + chat_response) \<times> script) \<Rightarrow> script
    \<Rightarrow> (provider_error + chat_response) option \<times> script" where
  "scripted_timeout d task w =
     (case task w of (x, w') \<Rightarrow>
        if fst w' \<le> fst w + d then (Some x, w') else (None, (fst w + d, snd w')))"

fun run_tasks :: "('w \<Rightarrow> 'a \<times> 'w) list \<Rightarrow> 'w \<Rightarrow> 'a list \<times> 'w" where
  "run_tasks [] w = ([], w)"
| "run_tasks (task # tasks) w =
     (case task w of (x, w1) \<Rightarrow> (case run_tasks tasks w1 of (xs, w2) \<Rightarrow> (x # xs, w2)))"

definition scripted :: "script rt" where
  "scripted =
     \<lparr>rt_chat = scripted_chat,
      rt_chat_stream = (\<lambda>p m req key w. (Inr [], w)),
      rt_embeddings = (\<lambda>p m req key w. (Inl (UnsupportedFeature ''embeddings''), w)),
      rt_sleep = (\<lambda>ms w. (fst w + ms * 1000000, snd w)),
      rt_timeout = scripted_timeout,
      rt_join_all = run_tasks,
      rt_instant = fst,
      rt_unix = (\<lambda>w. int (fst w div 1000000000)),
      rt_nanos = (\<lambda>w. of_nat (fst w)),
      rt_hash = (\<lambda>req. of_nat (length (cr_model req)))\<rparr>"

lemma scripted_simps [simp]:
  "rt_chat scripted = scripted_chat"
  "rt_chat_stream scripted p m req key w = (Inr [], w)"
  "rt_sleep scripted ms w = (fst w + ms * 1000000, snd w)"
  "rt_timeout scripted = scripted_timeout" "rt_join_all scripted = run_tasks"
  "rt_instant scripted w = fst w" "rt_unix scripted w = int (fst w div 1000000000)"
  "rt_hash scripted req = of_nat (length (cr_model req))"
  by (simp_all add: scripted_def)

lemma scripted_chat_simps [simp]:
  "scripted_chat p m req key (t, []) = (Inl (Other ''exhausted''), (t, []))"
  "scripted_chat p m req key (t, (d, reply) # rest) = (reply, (t + d, rest))"
  by (simp_all add: scripted_chat_def)

text \<open>An answer of ten completion tokens, and the usage it reports.\<close>

definition ten_tokens :: usage where
  "ten_tokens =
     \<lparr>us_prompt_tokens = 5, us_completion_tokens = 10, us_total_tokens = 15,
      us_cached_tokens = None, us_cache_creation_tokens = None\<rparr>"

definition answer :: "string \<Rightarrow> chat_response" where
  "answer text =
     \<lparr>rs_id = ''id-'' @ text, rs_created = 0, rs_model = ''a/x'',
      rs_choices = [\<lparr>ch_index = 0, ch_message = assistant_message text,
                     ch_finish_reason = Some ''stop'', ch_logprobs = None\<rparr>],
      rs_usage = Some ten_tokens, rs_cost_usd = None\<rparr>"

lemma answer_simps [simp]:
  "rs_usage (answer text) = Some ten_tokens" "rs_model (answer text) = ''a/x''"
  "rs_id (answer text) = ''id-'' @ text" "rs_created (answer text) = 0"
  "msg_tool_calls (ch_message (hd (rs_choices (answer text)))) = None"
  "msg_reasoning (ch_message (hd (rs_choices (answer text)))) = None"
  by (simp_all add: answer_def assistant_message_def plain_message_def)

lemma ten_tokens_simps [simp]:
  "us_prompt_tokens ten_tokens = 5" "us_completion_tokens ten_tokens = 10"
  "us_total_tokens ten_tokens = 15" "us_cached_tokens ten_tokens = None"
  "us_cache_creation_tokens ten_tokens = None"
  by (simp_all add: ten_tokens_def)

lemma sample_router_providers:
  "ro_providers sample_router name =
     (if name = ''a'' then Some \<lparr>ph_kind = Openai, ph_name = ''a'', ph_base_url = ''http://x'',
                                ph_api_key = ''k'', ph_timeout = 30000000000\<rparr>
      else if name = ''b'' then Some \<lparr>ph_kind = Anthropic, ph_name = ''b'', ph_base_url = ''http://x'',
                                ph_api_key = ''k'', ph_timeout = 30000000000\<rparr>
      else None)"
  by (auto simp: sample_router_def from_config_def sample_config_def Let_def caches_of_def
      configured_map_def provider_of_def env_nonempty_def sample_provider_def)

end
