(* ===== verification/Dispatch_Facts.thy ===== *)
theory Dispatch_Facts
  imports Sample_World
begin

text \<open>
  What trying one candidate comes to: which error lets the chain fall through, how often the
  provider is called, the attempt counted, and the accounting of an answer and of a stream.
\<close>

section \<open>The outcome of one candidate\<close>

text \<open>The reply of a provider after the one retry, and the label its outcome is counted under.\<close>

definition reply_with_retry ::
  "'w rt \<Rightarrow> ('w \<Rightarrow> (provider_error + 'a) \<times> 'w) \<Rightarrow> 'w \<Rightarrow> (provider_error + 'a) \<times> 'w" where
  "reply_with_retry rt call w =
     (case call w of
        (Inr x, w1) \<Rightarrow> (Inr x, w1)
      | (Inl e, w1) \<Rightarrow> if is_transient e then call (rt_sleep rt 200 w1) else (Inl e, w1))"

lemma retry_is_reply_with_retry:
  "retry_same_provider call (rt_sleep rt) w = reply_with_retry rt call w"
  unfolding retry_same_provider_unfold reply_with_retry_def SAME_PROVIDER_RETRY_BACKOFF_def
  by (rule refl)

lemma record_outcome_attempts [simp]:
  "attempts (ro_metrics (record_outcome c out r)) p m out' =
     attempts (ro_metrics r) p m out' + (if (p, m, out') = (fst c, snd c, out) then 1 else 0)"
  by (simp add: record_outcome_def)

lemma dispatch_frame [frame_simps]:
  "mt_dispatch_attempts_total (ro_metrics (record_latency c x r)) = mt_dispatch_attempts_total (ro_metrics r)"
  "ro_metrics (record_uptime c x r) = ro_metrics r"
  "mt_dispatch_attempts_total (ro_metrics (record_throughput c u x r)) = mt_dispatch_attempts_total (ro_metrics r)"
  "mt_dispatch_attempts_total (ro_metrics (snd (record_usage_cost c u r))) = mt_dispatch_attempts_total (ro_metrics r)"
  "ro_metrics (record_free_tier c u unix r) = ro_metrics r"
  "ro_metrics (record_generation rec r) = ro_metrics r"
  "ro_metrics (snd (check_outbound_rate_limit p now r)) = ro_metrics r"
  by (auto simp: record_latency_def record_uptime_def record_throughput_def record_usage_cost_def
      record_free_tier_def record_generation_def check_outbound_rate_limit_def Let_def frame_simps
      split: prod.split option.split)

text \<open>The label an outcome is counted under.\<close>

fun outcome_label :: "router \<Rightarrow> candidate \<Rightarrow> 'w rt \<Rightarrow> 'w \<Rightarrow> 'a tried \<Rightarrow> string" where
  "outcome_label r c rt w (Served x) = ''success''"
| "outcome_label r c rt w (Stopped e) = ''error''"
| "outcome_label r c rt w (Fell e) =
     (if ro_providers r (fst c) = None then ''not_configured''
      else if isl (fst (check_outbound_rate_limit (fst c) (rt_instant rt w) r)) then ''rate_limited''
      else ''retryable_error'')"

lemma account_chat_frame:
  assumes "account_chat rt c x resp r w = (resp', r')"
  shows "\<exists>cost. resp' = resp\<lparr>rs_cost_usd := cost\<rparr>"
    and "mt_dispatch_attempts_total (ro_metrics r') = mt_dispatch_attempts_total (ro_metrics r)"
proof -
  have "(\<exists>cost. resp' = resp\<lparr>rs_cost_usd := cost\<rparr>)
    \<and> mt_dispatch_attempts_total (ro_metrics r') = mt_dispatch_attempts_total (ro_metrics r)"
  proof (cases "rs_usage resp")
    case None
    with assms have "resp' = resp\<lparr>rs_cost_usd := rs_cost_usd resp\<rparr>" "r' = r"
      by (simp_all add: account_chat_def)
    then show ?thesis by blast
  next
    case (Some u)
    obtain cost r1 where rec: "record_usage_cost c u (record_throughput c u x r) = (cost, r1)" by fastforce
    then have "mt_dispatch_attempts_total (ro_metrics r1) = mt_dispatch_attempts_total (ro_metrics r)"
      using dispatch_frame(3,4) by (metis snd_conv)
    with assms Some rec show ?thesis by (auto simp: account_chat_def dispatch_frame)
  qed
  then show "\<exists>cost. resp' = resp\<lparr>rs_cost_usd := cost\<rparr>"
    and "mt_dispatch_attempts_total (ro_metrics r') = mt_dispatch_attempts_total (ro_metrics r)" by auto
qed

lemma chat_ok_frame:
  assumes "chat_ok rt c t0 resp r w = (resp', r')"
  shows "\<exists>cost. resp' = resp\<lparr>rs_cost_usd := cost\<rparr>"
    and "attempts (ro_metrics r') p m out =
      attempts (ro_metrics r) p m out + (if (p, m, out) = (fst c, snd c, ''success'') then 1 else 0)"
proof -
  let ?x = "elapsed_secs (rt_instant rt w) t0"
  obtain resp1 r1 where acc: "account_chat rt c ?x resp
      (record_outcome c ''success'' (record_uptime c 1 (record_latency c ?x r))) w = (resp1, r1)" by fastforce
  with assms have out: "resp' = resp1"
    "r' = r1\<lparr>ro_reasoning_replay := cache_reasoning_for_replay (ro_reasoning_replay r1) resp1\<rparr>"
    by (auto simp: chat_ok_def Let_def)
  show "\<exists>cost. resp' = resp\<lparr>rs_cost_usd := cost\<rparr>"
    using account_chat_frame(1) [OF acc] out by simp
  show "attempts (ro_metrics r') p m out =
      attempts (ro_metrics r) p m out + (if (p, m, out) = (fst c, snd c, ''success'') then 1 else 0)"
    by (simp add: out account_chat_frame(2) [OF acc] dispatch_frame)
qed

lemma record_uptime_attempts [simp]: "ro_metrics (record_uptime c x r) = ro_metrics r"
  by (simp add: record_uptime_def)

lemma check_outbound_metrics:
  "check_outbound_rate_limit p now r = (x, r') \<Longrightarrow> ro_metrics r' = ro_metrics r"
  using dispatch_frame(7) by (metis snd_conv)

text \<open>
  \<^bold>\<open>C4.\<close> What trying a candidate for a chat request comes to. A provider that is not configured, or
  is over its own rate limit, is not called, and the chain falls through. A provider that is called
  is called at most twice, the second time 200 ms after a transient error; its answer is served
  unchanged but for the cost stamped on it, a retryable error falls through and any other error
  stops the request. Every outcome is counted exactly once, under its own label.
\<close>

theorem candidate_outcome:
  assumes "chat_step rt req c r w = (t, r', w')"
  shows "(ro_providers r (fst c) = None \<longrightarrow> t = Fell (ProviderNotConfigured (fst c)) \<and> w' = w)
    \<and> (\<forall>p. ro_providers r (fst c) = Some p \<longrightarrow>
         (case check_outbound_rate_limit (fst c) (rt_instant rt w) r of
            (Inl e, r1) \<Rightarrow> t = Fell (ProviderErr e) \<and> w' = w
          | (Inr _, r1) \<Rightarrow>
              (case reply_with_retry rt (call_chat rt req p c r1) w of
                 (Inr resp, w1) \<Rightarrow> w' = w1 \<and> (\<exists>cost. t = Served (resp\<lparr>rs_cost_usd := cost\<rparr>))
               | (Inl e, w1) \<Rightarrow> w' = w1
                   \<and> t = (if is_retryable e then Fell (ProviderErr e) else Stopped (ProviderErr e)))))
    \<and> (\<forall>p m out. attempts (ro_metrics r') p m out = attempts (ro_metrics r) p m out
         + (if (p, m, out) = (fst c, snd c, outcome_label r c rt w t) then 1 else 0))"
proof (cases "ro_providers r (fst c)")
  case None
  with assms show ?thesis by (auto simp: chat_step_def try_candidate_def)
next
  case (Some p)
  obtain lim r1 where lim: "check_outbound_rate_limit (fst c) (rt_instant rt w) r = (lim, r1)" by fastforce
  note mt = check_outbound_metrics [OF lim]
  show ?thesis
  proof (cases lim)
    case (Inl e)
    with assms Some lim mt show ?thesis by (auto simp: chat_step_def try_candidate_def)
  next
    case (Inr u)
    obtain reply w1 where reply: "reply_with_retry rt (call_chat rt req p c r1) w = (reply, w1)" by fastforce
    show ?thesis
    proof (cases reply)
      case failed: (Inl e)
      with assms Some lim Inr reply mt show ?thesis
        by (auto simp: chat_step_def try_candidate_def retry_is_reply_with_retry Let_def split: if_splits)
    next
      case ok: (Inr resp)
      obtain resp' r2 where out: "chat_ok rt c (rt_instant rt w) resp r1 w1 = (resp', r2)" by fastforce
      with assms Some lim Inr reply ok have "t = Served resp'" "r' = r2" "w' = w1"
        by (auto simp: chat_step_def try_candidate_def retry_is_reply_with_retry Let_def)
      with chat_ok_frame [OF out] Some lim Inr reply ok mt show ?thesis by auto
    qed
  qed
qed

lemma sample_router_attempts [simp]: "attempts (ro_metrics sample_router) p m out = 0"
  by (simp add: sample_router_def from_config_def Let_def new_metrics_def split: prod.split)

theorem candidate_outcome_witness:
  "\<exists>cost r' w'. chat_step scripted (bare_request ''a/x'' [user_message ''hi'']) (''a'', ''x'') sample_router
       (0, [(5, Inl Timeout), (7, Inr (answer ''p''))]) = (Served ((answer ''p'')\<lparr>rs_cost_usd := cost\<rparr>), r', w')
     \<and> attempts (ro_metrics r') ''a'' ''x'' ''success'' = 1 \<and> fst w' = 200000012"
proof -
  define w :: script where "w = (0, [(5, Inl Timeout), (7, Inr (answer ''p''))])"
  obtain t r' w' where run: "chat_step scripted (bare_request ''a/x'' [user_message ''hi'']) (''a'', ''x'')
      sample_router w = (t, r', w')" by (rule prod_cases3)
  have "check_outbound_rate_limit ''a'' n sample_router = (Inr (), sample_router)" for n
    by (simp add: check_outbound_rate_limit_def)
  moreover have "reply_with_retry scripted (call_chat scripted req p c r) w
      = (Inr (answer ''p''), (200000012, []))" for req p c r
    by (simp add: reply_with_retry_def call_chat_def w_def)
  ultimately show ?thesis
    using candidate_outcome [OF run] run by (fastforce simp: sample_router_providers w_def)
qed

section \<open>The accounting of an answer\<close>

lemma record_usage_cost_fields:
  assumes "record_usage_cost c u r = (cost, r')"
  shows "cost = map_option (\<lambda>rates. cost_of rates u) (rates_of r c)"
    and "ro_usage r' = (ro_usage r)(model_key (fst c) (snd c) \<mapsto>
           add_usage u cost (unwrap_or default_usage_stats (ro_usage r (model_key (fst c) (snd c)))))"
    and "ro_generations r' = ro_generations r" and "ro_free_tier_usage r' = ro_free_tier_usage r"
    and "ro_free_tier_settings r' = ro_free_tier_settings r" and "ro_pricing r' = ro_pricing r"
    and "ro_uptime r' = ro_uptime r" and "ro_persistence r' = map_option
           (persistence_record (model_key (fst c) (snd c)) u cost) (ro_persistence r)"
  using assms by (auto simp: record_usage_cost_def record_usage_def Let_def rates_of_def)

lemma record_throughput_fields [simp]:
  "ro_usage (record_throughput c u x r) = ro_usage r"
  "ro_persistence (record_throughput c u x r) = ro_persistence r"
  "ro_generations (record_throughput c u x r) = ro_generations r"
  "ro_free_tier_usage (record_throughput c u x r) = ro_free_tier_usage r"
  "ro_free_tier_settings (record_throughput c u x r) = ro_free_tier_settings r"
  "ro_pricing (record_throughput c u x r) = ro_pricing r"
  "ro_uptime (record_throughput c u x r) = ro_uptime r"
  by (simp_all add: record_throughput_def Let_def)

lemma record_small_fields [simp]:
  "ro_usage (record_generation g r) = ro_usage r" "ro_usage (record_free_tier c u n r) = ro_usage r"
  "ro_persistence (record_generation g r) = ro_persistence r"
  "ro_persistence (record_free_tier c u n r) = ro_persistence r"
  "ro_generations (record_generation g r) = generation_insert g (ro_generations r)"
  "ro_generations (record_free_tier c u n r) = ro_generations r"
  "ro_free_tier_usage (record_generation g r) = ro_free_tier_usage r"
  "ro_uptime (record_generation g r) = ro_uptime r" "ro_uptime (record_free_tier c u n r) = ro_uptime r"
  "ro_pricing (record_generation g r) = ro_pricing r" "ro_pricing (record_free_tier c u n r) = ro_pricing r"
  "ro_usage (record_outcome c out r) = ro_usage r" "ro_usage (record_uptime c y r) = ro_usage r"
  "ro_usage (record_latency c y r) = ro_usage r" "ro_pricing (record_outcome c out r) = ro_pricing r"
  "ro_pricing (record_uptime c y r) = ro_pricing r" "ro_pricing (record_latency c y r) = ro_pricing r"
  "ro_generations (record_outcome c out r) = ro_generations r"
  "ro_generations (record_uptime c y r) = ro_generations r"
  "ro_generations (record_latency c y r) = ro_generations r"
  "ro_free_tier_usage (record_outcome c out r) = ro_free_tier_usage r"
  "ro_free_tier_usage (record_uptime c y r) = ro_free_tier_usage r"
  "ro_free_tier_usage (record_latency c y r) = ro_free_tier_usage r"
  "ro_free_tier_settings (record_outcome c out r) = ro_free_tier_settings r"
  "ro_free_tier_settings (record_uptime c y r) = ro_free_tier_settings r"
  "ro_free_tier_settings (record_latency c y r) = ro_free_tier_settings r"
  by (simp_all add: record_generation_def record_free_tier_def record_outcome_def record_uptime_def
      record_latency_def)

lemma rates_of_cong: "ro_pricing r = ro_pricing r' \<Longrightarrow> rates_of r = rates_of r'"
  by (simp add: rates_of_def fun_eq_iff)


lemma sample_router_inv: "router_inv sample_router"
  unfolding sample_router_def by (rule from_config_inv)


section \<open>Streams\<close>

text \<open>The usage a stream is billed for: that of the chunks that report completion tokens.\<close>

fun billed_usage :: "provider_error + chat_chunk \<Rightarrow> usage option" where
  "billed_usage (Inl e) = None"
| "billed_usage (Inr chunk) =
     (case ck_usage chunk of
        None \<Rightarrow> None
      | Some u \<Rightarrow> if 0 < us_completion_tokens u then Some u else None)"

definition same_but_cost :: "provider_error + chat_chunk \<Rightarrow> provider_error + chat_chunk \<Rightarrow> bool" where
  "same_but_cost item out =
     (case item of
        Inl e \<Rightarrow> out = Inl e
      | Inr chunk \<Rightarrow> (\<exists>cost. out = Inr (chunk\<lparr>ck_cost_usd := cost\<rparr>)))"

lemma same_but_cost_refl [simp]: "same_but_cost item item"
proof (cases item)
  case (Inl e) then show ?thesis by (simp add: same_but_cost_def)
next
  case (Inr chunk)
  have "Inr chunk = Inr (chunk\<lparr>ck_cost_usd := ck_cost_usd chunk\<rparr>)" by simp
  then have "\<exists>cost. Inr chunk = Inr (chunk\<lparr>ck_cost_usd := cost\<rparr>)" by (rule exI)
  with Inr show ?thesis unfolding same_but_cost_def by (simp only: sum.case)
qed

definition bill :: "candidate \<Rightarrow> (provider_error + chat_chunk) list \<Rightarrow> (string \<times> string \<times> usage) list" where
  "bill c items = map (\<lambda>u. (fst c, snd c, u)) (List.map_filter billed_usage items)"

lemma bill_simps [simp]:
  "bill c [] = []"
  "bill c (item # items) = (case billed_usage item of None \<Rightarrow> [] | Some u \<Rightarrow> [(fst c, snd c, u)]) @ bill c items"
  by (simp_all add: bill_def List.map_filter_simps split: option.split)

lemma record_usage_cost_usage:
  assumes "record_usage_cost c u r = (cost, r')"
  shows "snd (record_usage (ro_pricing r) (fst c) (snd c) u (ro_usage r, ro_persistence r))
    = (ro_usage r', ro_persistence r')"
  using assms by (auto simp: record_usage_cost_def record_usage_def Let_def)

lemma instrument_item_effect:
  assumes "instrument_item c t0 now unix item r = (out, r')"
  shows "same_but_cost item out \<and> ro_pricing r' = ro_pricing r
    \<and> (ro_usage r', ro_persistence r') =
        record_usages (ro_pricing r) (bill c [item]) (ro_usage r, ro_persistence r)"
proof (cases "billed_usage item")
  case None
  have "out = item \<and> r' = r"
    using assms None
    by (auto simp: instrument_item_def instrument_chunk_def split: sum.splits option.splits if_splits)
  with None show ?thesis by simp
next
  case (Some u)
  then obtain chunk where chunk: "item = Inr chunk" "ck_usage chunk = Some u" "0 < us_completion_tokens u"
    by (cases item) (auto split: option.splits if_splits)
  obtain cost r1 where rec: "record_usage_cost c u
      (record_throughput c u (elapsed_secs now t0) r) = (cost, r1)" by fastforce
  with assms chunk have "out = Inr (chunk\<lparr>ck_cost_usd := cost\<rparr>)"
    "ro_usage r' = ro_usage r1" "ro_persistence r' = ro_persistence r1" "ro_pricing r' = ro_pricing r1"
    by (auto simp: instrument_item_def instrument_chunk_def)
  with record_usage_cost_usage [OF rec] record_usage_cost_fields(6) [OF rec] chunk Some
  show ?thesis by (auto simp: same_but_cost_def)
qed

lemma record_usages_append:
  "record_usages pricing (xs @ ys) st = record_usages pricing ys (record_usages pricing xs st)"
  by (simp add: record_usages_def)

text \<open>
  \<^bold>\<open>C22.\<close> Consuming a stream forwards every item in order and changes nothing but the cost of a
  chunk; the usage map and the store see exactly the chunks that report completion tokens, in the
  order they arrive, as if each had been recorded when it arrived.
\<close>

theorem stream_forwarded_and_billed:
  "case consume_items c t0 items r of (out, r') \<Rightarrow>
     list_all2 same_but_cost (map (snd \<circ> snd) items) out
     \<and> (ro_usage r', ro_persistence r') =
         record_usages (ro_pricing r) (bill c (map (snd \<circ> snd) items)) (ro_usage r, ro_persistence r)
     \<and> ro_pricing r' = ro_pricing r"
proof (induction items arbitrary: r)
  case Nil then show ?case by simp
next
  case (Cons i items)
  obtain now unix item where i: "i = (now, unix, item)" by (cases i)
  obtain out1 r1 where one: "instrument_item c t0 now unix item r = (out1, r1)" by fastforce
  obtain out r' where rest: "consume_items c t0 items r1 = (out, r')" by fastforce
  from instrument_item_effect [OF one] Cons.IH [of r1] rest one i show ?case
    by (simp add: record_usages_append del: record_usages_simps split: option.splits)
qed

end
