(* ===== verification/Adapters.thy ===== *)
theory Adapters
  imports Openai_Adapter Anthropic_Stream Gemini_Facts Dispatch_Facts
begin

text \<open>
  The adapters behind the router: the runtime whose providers are the modelled adapters, chosen by
  the configured kind as \<open>Router::from_config\<close> (\<open>crates/router/src/lib.rs\<close>) chooses them. The
  interface is what the router relies on: which model an answer and a chunk name, and that an
  adapter leaves the cost to the router.
\<close>

section \<open>The interface\<close>

locale chat_provider =
  fixes chat :: "string \<Rightarrow> chat_request \<Rightarrow> string option \<Rightarrow> 'w \<Rightarrow> (provider_error + chat_response) \<times> 'w"
    and chat_stream :: "string \<Rightarrow> chat_request \<Rightarrow> string option \<Rightarrow> 'w
      \<Rightarrow> (provider_error + chat_stream) \<times> 'w"
    and label :: string
  assumes answers: "chat m req key w = (Inr resp, w') \<Longrightarrow>
      rs_model resp = label @ ''/'' @ m \<and> rs_cost_usd resp = None"
    and streams: "chat_stream m req key w = (Inr items, w') \<Longrightarrow> Inr ck \<in> set items \<Longrightarrow>
      ck_model ck = label @ ''/'' @ m \<and> ck_cost_usd ck = None"
begin

text \<open>The retry of a candidate changes nothing of it.\<close>

lemma retried_answers:
  "reply_with_retry rt (chat m req key) w = (Inr resp, w') \<Longrightarrow>
   rs_model resp = label @ ''/'' @ m \<and> rs_cost_usd resp = None"
  by (auto simp: reply_with_retry_def dest: answers split: prod.splits sum.splits if_splits)

lemma retried_streams:
  "reply_with_retry rt (chat_stream m req key) w = (Inr items, w') \<Longrightarrow> Inr ck \<in> set items \<Longrightarrow>
   ck_model ck = label @ ''/'' @ m \<and> ck_cost_usd ck = None"
  by (auto simp: reply_with_retry_def dest: streams split: prod.splits sum.splits if_splits)

end

lemma exchange_Inr:
  "exchange parse net call finish w = (Inr x, w') \<Longrightarrow> \<exists>resp w1. finish resp w1 = Inr x"
  by (auto simp: exchange_def split: prod.splits send_result.splits if_splits)

lemma filter_map_events_mem: "x \<in> set (filter_map_events f n es) \<Longrightarrow> \<exists>k e. f k e = Some x"
proof (induction es arbitrary: n)
  case Nil then show ?case by simp
next
  case (Cons e es)
  show ?case
  proof (cases "f n e = Some x")
    case True then show ?thesis by blast
  next
    case False
    with Cons show ?thesis by (auto split: option.splits)
  qed
qed

interpretation openai: chat_provider "openai_chat codec net p" "openai_chat_stream codec net p" "op_name p"
  for codec net p
proof unfold_locales
  fix m req key w resp w'
  assume "openai_chat codec net p m req key w = (Inr resp, w')"
  then show "rs_model resp = op_name p @ ''/'' @ m \<and> rs_cost_usd resp = None"
    unfolding openai_chat_def by (auto dest!: exchange_Inr split: sum.splits)
next
  fix m req key w items w' ck
  assume "openai_chat_stream codec net p m req key w = (Inr items, w')" and "Inr ck \<in> set items"
  then show "ck_model ck = op_name p @ ''/'' @ m \<and> ck_cost_usd ck = None"
    unfolding openai_chat_stream_def
    by (auto dest!: exchange_Inr filter_map_events_mem simp: openai_event_def
        split: sum.splits if_splits)
qed

lemma anthropic_events_mem:
  "Inr ck \<in> set (anthropic_events codec model forced ex clock n c evs) \<Longrightarrow>
   ck_model ck = model \<and> ck_cost_usd ck = None"
proof (induction evs arbitrary: n c)
  case Nil then show ?case by simp
next
  case (Cons ev evs)
  obtain c' item where ev: "anthropic_event codec model forced ex (clock n) c ev = (c', item)" by fastforce
  have "ck_model ck = model \<and> ck_cost_usd ck = None" if "item = Some (Inr ck)"
    using ev that
    by (auto simp: anthropic_event_def empty_chunk_def message_delta_chunk_def Let_def
        split: sum.splits if_splits bind_splits)
  with Cons ev show ?case by (auto split: option.splits)
qed

interpretation anthropic: chat_provider "anthropic_chat codec net p" "anthropic_chat_stream codec net p"
  "''anthropic''" for codec net p
proof unfold_locales
  fix m req key w resp w'
  assume "anthropic_chat codec net p m req key w = (Inr resp, w')"
  then show "rs_model resp = ''anthropic'' @ ''/'' @ m \<and> rs_cost_usd resp = None"
    unfolding anthropic_chat_def by (auto dest!: exchange_Inr split: sum.splits)
next
  fix m req key w items w' ck
  assume "anthropic_chat_stream codec net p m req key w = (Inr items, w')" and "Inr ck \<in> set items"
  then show "ck_model ck = ''anthropic'' @ ''/'' @ m \<and> ck_cost_usd ck = None"
    unfolding anthropic_chat_stream_def
    by (auto dest!: exchange_Inr anthropic_events_mem split: sum.splits)
qed

interpretation gemini: chat_provider "gemini_chat codec net p" "gemini_chat_stream codec net p"
  "''gemini''" for codec net p
proof unfold_locales
  fix m req key w resp w'
  assume "gemini_chat codec net p m req key w = (Inr resp, w')"
  then show "rs_model resp = ''gemini'' @ ''/'' @ m \<and> rs_cost_usd resp = None"
    unfolding gemini_chat_def by (auto dest!: exchange_Inr simp: Let_def split: sum.splits prod.splits)
next
  fix m req key w items w' ck
  assume "gemini_chat_stream codec net p m req key w = (Inr items, w')" and "Inr ck \<in> set items"
  then show "ck_model ck = ''gemini'' @ ''/'' @ m \<and> ck_cost_usd ck = None"
    unfolding gemini_chat_stream_def
    by (auto dest!: exchange_Inr filter_map_events_mem simp: gemini_event_def Let_def
        split: sum.splits prod.splits)
qed

section \<open>The runtime of the configured providers\<close>

datatype outbound =
    ToOpenai oa_body
  | ToAnthropic an_request
  | ToGemini ge_body

record codecs =
  cd_openai :: oa_codec
  cd_anthropic :: an_codec
  cd_gemini :: ge_codec

text \<open>The one network, as an adapter with bodies of its own type uses it.\<close>

definition net_for :: "('b \<Rightarrow> outbound) \<Rightarrow> (outbound, 'w) net \<Rightarrow> ('b, 'w) net" where
  "net_for wrap net =
     \<lparr>nt_send = (\<lambda>call. nt_send net
        \<lparr>hc_url = hc_url call, hc_headers = hc_headers call, hc_query = hc_query call,
         hc_timeout = hc_timeout call, hc_body = wrap (hc_body call)\<rparr>),
      nt_clock = nt_clock net, nt_event_clock = nt_event_clock net\<rparr>"

definition openai_of :: "provider_handle \<Rightarrow> openai_provider" where
  "openai_of h = openai_with_timeout (ph_timeout h) (openai_new (ph_name h) (ph_base_url h) (ph_api_key h))"

definition anthropic_of :: "provider_handle \<Rightarrow> anthropic_provider" where
  "anthropic_of h = anthropic_with_timeout (ph_timeout h) (anthropic_new (ph_base_url h) (ph_api_key h))"

definition gemini_of :: "provider_handle \<Rightarrow> gemini_provider" where
  "gemini_of h = gemini_with_timeout (ph_timeout h) (gemini_new (ph_base_url h) (ph_api_key h))"

definition adapter_chat :: "codecs \<Rightarrow> (outbound, 'w) net \<Rightarrow> provider_handle \<Rightarrow> string \<Rightarrow> chat_request
    \<Rightarrow> string option \<Rightarrow> 'w \<Rightarrow> (provider_error + chat_response) \<times> 'w" where
  "adapter_chat cd net h =
     (case ph_kind h of
        Openai \<Rightarrow> openai_chat (cd_openai cd) (net_for ToOpenai net) (openai_of h)
      | Anthropic \<Rightarrow> anthropic_chat (cd_anthropic cd) (net_for ToAnthropic net) (anthropic_of h)
      | Gemini \<Rightarrow> gemini_chat (cd_gemini cd) (net_for ToGemini net) (gemini_of h))"

definition adapter_chat_stream :: "codecs \<Rightarrow> (outbound, 'w) net \<Rightarrow> provider_handle \<Rightarrow> string
    \<Rightarrow> chat_request \<Rightarrow> string option \<Rightarrow> 'w \<Rightarrow> (provider_error + chat_stream) \<times> 'w" where
  "adapter_chat_stream cd net h =
     (case ph_kind h of
        Openai \<Rightarrow> openai_chat_stream (cd_openai cd) (net_for ToOpenai net) (openai_of h)
      | Anthropic \<Rightarrow> anthropic_chat_stream (cd_anthropic cd) (net_for ToAnthropic net) (anthropic_of h)
      | Gemini \<Rightarrow> gemini_chat_stream (cd_gemini cd) (net_for ToGemini net) (gemini_of h))"

definition adapter_embeddings :: "codecs \<Rightarrow> (outbound, 'w) net \<Rightarrow> provider_handle \<Rightarrow> string
    \<Rightarrow> embeddings_request \<Rightarrow> string option \<Rightarrow> 'w \<Rightarrow> (provider_error + embeddings_response) \<times> 'w" where
  "adapter_embeddings cd net h =
     (case ph_kind h of
        Openai \<Rightarrow> openai_embeddings (cd_openai cd) (net_for ToOpenai net) (openai_of h)
      | Anthropic \<Rightarrow> anthropic_embeddings (anthropic_of h)
      | Gemini \<Rightarrow> gemini_embeddings (cd_gemini cd) (net_for ToGemini net) (gemini_of h))"

text \<open>A runtime with its provider calls made by the adapters.\<close>

definition with_adapters :: "codecs \<Rightarrow> (outbound, 'w) net \<Rightarrow> 'w rt \<Rightarrow> 'w rt" where
  "with_adapters cd net rt =
     rt\<lparr>rt_chat := adapter_chat cd net, rt_chat_stream := adapter_chat_stream cd net,
        rt_embeddings := adapter_embeddings cd net\<rparr>"

text \<open>The name an adapter puts before the model: the configured one only for the OpenAI kind.\<close>

definition provider_label :: "provider_handle \<Rightarrow> string" where
  "provider_label h =
     (case ph_kind h of Openai \<Rightarrow> ph_name h | Anthropic \<Rightarrow> ''anthropic'' | Gemini \<Rightarrow> ''gemini'')"

lemma op_name_openai_of [simp]: "op_name (openai_of h) = ph_name h"
  by (simp add: openai_of_def openai_with_timeout_def openai_new_def)

interpretation adapter: chat_provider "adapter_chat cd net h" "adapter_chat_stream cd net h"
  "provider_label h" for cd net h
proof unfold_locales
  fix m req key w resp w'
  assume "adapter_chat cd net h m req key w = (Inr resp, w')"
  then show "rs_model resp = provider_label h @ ''/'' @ m \<and> rs_cost_usd resp = None"
    by (cases "ph_kind h")
      (auto simp: adapter_chat_def provider_label_def
        dest: openai.answers anthropic.answers gemini.answers)
next
  fix m req key w items w' ck
  assume "adapter_chat_stream cd net h m req key w = (Inr items, w')" and "Inr ck \<in> set items"
  then show "ck_model ck = provider_label h @ ''/'' @ m \<and> ck_cost_usd ck = None"
    by (cases "ph_kind h")
      (auto simp: adapter_chat_stream_def provider_label_def
        dest: openai.streams anthropic.streams gemini.streams)
qed

section \<open>Answers of the adapters in the router\<close>

lemma with_adapters_simps [simp]:
  "rt_chat (with_adapters cd net rt) = adapter_chat cd net"
  "rt_chat_stream (with_adapters cd net rt) = adapter_chat_stream cd net"
  "rt_instant (with_adapters cd net rt) = rt_instant rt" "rt_unix (with_adapters cd net rt) = rt_unix rt"
  "rt_sleep (with_adapters cd net rt) = rt_sleep rt"
  by (simp_all add: with_adapters_def)

lemma account_chat_cost:
  assumes "account_chat rt c x resp r w = (resp', r')" and "rs_cost_usd resp = None"
  shows "rs_model resp' = rs_model resp"
    and "rs_cost_usd resp'
      = Option.bind (rs_usage resp) (\<lambda>u. map_option (\<lambda>rates. cost_of rates u) (rates_of r c))"
    and "rs_usage resp' = rs_usage resp"
proof -
  have rates: "cost = map_option (\<lambda>rates. cost_of rates u) (rates_of r c)"
    if "record_usage_cost c u (record_throughput c u x r) = (cost, r1)" for u cost r1
    using record_usage_cost_fields(1) [OF that] rates_of_cong [of "record_throughput c u x r" r] by simp
  show "rs_model resp' = rs_model resp"
    and "rs_cost_usd resp'
      = Option.bind (rs_usage resp) (\<lambda>u. map_option (\<lambda>rates. cost_of rates u) (rates_of r c))"
    and "rs_usage resp' = rs_usage resp"
    using assms by (auto simp: account_chat_def dest: rates split: option.splits prod.splits)
qed

text \<open>
  \<^bold>\<open>C16.\<close> Through the adapters, an answer a candidate serves names the model it came from: the label of
  the provider's adapter and the candidate's model. Its cost is the router's own figure, from the
  usage it reports at the configured rates, and it has none when either is missing: no adapter
  claims a cost.
\<close>

theorem adapter_answer:
  assumes "chat_step (with_adapters cd net rt) req c r w = (Served resp, r', w')"
  shows "\<exists>h. ro_providers r (fst c) = Some h
    \<and> rs_model resp = provider_label h @ ''/'' @ snd c
    \<and> rs_cost_usd resp
        = Option.bind (rs_usage resp) (\<lambda>u. map_option (\<lambda>rates. cost_of rates u) (rates_of r c))"
proof -
  let ?rt = "with_adapters cd net rt"
  obtain h where h: "ro_providers r (fst c) = Some h"
    using assms by (cases "ro_providers r (fst c)") (auto simp: chat_step_def try_candidate_def)
  obtain lim r1 where lim: "check_outbound_rate_limit (fst c) (rt_instant rt w) r = (lim, r1)" by fastforce
  then obtain u where u: "lim = Inr u"
    using assms h by (cases lim) (auto simp: chat_step_def try_candidate_def)
  obtain reply w1 where reply: "retry_same_provider (call_chat ?rt req h c r1) (rt_sleep rt) w = (reply, w1)"
    by fastforce
  then obtain raw where raw: "reply = Inr raw"
    using assms h lim u
    by (cases reply) (auto simp: chat_step_def try_candidate_def Let_def split: if_splits)
  have call: "call_chat ?rt req h c r1 = adapter_chat cd net h (snd c)
      (request_to_send req (fst c) (snd c) (ro_pricing r1) (ro_reasoning_replay r1)) (byok_key_for req (fst c))"
    by (simp add: call_chat_def fun_eq_iff)
  have law: "rs_model raw = provider_label h @ ''/'' @ snd c \<and> rs_cost_usd raw = None"
    using reply raw unfolding call retry_is_reply_with_retry
    by (intro adapter.retried_answers [of rt cd net h "snd c"]) simp
  obtain r2 where ok: "chat_ok ?rt c (rt_instant rt w) raw r1 w1 = (resp, r2)"
    using assms h lim u reply raw by (auto simp: chat_step_def try_candidate_def Let_def split: prod.splits)
  let ?x = "elapsed_secs (rt_instant rt w1) (rt_instant rt w)"
  let ?r = "record_outcome c ''success'' (record_uptime c 1 (record_latency c ?x r1))"
  obtain r3 where acc: "account_chat ?rt c ?x raw ?r w1 = (resp, r3)"
    using ok by (auto simp: chat_ok_def Let_def split: prod.splits)
  have "fixed r1 = fixed r" using fixed_outbound [of "fst c" "rt_instant rt w" r] by (simp add: lim)
  then have "ro_pricing r1 = ro_pricing r" by (rule fixedD)
  then have "ro_pricing ?r = ro_pricing r" by simp
  then have "rates_of ?r = rates_of r" by (rule rates_of_cong)
  with account_chat_cost [OF acc] law h show ?thesis by auto
qed

text \<open>
  \<^bold>\<open>C17.\<close> Audio and schema-less JSON skip an Anthropic candidate at no cost: the chain falls through to
  the next candidate, and the world is left as it was, so that nothing has been sent anywhere.
\<close>

theorem refused_falls_through:
  assumes "ro_providers r (fst c) = Some h" and "ph_kind h = Anthropic"
    and "check_outbound_rate_limit (fst c) (rt_instant rt w) r = (Inr u, r1)"
    and "refused (request_to_send req (fst c) (snd c) (ro_pricing r1) (ro_reasoning_replay r1))"
  shows "\<exists>e r'. chat_step (with_adapters cd net rt) req c r w = (Fell (ProviderErr e), r', w)
      \<and> stream_step (with_adapters cd net rt) req c r w = (Fell (ProviderErr e), r', w)"
proof -
  let ?sent = "request_to_send req (fst c) (snd c) (ro_pricing r1) (ro_reasoning_replay r1)"
  let ?p = "ax_value (cd_anthropic cd)"
  have same: "anthropic_request ?p ?sent (snd c) True = Inl e"
    if "anthropic_request ?p ?sent (snd c) False = Inl e" for e
    using that by (auto simp: anthropic_request_def Let_def split: sum.splits prod.splits)
  obtain e where e: "anthropic_request ?p ?sent (snd c) False = Inl e" "is_retryable e" "\<not> is_transient e"
    using anthropic_request_refused [OF assms(4)] by blast
  have call: "call_chat (with_adapters cd net rt) req h c r1 w = (Inl e, w)"
    "call_chat_stream (with_adapters cd net rt) req h c r1 w = (Inl e, w)"
    using e(1) same [OF e(1)] assms(2)
    by (simp_all add: call_chat_def call_chat_stream_def adapter_chat_def adapter_chat_stream_def
        anthropic_chat_def anthropic_chat_stream_def)
  show ?thesis
    using assms(1,3) e(2,3) call
    by (simp add: chat_step_def stream_step_def try_candidate_def retry_same_provider_unfold Let_def)
qed

section \<open>A network for evaluation\<close>

text \<open>Every call is answered with status \<open>200\<close> and one body, which every codec reads as one answer.\<close>

definition sample_net :: "(outbound, script) net" where
  "sample_net =
     \<lparr>nt_send = (\<lambda>call w. (Response \<lparr>hr_status = 200, hr_retry_after = None, hr_body = Inr ''{}'',
                               hr_events = []\<rparr>, w)),
      nt_clock = (\<lambda>w k. fst w + k), nt_event_clock = (\<lambda>w n k. fst w + n + k)\<rparr>"

definition sample_codecs :: codecs where
  "sample_codecs =
     \<lparr>cd_openai = \<lparr>ox_value = (\<lambda>_. Inl []), ox_response = (\<lambda>_. Inl []), ox_chunk = (\<lambda>_. Inl []),
                   ox_embeddings = (\<lambda>_. Inl [])\<rparr>,
      cd_anthropic = \<lparr>ax_value = (\<lambda>_. Inl []), ax_print = (\<lambda>_. ''{}''),
                      ax_response = (\<lambda>_. Inr \<lparr>as_content = [sample_block ''text''], as_stop_reason = None,
                                              as_usage = \<lparr>au_input_tokens = 3, au_output_tokens = 2,
                         au_cache_creation_input_tokens = 0, au_cache_read_input_tokens = 0\<rparr>\<rparr>)\<rparr>,
      cd_gemini = \<lparr>gx_value = (\<lambda>_. Inl []), gx_print = (\<lambda>_. ''{}''), gx_response = (\<lambda>_. Inl []),
                   gx_embeddings = (\<lambda>_. Inl [])\<rparr>\<rparr>"

lemma sample_outbound: "check_outbound_rate_limit p now sample_router = (Inr (), sample_router)"
  by (simp add: check_outbound_rate_limit_def)

theorem adapter_answer_witness:
  "\<exists>resp r' w'. chat_step (with_adapters sample_codecs sample_net scripted)
      (bare_request ''b/x'' [user_message ''hi'']) (''b'', ''x'') sample_router (0, []) = (Served resp, r', w')
    \<and> rs_model resp = ''anthropic/x''"
proof -
  let ?rt = "with_adapters sample_codecs sample_net scripted"
  let ?req = "bare_request ''b/x'' [user_message ''hi'']"
  let ?sent = "request_to_send ?req ''b'' ''x'' (ro_pricing sample_router) (ro_reasoning_replay sample_router)"
  obtain t r' w' where run: "chat_step ?rt ?req (''b'', ''x'') sample_router (0, []) = (t, r', w')"
    by (rule prod_cases3)
  have sent: "cr_messages ?sent = [user_message ''hi'']" "cr_response_format ?sent = None"
    by (simp_all add: request_to_send_def unwrap_replay unwrap_rtk maybe_apply_middle_out_def
        wants_transform_def replay_message_def replay_reasoning_def Let_def)
  then have "\<not> refused ?sent" by (simp add: refused_def has_audio_def)
  then obtain body where "anthropic_request (ax_value (cd_anthropic sample_codecs)) ?sent ''x'' False = Inr body"
    using anthropic_request_accepted by blast
  then obtain resp where "call_chat ?rt ?req \<lparr>ph_kind = Anthropic, ph_name = ''b'', ph_base_url = ''http://x'',
      ph_api_key = ''k'', ph_timeout = 30000000000\<rparr> (''b'', ''x'') sample_router (0, []) = (Inr resp, (0, []))"
    by (auto simp: call_chat_def adapter_chat_def anthropic_chat_def exchange_def net_for_def sample_net_def
        is_success_response_def is_success_def response_json_def sample_codecs_def)
  then have "\<exists>resp. t = Served resp"
    using run by (auto simp: chat_step_def try_candidate_def sample_router_providers sample_outbound
        retry_same_provider_unfold Let_def split: prod.splits)
  then obtain resp where t: "t = Served resp" by blast
  with run have "chat_step ?rt ?req (''b'', ''x'') sample_router (0, []) = (Served resp, r', w')" by simp
  from adapter_answer [OF this] run t show ?thesis
    by (auto simp: sample_router_providers provider_label_def)
qed

theorem refused_falls_through_witness:
  "\<exists>e r'. chat_step (with_adapters sample_codecs sample_net scripted)
      ((bare_request ''b/x'' [user_message ''hi''])\<lparr>cr_response_format := Some JsonObject\<rparr>)
      (''b'', ''x'') sample_router (0, []) = (Fell (ProviderErr e), r', (0, []))"
proof -
  let ?req = "(bare_request ''b/x'' [user_message ''hi''])\<lparr>cr_response_format := Some JsonObject\<rparr>"
  let ?sent = "request_to_send ?req ''b'' ''x'' (ro_pricing sample_router) (ro_reasoning_replay sample_router)"
  have "cr_response_format ?sent = Some JsonObject"
    by (simp add: request_to_send_def unwrap_replay unwrap_rtk maybe_apply_middle_out_def
        wants_transform_def Let_def)
  then have "refused ?sent" by (simp add: refused_def)
  then show ?thesis
    using refused_falls_through [of sample_router "(''b'', ''x'')" _ scripted "(0, [])" "()" sample_router ?req
        sample_codecs sample_net]
    by (simp add: sample_router_providers sample_outbound) blast
qed

end
