(* ===== verification/Anthropic_Types.thy ===== *)
theory Anthropic_Types
  imports Anthropic_Facts
begin

text \<open>
  The types of the Messages API as a predicate on JSON values, and that every request the adapter sends
  has them: each block carries the fields of its kind, and no turn a block that belongs to the other role.
\<close>

section \<open>Blocks\<close>

text \<open>A value is tagged when its \<open>type\<close> is the tag and the fields named are strings.\<close>

definition tagged :: "string \<Rightarrow> string list \<Rightarrow> json \<Rightarrow> bool" where
  "tagged tag strs v \<longleftrightarrow>
     str_at [''type''] v = Some tag \<and> list_all (\<lambda>k. str_at [k] v \<noteq> None) strs"

definition is_source :: "json \<Rightarrow> bool" where
  "is_source v \<longleftrightarrow> tagged ''base64'' [''media_type'', ''data''] v \<or> tagged ''url'' [''url''] v"

definition is_text :: "json \<Rightarrow> bool" where
  "is_text = tagged ''text'' [''text'']"

definition is_media :: "string \<Rightarrow> json \<Rightarrow> bool" where
  "is_media tag v \<longleftrightarrow> tagged tag [] v
     \<and> (case json_get ''source'' v of None \<Rightarrow> False | Some src \<Rightarrow> is_source src)"

definition is_tool_use :: "json \<Rightarrow> bool" where
  "is_tool_use v \<longleftrightarrow> tagged ''tool_use'' [''id'', ''name''] v \<and> json_get ''input'' v \<noteq> None"

definition is_tool_result :: "json \<Rightarrow> bool" where
  "is_tool_result = tagged ''tool_result'' [''tool_use_id'', ''content'']"

text \<open>What a turn of each role may hold, and a cache mark where there is one.\<close>

definition is_user_block :: "json \<Rightarrow> bool" where
  "is_user_block v \<longleftrightarrow> is_text v \<or> is_media ''image'' v \<or> is_media ''document'' v \<or> is_tool_result v"

definition is_assistant_block :: "json \<Rightarrow> bool" where
  "is_assistant_block v \<longleftrightarrow> is_text v \<or> is_tool_use v"

definition well_marked :: "json \<Rightarrow> bool" where
  "well_marked v \<longleftrightarrow>
     (case json_get ''cache_control'' v of None \<Rightarrow> True | Some m \<Rightarrow> str_at [''type''] m = Some ''ephemeral'')"

definition is_turn :: "an_message \<Rightarrow> bool" where
  "is_turn m \<longleftrightarrow>
     (am_role m = ''user'' \<and> list_all is_user_block (am_content m)
      \<or> am_role m = ''assistant'' \<and> am_content m \<noteq> [] \<and> list_all is_assistant_block (am_content m))
     \<and> list_all well_marked (am_content m)"

definition is_system :: "json option \<Rightarrow> bool" where
  "is_system s \<longleftrightarrow>
     (case s of
        None \<Rightarrow> True
      | Some (JString t) \<Rightarrow> True
      | Some (JArray bs) \<Rightarrow> bs \<noteq> [] \<and> list_all is_text bs \<and> list_all well_marked bs
      | Some _ \<Rightarrow> False)"

definition is_tool_choice :: "json option \<Rightarrow> bool" where
  "is_tool_choice c \<longleftrightarrow>
     (case c of
        None \<Rightarrow> True
      | Some v \<Rightarrow> tagged ''auto'' [] v \<or> tagged ''any'' [] v \<or> tagged ''none'' [] v \<or> tagged ''tool'' [''name''] v)"

definition is_thinking :: "json option \<Rightarrow> bool" where
  "is_thinking c \<longleftrightarrow>
     (case c of
        None \<Rightarrow> True
      | Some v \<Rightarrow> tagged ''enabled'' [] v
          \<and> (\<exists>n. u64_at [''budget_tokens''] v = Some n \<and> 1024 \<le> n))"

section \<open>The blocks the adapter makes\<close>

named_theorems block_types

lemmas typing = tagged_def is_text_def is_media_def is_source_def is_tool_use_def is_tool_result_def

lemma text_typed [block_types]: "is_text (text_block t)"
  by (simp add: typing text_block_def)

lemma image_typed [block_types]: "is_media ''image'' (image_block u)"
  by (simp add: typing image_block_def split: option.split)

lemma document_typed [block_types]: "is_media ''document'' (document_block u)"
  by (simp add: typing document_block_def split: option.split)

lemma tool_use_typed [block_types]: "is_tool_use (tool_use_block parse tc)"
  by (simp add: typing tool_use_block_def)

lemma tool_result_typed [block_types]: "is_tool_result (tool_result_block m)"
  by (simp add: typing tool_result_block_def)

text \<open>A cache mark is one more field of a block, and takes none away.\<close>

lemma marked_field:
  "k \<noteq> ''cache_control'' \<Longrightarrow> json_get k (json_insert ''cache_control'' c v) = json_get k v"
  by (cases v) (simp_all add: update_conv')

lemma tagged_marked:
  "tagged tag strs v \<Longrightarrow> ''cache_control'' \<notin> set strs \<Longrightarrow>
     tagged tag strs (json_insert ''cache_control'' c v)"
  by (simp add: tagged_def list_all_iff marked_field) (metis marked_field)

lemma block_marked:
  "is_text v \<Longrightarrow> is_text (json_insert ''cache_control'' c v)"
  "is_media tag v \<Longrightarrow> is_media tag (json_insert ''cache_control'' c v)"
  "is_tool_use v \<Longrightarrow> is_tool_use (json_insert ''cache_control'' c v)"
  "is_tool_result v \<Longrightarrow> is_tool_result (json_insert ''cache_control'' c v)"
  by (simp_all add: is_text_def is_media_def is_tool_use_def is_tool_result_def tagged_marked marked_field)

lemma user_marked: "is_user_block v \<Longrightarrow> is_user_block (json_insert ''cache_control'' c v)"
  by (auto simp: is_user_block_def block_marked)

lemma assistant_marked: "is_assistant_block v \<Longrightarrow> is_assistant_block (json_insert ''cache_control'' c v)"
  by (auto simp: is_assistant_block_def block_marked)

lemma apply_cache_control_all:
  assumes "list_all P blocks" and "\<And>v c. P v \<Longrightarrow> P (json_insert ''cache_control'' c v)"
  shows "list_all P (apply_cache_control mark blocks)"
proof (cases "blocks = []")
  case False
  with assms show ?thesis
    by (cases blocks rule: rev_cases) (auto simp: apply_cache_control_def split: option.split)
qed (simp add: apply_cache_control_def split: option.split)

section \<open>Turns\<close>

lemma well_marked_insert: "\<exists>kvs. v = JObject kvs \<Longrightarrow> well_marked (json_insert ''cache_control'' (cache_control_json c) v)"
  by (cases c) (auto simp: well_marked_def update_conv')

lemma unmarked [simp]:
  "json_get ''cache_control'' (text_block t) = None" "json_get ''cache_control'' (tool_result_block m) = None"
  "json_get ''cache_control'' (tool_use_block parse tc) = None"
  "json_get ''cache_control'' (image_block u) = None" "json_get ''cache_control'' (document_block u) = None"
  by (simp_all add: text_block_def tool_result_block_def tool_use_block_def image_block_def document_block_def
      split: option.split)

lemma blocks_are_objects [simp]:
  "\<exists>kvs. text_block t = JObject kvs" "\<exists>kvs. tool_result_block m = JObject kvs"
  "\<exists>kvs. tool_use_block parse tc = JObject kvs" "\<exists>kvs. image_block u = JObject kvs"
  "\<exists>kvs. document_block u = JObject kvs"
  by (auto simp: text_block_def tool_result_block_def tool_use_block_def image_block_def document_block_def
      split: option.split)

text \<open>A block before its mark: an object without one.\<close>

definition plain :: "json \<Rightarrow> bool" where
  "plain v \<longleftrightarrow> (\<exists>kvs. v = JObject kvs) \<and> json_get ''cache_control'' v = None"

lemma plain_blocks [simp]:
  "plain (text_block t)" "plain (tool_result_block m)" "plain (tool_use_block parse tc)"
  "plain (image_block u)" "plain (document_block u)"
  by (simp_all add: plain_def)

lemma plain_marked: "plain v \<Longrightarrow> well_marked v" "plain v \<Longrightarrow> well_marked (json_insert ''cache_control'' (cache_control_json c) v)"
  by (simp_all add: plain_def well_marked_def well_marked_insert [unfolded well_marked_def])

lemma marked_blocks: "list_all plain blocks \<Longrightarrow> list_all well_marked (apply_cache_control mark blocks)"
  by (cases blocks rule: rev_cases)
    (auto simp: apply_cache_control_def list_all_iff plain_marked split: option.split)

lemma part_typed: "\<not> is_audio p \<Longrightarrow> is_user_block (part_json p) \<and> plain (part_json p)"
  by (cases p) (simp_all add: is_user_block_def block_types)

lemma text_user_block: "is_user_block (text_block t)"
  by (simp add: is_user_block_def block_types)

lemma content_typed:
  "\<not> content_has_audio c \<Longrightarrow> list_all is_user_block (content_json c) \<and> list_all plain (content_json c)"
  by (cases c) (auto simp: list_all_iff list_ex_iff text_user_block part_typed)

lemma assistant_typed:
  "assistant_blocks parse m \<noteq> [] \<and> list_all is_assistant_block (assistant_blocks parse m)
     \<and> list_all plain (assistant_blocks parse m)"
  by (auto simp: assistant_blocks_def Let_def list_all_iff is_assistant_block_def block_types)

lemma apply_cache_control_empty: "apply_cache_control mark blocks = [] \<longleftrightarrow> blocks = []"
  by (simp add: apply_cache_control_def split: option.split)

lemma turn_typed:
  assumes "\<not> has_audio m" and "msg_role m \<noteq> System"
  shows "is_turn (turn_of parse m)"
proof (cases "msg_role m = Assistant")
  case True
  with assistant_typed [of parse m] show ?thesis
    by (simp add: is_turn_def turn_of_def apply_cache_control_empty marked_blocks apply_cache_control_all
        assistant_marked)
next
  case False
  let ?blocks = "if msg_role m = ToolRole then [tool_result_block m]
    else (case msg_content m of None \<Rightarrow> [text_block []] | Some c \<Rightarrow> content_json c)"
  have "list_all is_user_block ?blocks \<and> list_all plain ?blocks"
    using assms False content_typed
    by (cases "msg_role m") (auto simp: has_audio_def is_user_block_def block_types split: option.splits)
  with False show ?thesis
    by (simp add: is_turn_def turn_of_def marked_blocks apply_cache_control_all user_marked)
qed

lemma system_blocks_typed:
  "list_all is_text (system_blocks m) \<and> list_all well_marked (system_blocks m)"
  by (auto simp: system_blocks_def block_types block_marked marked_blocks apply_cache_control_all split: option.split)

lemma system_typed: "is_system (system_field (concat (map system_blocks ms)))"
  using system_blocks_typed by (auto simp: is_system_def system_field_def list_all_iff)

section \<open>The request\<close>

lemma tool_choice_typed: "is_tool_choice (Some (anthropic_tool_choice c))"
  by (cases c rule: anthropic_tool_choice.cases)
    (auto simp: is_tool_choice_def tagged_def split: option.split)

lemma forced_choice_typed: "is_tool_choice (Some (JObject [(''type'', JString ''tool''), (''name'', JString n)]))"
  by (simp add: is_tool_choice_def tagged_def)

lemma nothing_typed: "is_tool_choice None" "is_thinking None"
  by (simp_all add: is_tool_choice_def is_thinking_def)

lemma thinking_typed: "is_thinking (Some (thinking_config r m))"
proof -
  define b where "b = max (unwrap_or (effort_thinking_budget (rc_effort r) m) (rc_max_tokens r)) min_thinking_budget"
  have "uint b < 2 ^ 64" using unsigned_less [of b, where 'a = int] by simp
  then have "u64_at [''budget_tokens''] (thinking_config r m) = Some (ucast b)"
    by (simp add: thinking_config_def b_def Let_def)
  moreover have "1024 \<le> (ucast b :: u64)"
  proof -
    have "1024 \<le> b" by (simp add: b_def min_thinking_budget_def)
    then have "1024 \<le> unat b" by (simp add: word_le_nat_alt)
    moreover have "unat b < 2 ^ 64" using unsigned_less [of b, where 'a = nat] by simp
    then have "unat (ucast b :: u64) = unat b" by (simp add: unsigned_ucast_eq take_bit_nat_eq_self)
    ultimately show ?thesis by (simp add: word_le_nat_alt)
  qed
  ultimately show ?thesis by (simp add: is_thinking_def tagged_def thinking_config_def Let_def)
qed

lemma optional_typed:
  "is_tool_choice (map_option anthropic_tool_choice c)" "is_thinking (map_option (\<lambda>r. thinking_config r m) rs)"
  by (cases c; simp add: tool_choice_typed nothing_typed) (cases rs; simp add: thinking_typed nothing_typed)

text \<open>
  \<^bold>\<open>C15.\<close> Every request the adapter sends has the types of the Messages API: a user turn holds text, image,
  document and tool-result blocks, an assistant turn at least one block, text or tool use; each block has the
  fields of its kind and at most a mark of the cache's kind; the system prompt is a string or text blocks; the
  tool choice is one of the four forms; a thinking budget is at least 1024; and a forced output tool is
  the one tool that is sent.
\<close>

theorem anthropic_request_typed:
  assumes "anthropic_request parse req model stream = Inr body"
  shows "list_all is_turn (ar_messages body) \<and> is_system (ar_system body)
    \<and> is_tool_choice (ar_tool_choice body) \<and> is_thinking (ar_thinking body)
    \<and> (case ar_forced_output_tool_name body of
         None \<Rightarrow> True
       | Some n \<Rightarrow> (\<exists>t. ar_tools body = Some [t] \<and> at_name t = n))"
proof -
  have ok: "\<not> list_ex has_audio (cr_messages req)"
    using assms anthropic_request_refused [of req parse model stream] by (auto simp: refused_def)
  then have "is_turn (turn_of parse m)" if "m \<in> set (cr_messages req)" "msg_role m \<noteq> System" for m
    using that by (intro turn_typed) (auto simp: list_ex_iff)
  moreover have "is_tool_choice (ar_tool_choice body)"
    "is_thinking (ar_thinking body)"
    "case ar_forced_output_tool_name body of None \<Rightarrow> True
     | Some n \<Rightarrow> (\<exists>t. ar_tools body = Some [t] \<and> at_name t = n)"
    using assms
    by (auto simp: anthropic_request_def Let_def forced_choice_typed optional_typed
        split: sum.splits option.splits)
  ultimately show ?thesis
    using anthropic_request_messages [OF assms] system_typed by (simp add: list_all_iff)
qed

definition tool_conversation :: chat_request where
  "tool_conversation =
     (bare_request ''m''
        [system_message ''be brief'', (user_message ''hi'')\<lparr>msg_cache_control := Some Ephemeral\<rparr>,
         (plain_message Assistant [])\<lparr>msg_tool_calls := Some [tool_call_function ''t1'' ''f'' ''{}'']\<rparr>,
         (plain_message ToolRole ''3'')\<lparr>msg_tool_call_id := Some ''t1''\<rparr>])
       \<lparr>cr_response_format := Some (JsonSchema \<lparr>js_name = ''out'', js_description = None, js_schema = JNull,
          js_strict = None\<rparr>)\<rparr>"

theorem anthropic_request_typed_witness:
  "case anthropic_request (\<lambda>_. Inl []) tool_conversation ''m'' False of
     Inl e \<Rightarrow> False
   | Inr body \<Rightarrow> length (ar_messages body) = 3 \<and> list_all is_turn (ar_messages body)
       \<and> (\<exists>t. ar_tools body = Some [t] \<and> at_name t = ''out'')"
proof -
  have "\<not> refused tool_conversation" by (simp add: refused_def has_audio_def tool_conversation_def)
  then obtain body where body: "anthropic_request (\<lambda>_. Inl []) tool_conversation ''m'' False = Inr body"
    using anthropic_request_accepted by blast
  have "ar_forced_output_tool_name body = Some ''out''"
    using body by (auto simp: anthropic_request_def tool_conversation_def forced_structured_output_tool_def
        Let_def split: sum.splits)
  moreover have "length (ar_messages body) = 3"
    using anthropic_request_messages [OF body] by (simp add: tool_conversation_def)
  ultimately show ?thesis using anthropic_request_typed [OF body] body by simp
qed

end
