(* ===== verification/Fusion.thy ===== *)
theory Fusion
  imports Sample_World
begin

text \<open>
  \<open>strategy = "fusion"\<close> (\<open>crates/router/src/lib.rs\<close>: \<open>build_judge_request\<close>, \<open>dispatch_fusion\<close>):
  every candidate of the chain is asked at once, and a judge synthesizes one answer from those that
  responded in time. What the runtime's \<open>join_all\<close> and \<open>timeout\<close> promise is stated where a lemma
  needs it.
\<close>

section \<open>The judge's request\<close>

definition synthesis_intro :: string where
  "synthesis_intro =
     ''Multiple candidate answers were generated for the preceding request. Synthesize them into a single, best final answer. Do not mention that there were multiple candidates.''
     @ [CHR 10]"

definition first_text :: "chat_response \<Rightarrow> string" where
  "first_text resp =
     (case rs_choices resp of
        [] \<Rightarrow> []
      | c # _ \<Rightarrow> (case msg_content (ch_message c) of None \<Rightarrow> [] | Some content \<Rightarrow> as_plain_text content))"

fun candidate_texts :: "nat \<Rightarrow> (string \<times> string \<times> chat_response) list \<Rightarrow> string" where
  "candidate_texts i [] = []"
| "candidate_texts i ((_, _, resp) # rest) =
     [CHR 10] @ ''--- Candidate '' @ show_nat (i + 1) @ '' ---'' @ [CHR 10] @ first_text resp @ [CHR 10]
       @ candidate_texts (i + 1) rest"

definition build_judge_request ::
  "chat_request \<Rightarrow> string \<Rightarrow> (string \<times> string \<times> chat_response) list \<Rightarrow> chat_request" where
  "build_judge_request req judge panel_responses =
     req\<lparr>cr_model := judge, cr_models := None, cr_tools := None, cr_tool_choice := None,
         cr_messages := cr_messages req
           @ [user_message (synthesis_intro @ candidate_texts 0 panel_responses)]\<rparr>"

section \<open>The panel\<close>

definition panel_task ::
  "'w rt \<Rightarrow> chat_request \<Rightarrow> nat \<Rightarrow> candidate \<Rightarrow> provider_handle \<Rightarrow> 'w \<Rightarrow> panel_result \<times> 'w" where
  "panel_task rt req timeout c provider w =
     (case rt_timeout rt timeout
             (retry_same_provider (rt_chat rt provider (snd c) req (byok_key_for req (fst c))) (rt_sleep rt))
             w of
        (Some (Inr resp), w') \<Rightarrow> (Some (fst c, snd c, resp), w')
      | (Some (Inl e), w') \<Rightarrow> (None, w')
      | (None, w') \<Rightarrow> (None, w'))"

fun build_panel ::
  "'w rt \<Rightarrow> chat_request \<Rightarrow> nat \<Rightarrow> candidate list \<Rightarrow> 'w \<Rightarrow> router
    \<Rightarrow> ('w \<Rightarrow> panel_result \<times> 'w) list \<times> router" where
  "build_panel rt req timeout [] w r = ([], r)"
| "build_panel rt req timeout (c # cs) w r =
     (case check_outbound_rate_limit (fst c) (rt_instant rt w) r of
        (Inl e, r1) \<Rightarrow> build_panel rt req timeout cs w (record_outcome c ''rate_limited'' r1)
      | (Inr _, r1) \<Rightarrow>
          (case ro_providers r1 (fst c) of
             None \<Rightarrow> build_panel rt req timeout cs w (record_outcome c ''not_configured'' r1)
           | Some provider \<Rightarrow>
               (case build_panel rt req timeout cs w r1 of
                  (tasks, r2) \<Rightarrow> (panel_task rt req timeout c provider # tasks, r2))))"

section \<open>Totals\<close>

record fusion_totals =
  fu_usage :: "usage option"
  fu_cost :: f64
  fu_any_cost :: bool

definition no_totals :: fusion_totals where
  "no_totals = \<lparr>fu_usage = None, fu_cost = 0, fu_any_cost = False\<rparr>"

definition record_contribution ::
  "candidate \<Rightarrow> usage \<Rightarrow> fusion_totals \<times> router \<Rightarrow> fusion_totals \<times> router" where
  "record_contribution c u s =
     (case record_usage_cost c u (snd s) of (cost, r1) \<Rightarrow>
        (\<lparr>fu_usage = (case fu_usage (fst s) of
                       Some existing \<Rightarrow> Some (sum_usage existing u)
                     | None \<Rightarrow> Some u),
          fu_cost = (case cost of Some x \<Rightarrow> fu_cost (fst s) + x | None \<Rightarrow> fu_cost (fst s)),
          fu_any_cost = (cost \<noteq> None \<or> fu_any_cost (fst s))\<rparr>, r1))"

definition record_panel_response ::
  "string \<times> string \<times> chat_response \<Rightarrow> fusion_totals \<times> router \<Rightarrow> fusion_totals \<times> router" where
  "record_panel_response p s =
     (case p of (provider, model, resp) \<Rightarrow>
        (let s1 = (fst s, record_outcome (provider, model) ''success'' (snd s)) in
         case rs_usage resp of
           None \<Rightarrow> s1
         | Some u \<Rightarrow> record_contribution (provider, model) u s1))"

definition fused_generation :: "chat_response \<Rightarrow> generation_record" where
  "fused_generation resp =
     (case rs_usage resp of
        Some u \<Rightarrow> generation_of (rs_id resp) (rs_model resp) (rs_created resp) u (rs_cost_usd resp)
      | None \<Rightarrow> \<lparr>gr_id = rs_id resp, gr_model = rs_model resp, gr_created = rs_created resp,
                gr_prompt_tokens = 0, gr_completion_tokens = 0, gr_total_tokens = 0,
                gr_cost_usd = rs_cost_usd resp\<rparr>)"

definition has_tool_calls :: "chat_response \<Rightarrow> bool" where
  "has_tool_calls resp =
     (case rs_choices resp of [] \<Rightarrow> False | c # _ \<Rightarrow> msg_tool_calls (ch_message c) \<noteq> None)"

definition panel_failed :: router_error where
  "panel_failed =
     ProviderErr (Upstream 503
       ''fusion panel: every candidate failed, timed out, or was rate-limited'')"

text \<open>The judge's turn, once the panel's contributions are recorded.\<close>

definition ask_judge ::
  "'w rt \<Rightarrow> chat_request \<Rightarrow> fusion_config \<Rightarrow> (string \<times> string \<times> chat_response) list
    \<Rightarrow> fusion_totals \<Rightarrow> router \<Rightarrow> 'w \<Rightarrow> (router_error + chat_response) \<times> router \<times> 'w" where
  "ask_judge rt req fusion responses totals r w =
     (case split_once CHR ''/'' (fc_judge fusion) of
        None \<Rightarrow> (Inl (InvalidModel (fc_judge fusion)), r, w)
      | Some judge \<Rightarrow>
          (case ro_providers r (fst judge) of
             None \<Rightarrow> (Inl (ProviderNotConfigured (fst judge)), r, w)
           | Some provider \<Rightarrow>
               (case retry_same_provider
                       (rt_chat rt provider (snd judge)
                          (build_judge_request req (fc_judge fusion) responses)
                          (byok_key_for req (fst judge))) (rt_sleep rt) w of
                  (Inl e, w1) \<Rightarrow> (Inl (ProviderErr e), record_outcome judge ''error'' r, w1)
                | (Inr final, w1) \<Rightarrow>
                    (let r1 = record_outcome judge ''success'' r;
                         (totals', r2) = (case rs_usage final of
                            None \<Rightarrow> (totals, r1)
                          | Some u \<Rightarrow> record_contribution judge u (totals, r1));
                         final' = final\<lparr>rs_usage := fu_usage totals',
                                        rs_cost_usd := (if fu_any_cost totals' then Some (fu_cost totals')
                                                        else None)\<rparr>
                     in (Inr final', record_generation (fused_generation final') r2, w1)))))"

definition dispatch_fusion ::
  "'w rt \<Rightarrow> chat_request \<Rightarrow> fusion_config \<Rightarrow> candidate list \<Rightarrow> router \<Rightarrow> 'w
    \<Rightarrow> (router_error + chat_response) \<times> router \<times> 'w" where
  "dispatch_fusion rt req fusion panel r w =
     (case build_panel rt req (fc_timeout fusion) panel w r of (tasks, r1) \<Rightarrow>
        (case rt_join_all rt tasks w of (results, w1) \<Rightarrow>
           (let responses = List.map_filter id results in
            if responses = [] then (Inl panel_failed, r1, w1)
            else case List.find (\<lambda>(_, _, resp). has_tool_calls resp) responses of
              Some (provider, model, resp) \<Rightarrow>
                (Inr resp, record_outcome (provider, model) ''success'' r1, w1)
            | None \<Rightarrow>
                (case fold record_panel_response responses (no_totals, r1) of (totals, r2) \<Rightarrow>
                   ask_judge rt req fusion responses totals r2 w1))))"

section \<open>What is reported of a fused answer\<close>

definition total_usage :: "usage list \<Rightarrow> usage option" where
  "total_usage us = (case us of [] \<Rightarrow> None | u # us \<Rightarrow> Some (foldl sum_usage u us))"

lemma total_usage_snoc:
  "total_usage (us @ [u]) = Some (case total_usage us of Some a \<Rightarrow> sum_usage a u | None \<Rightarrow> u)"
  by (cases us) (simp_all add: total_usage_def)

definition usages :: "(string \<times> string \<times> chat_response) list \<Rightarrow> usage list" where
  "usages responses = List.map_filter (\<lambda>(_, _, resp). rs_usage resp) responses"

definition priced :: "router \<Rightarrow> candidate \<Rightarrow> usage \<Rightarrow> f64 option" where
  "priced r c u = map_option (\<lambda>rates. cost_of rates u) (rates_of r c)"

lemma record_usage_cost_simps:
  "fst (record_usage_cost c u r) = priced r c u"
  "ro_pricing (snd (record_usage_cost c u r)) = ro_pricing r"
  by (simp_all add: record_usage_cost_def record_usage_def Let_def priced_def rates_of_def)

definition panel_costs :: "router \<Rightarrow> (string \<times> string \<times> chat_response) list \<Rightarrow> f64 list" where
  "panel_costs r responses =
     List.map_filter (\<lambda>(p, m, resp). Option.bind (rs_usage resp) (priced r (p, m))) responses"

lemma priced_cong: "ro_pricing r = ro_pricing r' \<Longrightarrow> priced r = priced r'"
  by (simp add: priced_def rates_of_def fun_eq_iff)

lemma record_panel_totals:
  assumes "fold record_panel_response responses (no_totals, r) = (totals, r')"
  shows "fu_usage totals = total_usage (usages responses)
    \<and> fu_cost totals = sum_list (panel_costs r responses)
    \<and> (fu_any_cost totals \<longleftrightarrow> panel_costs r responses \<noteq> [])
    \<and> ro_pricing r' = ro_pricing r"
  using assms
proof (induction responses arbitrary: totals r' rule: rev_induct)
  case Nil
  then show ?case
    by (auto simp: no_totals_def total_usage_def usages_def panel_costs_def List.map_filter_simps)
next
  case (snoc p responses)
  obtain totals1 r1 where one: "fold record_panel_response responses (no_totals, r) = (totals1, r1)"
    by fastforce
  from snoc.IH [OF one] have IH: "fu_usage totals1 = total_usage (usages responses)"
    "fu_cost totals1 = sum_list (panel_costs r responses)"
    "fu_any_cost totals1 \<longleftrightarrow> panel_costs r responses \<noteq> []" "ro_pricing r1 = ro_pricing r" by auto
  obtain prov m resp where p: "p = (prov, m, resp)" by (cases p) auto
  have split: "usages (responses @ [p]) = usages responses @ (case rs_usage resp of None \<Rightarrow> [] | Some u \<Rightarrow> [u])"
    "panel_costs r (responses @ [p]) = panel_costs r responses
       @ (case Option.bind (rs_usage resp) (priced r (prov, m)) of None \<Rightarrow> [] | Some x \<Rightarrow> [x])"
    by (simp_all add: usages_def panel_costs_def List.map_filter_def p split: option.splits)
  have step: "record_panel_response p (totals1, r1) = (totals, r')"
    using snoc.prems one by simp
  show ?case
  proof (cases "rs_usage resp")
    case None
    with step IH split show ?thesis
      by (auto simp: record_panel_response_def p record_outcome_def)
  next
    case (Some u)
    let ?r = "record_outcome (prov, m) ''success'' r1"
    have pr: "ro_pricing ?r = ro_pricing r" by (simp add: record_outcome_def IH)
    obtain cost r2 where rec: "record_usage_cost (prov, m) u ?r = (cost, r2)" by fastforce
    have "cost = priced r (prov, m) u" "ro_pricing r2 = ro_pricing r"
      using record_usage_cost_simps [of "(prov, m)" u ?r] rec pr priced_cong [OF pr] by simp_all
    with step IH split Some rec show ?thesis
      by (auto simp: record_panel_response_def record_contribution_def p total_usage_snoc
          split: option.splits)
  qed
qed

lemma find_SomeD: "List.find P xs = Some x \<Longrightarrow> x \<in> set xs \<and> P x"
  by (induction xs) (auto split: if_splits)

definition option_list :: "'a option \<Rightarrow> 'a list" where
  "option_list x = (case x of None \<Rightarrow> [] | Some a \<Rightarrow> [a])"

lemma option_list_simps [simp]: "option_list None = []" "option_list (Some a) = [a]"
  by (simp_all add: option_list_def)

lemma build_panel_frame:
  "build_panel rt req timeout panel w r = (tasks, r') \<Longrightarrow>
     ro_pricing r' = ro_pricing r \<and> ro_providers r' = ro_providers r"
proof (induction panel arbitrary: r tasks r')
  case Nil then show ?case by simp
next
  case (Cons c cs)
  have limit: "ro_pricing r1 = ro_pricing r \<and> ro_providers r1 = ro_providers r"
    if "check_outbound_rate_limit (fst c) now r = (x, r1)" for now x r1
    using that by (auto simp: check_outbound_rate_limit_def split: option.splits prod.splits)
  show ?case
    using Cons.prems
    by (auto simp: record_outcome_def split: prod.splits sum.splits option.splits
        dest!: limit Cons.IH)
qed

text \<open>The judge's answer carries the totals of the panel with its own share added.\<close>

lemma ask_judge_totals:
  assumes "fu_usage totals = total_usage (usages responses)"
    and "fu_cost totals = sum_list (panel_costs r0 responses)"
    and "fu_any_cost totals \<longleftrightarrow> panel_costs r0 responses \<noteq> []" and "ro_pricing r = ro_pricing r0"
    and ok: "ask_judge rt req fusion responses totals r w = (Inr resp, r', w')"
  shows "\<exists>judge (final :: chat_response). split_once CHR ''/'' (fc_judge fusion) = Some judge
    \<and> rs_choices resp = rs_choices final
    \<and> rs_usage resp = total_usage (usages responses @ option_list (rs_usage final))
    \<and> (let costs = panel_costs r0 responses
             @ option_list (Option.bind (rs_usage final) (priced r0 judge))
       in rs_cost_usd resp = (if costs = [] then None else Some (sum_list costs)))"
proof -
  from ok obtain judge where j: "split_once CHR ''/'' (fc_judge fusion) = Some judge"
    by (cases "split_once CHR ''/'' (fc_judge fusion)")
      (auto simp: ask_judge_def simp del: split_once_None)
  from ok j obtain provider where provider: "ro_providers r (fst judge) = Some provider"
    by (cases "ro_providers r (fst judge)") (auto simp: ask_judge_def)
  obtain reply w1 where call: "retry_same_provider (rt_chat rt provider (snd judge)
      (build_judge_request req (fc_judge fusion) responses) (byok_key_for req (fst judge)))
      (rt_sleep rt) w = (reply, w1)" by fastforce
  from ok j provider call obtain final where "reply = Inr final"
    by (cases reply) (auto simp: ask_judge_def)
  with ok j provider call have final: "resp = (let (totals', _) = (case rs_usage final of
          None \<Rightarrow> (totals, record_outcome judge ''success'' r)
        | Some u \<Rightarrow> record_contribution judge u (totals, record_outcome judge ''success'' r))
      in final\<lparr>rs_usage := fu_usage totals',
               rs_cost_usd := (if fu_any_cost totals' then Some (fu_cost totals') else None)\<rparr>)"
    by (auto simp: ask_judge_def Let_def split: prod.splits)
  have pr: "priced (record_outcome judge ''success'' r) = priced r0"
    by (rule priced_cong) (simp add: record_outcome_def assms)
  show ?thesis
  proof (cases "rs_usage final")
    case None
    with final assms(1-3) j show ?thesis
      by (intro exI [of _ judge] exI [of _ final]) (simp add: Let_def)
  next
    case (Some u)
    obtain cost r3 where rec: "record_usage_cost judge u (record_outcome judge ''success'' r) = (cost, r3)"
      by fastforce
    then have "cost = priced r0 judge u"
      using record_usage_cost_simps(1) [of judge u "record_outcome judge ''success'' r"] pr by simp
    with final assms(1-3) Some rec j show ?thesis
      by (intro exI [of _ judge] exI [of _ final])
        (auto simp: Let_def record_contribution_def total_usage_snoc split: option.splits)
  qed
qed

text \<open>How a fusion ends: without answers, with a tool call, or with the judge.\<close>

lemma dispatch_fusion_cases:
  assumes "build_panel rt req (fc_timeout fusion) panel w r = (tasks, r1)"
    and "rt_join_all rt tasks w = (results, w1)"
    and "dispatch_fusion rt req fusion panel r w = (outcome, r', w')"
  obtains (nobody) "List.map_filter id results = []" "outcome = Inl panel_failed"
  | (tools) p m x where "(p, m, x) \<in> set (List.map_filter id results)" "has_tool_calls x" "outcome = Inr x"
  | (judged) totals r2 where "\<forall>(p, m, x)\<in>set (List.map_filter id results). \<not> has_tool_calls x"
      "List.map_filter id results \<noteq> []"
      "fold record_panel_response (List.map_filter id results) (no_totals, r1) = (totals, r2)"
      "ask_judge rt req fusion (List.map_filter id results) totals r2 w1 = (outcome, r', w')"
proof -
  let ?rs = "List.map_filter id results"
  let ?found = "List.find (\<lambda>(_, _, resp). has_tool_calls resp) ?rs"
  obtain totals r2 where fold: "fold record_panel_response ?rs (no_totals, r1) = (totals, r2)" by fastforce
  show thesis
  proof (cases "?rs = []")
    case True
    with assms show thesis by (intro nobody) (auto simp: dispatch_fusion_def Let_def)
  next
    case False
    show thesis
    proof (cases ?found)
      case None
      with False assms fold have "\<forall>(p, m, x)\<in>set ?rs. \<not> has_tool_calls x"
        "ask_judge rt req fusion ?rs totals r2 w1 = (outcome, r', w')"
        by (auto simp: dispatch_fusion_def Let_def find_None_iff)
      with False fold show thesis by (intro judged)
    next
      case (Some p)
      obtain a b x where p: "p = (a, b, x)" by (cases p)
      from Some p have "(a, b, x) \<in> set ?rs" "has_tool_calls x" by (auto dest!: find_SomeD)
      with False assms Some p show thesis by (intro tools) (auto simp: dispatch_fusion_def Let_def)
    qed
  qed
qed


text \<open>Two of the sample providers answer in time, and one of them judges.\<close>

definition sample_fusion :: fusion_config where
  "sample_fusion = \<lparr>fc_judge = ''b/y'', fc_timeout = 10\<rparr>"

lemma record_panel_providers:
  "fold record_panel_response ps s = (totals, r') \<Longrightarrow> ro_providers r' = ro_providers (snd s)"
proof (induction ps arbitrary: s)
  case Nil then show ?case by simp
next
  case (Cons p ps)
  have "ro_providers (snd (record_panel_response p s)) = ro_providers (snd s)"
    by (auto simp: record_panel_response_def record_contribution_def record_outcome_def
        record_usage_cost_def Let_def split: prod.split option.split)
  with Cons show ?case by simp
qed

lemma sample_fusion_run:
  assumes "w = (0, [(5, Inr (answer ''p'')), (7, Inr (answer ''q'')), (3, Inr (answer ''j''))])"
    and "req = bare_request ''smart'' [user_message ''hi'']"
    and "build_panel scripted req 10 [(''a'', ''x''), (''b'', ''y'')] w sample_router = (tasks, r1)"
    and "rt_join_all scripted tasks w = (results, w1)"
  shows "List.map_filter id results = [(''a'', ''x'', answer ''p''), (''b'', ''y'', answer ''q'')]
    \<and> w1 = (12, [(3, Inr (answer ''j''))])"
  using assms
  by (auto simp: check_outbound_rate_limit_def sample_router_providers panel_task_def scripted_timeout_def
      retry_same_provider_unfold List.map_filter_simps)


end
