(* ===== verification/Entry.thy ===== *)
theory Entry
  imports Fusion
begin

text \<open>
  The entry points of the router (\<open>crates/router/src/lib.rs\<close>): the uncached dispatch, the cache-aware
  \<open>dispatch_traced\<close> with its exact and semantic caches, and the streaming dispatch.
\<close>

section \<open>Uncached dispatch\<close>

text \<open>Fusion engages for an alias of its own, no ad-hoc fallback list and no tools.\<close>

definition fusion_of :: "router \<Rightarrow> string \<Rightarrow> chat_request \<Rightarrow> fusion_config option" where
  "fusion_of r target req =
     (if unwrap_or [] (cr_models req) = [] \<and> cr_tools req = None then ro_fusion_routes r target
      else None)"

definition dispatch_uncached ::
  "'w rt \<Rightarrow> chat_request \<Rightarrow> router \<Rightarrow> 'w
    \<Rightarrow> (router_error + chat_response \<times> u32) \<times> router \<times> 'w" where
  "dispatch_uncached rt req r w =
     (case candidate_chain r (rt_nanos rt w) (rt_unix rt w) req of
        (Inl e, r1) \<Rightarrow> (Inl e, r1, w)
      | (Inr chain, r1) \<Rightarrow>
          (let target = fst (resolve_target_model r req) in
           case fusion_of r1 target req of
             Some fusion \<Rightarrow>
               (case dispatch_fusion rt req fusion chain r1 w of (res, r2, w2) \<Rightarrow>
                  (map_sum id (\<lambda>resp. (resp, of_nat (length chain))) res, r2, w2))
           | None \<Rightarrow> run_chain (chat_step rt req) target chain 0 None r1 w))"

definition dispatch_strategy :: "router \<Rightarrow> string \<Rightarrow> chat_request \<Rightarrow> string" where
  "dispatch_strategy r target_model req =
     (if unwrap_or [] (cr_models req) \<noteq> [] then ''fallback''
      else if cr_tools req = None \<and> ro_fusion_routes r target_model \<noteq> None then ''fusion''
      else if ro_routes r target_model \<noteq> None then ''fallback''
      else ''direct'')"

section \<open>Traces and caches\<close>

record dispatch_trace =
  dt_strategy :: string
  dt_provider :: string
  dt_model :: string
  dt_latency_ms :: u64
  dt_fallback_attempts :: u32

definition elapsed_ms :: "instant \<Rightarrow> instant \<Rightarrow> u64" where
  "elapsed_ms now started_at = of_nat ((now - started_at) div 1000000)"

definition build_trace :: "string \<Rightarrow> chat_response \<Rightarrow> u32 \<Rightarrow> instant \<Rightarrow> instant \<Rightarrow> dispatch_trace" where
  "build_trace strategy resp fallback_attempts started_at now =
     (case unwrap_or ([], rs_model resp) (split_once CHR ''/'' (rs_model resp)) of (provider, model) \<Rightarrow>
        \<lparr>dt_strategy = strategy, dt_provider = provider, dt_model = model,
         dt_latency_ms = elapsed_ms now started_at, dt_fallback_attempts = fallback_attempts\<rparr>)"

definition cache_key_for :: "'w rt \<Rightarrow> router \<Rightarrow> chat_request \<Rightarrow> u64 option" where
  "cache_key_for rt r req =
     (if is_streaming req then None
      else map_option (\<lambda>_. key_for (rt_hash rt) req) (ro_cache r))"

definition hit_or_miss :: "chat_response option \<Rightarrow> string" where
  "hit_or_miss resp = (if resp \<noteq> None then ''hit'' else ''miss'')"

definition cache_get :: "instant \<Rightarrow> u64 \<Rightarrow> router \<Rightarrow> chat_response option \<times> router" where
  "cache_get now key r =
     (case ro_cache r of
        None \<Rightarrow> (None, r)
      | Some cache \<Rightarrow>
          (case response_get now key cache of (resp, cache') \<Rightarrow>
             (resp, r\<lparr>ro_cache := Some cache',
                      ro_metrics := record_cache_lookup (hit_or_miss resp) (ro_metrics r)\<rparr>)))"

definition cache_insert :: "instant \<Rightarrow> u64 \<Rightarrow> chat_response \<Rightarrow> router \<Rightarrow> router" where
  "cache_insert now key resp r =
     r\<lparr>ro_cache := map_option (response_insert now key resp) (ro_cache r)\<rparr>"

definition embed_for_cache ::
  "'w rt \<Rightarrow> string \<Rightarrow> string \<Rightarrow> router \<Rightarrow> 'w \<Rightarrow> f32 list option \<times> router \<times> 'w" where
  "embed_for_cache rt model text r w =
     (case embeddings rt \<lparr>er_model = model, er_input = Single text, er_encoding_format = None,
                          er_dimensions = None\<rparr> r w of
        (Inr resp, r', w') \<Rightarrow>
          ((case es_data resp of [] \<Rightarrow> None | d # _ \<Rightarrow> Some (ed_embedding d)), r', w')
      | (Inl e, r', w') \<Rightarrow> (None, r', w'))"

definition semantic_cache_get ::
  "'w rt \<Rightarrow> chat_request \<Rightarrow> router \<Rightarrow> 'w \<Rightarrow> chat_response option \<times> router \<times> 'w" where
  "semantic_cache_get rt req r w =
     (case ro_embedding_model r of
        None \<Rightarrow> (None, r, w)
      | Some model \<Rightarrow>
          (case embed_for_cache rt model (request_text_for_embedding req) r w of
             (None, r1, w1) \<Rightarrow> (None, r1, w1)
           | (Some embedding, r1, w1) \<Rightarrow>
               (case ro_semantic_cache r1 of
                  None \<Rightarrow> (None, r1, w1)
                | Some cache \<Rightarrow>
                    (case semantic_get (rt_instant rt w1) (scope_key_for (rt_hash rt) req) embedding cache of
                       (resp, cache') \<Rightarrow>
                         (resp, r1\<lparr>ro_semantic_cache := Some cache',
                                   ro_metrics := record_cache_lookup (hit_or_miss resp) (ro_metrics r1)\<rparr>,
                          w1)))))"

definition semantic_cache_insert ::
  "'w rt \<Rightarrow> chat_request \<Rightarrow> chat_response \<Rightarrow> router \<Rightarrow> 'w \<Rightarrow> router \<times> 'w" where
  "semantic_cache_insert rt req resp r w =
     (case ro_embedding_model r of
        None \<Rightarrow> (r, w)
      | Some model \<Rightarrow>
          (case embed_for_cache rt model (request_text_for_embedding req) r w of
             (None, r1, w1) \<Rightarrow> (r1, w1)
           | (Some embedding, r1, w1) \<Rightarrow>
               (r1\<lparr>ro_semantic_cache :=
                    map_option
                      (semantic_insert (rt_instant rt w1) (scope_key_for (rt_hash rt) req) embedding resp)
                      (ro_semantic_cache r1)\<rparr>, w1)))"

definition dispatch_traced ::
  "'w rt \<Rightarrow> chat_request \<Rightarrow> router \<Rightarrow> 'w
    \<Rightarrow> (router_error + chat_response \<times> dispatch_trace) \<times> router \<times> 'w" where
  "dispatch_traced rt req r w =
     (let started_at = rt_instant rt w;
          strategy = dispatch_strategy r (fst (resolve_target_model r req)) req;
          trace = (\<lambda>resp n v. build_trace strategy resp n started_at (rt_instant rt v))
      in if \<not> is_streaming req \<and> ro_semantic_cache r \<noteq> None then
           (case semantic_cache_get rt req r w of
              (Some resp, r1, w1) \<Rightarrow> (Inr (resp, trace resp 0 w1), r1, w1)
            | (None, r1, w1) \<Rightarrow>
                (case dispatch_uncached rt req r1 w1 of
                   (Inl e, r2, w2) \<Rightarrow> (Inl e, r2, w2)
                 | (Inr (resp, n), r2, w2) \<Rightarrow>
                     (case semantic_cache_insert rt req resp r2 w2 of (r3, w3) \<Rightarrow>
                        (Inr (resp, trace resp n w3), r3, w3))))
         else
           (case cache_key_for rt r req of
              None \<Rightarrow>
                (case dispatch_uncached rt req r w of
                   (Inl e, r2, w2) \<Rightarrow> (Inl e, r2, w2)
                 | (Inr (resp, n), r2, w2) \<Rightarrow> (Inr (resp, trace resp n w2), r2, w2))
            | Some key \<Rightarrow>
                (case cache_get (rt_instant rt w) key r of
                   (Some resp, r1) \<Rightarrow> (Inr (resp, trace resp 0 w), r1, w)
                 | (None, r1) \<Rightarrow>
                     (case dispatch_uncached rt req r1 w of
                        (Inl e, r2, w2) \<Rightarrow> (Inl e, r2, w2)
                      | (Inr (resp, n), r2, w2) \<Rightarrow>
                          (Inr (resp, trace resp n w2),
                           cache_insert (rt_instant rt w2) key resp r2, w2)))))"

definition dispatch ::
  "'w rt \<Rightarrow> chat_request \<Rightarrow> router \<Rightarrow> 'w \<Rightarrow> (router_error + chat_response) \<times> router \<times> 'w" where
  "dispatch rt req r w =
     (case dispatch_traced rt req r w of (res, r', w') \<Rightarrow> (map_sum id fst res, r', w'))"

section \<open>Streaming dispatch\<close>

definition dispatch_stream_uncached ::
  "'w rt \<Rightarrow> chat_request \<Rightarrow> router \<Rightarrow> 'w
    \<Rightarrow> (router_error + instrumented_stream \<times> u32) \<times> router \<times> 'w" where
  "dispatch_stream_uncached rt req r w =
     (case candidate_chain r (rt_nanos rt w) (rt_unix rt w) req of
        (Inl e, r1) \<Rightarrow> (Inl e, r1, w)
      | (Inr chain, r1) \<Rightarrow>
          run_chain (stream_step rt req) (fst (resolve_target_model r req)) chain 0 None r1 w)"

definition dispatch_stream ::
  "'w rt \<Rightarrow> chat_request \<Rightarrow> router \<Rightarrow> 'w \<Rightarrow> (router_error + instrumented_stream) \<times> router \<times> 'w" where
  "dispatch_stream rt req r w =
     (case dispatch_stream_uncached rt req r w of (res, r', w') \<Rightarrow> (map_sum id fst res, r', w'))"

definition dispatch_stream_traced ::
  "'w rt \<Rightarrow> chat_request \<Rightarrow> router \<Rightarrow> 'w
    \<Rightarrow> (router_error + instrumented_stream \<times> dispatch_trace) \<times> router \<times> 'w" where
  "dispatch_stream_traced rt req r w =
     (let started_at = rt_instant rt w;
          strategy = dispatch_strategy r (fst (resolve_target_model r req)) req
      in case dispatch_stream_uncached rt req r w of
           (Inl e, r', w') \<Rightarrow> (Inl e, r', w')
         | (Inr (stream, n), r', w') \<Rightarrow>
             (Inr (stream,
                   \<lparr>dt_strategy = strategy, dt_provider = fst (is_candidate stream),
                    dt_model = snd (is_candidate stream),
                    dt_latency_ms = elapsed_ms (rt_instant rt w') started_at,
                    dt_fallback_attempts = n\<rparr>), r', w'))"

section \<open>The invariant is kept\<close>

lemma router_inv_free_tiers:
  "router_inv r \<Longrightarrow> dom u \<subseteq> dom (ro_free_tier_settings r) \<Longrightarrow> router_inv (r\<lparr>ro_free_tier_usage := u\<rparr>)"
  by (erule router_invI) auto

lemma status_snapshot_used_dom:
  assumes "dom used \<subseteq> dom settings"
  shows "dom (snd (status_snapshot settings used now)) \<subseteq> dom settings"
proof
  fix k assume k: "k \<in> dom (snd (status_snapshot settings used now))"
  show "k \<in> dom settings"
  proof (rule ccontr)
    assume "k \<notin> dom settings"
    with assms have "settings k = None" "used k = None" by (auto simp: domIff)
    with k show False by (simp add: status_snapshot_def domIff)
  qed
qed

lemma free_tier_status_inv:
  assumes "router_inv r" shows "router_inv (snd (free_tier_status now r))"
proof -
  have "dom (ro_free_tier_usage r) \<subseteq> dom (ro_free_tier_settings r)"
    using assms by (simp add: router_inv_def)
  from router_inv_free_tiers [OF assms status_snapshot_used_dom [OF this]] show ?thesis
    by (simp add: free_tier_status_def case_prod_beta)
qed

lemma apply_preferences_inv:
  assumes "router_inv r"
  shows "router_inv (snd (apply_preferences r nanos now model chain prefs))"
proof -
  have "router_inv (snd (free_tier_status now r))"
    using assms by (rule free_tier_status_inv)
  then have "router_inv (snd (sort_chain r nanos now order_by xs))" for order_by xs
    using assms by (auto simp: sort_chain_def split: prod.split)
  then have "router_inv r'" if "sort_chain r nanos now order_by xs = (ys, r')" for order_by xs ys r'
    using that by (metis snd_conv)
  then show ?thesis
    using assms by (auto simp: apply_preferences_def Let_def split: option.splits prod.splits)
qed

lemma candidate_chain_inv:
  assumes "router_inv r" shows "router_inv (snd (candidate_chain r nanos now req))"
proof -
  have "router_inv r1" if "apply_preferences r nanos now t c p = (x, r1)" for t c p x r1
    using apply_preferences_inv [OF assms, of nanos now t c p] that by simp
  with assms show ?thesis
    by (auto simp: candidate_chain_def split: prod.splits sum.splits)
qed

lemma build_panel_inv: "router_inv r \<Longrightarrow> router_inv (snd (build_panel rt req d panel w r))"
proof (induction panel arbitrary: r)
  case Nil then show ?case by simp
next
  case (Cons c cs)
  obtain lim r1 where l: "check_outbound_rate_limit (fst c) (rt_instant rt w) r = (lim, r1)" by fastforce
  with check_outbound_inv [OF Cons.prems] have r1: "router_inv r1" by (metis snd_conv)
  have IH: "router_inv r'" "router_inv r''"
    if "build_panel rt req d cs w r1 = (ts, r')"
      "build_panel rt req d cs w (record_outcome c out r1) = (ts', r'')" for ts r' ts' r'' out
    using Cons.IH [OF r1] Cons.IH [OF record_outcome_inv [OF r1]] that by (metis snd_conv)+
  show ?case
    using l Cons.IH [OF r1] Cons.IH [OF record_outcome_inv [OF r1]]
    by (auto split: sum.splits option.splits prod.split)
qed

lemma record_contribution_inv: "router_inv (snd s) \<Longrightarrow> router_inv (snd (record_contribution c u s))"
  using record_usage_cost_inv [of "snd s" c u] by (auto simp: record_contribution_def split: prod.splits)

lemma record_panel_inv:
  "router_inv (snd s) \<Longrightarrow> router_inv (snd (fold record_panel_response ps s))"
proof (induction ps arbitrary: s)
  case Nil then show ?case by simp
next
  case (Cons p ps)
  obtain a b resp where p: "p = (a, b, resp)" by (cases p)
  have out: "router_inv (record_outcome c x (snd s))" for c x
    using Cons.prems by (rule record_outcome_inv)
  have "router_inv (snd (record_panel_response p s))"
    using out record_contribution_inv [of "(fst s, record_outcome (a, b) ''success'' (snd s))"]
    by (simp add: record_panel_response_def p Let_def split: option.split)
  from Cons.IH [OF this] show ?case by simp
qed

lemma ask_judge_inv:
  assumes "router_inv r" shows "router_inv (fst (snd (ask_judge rt req fusion ps t r w)))"
proof -
  have out: "router_inv (record_outcome c x r)" for c x using assms by (rule record_outcome_inv)
  have contrib: "router_inv r2"
    if "record_contribution c u (t, record_outcome c x r) = (t', r2)" for c u x t' r2
    using record_contribution_inv [of "(t, record_outcome c x r)" c u] out that by simp
  show ?thesis
    using assms
    by (auto simp: ask_judge_def Let_def out simp del: split_once_None
        split: option.splits prod.splits sum.splits dest: contrib intro!: record_generation_inv)
qed

lemma dispatch_fusion_inv:
  assumes "router_inv r" shows "router_inv (fst (snd (dispatch_fusion rt req fusion panel r w)))"
proof -
  obtain tasks r1 where b: "build_panel rt req (fc_timeout fusion) panel w r = (tasks, r1)" by fastforce
  with build_panel_inv [OF assms] have r1: "router_inv r1" by (metis snd_conv)
  obtain results w1 where j: "rt_join_all rt tasks w = (results, w1)" by fastforce
  have "router_inv (snd (fold record_panel_response ps (no_totals, r1)))" for ps
    using r1 by (intro record_panel_inv) simp
  then have "router_inv r2" if "fold record_panel_response ps (no_totals, r1) = (t, r2)" for ps t r2
    using that by (metis snd_conv)
  then show ?thesis
    using r1 b j
    by (auto simp: dispatch_fusion_def Let_def split: prod.split option.split
        intro!: ask_judge_inv record_outcome_inv)
qed

lemma dispatch_uncached_inv:
  assumes "router_inv r" shows "router_inv (fst (snd (dispatch_uncached rt req r w)))"
proof -
  obtain res r1 where c: "candidate_chain r (rt_nanos rt w) (rt_unix rt w) req = (res, r1)" by fastforce
  with candidate_chain_inv [OF assms] have r1: "router_inv r1" by (metis snd_conv)
  show ?thesis
  proof (cases res)
    case (Inl e) with c r1 show ?thesis by (simp add: dispatch_uncached_def)
  next
    case (Inr chain)
    show ?thesis
    proof (cases "fusion_of r1 (fst (resolve_target_model r req)) req")
      case None
      with c Inr chat.run_chain_keeps [OF r1] show ?thesis by (simp add: dispatch_uncached_def)
    next
      case (Some fusion)
      with c Inr dispatch_fusion_inv [OF r1, of rt req fusion chain w] show ?thesis
        by (auto simp: dispatch_uncached_def split: prod.split)
    qed
  qed
qed

lemma dispatch_stream_uncached_inv:
  assumes "router_inv r" shows "router_inv (fst (snd (dispatch_stream_uncached rt req r w)))"
proof -
  obtain res r1 where c: "candidate_chain r (rt_nanos rt w) (rt_unix rt w) req = (res, r1)" by fastforce
  with candidate_chain_inv [OF assms] have r1: "router_inv r1" by (metis snd_conv)
  with c stream.run_chain_keeps [OF r1] show ?thesis
    by (cases res) (simp_all add: dispatch_stream_uncached_def)
qed

end
