(* ===== verification/Entry_Facts.thy ===== *)
theory Entry_Facts
  imports Entry Dispatch_Facts
begin

text \<open>
  What the entry points guarantee: candidates are tried in the order of the chain, a dispatch leaves
  the configuration and the response caches alone, a cached answer is served without calling anyone,
  and every entry point keeps the router's invariant.
\<close>

section \<open>What a dispatch leaves alone\<close>

lemma fixed_candidate_chain [simp]: "fixed (snd (candidate_chain r nanos now req)) = fixed r"
proof -
  have "fixed (snd (apply_preferences r nanos now t c p)) = fixed r" for t c p
    using apply_preferences_router [of r nanos now t c p] fixed_updates(9) by metis
  then have "fixed r1 = fixed r" if "apply_preferences r nanos now t c p = (x, r1)" for t c p x r1
    using that by (metis snd_conv)
  then show ?thesis by (auto simp: candidate_chain_def split: prod.splits sum.splits)
qed

lemma fixed_build_panel [simp]: "fixed (snd (build_panel rt req d panel w r)) = fixed r"
proof (induction panel arbitrary: r)
  case Nil then show ?case by simp
next
  case (Cons c cs)
  obtain lim r1 where l: "check_outbound_rate_limit (fst c) (rt_instant rt w) r = (lim, r1)" by fastforce
  then have "fixed r1 = fixed r" using fixed_outbound by (metis snd_conv)
  with l Cons.IH show ?case by (auto simp: case_prod_beta split: sum.splits option.splits)
qed

lemma fixed_contribution [simp]: "fixed (snd (record_contribution c u s)) = fixed (snd s)"
  by (simp add: record_contribution_def case_prod_beta)

lemma fixed_panel_response [simp]: "fixed (snd (record_panel_response p s)) = fixed (snd s)"
  by (auto simp: record_panel_response_def Let_def split: prod.split option.split)

lemma fixed_panel_fold [simp]: "fixed (snd (fold record_panel_response ps s)) = fixed (snd s)"
  by (induction ps arbitrary: s) simp_all

lemma fixed_ask_judge [simp]: "fixed (fst (snd (ask_judge rt req fusion ps t r w))) = fixed r"
  by (auto simp: ask_judge_def Let_def case_prod_beta simp del: split_once_None
      split: option.split sum.split)

lemma fixed_dispatch_fusion [simp]: "fixed (fst (snd (dispatch_fusion rt req fusion panel r w))) = fixed r"
  by (auto simp: dispatch_fusion_def Let_def case_prod_beta split: option.split)

lemma fixed_dispatch_uncached [simp]: "fixed (fst (snd (dispatch_uncached rt req r w))) = fixed r"
proof -
  obtain res r1 where c: "candidate_chain r (rt_nanos rt w) (rt_unix rt w) req = (res, r1)" by fastforce
  then have r1: "fixed r1 = fixed r" using fixed_candidate_chain by (metis snd_conv)
  have "fixed (fst (snd (run_chain (chat_step rt req) t chain n e r1 w))) = fixed r" for t chain n e
    using r1 by (rule chat_fixed.run_chain_keeps)
  with c r1 show ?thesis
    by (auto simp: dispatch_uncached_def Let_def case_prod_beta split: sum.split option.split)
qed

lemma fixed_embeddings [simp]: "fixed (fst (snd (embeddings rt req r w))) = fixed r"
  using embed_fixed.run_chain_keeps [of r "fixed r" rt req]
  by (simp add: embeddings_def case_prod_beta split: sum.split)

section \<open>Candidates are tried in order\<close>

text \<open>
  \<^bold>\<open>C3.\<close> A request that fusion does not take tries the candidates of its chain one after another:
  the first that answers serves it, and the attempts reported are its position; an error that is not
  retryable ends the request there; with every candidate fallen through the request fails with the
  error of the last one. No candidate after the deciding one is tried.
\<close>

theorem dispatch_in_order:
  assumes "dispatch_uncached rt req r w = (res, r', w')"
    and "candidate_chain r (rt_nanos rt w) (rt_unix rt w) req = (Inr chain, r1)"
    and "fusion_of r1 (fst (resolve_target_model r req)) req = None"
    and "tried = tried_at (chat_step rt req) chain (r1, w)"
    and "state = state_before (chat_step rt req) chain (r1, w)"
  shows "(\<exists>i<length chain. (\<forall>j<i. \<exists>e. tried j = Fell e) \<and> (r', w') = state (Suc i)
       \<and> ((\<exists>resp. tried i = Served resp \<and> res = Inr (resp, of_nat (Suc i)))
          \<or> (\<exists>e. tried i = Stopped e \<and> res = Inl e)))
    \<or> (\<forall>j<length chain. \<exists>e. tried j = Fell e) \<and> (r', w') = state (length chain)
       \<and> (if chain = [] then res = Inl (InvalidModel (fst (resolve_target_model r req)))
          else \<exists>e. tried (length chain - 1) = Fell e \<and> res = Inl e)"
    (is "?deciding \<or> ?exhausted")
proof -
  let ?t = "fst (resolve_target_model r req)"
  have run: "run_chain (chat_step rt req) ?t chain 0 None r1 w = (res, r', w')"
    using assms(1-3) by (simp add: dispatch_uncached_def Let_def)
  show ?thesis
    using run_chain_spec [OF run, folded assms(4,5)]
  proof (rule disjE)
    assume fell: "(\<forall>j<length chain. \<exists>e. tried j = Fell e)
      \<and> res = Inl (if chain = [] then unwrap_or (InvalidModel ?t) None
            else case tried (length chain - 1) of Fell e \<Rightarrow> e | _ \<Rightarrow> InvalidModel ?t)
      \<and> (r', w') = state (length chain)"
    have ?exhausted
    proof (cases "chain = []")
      case True with fell show ?thesis by simp
    next
      case False
      then have "length chain - 1 < length chain" by (cases chain) simp_all
      with fell obtain e where "tried (length chain - 1) = Fell e" by blast
      with fell False show ?thesis by simp
    qed
    then show ?thesis ..
  next
    assume "\<exists>i<length chain. (\<forall>j<i. \<exists>e. tried j = Fell e)
      \<and> ((\<exists>x. tried i = Served x \<and> res = Inr (x, 0 + of_nat (Suc i)))
         \<or> (\<exists>e. tried i = Stopped e \<and> res = Inl e))
      \<and> (r', w') = state (Suc i)"
    then have ?deciding unfolding add_0 by blast
    then show ?thesis ..
  qed
qed

lemma sample_candidate_chain:
  "candidate_chain sample_router n u (bare_request ''smart'' ms) = (Inr [(''a'', ''x''), (''b'', ''y'')], sample_router)"
  by (simp add: candidate_chain_def resolve_target_model_def sample_chain Let_def
      auto_routed_price_preference_def effective_preferences_def bare_request_def apply_preferences_def
      deprioritize_unhealthy_def unhealthy_def filter_by_required_parameters_def apply_request_budget_def)

theorem dispatch_in_order_witness:
  "\<exists>resp r' w'. dispatch_uncached scripted (bare_request ''smart'' [user_message ''hi'']) sample_router
       (0, [(5, Inl (RateLimited None)), (7, Inr (answer ''p''))]) = (Inr (resp, 2), r', w')"
proof -
  define req where "req = bare_request ''smart'' [user_message ''hi'']"
  define w :: script where "w = (0, [(5, Inl (RateLimited None)), (7, Inr (answer ''p''))])"
  obtain res r' w' where run: "dispatch_uncached scripted req sample_router w = (res, r', w')"
    by (rule prod_cases3)
  define tried where "tried = tried_at (chat_step scripted req) [(''a'', ''x''), (''b'', ''y'')] (sample_router, w)"
  have chain: "candidate_chain sample_router (rt_nanos scripted w) (rt_unix scripted w) req
      = (Inr [(''a'', ''x''), (''b'', ''y'')], sample_router)"
    unfolding req_def by (rule sample_candidate_chain)
  have no_fusion: "fusion_of sample_router (fst (resolve_target_model sample_router req)) req = None"
    by (simp add: fusion_of_def)
  obtain r1 where one: "chat_step scripted req (''a'', ''x'') sample_router w
      = (Fell (ProviderErr (RateLimited None)), r1, (5, [(7, Inr (answer ''p''))]))"
    "ro_providers r1 = ro_providers sample_router" "ro_provider_rpm r1 = Map.empty"
    by (auto simp: chat_step_def try_candidate_def sample_router_providers check_outbound_rate_limit_def
        retry_same_provider_unfold call_chat_def w_def record_outcome_def record_uptime_def)
  have "\<exists>resp s. chat_step scripted req (''b'', ''y'') r1 (5, [(7, Inr (answer ''p''))]) = (Served resp, s)"
    by (auto simp: chat_step_def try_candidate_def one(2,3) sample_router_providers
        check_outbound_rate_limit_def retry_same_provider_unfold call_chat_def split: prod.split)
  with one have "tried 0 = Fell (ProviderErr (RateLimited None))" "\<exists>resp. tried 1 = Served resp"
    by (auto simp: tried_def)
  with dispatch_in_order [OF run chain no_fusion tried_def refl] have "\<exists>resp. res = Inr (resp, 2)"
    by (auto simp: less_Suc_eq numeral_2_eq_2)
  with run show ?thesis unfolding req_def w_def by blast
qed

section \<open>Entry points keep the invariant\<close>

lemma embeddings_inv: "router_inv r \<Longrightarrow> router_inv (fst (snd (embeddings rt req r w)))"
  using embed.run_chain_keeps [of r rt req]
  by (simp add: embeddings_def case_prod_beta split: sum.split)

lemma embed_for_cache_inv: "router_inv r \<Longrightarrow> router_inv (fst (snd (embed_for_cache rt m text r w)))"
  using embeddings_inv [of r rt _ w] by (simp add: embed_for_cache_def case_prod_beta split: sum.split)

lemma router_inv_response_cache:
  "router_inv r \<Longrightarrow> ro_cache r = Some c \<Longrightarrow> response_inv c' \<Longrightarrow> router_inv (r\<lparr>ro_cache := Some c', ro_metrics := mt\<rparr>)"
  unfolding router_inv_def by auto

lemma router_inv_semantic_cache:
  "router_inv r \<Longrightarrow> ro_semantic_cache r = Some c \<Longrightarrow> semantic_inv c'
    \<Longrightarrow> router_inv (r\<lparr>ro_semantic_cache := Some c', ro_metrics := mt\<rparr>)"
  unfolding router_inv_def by auto

lemma cache_get_inv: "router_inv r \<Longrightarrow> router_inv (snd (cache_get now key r))"
proof (cases "ro_cache r")
  case (Some c)
  assume inv: "router_inv r"
  with Some have "response_inv (snd (response_get now key c))"
    by (intro response_get_inv) (simp add: router_inv_def)
  from router_inv_response_cache [OF inv Some this] Some show ?thesis
    by (simp add: cache_get_def case_prod_beta)
qed (simp add: cache_get_def)

lemma cache_insert_inv: "router_inv r \<Longrightarrow> router_inv (cache_insert now key resp r)"
proof (cases "ro_cache r")
  case None
  assume inv: "router_inv r"
  have "cache_insert now key resp r = r\<lparr>ro_cache := ro_cache r\<rparr>" by (simp add: cache_insert_def None)
  with inv show ?thesis by simp
next
  case (Some c)
  assume inv: "router_inv r"
  with Some have "response_inv (response_insert now key resp c)"
    by (intro response_insert_inv) (simp add: router_inv_def)
  from router_inv_response_cache [OF inv Some this, of "ro_metrics r"] Some show ?thesis
    by (simp add: cache_insert_def)
qed

lemma semantic_cache_get_inv:
  assumes "router_inv r" shows "router_inv (fst (snd (semantic_cache_get rt req r w)))"
proof (cases "ro_embedding_model r")
  case None with assms show ?thesis by (simp add: semantic_cache_get_def)
next
  case (Some m)
  obtain emb r1 w1 where e: "embed_for_cache rt m (request_text_for_embedding req) r w = (emb, r1, w1)"
    by (rule prod_cases3)
  with embed_for_cache_inv [OF assms, of rt m "request_text_for_embedding req" w] have r1: "router_inv r1"
    by simp
  have "router_inv (r1\<lparr>ro_semantic_cache := Some c', ro_metrics := mt\<rparr>)"
    if "ro_semantic_cache r1 = Some c" "semantic_get now k v c = (x, c')" for c now k v x c' mt
    using semantic_get_inv [of c now k v] r1 that
    by (intro router_inv_semantic_cache [OF r1 that(1)]) (simp add: router_inv_def)
  with r1 Some e show ?thesis
    by (auto simp: semantic_cache_get_def split: option.split prod.split)
qed

lemma semantic_cache_insert_inv:
  assumes "router_inv r" shows "router_inv (fst (semantic_cache_insert rt req resp r w))"
proof (cases "ro_embedding_model r")
  case None with assms show ?thesis by (simp add: semantic_cache_insert_def)
next
  case (Some m)
  obtain emb r1 w1 where e: "embed_for_cache rt m (request_text_for_embedding req) r w = (emb, r1, w1)"
    by (rule prod_cases3)
  with embed_for_cache_inv [OF assms, of rt m "request_text_for_embedding req" w] have r1: "router_inv r1"
    by simp
  have "router_inv (r1\<lparr>ro_semantic_cache := map_option (semantic_insert now k v resp) (ro_semantic_cache r1)\<rparr>)"
    for now k v
  proof (cases "ro_semantic_cache r1")
    case None
    then have "r1\<lparr>ro_semantic_cache := map_option (semantic_insert now k v resp) (ro_semantic_cache r1)\<rparr>
      = r1\<lparr>ro_semantic_cache := ro_semantic_cache r1\<rparr>" by simp
    with r1 show ?thesis by simp
  next
    case (Some c)
    with r1 have "semantic_inv (semantic_insert now k v resp c)"
      by (intro semantic_insert_inv) (simp add: router_inv_def)
    from router_inv_semantic_cache [OF r1 Some this, of "ro_metrics r1"] Some show ?thesis by simp
  qed
  with r1 Some e show ?thesis by (auto simp: semantic_cache_insert_def split: option.split)
qed

lemma dispatch_traced_inv:
  assumes "router_inv r" shows "router_inv (fst (snd (dispatch_traced rt req r w)))"
proof (cases "\<not> is_streaming req \<and> ro_semantic_cache r \<noteq> None")
  case True
  obtain hit r1 w1 where get: "semantic_cache_get rt req r w = (hit, r1, w1)" by (rule prod_cases3)
  with semantic_cache_get_inv [OF assms, of rt req w] have r1: "router_inv r1" by simp
  obtain res r2 w2 where unc: "dispatch_uncached rt req r1 w1 = (res, r2, w2)" by (rule prod_cases3)
  with dispatch_uncached_inv [OF r1, of rt req w1] have r2: "router_inv r2" by simp
  then have "router_inv (fst (semantic_cache_insert rt req resp r2 w2))" for resp
    by (rule semantic_cache_insert_inv)
  with True get unc r1 r2 show ?thesis
    by (cases hit; cases res) (auto simp: dispatch_traced_def Let_def case_prod_beta)
next
  case False
  show ?thesis
  proof (cases "cache_key_for rt r req")
    case None
    obtain res r2 w2 where unc: "dispatch_uncached rt req r w = (res, r2, w2)" by (rule prod_cases3)
    with dispatch_uncached_inv [OF assms, of rt req w] have "router_inv r2" by simp
    with False None unc show ?thesis
      by (cases res) (auto simp: dispatch_traced_def Let_def)
  next
    case (Some key)
    obtain hit r1 where get: "cache_get (rt_instant rt w) key r = (hit, r1)" by fastforce
    with cache_get_inv [OF assms, of "rt_instant rt w" key] have r1: "router_inv r1" by simp
    obtain res r2 w2 where unc: "dispatch_uncached rt req r1 w = (res, r2, w2)" by (rule prod_cases3)
    with dispatch_uncached_inv [OF r1, of rt req w] have r2: "router_inv r2" by simp
    then have "router_inv (cache_insert now key resp r2)" for now resp by (rule cache_insert_inv)
    with False Some get unc r1 r2 show ?thesis
      by (cases hit; cases res) (auto simp: dispatch_traced_def Let_def)
  qed
qed

lemma dispatch_inv: "router_inv r \<Longrightarrow> router_inv (fst (snd (dispatch rt req r w)))"
  using dispatch_traced_inv [of r rt req w] by (simp add: dispatch_def case_prod_beta)

lemma dispatch_stream_inv: "router_inv r \<Longrightarrow> router_inv (fst (snd (dispatch_stream rt req r w)))"
  using dispatch_stream_uncached_inv [of r rt req w] by (simp add: dispatch_stream_def case_prod_beta)

lemma instrument_item_inv:
  assumes "router_inv r" shows "router_inv (snd (instrument_item c t0 now unix item r))"
proof -
  have "router_inv r1" if "record_usage_cost c u (record_throughput c u x r) = (cost, r1)" for u x cost r1
    using record_usage_cost_inv [OF record_throughput_inv [OF assms], of c u c u x] that by simp
  with assms show ?thesis
    by (auto simp: instrument_item_def instrument_chunk_def split: sum.split option.split prod.split
        intro!: record_generation_inv record_free_tier_inv)
qed

lemma consume_items_inv: "router_inv r \<Longrightarrow> router_inv (snd (consume_items c t0 items r))"
proof (induction items arbitrary: r)
  case Nil then show ?case by simp
next
  case (Cons i items)
  obtain now unix item where i: "i = (now, unix, item)" by (cases i)
  from Cons.IH [OF instrument_item_inv [OF Cons.prems]] show ?case
    by (simp add: i case_prod_beta)
qed

section \<open>The exact-match cache\<close>

text \<open>What a dispatched miss leaves in the cache.\<close>

lemma dispatch_miss:
  assumes "dispatch_traced rt req r w = (Inr (resp, tr), r1, w1)"
    and "\<not> is_streaming req" and "ro_semantic_cache r = None" and "ro_cache r = Some c"
    and "fst (response_get (rt_instant rt w) (key_for (rt_hash rt) req) c) = None"
  shows "ro_semantic_cache r1 = None"
    and "ro_cache r1 = Some (response_insert (rt_instant rt w1) (key_for (rt_hash rt) req) resp
           (snd (response_get (rt_instant rt w) (key_for (rt_hash rt) req) c)))"
proof -
  let ?key = "key_for (rt_hash rt) req"
  let ?c = "snd (response_get (rt_instant rt w) ?key c)"
  obtain r0 where get: "cache_get (rt_instant rt w) ?key r = (None, r0)" "ro_cache r0 = Some ?c"
    "ro_semantic_cache r0 = None"
    using assms(3-5) by (auto simp: cache_get_def case_prod_beta)
  obtain res r2 w2 where unc: "dispatch_uncached rt req r0 w = (res, r2, w2)" by (rule prod_cases3)
  then have "fixed r2 = fixed r0" using fixed_dispatch_uncached [of rt req r0 w] by simp
  then have keep: "ro_cache r2 = Some ?c" "ro_semantic_cache r2 = None"
    using fixedD(4,5) get(2,3) by metis+
  have "dispatch_traced rt req r w = (case res of Inl e \<Rightarrow> (Inl e, r2, w2)
    | Inr (resp, n) \<Rightarrow> (Inr (resp, build_trace (dispatch_strategy r (fst (resolve_target_model r req)) req)
          resp n (rt_instant rt w) (rt_instant rt w2)), cache_insert (rt_instant rt w2) ?key resp r2, w2))"
    using assms(2-4) get(1) unc by (simp add: dispatch_traced_def cache_key_for_def Let_def split: sum.split)
  with assms(1) have "r1 = cache_insert (rt_instant rt w1) ?key resp r2" by (auto split: sum.splits)
  with keep show "ro_semantic_cache r1 = None"
    "ro_cache r1 = Some (response_insert (rt_instant rt w1) ?key resp ?c)"
    by (simp_all add: cache_insert_def)
qed


text \<open>The sample router with a cache: the second request is answered from it.\<close>

definition caching_router :: router where
  "caching_router = sample_router\<lparr>ro_cache := Some (new_response_cache (sample_cache_config 2))\<rparr>"

lemma caching_router_simps [simp]:
  "ro_cache caching_router = Some (new_response_cache (sample_cache_config 2))"
  "ro_semantic_cache caching_router = None" "ro_providers caching_router = ro_providers sample_router"
  "ro_provider_rpm caching_router = Map.empty" "ro_fusion_routes caching_router = Map.empty"
  "ro_auto_routing caching_router = None" "ro_routes caching_router = ro_routes sample_router"
  "ro_uptime caching_router = Map.empty"
  by (simp_all add: caching_router_def)

lemma caching_chain:
  "candidate_chain (caching_router\<lparr>ro_cache := x, ro_metrics := y\<rparr>) n u (bare_request ''a/x'' ms)
     = (Inr [(''a'', ''x'')], caching_router\<lparr>ro_cache := x, ro_metrics := y\<rparr>)"
  by (simp add: candidate_chain_def resolve_target_model_def resolve_chain_def Let_def
      auto_routed_price_preference_def effective_preferences_def bare_request_def apply_preferences_def
      deprioritize_unhealthy_def unhealthy_def filter_by_required_parameters_def apply_request_budget_def)

lemma caching_step:
  "\<exists>resp r2. chat_step scripted req (''a'', ''x'') (caching_router\<lparr>ro_cache := x, ro_metrics := y\<rparr>)
     (0, [(5, Inr (answer ''p''))]) = (Served resp, r2, (5, []))"
  by (auto simp: chat_step_def try_candidate_def sample_router_providers check_outbound_rate_limit_def
      retry_same_provider_unfold call_chat_def split: prod.split)

lemma caching_run:
  "\<exists>resp tr r1. dispatch_traced scripted (bare_request ''a/x'' ms) caching_router
     (0, [(5, Inr (answer ''p''))]) = (Inr (resp, tr), r1, (5, []))"
proof -
  let ?w = "(0, [(5, Inr (answer ''p''))]) :: script"
  let ?req = "bare_request ''a/x'' ms"
  let ?c = "new_response_cache (sample_cache_config 2)"
  let ?r = "caching_router\<lparr>ro_cache := Some ?c, ro_metrics := record_cache_lookup ''miss'' (ro_metrics caching_router)\<rparr>"
  have get: "cache_get 0 key caching_router = (None, ?r)" for key
    by (simp add: cache_get_def response_get_def new_response_cache_def hit_or_miss_def)
  obtain resp r2 where "chat_step scripted ?req (''a'', ''x'') ?r ?w = (Served resp, r2, (5, []))"
    using caching_step by blast
  then have "dispatch_uncached scripted ?req ?r ?w = (Inr (resp, 1), r2, (5, []))"
    using caching_chain [of "record_cache_lookup ''miss'' (ro_metrics caching_router)" "Some ?c"
        "rt_nanos scripted ?w" "rt_unix scripted ?w" ms]
    by (simp add: dispatch_uncached_def Let_def fusion_of_def)
  then show ?thesis
    using get by (simp add: dispatch_traced_def Let_def cache_key_for_def is_streaming_def bare_request_def)
qed


section \<open>What a trace reports\<close>

text \<open>The strategy of a non-streaming trace is fusion exactly when fusion takes the request. A
  streaming request is never fused, but its trace says so all the same.\<close>

lemma strategy_fusion_iff:
  "dispatch_strategy r target req = ''fusion'' \<longleftrightarrow> fusion_of r target req \<noteq> None"
  by (auto simp: dispatch_strategy_def fusion_of_def)

lemma stream_trace_claims_fusion:
  assumes "dispatch_stream_traced rt req r w = (Inr (stream, tr), r', w')"
    and "fusion_of r (fst (resolve_target_model r req)) req \<noteq> None"
  shows "dt_strategy tr = ''fusion''
    \<and> (\<exists>n. dispatch_stream_uncached rt req r w = (Inr (stream, n), r', w'))"
  using assms strategy_fusion_iff [of r "fst (resolve_target_model r req)" req]
  by (auto simp: dispatch_stream_traced_def Let_def split: prod.splits sum.splits)

end
