(* ===== verification/Client_Spend.thy ===== *)
theory Client_Spend
  imports Router_State
begin

text \<open>
  Client budgets as the router enforces and reports them (\<open>crates/router/src/lib.rs\<close>:
  \<open>check_client_budget\<close> to \<open>remove_client\<close>). Without persistence the spend is the router's own; with
  it, writes are queued and reads go to the store. A notification is appended to \<open>ro_notified\<close>, the
  list of events a delivery task was spawned for. The task that reads the store back after a write
  is a value of its own, run whenever the runtime gets to it.
\<close>

section \<open>Operations\<close>

record client_budget_exceeded =
  be_spent_usd :: f64
  be_budget_usd :: f64

record client_spend_report =
  cs_spent_usd :: f64
  cs_budget_usd :: f64
  cs_period :: budget_period

record daily_usage =
  dy_day :: string
  dy_requests :: u64
  dy_prompt_tokens :: u64
  dy_completion_tokens :: u64
  dy_cost_usd :: f64

definition warning_amount :: "client_budget_setting \<Rightarrow> f64 option" where
  "warning_amount setting =
     map_option (\<lambda>threshold. threshold * bs_budget_usd setting) (bs_warning_threshold setting)"

definition memory_spend :: "string \<Rightarrow> i64 \<Rightarrow> router \<Rightarrow> spend_state" where
  "memory_spend client current_key r =
     roll_period_if_needed (unwrap_or default_spend_state (ro_client_spend r client)) current_key"

definition spent_usd_for ::
  "i64 \<Rightarrow> string \<Rightarrow> client_budget_setting \<Rightarrow> router \<Rightarrow> f64 \<times> router" where
  "spent_usd_for now client setting r =
     (let current_key = period_key_at (bs_period setting) now in
      case ro_persistence r of
        Some ps \<Rightarrow>
          ((case read_client_spend client ps of
              Some (Some (period_key, spent_usd)) \<Rightarrow> if period_key = current_key then spent_usd else 0
            | _ \<Rightarrow> 0), r)
      | None \<Rightarrow>
          (let state = memory_spend client current_key r in
           (sp_spent_usd state, r\<lparr>ro_client_spend := (ro_client_spend r)(client \<mapsto> state)\<rparr>)))"

definition check_client_budget ::
  "i64 \<Rightarrow> string \<Rightarrow> router \<Rightarrow> (client_budget_exceeded + unit) \<times> router" where
  "check_client_budget now client r =
     (case ro_client_budgets r client of
        None \<Rightarrow> (Inr (), r)
      | Some setting \<Rightarrow>
          (case spent_usd_for now client setting r of (spent_usd, r') \<Rightarrow>
             (if bs_budget_usd setting \<le> spent_usd
              then Inl \<lparr>be_spent_usd = spent_usd, be_budget_usd = bs_budget_usd setting\<rparr>
              else Inr (), r')))"

definition client_spend_status ::
  "i64 \<Rightarrow> string \<Rightarrow> router \<Rightarrow> client_spend_report option \<times> router" where
  "client_spend_status now client r =
     (case ro_client_budgets r client of
        None \<Rightarrow> (None, r)
      | Some setting \<Rightarrow>
          (case spent_usd_for now client setting r of (spent_usd, r') \<Rightarrow>
             (Some \<lparr>cs_spent_usd = spent_usd, cs_budget_usd = bs_budget_usd setting,
                    cs_period = bs_period setting\<rparr>, r')))"

definition notify :: "webhook_event \<Rightarrow> router \<Rightarrow> router" where
  "notify event r =
     (case ro_webhook r of None \<Rightarrow> r | Some _ \<Rightarrow> r\<lparr>ro_notified := ro_notified r @ [event]\<rparr>)"

definition reset_client_spend :: "i64 \<Rightarrow> string \<Rightarrow> router \<Rightarrow> bool \<times> router" where
  "reset_client_spend now client r =
     (case ro_client_budgets r client of
        None \<Rightarrow> (False, r)
      | Some setting \<Rightarrow>
          (let current_key = period_key_at (bs_period setting) now;
               r1 = (case ro_persistence r of
                       Some ps \<Rightarrow>
                         r\<lparr>ro_persistence := Some (persistence_reset_client_spend client current_key ps)\<rparr>
                     | None \<Rightarrow>
                         r\<lparr>ro_client_spend := (ro_client_spend r)
                             (client \<mapsto> \<lparr>sp_period_key = current_key, sp_spent_usd = 0\<rparr>)\<rparr>)
           in (True, notify (BudgetReset client (bs_budget_usd setting) (bs_period setting)) r1)))"

text \<open>The events of a spend that went from \<open>before\<close> to \<open>after\<close>.\<close>

definition crossing_events ::
  "string \<Rightarrow> client_budget_setting \<Rightarrow> f64 \<Rightarrow> f64 \<Rightarrow> webhook_event list" where
  "crossing_events client setting before after =
     (if before < bs_budget_usd setting \<and> bs_budget_usd setting \<le> after
      then [BudgetExceeded client after (bs_budget_usd setting) (bs_period setting)] else [])
     @ (case (warning_amount setting, bs_warning_threshold setting) of
          (Some amount, Some threshold) \<Rightarrow>
            if before < amount \<and> amount \<le> after
            then [BudgetWarning client after (bs_budget_usd setting) threshold (bs_period setting)] else []
        | _ \<Rightarrow> [])"

record spend_task =
  tk_client :: string
  tk_cost_usd :: f64
  tk_key :: i64
  tk_setting :: client_budget_setting

text \<open>The spawned task, on the router whose store it reads.\<close>

definition run_spend_task :: "spend_task \<Rightarrow> router \<Rightarrow> router" where
  "run_spend_task task r =
     (case ro_persistence r of
        None \<Rightarrow> r
      | Some ps \<Rightarrow>
          (case read_client_spend (tk_client task) ps of
             Some (Some (period_key, spent_usd)) \<Rightarrow>
               if period_key = tk_key task
               then fold notify (crossing_events (tk_client task) (tk_setting task)
                                   (spent_usd - tk_cost_usd task) spent_usd) r
               else r
           | _ \<Rightarrow> r))"

definition record_client_spend ::
  "i64 \<Rightarrow> string \<Rightarrow> f64 \<Rightarrow> router \<Rightarrow> spend_task option \<times> router" where
  "record_client_spend now client cost_usd r =
     (case ro_client_budgets r client of
        None \<Rightarrow> (None, r)
      | Some setting \<Rightarrow>
          (let current_key = period_key_at (bs_period setting) now in
           case ro_persistence r of
             Some ps \<Rightarrow>
               (map_option (\<lambda>_. \<lparr>tk_client = client, tk_cost_usd = cost_usd, tk_key = current_key,
                                  tk_setting = setting\<rparr>) (ro_webhook r),
                r\<lparr>ro_persistence := Some (persistence_record_client_spend client current_key cost_usd ps)\<rparr>)
           | None \<Rightarrow>
               (let state = memory_spend client current_key r;
                    before = sp_spent_usd state;
                    after = before + cost_usd
                in (None,
                    fold notify (crossing_events client setting before after)
                      (r\<lparr>ro_client_spend := (ro_client_spend r)
                           (client \<mapsto> state\<lparr>sp_spent_usd := after\<rparr>)\<rparr>)))))"

definition record_client_daily_usage ::
  "i64 \<Rightarrow> string \<Rightarrow> usage \<Rightarrow> f64 option \<Rightarrow> router \<Rightarrow> router" where
  "record_client_daily_usage now client u cost_usd r =
     r\<lparr>ro_persistence :=
        map_option (record_daily_client_usage client (period_key_at Daily now) u cost_usd)
          (ro_persistence r)\<rparr>"

definition client_usage_history :: "i64 \<Rightarrow> string \<Rightarrow> u32 \<Rightarrow> router \<Rightarrow> daily_usage list" where
  "client_usage_history now client days r =
     (case ro_persistence r of
        None \<Rightarrow> []
      | Some ps \<Rightarrow>
          (let today = period_key_at Daily now;
               since_day = today - (int (unat (max days 1)) - 1)
           in case read_usage_history client since_day ps of
                None \<Rightarrow> []
              | Some rows \<Rightarrow>
                  map (\<lambda>row. \<lparr>dy_day = day_string (du_day row), dy_requests = du_requests row,
                              dy_prompt_tokens = du_prompt_tokens row,
                              dy_completion_tokens = du_completion_tokens row,
                              dy_cost_usd = du_cost_usd row\<rparr>) rows))"

definition set_client_budget :: "string \<Rightarrow> (f64 \<times> budget_period) option \<Rightarrow> router \<Rightarrow> router" where
  "set_client_budget client budget r =
     r\<lparr>ro_client_budgets := (ro_client_budgets r)
        (client := map_option (\<lambda>(budget_usd, period).
           \<lparr>bs_budget_usd = budget_usd, bs_period = period, bs_warning_threshold = None\<rparr>) budget)\<rparr>"

definition remove_client :: "string \<Rightarrow> router \<Rightarrow> router" where
  "remove_client client r =
     r\<lparr>ro_client_budgets := (ro_client_budgets r)(client := None),
       ro_client_spend := (ro_client_spend r)(client := None)\<rparr>"

section \<open>Runs of spending\<close>

definition spend_run :: "string \<Rightarrow> (i64 \<times> f64) list \<Rightarrow> router \<Rightarrow> router" where
  "spend_run client evs r = fold (\<lambda>(now, cost) r. snd (record_client_spend now client cost r)) evs r"

definition keyed :: "budget_period \<Rightarrow> (i64 \<times> f64) list \<Rightarrow> (int \<times> f64) list" where
  "keyed period evs = map (\<lambda>(t, c). (period_key_at period t, c)) evs"

lemma spend_run_simps [simp]:
  "spend_run client [] r = r"
  "spend_run client ((t, c) # evs) r = spend_run client evs (snd (record_client_spend t client c r))"
  by (simp_all add: spend_run_def)

lemma keyed_simps [simp]:
  "keyed p [] = []" "keyed p ((t, c) # evs) = (period_key_at p t, c) # keyed p evs"
  by (simp_all add: keyed_def)

lemma notify_fields [simp]:
  "ro_client_budgets (notify e r) = ro_client_budgets r" "ro_persistence (notify e r) = ro_persistence r"
  "ro_client_spend (notify e r) = ro_client_spend r" "ro_webhook (notify e r) = ro_webhook r"
  by (simp_all add: notify_def split: option.split)

lemma notify_all_fields [simp]:
  "ro_client_budgets (fold notify es r) = ro_client_budgets r"
  "ro_persistence (fold notify es r) = ro_persistence r"
  "ro_client_spend (fold notify es r) = ro_client_spend r"
  "ro_webhook (fold notify es r) = ro_webhook r"
  by (induction es arbitrary: r) simp_all

lemma notify_all_events:
  "ro_webhook r = Some wn \<Longrightarrow> ro_notified (fold notify es r) = ro_notified r @ es"
  by (induction es arbitrary: r) (simp_all add: notify_def)

abbreviation ledger :: "string \<Rightarrow> router \<Rightarrow> spend_state" where
  "ledger client r \<equiv> unwrap_or default_spend_state (ro_client_spend r client)"

text \<open>In memory the entry of a client is the spend ledger of its events.\<close>

lemma memory_record:
  assumes "ro_persistence r = None" and "ro_client_budgets r client = Some s"
  shows "ro_persistence (snd (record_client_spend t client c r)) = None"
    "ro_client_budgets (snd (record_client_spend t client c r)) = ro_client_budgets r"
    "ro_webhook (snd (record_client_spend t client c r)) = ro_webhook r"
    "ledger client (snd (record_client_spend t client c r))
       = add_spend (roll_period_if_needed (ledger client r) (period_key_at (bs_period s) t)) c"
  using assms by (simp_all add: record_client_spend_def Let_def memory_spend_def add_spend_def)

lemma memory_run:
  assumes "ro_persistence r = None" and "ro_client_budgets r client = Some s"
  shows "ro_persistence (spend_run client evs r) = None
    \<and> ro_client_budgets (spend_run client evs r) = ro_client_budgets r
    \<and> ledger client (spend_run client evs r)
        = record_all roll_period_if_needed add_spend (ledger client r) (keyed (bs_period s) evs)"
  using assms
proof (induction evs arbitrary: r)
  case Nil then show ?case by simp
next
  case (Cons e evs)
  obtain t c where e: "e = (t, c)" by fastforce
  from Cons.IH [of "snd (record_client_spend t client c r)"] Cons.prems
  show ?case by (simp add: e memory_record [OF Cons.prems])
qed

text \<open>The verdict of a check is that of the ledger, brought to the current period.\<close>

definition verdict :: "client_budget_setting \<Rightarrow> int \<Rightarrow> spend_state \<Rightarrow> client_budget_exceeded + unit" where
  "verdict s k st =
     (let spent = sp_spent_usd (roll_period_if_needed st k) in
      if bs_budget_usd s \<le> spent
      then Inl \<lparr>be_spent_usd = spent, be_budget_usd = bs_budget_usd s\<rparr> else Inr ())"

lemma check_memory:
  "ro_persistence r = None \<Longrightarrow> ro_client_budgets r client = Some s \<Longrightarrow>
     fst (check_client_budget now client r) = verdict s (period_key_at (bs_period s) now) (ledger client r)"
  by (simp add: check_client_budget_def spent_usd_for_def Let_def memory_spend_def verdict_def)

lemma check_store:
  assumes "ro_persistence r = Some ps" and "ps_reachable ps" and "ro_client_budgets r client = Some s"
    and "spend_rel (db_client_spend (ps_db ps) client) st"
  shows "fst (check_client_budget now client r) = verdict s (period_key_at (bs_period s) now) st"
  using assms
  by (auto simp: check_client_budget_def spent_usd_for_def Let_def verdict_def read_client_spend_def
      spend_rel_def roll_period_if_needed_def split: option.splits)

text \<open>The ledger after events of one period, from nothing.\<close>

lemma ledger_of_period:
  assumes "\<forall>e\<in>set evs. fst e = k"
  shows "sp_spent_usd (roll_period_if_needed
      (record_all roll_period_if_needed add_spend default_spend_state evs) k) = sum_list (map snd evs)"
proof (cases evs)
  case Nil
  then show ?thesis by (simp add: roll_period_if_needed_def default_spend_state_def)
next
  case (Cons e0 rest)
  let ?st = "record_all roll_period_if_needed add_spend default_spend_state evs"
  obtain x where e0: "e0 = (k, x)" using assms Cons by (cases e0) auto
  have "sp_period_key (add_spend (roll_period_if_needed default_spend_state k) x) = k
      \<and> sp_spent_usd (add_spend (roll_period_if_needed default_spend_state k) x) = x"
    by (simp add: add_spend_def roll_period_if_needed_def default_spend_state_def)
  then have "sp_period_key ?st = k \<and> sp_spent_usd ?st = foldl (+) x (map snd rest)"
    using spend.record_same_period [of rest k] assms by (simp add: Cons e0)
  then show ?thesis by (simp add: spend.roll_same foldl_plus Cons e0)
qed


text \<open>A router with one budgeted client, a webhook and no store.\<close>

definition sample_setting :: client_budget_setting where
  "sample_setting = \<lparr>bs_budget_usd = 10, bs_period = Daily, bs_warning_threshold = Some (1 / 2)\<rparr>"

definition sample_webhook :: webhook_notifier where
  "sample_webhook =
     \<lparr>wn_url = ''http://hook'', wn_auth_header = None, wn_timeout_secs = 5, wn_signing_secret = None,
      wn_retry_policy = \<lparr>rp_initial_backoff = 1, rp_max_backoff = 8, rp_max_retries = 2\<rparr>\<rparr>"

definition budgeted_router :: "persistence option \<Rightarrow> router" where
  "budgeted_router ps =
     (from_config Map.empty undefined (\<lambda>_. None) undefined)
       \<lparr>ro_client_budgets := [''acme'' \<mapsto> sample_setting], ro_client_spend := Map.empty,
        ro_persistence := ps, ro_webhook := Some sample_webhook, ro_notified := []\<rparr>"

lemma budgeted_router_simps [simp]:
  "ro_client_budgets (budgeted_router ps) = [''acme'' \<mapsto> sample_setting]"
  "ro_client_spend (budgeted_router ps) = Map.empty"
  "ro_persistence (budgeted_router ps) = ps" "ro_webhook (budgeted_router ps) = Some sample_webhook"
  "ro_notified (budgeted_router ps) = []"
  by (simp_all add: budgeted_router_def)


section \<open>Notifications\<close>

fun exceeded_for :: "string \<Rightarrow> webhook_event \<Rightarrow> bool" where
  "exceeded_for client (BudgetExceeded c spent budget period) = (c = client)"
| "exceeded_for client _ = False"

lemma crossing_exceeded:
  "filter (exceeded_for client) (crossing_events client s before after) =
     (if before < bs_budget_usd s \<and> bs_budget_usd s \<le> after
      then [BudgetExceeded client after (bs_budget_usd s) (bs_period s)] else [])"
  by (auto simp: crossing_events_def split: option.split)

lemma record_notifies:
  assumes "ro_persistence r = None" and "ro_client_budgets r client = Some s" and "ro_webhook r = Some wn"
    and "period_key_at (bs_period s) t = k" and "roll_period_if_needed (ledger client r) k = st"
  shows "ro_notified (snd (record_client_spend t client c r)) = ro_notified r
    @ crossing_events client s (sp_spent_usd st) (sp_spent_usd st + c)"
proof -
  let ?r = "r\<lparr>ro_client_spend := (ro_client_spend r)(client \<mapsto> st\<lparr>sp_spent_usd := sp_spent_usd st + c\<rparr>)\<rparr>"
  have "ro_webhook ?r = Some wn" using assms(3) by simp
  from notify_all_events [OF this] assms show ?thesis
    by (simp add: record_client_spend_def Let_def memory_spend_def)
qed

definition exceeded_count :: "string \<Rightarrow> router \<Rightarrow> nat" where
  "exceeded_count client r = length (filter (exceeded_for client) (ro_notified r))"

lemma exceeded_run:
  assumes "ro_persistence r = None" and "ro_client_budgets r client = Some s" and "ro_webhook r = Some wn"
    and "\<forall>(t, c)\<in>set evs. period_key_at (bs_period s) t = k \<and> 0 \<le> c"
    and "roll_period_if_needed (ledger client r) k = st"
  shows "exceeded_count client (spend_run client evs r) = exceeded_count client r
    + (if sp_spent_usd st < bs_budget_usd s
          \<and> bs_budget_usd s \<le> sp_spent_usd st + sum_list (map snd evs) then 1 else 0)"
  using assms
proof (induction evs arbitrary: r st)
  case Nil then show ?case by simp
next
  case (Cons e evs)
  obtain t c where e: "e = (t, c)" by fastforce
  note t = Cons.prems(1,2)
  let ?r = "snd (record_client_spend t client c r)"
  have k: "period_key_at (bs_period s) t = k" "0 \<le> c" using Cons.prems(4) e by auto
  have pos: "0 \<le> sum_list (map snd evs)" using Cons.prems(4) by (intro sum_list_nonneg) auto
  have ledger: "roll_period_if_needed (ledger client ?r) k = add_spend st c"
    using memory_record(4) [OF t, of t c] k Cons.prems(5)
    by (auto simp: roll_period_if_needed_def add_spend_def split: if_splits)
  have "exceeded_count client (spend_run client evs ?r) = exceeded_count client ?r
    + (if sp_spent_usd (add_spend st c) < bs_budget_usd s
          \<and> bs_budget_usd s \<le> sp_spent_usd (add_spend st c) + sum_list (map snd evs) then 1 else 0)"
    by (rule Cons.IH) (use Cons.prems e ledger in \<open>auto simp: memory_record [OF t]\<close>)
  moreover have "exceeded_count client ?r = exceeded_count client r
      + (if sp_spent_usd st < bs_budget_usd s \<and> bs_budget_usd s \<le> sp_spent_usd st + c then 1 else 0)"
    using record_notifies [OF Cons.prems(1-3) k(1) Cons.prems(5)]
    by (simp add: exceeded_count_def crossing_exceeded)
  ultimately show ?case using k pos by (auto simp: e add_spend_def)
qed



section \<open>The store decides as the memory does\<close>

lemma store_run:
  assumes "ro_persistence r = Some ps" and "ro_client_budgets r client = Some s"
  shows "ro_persistence (spend_run client evs r) = Some
      (fold (\<lambda>(k, c). persistence_record_client_spend client k c) (keyed (bs_period s) evs) ps)
    \<and> ro_client_budgets (spend_run client evs r) = ro_client_budgets r"
  using assms
proof (induction evs arbitrary: r ps)
  case Nil then show ?case by simp
next
  case (Cons e evs)
  obtain t c where e: "e = (t, c)" by fastforce
  let ?r = "snd (record_client_spend t client c r)"
  have "ro_persistence ?r = Some (persistence_record_client_spend client (period_key_at (bs_period s) t) c ps)"
    "ro_client_budgets ?r = ro_client_budgets r"
    using Cons.prems by (simp_all add: record_client_spend_def Let_def)
  with Cons.IH [of ?r] Cons.prems show ?case by (simp add: e)
qed

text \<open>
  \<^bold>\<open>C19.\<close> With a SQLite store the budget check decides as it does in memory: once the writer has
  executed every queued spend, the check on the store gives the verdict that a router without a store
  gives after the same spends, rollovers between periods included.
\<close>

theorem stored_budget_agrees:
  assumes "ro_persistence r = Some ps" and "ps_backend ps = SqliteBackend" and "ps_reachable ps"
    and "ps_pending ps = []" and "db_client_spend (ps_db ps) client = None"
    and "ro_client_budgets r client = Some s"
    and "ro_persistence (spend_run client evs r) = Some q" and "drained q q'"
  shows "fst (check_client_budget now client ((spend_run client evs r)\<lparr>ro_persistence := Some q'\<rparr>))
    = fst (check_client_budget now client
        (spend_run client evs (r\<lparr>ro_persistence := None, ro_client_spend := Map.empty\<rparr>)))"
proof -
  let ?evs = "keyed (bs_period s) evs"
  let ?st = "record_all roll_period_if_needed add_spend default_spend_state ?evs"
  let ?m = "r\<lparr>ro_persistence := None, ro_client_spend := Map.empty\<rparr>"
  have q: "q = fold (\<lambda>(k, c). persistence_record_client_spend client k c) ?evs ps"
    using store_run [OF assms(1,6), of evs] assms(7) by simp
  have frame: "ps_backend q = SqliteBackend" "ps_reachable q" "ps_db q = ps_db ps"
    "ps_pending q = map (\<lambda>(k, c). ClientSpend client k c) ?evs"
    unfolding q using assms(2-4) by (simp_all add: pending_after_spend)
  from assms(8) have run: "writer_step\<^sup>*\<^sup>* q q'" "ps_pending q' = []" by (auto simp: drained_def)
  with drained_executes [OF run(1) frame(2)] frame
  have "ps_db q' = fold execute_write (map (\<lambda>(k, c). ClientSpend client k c) ?evs) (ps_db ps)" by auto
  moreover have "spend_rel (db_client_spend (ps_db ps) client) default_spend_state"
    using assms(5) by (simp add: spend_rel_def default_spend_state_def)
  ultimately have rel: "spend_rel (db_client_spend (ps_db q') client) ?st" by (simp add: execute_spend)
  have "ps_reachable q'" using writer_steps_frame [OF run(1)] frame(2) by simp
  then have "fst (check_client_budget now client ((spend_run client evs r)\<lparr>ro_persistence := Some q'\<rparr>))
      = verdict s (period_key_at (bs_period s) now) ?st"
    using check_store [of _ q' client s ?st now] rel store_run [OF assms(1,6), of evs] assms(6) by simp
  moreover have "fst (check_client_budget now client (spend_run client evs ?m))
      = verdict s (period_key_at (bs_period s) now) ?st"
    using memory_run [of ?m client s evs] assms(6) by (simp add: check_memory)
  ultimately show ?thesis by simp
qed

theorem stored_budget_agrees_witness:
  "\<exists>q'. fst (check_client_budget 172900 ''acme''
       ((spend_run ''acme'' [(86400, 4), (172800, 11)]
           (budgeted_router (Some \<lparr>ps_backend = SqliteBackend, ps_reachable = True, ps_pending = [],
                                  ps_db = empty_database\<rparr>)))\<lparr>ro_persistence := Some q'\<rparr>))
     = Inl \<lparr>be_spent_usd = 11, be_budget_usd = 10\<rparr> \<and> ps_pending q' = []"
proof -
  define ps where "ps = \<lparr>ps_backend = SqliteBackend, ps_reachable = True, ps_pending = [],
                        ps_db = empty_database\<rparr>"
  let ?evs = "[(86400, 4), (172800, 11)] :: (i64 \<times> f64) list"
  let ?r = "budgeted_router (Some ps)"
  define q where "q = fold (\<lambda>(k, c). persistence_record_client_spend ''acme'' k c)
    (keyed (bs_period sample_setting) ?evs) ps"
  have store: "ro_persistence (spend_run ''acme'' ?evs ?r) = Some q"
    using store_run [of ?r ps "''acme''" sample_setting ?evs] by (simp add: q_def)
  have ps: "ps_backend ps = SqliteBackend" "ps_reachable ps" "ps_pending ps = []"
    "db_client_spend (ps_db ps) ''acme'' = None" by (simp_all add: ps_def empty_database_def)
  have pending: "length (ps_pending q) = 2" "ps_backend q = SqliteBackend"
    by (simp_all add: q_def ps_def persistence_record_client_spend_def)
  then have "writer_step q (run_write 0 q)" "writer_step (run_write 0 q) (run_write 0 (run_write 0 q))"
    by (auto intro!: writer_step.sqlite simp: length_0_conv [symmetric] simp del: length_0_conv)
  with pending have drained: "drained q (run_write 0 (run_write 0 q))"
    by (auto simp: drained_def length_0_conv [symmetric] simp del: length_0_conv)
  have memory: "fst (check_client_budget 172900 ''acme''
      (spend_run ''acme'' ?evs (?r\<lparr>ro_persistence := None, ro_client_spend := Map.empty\<rparr>)))
    = Inl \<lparr>be_spent_usd = 11, be_budget_usd = 10\<rparr>"
  proof -
    let ?m = "?r\<lparr>ro_persistence := None, ro_client_spend := Map.empty\<rparr>"
    have run: "ro_persistence (spend_run ''acme'' ?evs ?m) = None
      \<and> ro_client_budgets (spend_run ''acme'' ?evs ?m) ''acme'' = Some sample_setting
      \<and> ledger ''acme'' (spend_run ''acme'' ?evs ?m) = \<lparr>sp_period_key = 2, sp_spent_usd = 11\<rparr>"
      using memory_run [of ?m "''acme''" sample_setting ?evs]
      by (simp add: add_spend_def roll_period_if_needed_def default_spend_state_def sample_setting_def)
    have "verdict sample_setting 2 \<lparr>sp_period_key = 2, sp_spent_usd = 11\<rparr>
        = Inl \<lparr>be_spent_usd = 11, be_budget_usd = 10\<rparr>"
      by (simp add: verdict_def roll_period_if_needed_def sample_setting_def)
    moreover have "period_key_at (bs_period sample_setting) 172900 = 2" by (simp add: sample_setting_def)
    ultimately show ?thesis
      using run check_memory [of "spend_run ''acme'' ?evs ?m" "''acme''" sample_setting 172900] by simp
  qed
  from stored_budget_agrees [OF _ ps _ store drained, of sample_setting 172900] memory drained show ?thesis
    unfolding ps_def by (intro exI [of _ "run_write 0 (run_write 0 q)"]) (simp add: drained_def del: spend_run_simps)
qed

section \<open>Administration\<close>

text \<open>
  A manual reset reopens the budget: it is refused exactly for a client without one; after it
  a check in the same period passes whenever the budget is positive and the status reports nothing
  spent; no other client's spend changes; and the operator's endpoint is told.
\<close>

theorem reset_reopens_budget:
  assumes "ro_persistence r = None" and "reset_client_spend now client r = (done, r')"
  shows "(done \<longleftrightarrow> ro_client_budgets r client \<noteq> None)
    \<and> (\<forall>other. other \<noteq> client \<longrightarrow> ro_client_spend r' other = ro_client_spend r other)
    \<and> (\<forall>s later. ro_client_budgets r client = Some s
          \<and> period_key_at (bs_period s) later = period_key_at (bs_period s) now \<longrightarrow>
         map_option cs_spent_usd (fst (client_spend_status later client r')) = Some 0
         \<and> (0 < bs_budget_usd s \<longrightarrow> fst (check_client_budget later client r') = Inr ())
         \<and> (ro_webhook r \<noteq> None \<longrightarrow>
              ro_notified r' = ro_notified r @ [BudgetReset client (bs_budget_usd s) (bs_period s)]))"
proof (cases "ro_client_budgets r client")
  case None
  with assms show ?thesis by (auto simp: reset_client_spend_def)
next
  case (Some s)
  with assms have r': "done" "r' = notify (BudgetReset client (bs_budget_usd s) (bs_period s))
      (r\<lparr>ro_client_spend := (ro_client_spend r)
          (client \<mapsto> \<lparr>sp_period_key = period_key_at (bs_period s) now, sp_spent_usd = 0\<rparr>)\<rparr>)"
    by (auto simp: reset_client_spend_def Let_def)
  then have "ro_persistence r' = None" "ro_client_budgets r' client = Some s"
    "ledger client r' = \<lparr>sp_period_key = period_key_at (bs_period s) now, sp_spent_usd = 0\<rparr>"
    using assms(1) Some by simp_all
  moreover have "ro_webhook r \<noteq> None \<longrightarrow>
      ro_notified r' = ro_notified r @ [BudgetReset client (bs_budget_usd s) (bs_period s)]"
    by (auto simp: r' notify_def)
  ultimately show ?thesis
    using Some r' by (auto simp: check_memory verdict_def client_spend_status_def spent_usd_for_def
        memory_spend_def roll_period_if_needed_def Let_def)
qed

theorem reset_reopens_budget_witness:
  "fst (check_client_budget 86500 ''acme'' (snd (reset_client_spend 86450 ''acme''
     (spend_run ''acme'' [(86400, 40)] (budgeted_router None))))) = Inr ()"
proof -
  let ?r = "spend_run ''acme'' [(86400, 40)] (budgeted_router None)"
  obtain ok r' where reset: "reset_client_spend 86450 ''acme'' ?r = (ok, r')" by fastforce
  have "ro_persistence ?r = None" "ro_client_budgets ?r ''acme'' = Some sample_setting"
    using memory_run [of "budgeted_router None" "''acme''" sample_setting "[(86400, 40)]"] by simp_all
  with reset_reopens_budget [OF this(1) reset] have "fst (check_client_budget 86500 ''acme'' r') = Inr ()"
    by (simp add: sample_setting_def)
  with reset show ?thesis by (simp only: snd_conv)
qed

end
