(* ===== verification/Router_Runs.thy ===== *)
theory Router_Runs
  imports Entry_Facts Client_Spend
begin

text \<open>
  The router as a state machine: every operation that changes it, the writers of its store and the
  passing of time are steps, and what holds at startup and is kept by each step holds in every
  reachable state.
\<close>

section \<open>Steps\<close>

inductive router_step :: "'w rt \<Rightarrow> router \<times> 'w \<Rightarrow> router \<times> 'w \<Rightarrow> bool" for rt where
  chat: "dispatch_traced rt req r w = (res, r', w') \<Longrightarrow> router_step rt (r, w) (r', w')"
| stream: "dispatch_stream_traced rt req r w = (res, r', w') \<Longrightarrow> router_step rt (r, w) (r', w')"
| consume: "consume_items c t0 items r = (out, r') \<Longrightarrow> router_step rt (r, w) (r', w)"
| embed: "embeddings rt ereq r w = (res, r', w') \<Longrightarrow> router_step rt (r, w) (r', w')"
| tiers: "free_tier_status now r = (status, r') \<Longrightarrow> router_step rt (r, w) (r', w)"
| moderation: "apply_moderation post req (ro_metrics r) w = (ruling, mt, w') \<Longrightarrow>
    router_step rt (r, w) (r\<lparr>ro_metrics := mt\<rparr>, w')"
| search: "apply_web_search web req (ro_metrics r) w = (req', mt, w') \<Longrightarrow>
    router_step rt (r, w) (r\<lparr>ro_metrics := mt\<rparr>, w')"
| limited: "router_step rt (r, w) (update_metrics (record_inbound_rate_limit_rejection who) r, w)"
| refused: "router_step rt (r, w) (update_metrics (record_client_budget_rejection who) r, w)"
| budget: "check_client_budget now client r = (ok, r') \<Longrightarrow> router_step rt (r, w) (r', w)"
| report: "client_spend_status now client r = (rep, r') \<Longrightarrow> router_step rt (r, w) (r', w)"
| reset: "reset_client_spend now client r = (done, r') \<Longrightarrow> router_step rt (r, w) (r', w)"
| spend: "record_client_spend now client cost r = (task, r') \<Longrightarrow> router_step rt (r, w) (r', w)"
| readback: "router_step rt (r, w) (run_spend_task task r, w)"
| daily: "router_step rt (r, w) (record_client_daily_usage now client u cost_usd r, w)"
| provision: "router_step rt (r, w) (set_client_budget client setting r, w)"
| removal: "router_step rt (r, w) (remove_client client r, w)"
| writing: "ro_persistence r = Some ps \<Longrightarrow> writer_step ps ps' \<Longrightarrow>
    router_step rt (r, w) (r\<lparr>ro_persistence := Some ps'\<rparr>, w)"
| outage: "ro_persistence r = Some ps \<Longrightarrow>
    router_step rt (r, w) (r\<lparr>ro_persistence := Some (ps\<lparr>ps_reachable := up\<rparr>)\<rparr>, w)"
| elapse: "router_step rt (r, w) (r, w')"

inductive_cases router_stepE: "router_step rt s s'"

section \<open>What no operation touches\<close>

text \<open>The router with all that a dispatch changes erased, and with all that changes at run time erased.\<close>

definition settled :: "router \<Rightarrow> router" where
  "settled r = (fixed r)\<lparr>ro_cache := None, ro_semantic_cache := None\<rparr>"

definition configured :: "router \<Rightarrow> router" where
  "configured r = (settled r)\<lparr>ro_persistence := None, ro_client_budgets := Map.empty, ro_client_spend := Map.empty,
                            ro_notified := []\<rparr>"

lemma settled_fixed: "fixed r = fixed r' \<Longrightarrow> settled r = settled r'"
  by (simp add: settled_def)

lemma settled_updates [simp]:
  "settled (r\<lparr>ro_cache := d\<rparr>) = settled r" "settled (r\<lparr>ro_semantic_cache := e\<rparr>) = settled r"
  "settled (r\<lparr>ro_metrics := f\<rparr>) = settled r"
  "settled (r\<lparr>ro_free_tier_usage := h\<rparr>) = settled r"
  by (simp_all add: settled_def fixed_def)

lemma settled_configured: "settled r = settled r' \<Longrightarrow> configured r = configured r'"
  by (simp add: configured_def)

lemma configured_fixed: "fixed r = fixed r' \<Longrightarrow> configured r = configured r'"
  by (simp add: configured_def settled_def)

lemma settledD:
  assumes "settled r = settled r'"
  shows "ro_client_budgets r = ro_client_budgets r'" "ro_client_spend r = ro_client_spend r'"
    "ro_notified r = ro_notified r'" "ro_webhook r = ro_webhook r'"
    "ro_persistence r = None \<longleftrightarrow> ro_persistence r' = None"
  using arg_cong [OF assms, of ro_persistence] arg_cong [OF assms, of ro_client_budgets] arg_cong [OF assms, of ro_client_spend]
    arg_cong [OF assms, of ro_notified] arg_cong [OF assms, of ro_webhook]
  by (simp_all add: settled_def fixed_def) (cases "ro_persistence r"; cases "ro_persistence r'"; simp)

lemma configured_updates [simp]:
  "configured (r\<lparr>ro_client_budgets := a\<rparr>) = configured r" "configured (r\<lparr>ro_client_spend := b\<rparr>) = configured r"
  "configured (r\<lparr>ro_notified := c\<rparr>) = configured r" "configured (r\<lparr>ro_cache := d\<rparr>) = configured r"
  "configured (r\<lparr>ro_semantic_cache := e\<rparr>) = configured r" "configured (r\<lparr>ro_metrics := f\<rparr>) = configured r"
  "configured (r\<lparr>ro_persistence := g\<rparr>) = configured r" "configured (r\<lparr>ro_free_tier_usage := h\<rparr>) = configured r"
  by (simp_all add: configured_def settled_def fixed_def)

lemma configuredD:
  assumes "configured r = configured r'"
  shows "ro_providers r = ro_providers r'" "ro_routes r = ro_routes r'"
    "ro_fusion_routes r = ro_fusion_routes r'" "ro_pricing r = ro_pricing r'"
    "ro_provider_rpm r = ro_provider_rpm r'" "ro_guardrails r = ro_guardrails r'"
  using assms by (auto simp: configured_def settled_def fixed_def dest: arg_cong [of _ _ ro_providers]
      arg_cong [of _ _ ro_routes] arg_cong [of _ _ ro_fusion_routes] arg_cong [of _ _ ro_pricing]
      arg_cong [of _ _ ro_provider_rpm] arg_cong [of _ _ ro_guardrails])

lemma settled_dispatch_uncached:
  "dispatch_uncached rt req r w = (res, r', w') \<Longrightarrow> settled r' = settled r"
  using settled_fixed [OF fixed_dispatch_uncached [of rt req r w]] by simp

lemma settled_cache_get: "cache_get now key r = (hit, r') \<Longrightarrow> settled r' = settled r"
  by (auto simp: cache_get_def split: option.splits prod.splits)

lemma settled_cache_insert: "settled (cache_insert now key resp r) = settled r"
  by (simp add: cache_insert_def)

lemma settled_embed: "embed_for_cache rt m text r w = (emb, r', w') \<Longrightarrow> settled r' = settled r"
  using settled_fixed [OF fixed_embeddings [of rt _ r w]]
  by (auto simp: embed_for_cache_def split: prod.splits sum.splits) (metis fst_conv snd_conv)+

lemma settled_semantic_get:
  "semantic_cache_get rt req r w = (hit, r', w') \<Longrightarrow> settled r' = settled r"
  by (auto simp: semantic_cache_get_def split: option.splits prod.splits dest: settled_embed)

lemma settled_semantic_insert:
  "semantic_cache_insert rt req resp r w = (r', w') \<Longrightarrow> settled r' = settled r"
  by (auto simp: semantic_cache_insert_def split: option.splits prod.splits dest: settled_embed)

lemma settled_dispatch_traced:
  assumes "dispatch_traced rt req r w = (res, r', w')" shows "settled r' = settled r"
proof (cases "\<not> is_streaming req \<and> ro_semantic_cache r \<noteq> None")
  case True
  obtain hit r1 w1 where get: "semantic_cache_get rt req r w = (hit, r1, w1)" by (rule prod_cases3)
  obtain out r2 w2 where unc: "dispatch_uncached rt req r1 w1 = (out, r2, w2)" by (rule prod_cases3)
  have keep: "settled r1 = settled r" "settled r2 = settled r"
    using settled_semantic_get [OF get] settled_dispatch_uncached [OF unc] by simp_all
  show ?thesis
    using assms True get unc keep
    by (cases hit; cases out)
      (auto simp: dispatch_traced_def Let_def dest!: settled_semantic_insert split: prod.splits)
next
  case False
  show ?thesis
  proof (cases "cache_key_for rt r req")
    case None
    obtain out r2 w2 where unc: "dispatch_uncached rt req r w = (out, r2, w2)" by (rule prod_cases3)
    with False None assms have "r' = r2" by (cases out) (auto simp: dispatch_traced_def Let_def)
    with settled_dispatch_uncached [OF unc] show ?thesis by simp
  next
    case (Some key)
    obtain hit r1 where get: "cache_get (rt_instant rt w) key r = (hit, r1)" by fastforce
    obtain out r2 w2 where unc: "dispatch_uncached rt req r1 w = (out, r2, w2)" by (rule prod_cases3)
    have keep: "settled r1 = settled r" "settled r2 = settled r"
      using settled_cache_get [OF get] settled_dispatch_uncached [OF unc] by simp_all
    show ?thesis
      using assms False Some get unc keep
      by (cases hit; cases out) (auto simp: dispatch_traced_def Let_def settled_cache_insert)
  qed
qed

lemma configured_dispatch_traced:
  "dispatch_traced rt req r w = (res, r', w') \<Longrightarrow> configured r' = configured r"
  by (rule settled_configured [OF settled_dispatch_traced])

lemma fixed_stream_uncached [simp]: "fixed (fst (snd (dispatch_stream_uncached rt req r w))) = fixed r"
proof -
  obtain res r1 where c: "candidate_chain r (rt_nanos rt w) (rt_unix rt w) req = (res, r1)" by fastforce
  then have r1: "fixed r1 = fixed r" using fixed_candidate_chain by (metis snd_conv)
  have "fixed (fst (snd (run_chain (stream_step rt req) t chain n e r1 w))) = fixed r" for t chain n e
    using r1 by (rule stream_fixed.run_chain_keeps)
  with c r1 show ?thesis by (auto simp: dispatch_stream_uncached_def split: sum.split)
qed

lemma stream_traced_state:
  "fst (snd (dispatch_stream_traced rt req r w)) = fst (snd (dispatch_stream_uncached rt req r w))"
  by (auto simp: dispatch_stream_traced_def Let_def split: prod.split sum.split)

lemma fixed_instrument_item [simp]: "fixed (snd (instrument_item c t0 now unix item r)) = fixed r"
proof -
  have "fixed r1 = fixed r" if "record_usage_cost c u (record_throughput c u x r) = (cost, r1)" for u x cost r1
    using fixed_usage_cost [of c u "record_throughput c u x r"] that by simp
  then show ?thesis
    by (auto simp: instrument_item_def instrument_chunk_def split: sum.split option.split prod.split)
qed

lemma fixed_consume_items [simp]: "fixed (snd (consume_items c t0 items r)) = fixed r"
proof (induction items arbitrary: r)
  case Nil then show ?case by simp
next
  case (Cons i items)
  obtain now unix item where i: "i = (now, unix, item)" by (cases i)
  from Cons.IH [of "snd (instrument_item c t0 now unix item r)"] show ?case by (simp add: i case_prod_beta)
qed

section \<open>The client operations\<close>

lemma spent_usd_for_state:
  assumes "spent_usd_for now client s r = (x, r')" shows "\<exists>m. r' = r\<lparr>ro_client_spend := m\<rparr>"
proof (cases "ro_persistence r")
  case None
  with assms show ?thesis by (auto simp: spent_usd_for_def Let_def)
next
  case (Some ps)
  with assms have "r' = r" by (simp add: spent_usd_for_def Let_def)
  then show ?thesis by (intro exI [of _ "ro_client_spend r"]) simp
qed

text \<open>Client operations change the budgets, the spend, the store's queue and the notifications; no
  part of the invariant speaks of these.\<close>

definition sans_client :: "router \<Rightarrow> router" where
  "sans_client r = r\<lparr>ro_client_budgets := Map.empty, ro_client_spend := Map.empty,
                     ro_persistence := None, ro_notified := []\<rparr>"

definition client_change :: "router \<Rightarrow> router \<Rightarrow> bool" where
  "client_change r r' \<longleftrightarrow> sans_client r' = sans_client r"

lemma client_changeI:
  "client_change r (r\<lparr>ro_client_budgets := a\<rparr>)" "client_change r (r\<lparr>ro_client_spend := b\<rparr>)"
  "client_change r (r\<lparr>ro_persistence := c\<rparr>)" "client_change r (r\<lparr>ro_notified := d\<rparr>)"
  by (simp_all add: client_change_def sans_client_def)

lemma client_change_refl: "client_change r r"
  by (simp add: client_change_def)

lemma client_change_trans: "client_change r r1 \<Longrightarrow> client_change r1 r2 \<Longrightarrow> client_change r r2"
  by (simp add: client_change_def)

lemma router_inv_sans_client: "router_inv (sans_client r) \<longleftrightarrow> router_inv r"
  by (simp add: router_inv_def sans_client_def)

lemma client_change_inv: "client_change r r' \<Longrightarrow> router_inv r \<Longrightarrow> router_inv r'"
  unfolding client_change_def by (metis router_inv_sans_client)

lemma configured_sans_client: "configured (sans_client r) = configured r"
  by (simp add: sans_client_def)

lemma client_change_configured: "client_change r r' \<Longrightarrow> configured r' = configured r"
  unfolding client_change_def by (metis configured_sans_client)

lemma notify_change: "client_change r (fold notify es r)"
proof (induction es arbitrary: r)
  case Nil then show ?case by (simp add: client_change_refl)
next
  case (Cons e es)
  have "client_change r (notify e r)"
    by (auto simp: notify_def client_change_refl client_changeI split: option.split)
  from client_change_trans [OF this Cons.IH] show ?case by simp
qed

lemma client_operations_change:
  "check_client_budget now client r = (ok, r') \<Longrightarrow> client_change r r'"
  "client_spend_status now client r = (rep, r') \<Longrightarrow> client_change r r'"
  "reset_client_spend now client r = (done, r') \<Longrightarrow> client_change r r'"
  "record_client_spend now client cost r = (task, r') \<Longrightarrow> client_change r r'"
  "client_change r (run_spend_task t r)" "client_change r (record_client_daily_usage now client u c r)"
  "client_change r (set_client_budget client setting r)" "client_change r (remove_client client r)"
proof -
  show "check_client_budget now client r = (ok, r') \<Longrightarrow> client_change r r'"
    by (auto simp: check_client_budget_def client_change_refl client_changeI
        dest!: spent_usd_for_state split: option.splits prod.splits)
  show "client_spend_status now client r = (rep, r') \<Longrightarrow> client_change r r'"
    by (auto simp: client_spend_status_def client_change_refl client_changeI
        dest!: spent_usd_for_state split: option.splits prod.splits)
  show "reset_client_spend now client r = (done, r') \<Longrightarrow> client_change r r'"
    using client_change_trans [OF client_changeI(2) notify_change [where es = "[e]" for e]]
      client_change_trans [OF client_changeI(3) notify_change [where es = "[e]" for e]]
    by (auto simp: reset_client_spend_def Let_def client_change_refl split: option.splits)
  show "record_client_spend now client cost r = (task, r') \<Longrightarrow> client_change r r'"
    using client_change_trans [OF client_changeI(2) notify_change]
    by (auto simp: record_client_spend_def Let_def client_change_refl client_changeI(3) split: option.splits)
  show "client_change r (run_spend_task t r)"
    by (auto simp: run_spend_task_def client_change_refl notify_change split: option.split)
  show "client_change r (record_client_daily_usage now client u c r)"
    by (simp add: record_client_daily_usage_def client_changeI)
  show "client_change r (set_client_budget client setting r)"
    by (simp add: set_client_budget_def client_changeI)
  show "client_change r (remove_client client r)"
    unfolding remove_client_def by (rule client_change_trans [OF client_changeI(1) client_changeI(2)])
qed

section \<open>Every reachable state\<close>

lemma router_inv_metrics: "router_inv r \<Longrightarrow> router_inv (r\<lparr>ro_metrics := mt\<rparr>)"
  by (erule router_invI) simp_all

lemma router_step_keeps:
  assumes "router_step rt s s'" and "router_inv (fst s)"
  shows "router_inv (fst s') \<and> configured (fst s') = configured (fst s)"
  using assms
proof (induction rule: router_step.induct)
  case (chat req r w res r' w')
  then show ?case
    using dispatch_traced_inv [of r rt req w] configured_dispatch_traced [OF chat.hyps] by simp
next
  case (stream req r w res r' w')
  then show ?case
    using stream_traced_state [of rt req r w] dispatch_stream_uncached_inv [of r rt req w]
      configured_fixed [OF fixed_stream_uncached [of rt req r w]] by simp
next
  case (consume c t0 items r out r' w)
  then show ?case
    using consume_items_inv [of r c t0 items] configured_fixed [OF fixed_consume_items [of c t0 items r]]
    by simp
next
  case (embed ereq r w res r' w')
  then show ?case
    using embeddings_inv [of r rt ereq w] configured_fixed [OF fixed_embeddings [of rt ereq r w]] by simp
next
  case (tiers now r status r' w)
  then have "r' = r\<lparr>ro_free_tier_usage := ro_free_tier_usage r'\<rparr>"
    by (auto simp: free_tier_status_def split: prod.splits)
  then have "configured r' = configured r" using configured_updates(8) by metis
  with tiers free_tier_status_inv [of r now] show ?case by simp
next
  case budget then show ?case
    using client_operations_change(1) client_change_inv client_change_configured by fastforce
next
  case report then show ?case
    using client_operations_change(2) client_change_inv client_change_configured by fastforce
next
  case reset then show ?case
    using client_operations_change(3) client_change_inv client_change_configured by fastforce
next
  case spend then show ?case
    using client_operations_change(4) client_change_inv client_change_configured by fastforce
next
  case (readback r w task) then show ?case
    using client_operations_change(5) client_change_inv client_change_configured by fastforce
next
  case daily then show ?case
    using client_operations_change(6) client_change_inv client_change_configured by fastforce
next
  case provision then show ?case
    using client_operations_change(7) client_change_inv client_change_configured by fastforce
next
  case removal then show ?case
    using client_operations_change(8) client_change_inv client_change_configured by fastforce
next
  case writing then show ?case
    using client_changeI(3) client_change_inv client_change_configured by fastforce
next
  case outage then show ?case
    using client_changeI(3) client_change_inv client_change_configured by fastforce
qed (simp_all add: router_inv_metrics)

lemma reachable_keeps:
  assumes "(router_step rt)\<^sup>*\<^sup>* s s'" and "router_inv (fst s)"
  shows "router_inv (fst s') \<and> configured (fst s') = configured (fst s)"
  using assms
proof (induction rule: rtranclp_induct)
  case base then show ?case by simp
next
  case (step s1 s2)
  with router_step_keeps [OF step.hyps(2)] show ?case by simp
qed

text \<open>
  \<^bold>\<open>C2.\<close> In every state a router can reach from any configuration, by requests, streams, client
  administration, store writes and outages in any order: at most 1000 generation records are kept,
  each found under its own id; at most one response cache exists and the exact one never exceeds its
  size; success rates lie between 0 and 1; free-tier counters exist only for configured tiers; and
  providers, routes, prices and guardrails are those of the configuration.
\<close>

theorem reachable_router_sound:
  assumes "(router_step rt)\<^sup>*\<^sup>* (from_config env regex open_db config, w) (r, w')"
  shows "card (dom (gn_by_id (ro_generations r))) \<le> 1000
    \<and> (\<forall>i g. generation i r = Some g \<longrightarrow> gr_id g = i)
    \<and> (ro_cache r = None \<or> ro_semantic_cache r = None)
    \<and> (\<forall>c. ro_cache r = Some c \<longrightarrow> card (dom (rc_entries c)) \<le> rc_max_entries c)
    \<and> (\<forall>key rate. ro_uptime r key = Some rate \<longrightarrow> 0 \<le> rate \<and> rate \<le> 1)
    \<and> dom (ro_free_tier_usage r) \<subseteq> dom (ro_free_tier_settings r)
    \<and> ro_providers r = configured_map env config
    \<and> ro_routes r = ro_routes (from_config env regex open_db config)
    \<and> ro_pricing r = ro_pricing (from_config env regex open_db config)
    \<and> ro_guardrails r = ro_guardrails (from_config env regex open_db config)"
proof -
  let ?r0 = "from_config env regex open_db config"
  have keep: "router_inv r" "configured r = configured ?r0"
    using reachable_keeps [OF assms] from_config_inv [of env regex open_db config] by simp_all
  have gens: "generation_inv (ro_generations r)" using keep(1) by (simp add: router_inv_def)
  then have "dom (gn_by_id (ro_generations r)) = set (gn_order (ro_generations r))"
    "length (gn_order (ro_generations r)) \<le> 1000"
    by (simp_all add: generation_inv_def GENERATION_CACHE_CAPACITY_def)
  then have size: "card (dom (gn_by_id (ro_generations r))) \<le> 1000"
    using card_length [of "gn_order (ro_generations r)"] by simp
  have cache: "card (dom (rc_entries c)) \<le> rc_max_entries c" if "ro_cache r = Some c" for c
  proof -
    have "response_inv c" using keep(1) that by (simp add: router_inv_def)
    then have "dom (rc_entries c) \<subseteq> set (rc_order c)" "length (rc_order c) \<le> rc_max_entries c"
      by (simp_all add: response_inv_def)
    then show ?thesis
      using card_mono [of "set (rc_order c)" "dom (rc_entries c)"] card_length [of "rc_order c"] by simp
  qed
  have "ro_providers ?r0 = configured_map env config"
    by (simp add: from_config_def Let_def split: prod.split)
  with size cache gens keep(1) configuredD [OF keep(2)] show ?thesis
    by (auto simp: router_inv_def generation_def generation_get_def generation_inv_def unit_range_def)
qed

theorem reachable_router_sound_witness:
  "\<exists>r w'. (router_step scripted)\<^sup>*\<^sup>* (sample_router, (0, [(5, Inr (answer ''p''))])) (r, w')
     \<and> r \<noteq> sample_router \<and> card (dom (gn_by_id (ro_generations r))) \<le> 1000"
proof -
  let ?r = "update_metrics (record_inbound_rate_limit_rejection ''ip'') sample_router"
  let ?w = "(0, [(5, Inr (answer ''p''))]) :: script"
  have run: "(router_step scripted)\<^sup>*\<^sup>* (sample_router, ?w) (?r, ?w)"
    by (rule r_into_rtranclp) (rule router_step.limited)
  have "mt_inbound_rate_limit_rejections_total (ro_metrics sample_router) ''ip'' = None"
    by (simp add: sample_router_def from_config_def Let_def new_metrics_def split: prod.split)
  then have "mt_inbound_rate_limit_rejections_total (ro_metrics ?r) \<noteq>
      mt_inbound_rate_limit_rejections_total (ro_metrics sample_router)"
    by (auto simp: record_inbound_rate_limit_rejection_def inc_by_def fun_eq_iff)
  then have "?r \<noteq> sample_router" by metis
  with run reachable_router_sound [OF run [unfolded sample_router_def]] show ?thesis
    unfolding sample_router_def by blast
qed

end
