(* ===== verification/Server_State.thy ===== *)
theory Server_State
  imports Router_Runs Json
begin

text \<open>
  The HTTP server's state (\<open>crates/server/src/state.rs\<close>), its start from a configuration
  (\<open>main.rs\<close>), the replies it gives (\<open>errors.rs\<close>) and the verification of JWT bearer tokens
  (\<open>jwt.rs\<close>). Keys, signatures and the clock behind a token's expiry are those of the
  \<open>jsonwebtoken\<close> library, whose operations on keys of a type \<open>'k\<close> are parameters.
\<close>

section \<open>Replies\<close>

text \<open>\<open>format!("{x:.d}")\<close>: \<open>d\<close> decimals, the last one rounded, ties to even.\<close>

definition round_half_even :: "real \<Rightarrow> int" where
  "round_half_even x =
     (let n = \<lfloor>x\<rfloor>; r = x - of_int n
      in if r < 1 / 2 \<or> (r = 1 / 2 \<and> even n) then n else n + 1)"

definition show_fixed :: "nat \<Rightarrow> real \<Rightarrow> string" where
  "show_fixed d x =
     (let n = nat (round_half_even (\<bar>x\<bar> * 10 ^ d))
      in (if x < 0 then ''-'' else []) @ show_nat (n div 10 ^ d)
           @ (if d = 0 then [] else ''.'' @ show_padded d (n mod 10 ^ d)))"

fun provider_error_text :: "provider_error \<Rightarrow> string" where
  "provider_error_text (Auth m) = ''authentication failed: '' @ m"
| "provider_error_text (InvalidRequest m) = ''invalid request: '' @ m"
| "provider_error_text (RateLimited r) =
     ''rate limited'' @ (case r of None \<Rightarrow> [] | Some s \<Rightarrow> '', retry after '' @ show_nat (unat s) @ ''s'')"
| "provider_error_text (Upstream s m) =
     ''upstream error (status '' @ show_nat (unat s) @ ''): '' @ m"
| "provider_error_text Timeout = ''request timed out''"
| "provider_error_text (Network m) = ''network error: '' @ m"
| "provider_error_text (Decode m) = ''failed to decode provider response: '' @ m"
| "provider_error_text (ModelNotFound m) = ''model not found: '' @ m"
| "provider_error_text (UnsupportedContent m) = ''unsupported content: '' @ m"
| "provider_error_text (UnsupportedFeature m) = ''unsupported feature: '' @ m"
| "provider_error_text (Other m) = ''provider error: '' @ m"

fun router_error_text :: "router_error \<Rightarrow> string" where
  "router_error_text (InvalidModel m) =
     ''invalid model '' @ quoted m @ '': expected '' @ quoted ''provider/model''
       @ '' or a configured route alias''"
| "router_error_text (ProviderNotConfigured p) =
     ''provider '' @ quoted p @ '' is unknown or not configured (missing API key?)''"
| "router_error_text (NoEligibleProvider m) =
     ''no provider for '' @ quoted m
       @ '' survives the request'' @ [CHR 39] @ ''s provider.only/ignore/zdr/data_collection filter''"
| "router_error_text (GuardrailBlocked g) = ''request blocked by guardrail '' @ quoted g"
| "router_error_text (UnknownPreset p) = ''no preset named '' @ quoted p"
| "router_error_text (ModerationFlagged cs) =
     ''request blocked by moderation (flagged categories: '' @ join '', '' cs @ '')''"
| "router_error_text (RequestBudgetExceeded m limit) =
     ''no candidate for '' @ quoted m @ '' fits provider.max_request_price_usd ($''
       @ show_fixed 6 limit @ '') under provider.budget_fallback = '' @ quoted ''strict''"
| "router_error_text (ProviderErr e) = provider_error_text e"

text \<open>A reply: its status, its headers in the order they are set, and its body.\<close>

record 'b server_reply =
  sr_status :: nat
  sr_headers :: "(string \<times> string) list"
  sr_body :: 'b

datatype error_body = ErrorMessage string nat

text \<open>\<open>StatusCode::from_u16\<close> accepts the codes from \<open>100\<close> to \<open>999\<close>.\<close>

definition status_code_of :: "u16 \<Rightarrow> nat" where
  "status_code_of s = (if 100 \<le> s \<and> s < 1000 then unat s else 500)"

definition json_error_with_retry_after :: "u16 \<Rightarrow> string \<Rightarrow> u64 option \<Rightarrow> error_body server_reply" where
  "json_error_with_retry_after status message retry_after =
     (let code = status_code_of status
      in \<lparr>sr_status = code,
          sr_headers =
            (case retry_after of
               None \<Rightarrow> []
             | Some secs \<Rightarrow> [(''retry-after'', show_nat (unat secs))]),
          sr_body = ErrorMessage message code\<rparr>)"

definition json_error :: "u16 \<Rightarrow> string \<Rightarrow> error_body server_reply" where
  "json_error status message = json_error_with_retry_after status message None"

definition router_error_response :: "router_error \<Rightarrow> error_body server_reply" where
  "router_error_response err =
     json_error_with_retry_after (router_status_code err) (router_error_text err)
       (retry_after_secs err)"

section \<open>JWT verification\<close>

record jwk =
  jk_kty :: string
  jk_kid :: "string option"
  jk_n :: "string option"
  jk_e :: "string option"

datatype jwt_algorithm = HS256 | RS256

text \<open>
  The library: a key from a secret or from RSA components, the \<open>kid\<close> of a token's header, and the
  claims of a token that is valid under a key, an algorithm, an issuer and an audience; and the
  fetch of a JWKS document.
\<close>

record ('k, 'w) jwt_lib =
  jl_from_secret :: "string \<Rightarrow> 'k"
  jl_from_rsa :: "string \<Rightarrow> string \<Rightarrow> 'k option"
  jl_header_kid :: "string \<Rightarrow> string option"
  jl_decode :: "string \<Rightarrow> 'k \<Rightarrow> jwt_algorithm \<Rightarrow> string option \<Rightarrow> string option \<Rightarrow> 'w \<Rightarrow> json option"
  jl_get_jwks :: "string \<Rightarrow> 'w \<Rightarrow> jwk list option \<times> 'w"
  jl_instant :: "'w \<Rightarrow> instant"

datatype 'k jwt_mode =
    Hs256 'k
  | Jwks string nat "(instant \<times> (string \<rightharpoonup> 'k)) option"

record 'k jwt_verifier =
  jv_mode :: "'k jwt_mode"
  jv_issuer :: "string option"
  jv_audience :: "string option"
  jv_client_claim :: "string option"

definition jwt_new :: "('k, 'w) jwt_lib \<Rightarrow> jwt_config \<Rightarrow> string option \<Rightarrow> 'k jwt_verifier option" where
  "jwt_new lib cfg hs256_secret =
     map_option (\<lambda>mode. \<lparr>jv_mode = mode, jv_issuer = jw_issuer cfg, jv_audience = jw_audience cfg,
                         jv_client_claim = jw_client_claim cfg\<rparr>)
       (case hs256_secret of
          Some secret \<Rightarrow> Some (Hs256 (jl_from_secret lib secret))
        | None \<Rightarrow>
            map_option (\<lambda>url. Jwks url (unat (jw_jwks_cache_secs cfg) * 1000000000) None)
              (jw_jwks_url cfg))"

text \<open>The keys of a document: RSA entries with a \<open>kid\<close> and both components; a later entry wins.\<close>

definition jwk_entry :: "('k, 'w) jwt_lib \<Rightarrow> jwk \<Rightarrow> (string \<times> 'k) option" where
  "jwk_entry lib k =
     (if jk_kty k \<noteq> ''RSA'' then None
      else case (jk_kid k, jk_n k, jk_e k) of
        (Some kid, Some n, Some e) \<Rightarrow> map_option (Pair kid) (jl_from_rsa lib n e)
      | _ \<Rightarrow> None)"

definition jwks_map :: "('k, 'w) jwt_lib \<Rightarrow> jwk list \<Rightarrow> (string \<rightharpoonup> 'k)" where
  "jwks_map lib ks = map_of (rev (List.map_filter (jwk_entry lib) ks))"

text \<open>\<open>jwks_key\<close>: the key of a \<open>kid\<close>, and the cache after the look-up.\<close>

definition jwks_key :: "('k, 'w) jwt_lib \<Rightarrow> string \<Rightarrow> nat \<Rightarrow> (instant \<times> (string \<rightharpoonup> 'k)) option
    \<Rightarrow> string \<Rightarrow> 'w \<Rightarrow> 'k option \<times> (instant \<times> (string \<rightharpoonup> 'k)) option \<times> 'w" where
  "jwks_key lib url cache_ttl cache kid w =
     (case (case cache of
              None \<Rightarrow> None
            | Some (fetched_at, keys) \<Rightarrow>
                if jl_instant lib w - fetched_at < cache_ttl then keys kid else None) of
        Some key \<Rightarrow> (Some key, cache, w)
      | None \<Rightarrow>
          (case jl_get_jwks lib url w of
             (None, w') \<Rightarrow> (None, cache, w')
           | (Some ks, w') \<Rightarrow>
               (let keys = jwks_map lib ks
                in (keys kid, Some (jl_instant lib w', keys), w'))))"

definition jwt_verify :: "('k, 'w) jwt_lib \<Rightarrow> 'k jwt_verifier \<Rightarrow> string \<Rightarrow> 'w
    \<Rightarrow> json option \<times> 'k jwt_verifier \<times> 'w" where
  "jwt_verify lib v token w =
     (case jv_mode v of
        Hs256 key \<Rightarrow> (jl_decode lib token key HS256 (jv_issuer v) (jv_audience v) w, v, w)
      | Jwks url ttl cache \<Rightarrow>
          (case jl_header_kid lib token of
             None \<Rightarrow> (None, v, w)
           | Some kid \<Rightarrow>
               (case jwks_key lib url ttl cache kid w of
                  (key, cache', w') \<Rightarrow>
                    (let v' = v\<lparr>jv_mode := Jwks url ttl cache'\<rparr>
                     in case key of
                          None \<Rightarrow> (None, v', w')
                        | Some k \<Rightarrow>
                            (jl_decode lib token k RS256 (jv_issuer v) (jv_audience v) w', v', w')))))"

definition claim_as_str :: "json \<Rightarrow> string \<Rightarrow> string option" where
  "claim_as_str claims claim = Option.bind (json_get claim claims) json_as_str"

section \<open>The state and its start\<close>

text \<open>
  The map from API keys to a client's name and rate is the list of its entries, in the order its
  iteration has them.
\<close>

record 'k app_state =
  st_router :: router
  st_api_key :: "string option"
  st_client_keys :: "(string \<times> string \<times> u32) list"
  st_default_rate_limit_rpm :: "u32 option"
  st_rate_limiter :: rate_limiter
  st_clients :: "client_config list"
  st_admin_key :: "string option"
  st_jwt :: "'k jwt_verifier option"
  st_permits :: "nat option"

definition startup_keys :: "(string \<rightharpoonup> string) \<Rightarrow> client_config list \<Rightarrow> (string \<times> string \<times> u32) list" where
  "startup_keys env clients =
     foldl (\<lambda>keys c.
        case env (cl_api_key_env c) of
          Some k \<Rightarrow> if k \<noteq> [] then AList.update k (cl_name c, cl_requests_per_minute c) keys else keys
        | None \<Rightarrow> keys)
      [] clients"

definition server_start :: "('k, 'w) jwt_lib \<Rightarrow> (string \<rightharpoonup> string) \<Rightarrow> config \<Rightarrow> router \<Rightarrow> 'k app_state" where
  "server_start lib env config r =
     \<lparr>st_router = r,
      st_api_key = Option.bind (sc_api_key_env (cf_server config)) env,
      st_client_keys = startup_keys env (cf_clients config),
      st_default_rate_limit_rpm = sc_default_rate_limit_rpm (cf_server config),
      st_rate_limiter = Map.empty,
      st_clients = cf_clients config,
      st_admin_key = Option.bind (sc_admin_key_env (cf_server config)) env,
      st_jwt =
        Option.bind (cf_jwt config)
          (\<lambda>cfg. jwt_new lib cfg (Option.bind (jw_hs256_secret_env cfg) env)),
      st_permits = sc_max_concurrent_requests (cf_server config)\<rparr>"

end
