(* ===== verification/Server_Auth.thy ===== *)
theory Server_Auth
  imports Server_State
begin

text \<open>
  Who a request is (\<open>crates/server/src/routes.rs\<close>): authentication by the shared key, a client's key
  or a JWT, the admin identity and its scope, the client a request is counted for, and the bucket
  its rate limit is taken from. Of a request's headers the server reads \<open>Authorization\<close>, here its
  value when it is there and is visible ASCII.
\<close>

section \<open>Authentication\<close>

definition bearer_token :: "string option \<Rightarrow> string option" where
  "bearer_token authorization =
     Option.bind authorization
       (\<lambda>v. if starts_with v ''Bearer '' then Some (drop 7 v) else None)"

definition no_auth_configured :: "'k app_state \<Rightarrow> bool" where
  "no_auth_configured st \<longleftrightarrow>
     st_api_key st = None \<and> st_client_keys st = [] \<and> st_jwt st = None"

definition key_accepted :: "'k app_state \<Rightarrow> string \<Rightarrow> bool" where
  "key_accepted st token \<longleftrightarrow> st_api_key st = Some token \<or> map_of (st_client_keys st) token \<noteq> None"

definition unauthorized :: "error_body server_reply" where
  "unauthorized = json_error 401 ''missing or invalid API key''"

text \<open>A JWT check, with the verifier's cache put back.\<close>

definition verify_token :: "('k, 'w) jwt_lib \<Rightarrow> string \<Rightarrow> 'k app_state \<Rightarrow> 'w
    \<Rightarrow> json option \<times> 'k app_state \<times> 'w" where
  "verify_token lib token st w =
     (case st_jwt st of
        None \<Rightarrow> (None, st, w)
      | Some v \<Rightarrow>
          (case jwt_verify lib v token w of
             (claims, v', w') \<Rightarrow> (claims, st\<lparr>st_jwt := Some v'\<rparr>, w')))"

text \<open>\<open>check_auth\<close>: \<open>None\<close> lets the request through.\<close>

definition check_auth :: "('k, 'w) jwt_lib \<Rightarrow> string option \<Rightarrow> 'k app_state \<Rightarrow> 'w
    \<Rightarrow> error_body server_reply option \<times> 'k app_state \<times> 'w" where
  "check_auth lib authorization st w =
     (if no_auth_configured st then (None, st, w)
      else case bearer_token authorization of
        None \<Rightarrow> (Some unauthorized, st, w)
      | Some token \<Rightarrow>
          if key_accepted st token then (None, st, w)
          else
            (case verify_token lib token st w of
               (Some claims, st', w') \<Rightarrow> (None, st', w')
             | (None, st', w') \<Rightarrow> (Some unauthorized, st', w')))"

text \<open>\<open>concurrency_limit\<close> around a handler: a permit is held while it runs.\<close>

definition concurrency_limit :: "('k app_state \<Rightarrow> 'w \<Rightarrow> 'r \<times> 'k app_state \<times> 'w)
    \<Rightarrow> (error_body server_reply \<Rightarrow> 'r) \<Rightarrow> 'k app_state \<Rightarrow> 'w \<Rightarrow> 'r \<times> 'k app_state \<times> 'w" where
  "concurrency_limit handler wrap st w =
     (case st_permits st of
        None \<Rightarrow> handler st w
      | Some 0 \<Rightarrow>
          (wrap (json_error 503 ''server is at capacity, try again shortly''), st, w)
      | Some (Suc n) \<Rightarrow>
          (case handler (st\<lparr>st_permits := Some n\<rparr>) w of
             (resp, st', w') \<Rightarrow> (resp, st'\<lparr>st_permits := map_option Suc (st_permits st')\<rparr>, w')))"

section \<open>Administrators\<close>

datatype admin_identity =
    Global
  | Scoped "string option"

definition admin_api_enabled :: "'k app_state \<Rightarrow> bool" where
  "admin_api_enabled st \<longleftrightarrow>
     st_admin_key st \<noteq> None \<or> list_ex (\<lambda>c. cl_role c = Admin) (st_clients st)"

definition admin_unauthorized :: "error_body server_reply" where
  "admin_unauthorized = json_error 401 ''missing or invalid admin API key''"

definition check_admin_auth :: "'k app_state \<Rightarrow> string option \<Rightarrow> error_body server_reply + admin_identity" where
  "check_admin_auth st authorization =
     (if \<not> admin_api_enabled st then Inl (json_error 404 ''not found'')
      else case bearer_token authorization of
        None \<Rightarrow> Inl admin_unauthorized
      | Some token \<Rightarrow>
          if st_admin_key st = Some token then Inr Global
          else case map_of (st_client_keys st) token of
            None \<Rightarrow> Inl admin_unauthorized
          | Some (name, _) \<Rightarrow>
              (case List.find (\<lambda>c. cl_name c = name \<and> cl_role c = Admin) (st_clients st) of
                 None \<Rightarrow> Inl admin_unauthorized
               | Some client \<Rightarrow> Inr (Scoped (cl_organization client))))"

fun in_admin_scope :: "admin_identity \<Rightarrow> client_config \<Rightarrow> bool" where
  "in_admin_scope Global client = True"
| "in_admin_scope (Scoped organization) client = (cl_organization client = organization)"

section \<open>Clients and their rate limits\<close>

definition find_client :: "string \<Rightarrow> client_config list \<Rightarrow> client_config option" where
  "find_client name clients = List.find (\<lambda>c. cl_name c = name) clients"

definition resolve_client_identity :: "('k, 'w) jwt_lib \<Rightarrow> string option \<Rightarrow> 'k app_state \<Rightarrow> 'w
    \<Rightarrow> string option \<times> 'k app_state \<times> 'w" where
  "resolve_client_identity lib authorization st w =
     (case bearer_token authorization of
        None \<Rightarrow> (None, st, w)
      | Some token \<Rightarrow>
          (case map_of (st_client_keys st) token of
             Some (name, _) \<Rightarrow> (Some name, st, w)
           | None \<Rightarrow>
               (case Option.bind (st_jwt st) jv_client_claim of
                  None \<Rightarrow> (None, st, w)
                | Some claim_name \<Rightarrow>
                    (case verify_token lib token st w of
                       (claims, st', w') \<Rightarrow>
                         (Option.bind (Option.bind claims (\<lambda>c. claim_as_str c claim_name))
                            (\<lambda>value. map_option cl_name (find_client value (st_clients st'))),
                          st', w')))))"

text \<open>The peer address is \<open>addr.ip()\<close> in its printed form.\<close>

definition resolve_rate_limit :: "'k app_state \<Rightarrow> string option \<Rightarrow> string \<Rightarrow> (string \<times> u32) option" where
  "resolve_rate_limit st client_name ip =
     (case Option.bind client_name
             (\<lambda>name. map_option (\<lambda>c. (''client:'' @ name, cl_requests_per_minute c))
                (find_client name (st_clients st))) of
        Some limit \<Rightarrow> Some limit
      | None \<Rightarrow> map_option (\<lambda>rpm. (''ip:'' @ ip, rpm)) (st_default_rate_limit_rpm st))"

text \<open>Whole seconds as \<open>f64\<close> prints them.\<close>

definition rate_limit_headers :: "rate_limit_status \<Rightarrow> (string \<times> string) list" where
  "rate_limit_headers status =
     [(''x-ratelimit-limit'', show_nat (unat (rl_limit status))),
      (''x-ratelimit-remaining'', show_nat (unat (rl_remaining status))),
      (''x-ratelimit-reset'', show_nat (nat (max \<lceil>rl_reset_secs status\<rceil> 0)))]"

text \<open>\<open>HeaderMap::insert\<close> replaces a header that is there.\<close>

definition apply_rate_limit_headers :: "rate_limit_status \<Rightarrow> 'b server_reply \<Rightarrow> 'b server_reply" where
  "apply_rate_limit_headers status resp =
     resp\<lparr>sr_headers := foldl (\<lambda>hs (k, v). AList.update k v hs) (sr_headers resp)
                          (rate_limit_headers status)\<rparr>"

definition rate_limited_response :: "string \<Rightarrow> rate_limit_status \<Rightarrow> 'k app_state
    \<Rightarrow> error_body server_reply \<times> 'k app_state" where
  "rate_limited_response identity status st =
     (let secs = f64_to_u64 (max (of_int \<lceil>rl_retry_after_secs status\<rceil>) 1)
      in (apply_rate_limit_headers status
            (json_error_with_retry_after 429
               (''rate limit exceeded, retry after '' @ show_nat (unat secs) @ ''s'') (Some secs)),
          st\<lparr>st_router := update_metrics (record_inbound_rate_limit_rejection identity) (st_router st)\<rparr>))"

definition budget_exceeded_response :: "string \<Rightarrow> client_budget_exceeded \<Rightarrow> 'k app_state
    \<Rightarrow> error_body server_reply \<times> 'k app_state" where
  "budget_exceeded_response client_name exceeded st =
     (json_error 402
        (''client '' @ quoted client_name @ '' has exceeded its configured budget ($''
           @ show_fixed 2 (be_spent_usd exceeded) @ '' spent of $''
           @ show_fixed 2 (be_budget_usd exceeded) @ '')''),
      st\<lparr>st_router := update_metrics (record_client_budget_rejection client_name) (st_router st)\<rparr>)"

end
