(* ===== verification/Server_Admin.thy ===== *)
theory Server_Admin
  imports Server_Auth Provider_Http
begin

text \<open>
  The admin API (\<open>crates/server/src/routes.rs\<close>): clients are listed, created, changed, deleted, their
  spend reset and their usage read, within the scope of the caller. A request body is read by
  \<open>serde\<close> (the parameter \<open>parse\<close>), random bytes are an argument. \<open>now\<close> is the time in seconds at
  which spend is looked at.
\<close>

type_synonym 'b admin_reply = "error_body server_reply + 'b server_reply"

definition ok_reply :: "nat \<Rightarrow> 'b \<Rightarrow> 'b server_reply" where
  "ok_reply status body = \<lparr>sr_status = status, sr_headers = [], sr_body = body\<rparr>"

section \<open>Reading\<close>

record admin_client_entry =
  ac_name :: string
  ac_organization :: "string option"
  ac_workspace :: "string option"
  ac_role :: client_role
  ac_requests_per_minute :: u32
  ac_budget_usd :: "f64 option"
  ac_budget_period :: "budget_period option"
  ac_spent_usd :: "f64 option"

text \<open>The spend of each client is looked up in order; a look-up may roll an in-memory period over.\<close>

fun client_entries :: "i64 \<Rightarrow> client_config list \<Rightarrow> router \<Rightarrow> admin_client_entry list \<times> router" where
  "client_entries now [] r = ([], r)"
| "client_entries now (c # cs) r =
     (case client_spend_status now (cl_name c) r of (status, r1) \<Rightarrow>
        (case client_entries now cs r1 of (es, r2) \<Rightarrow>
           (\<lparr>ac_name = cl_name c, ac_organization = cl_organization c, ac_workspace = cl_workspace c,
             ac_role = cl_role c, ac_requests_per_minute = cl_requests_per_minute c,
             ac_budget_usd = cl_budget_usd c, ac_budget_period = map_option cs_period status,
             ac_spent_usd = map_option cs_spent_usd status\<rparr> # es, r2)))"

definition admin_list_clients :: "i64 \<Rightarrow> string option \<Rightarrow> 'k app_state
    \<Rightarrow> admin_client_entry list admin_reply \<times> 'k app_state" where
  "admin_list_clients now authorization st =
     (case check_admin_auth st authorization of
        Inl resp \<Rightarrow> (Inl resp, st)
      | Inr identity \<Rightarrow>
          (case client_entries now (filter (in_admin_scope identity) (st_clients st)) (st_router st) of
             (es, r') \<Rightarrow> (Inr (ok_reply 200 es), st\<lparr>st_router := r'\<rparr>)))"

text \<open>A client goes to the first group of its organization, or opens one.\<close>

fun add_to_group :: "client_config \<Rightarrow> (string option \<times> client_config list) list
    \<Rightarrow> (string option \<times> client_config list) list" where
  "add_to_group c [] = [(cl_organization c, [c])]"
| "add_to_group c ((org, members) # groups) =
     (if org = cl_organization c then (org, members @ [c]) # groups
      else (org, members) # add_to_group c groups)"

definition organization_groups :: "client_config list \<Rightarrow> (string option \<times> client_config list) list" where
  "organization_groups clients = fold add_to_group clients []"

fun group_entries :: "i64 \<Rightarrow> (string option \<times> client_config list) list \<Rightarrow> router
    \<Rightarrow> (string option \<times> admin_client_entry list) list \<times> router" where
  "group_entries now [] r = ([], r)"
| "group_entries now ((org, members) # groups) r =
     (case client_entries now members r of (es, r1) \<Rightarrow>
        (case group_entries now groups r1 of (gs, r2) \<Rightarrow> ((org, es) # gs, r2)))"

definition admin_list_organizations :: "i64 \<Rightarrow> string option \<Rightarrow> 'k app_state
    \<Rightarrow> (string option \<times> admin_client_entry list) list admin_reply \<times> 'k app_state" where
  "admin_list_organizations now authorization st =
     (case check_admin_auth st authorization of
        Inl resp \<Rightarrow> (Inl resp, st)
      | Inr identity \<Rightarrow>
          (case group_entries now
                  (organization_groups (filter (in_admin_scope identity) (st_clients st)))
                  (st_router st) of
             (gs, r') \<Rightarrow> (Inr (ok_reply 200 gs), st\<lparr>st_router := r'\<rparr>)))"

definition in_scope_named :: "admin_identity \<Rightarrow> string \<Rightarrow> client_config \<Rightarrow> bool" where
  "in_scope_named identity name c \<longleftrightarrow> cl_name c = name \<and> in_admin_scope identity c"

definition default_usage_history_days :: u32 where
  "default_usage_history_days = 30"

definition max_usage_history_days :: u32 where
  "max_usage_history_days = 90"

definition clamp_days :: "u32 option \<Rightarrow> u32" where
  "clamp_days days = min (max (unwrap_or default_usage_history_days days) 1) max_usage_history_days"

definition no_client :: "string \<Rightarrow> error_body server_reply" where
  "no_client name = json_error 404 (''no client named '' @ quoted name)"

definition admin_client_usage_history :: "i64 \<Rightarrow> string option \<Rightarrow> string \<Rightarrow> u32 option \<Rightarrow> 'k app_state
    \<Rightarrow> (string \<times> u32 \<times> daily_usage list) admin_reply" where
  "admin_client_usage_history now authorization name query_days st =
     (case check_admin_auth st authorization of
        Inl resp \<Rightarrow> Inl resp
      | Inr identity \<Rightarrow>
          if \<not> list_ex (in_scope_named identity name) (st_clients st) then Inl (no_client name)
          else
            let days = clamp_days query_days
            in Inr (ok_reply 200 (name, days, client_usage_history now name days (st_router st))))"

section \<open>Resetting a spend\<close>

definition no_budgeted_client :: "string \<Rightarrow> error_body server_reply" where
  "no_budgeted_client name =
     json_error 404 (''no client named '' @ quoted name @ '' with a configured budget'')"

definition admin_reset_client_spend :: "i64 \<Rightarrow> string option \<Rightarrow> string \<Rightarrow> 'k app_state
    \<Rightarrow> string admin_reply \<times> 'k app_state" where
  "admin_reset_client_spend now authorization name st =
     (case check_admin_auth st authorization of
        Inl resp \<Rightarrow> (Inl resp, st)
      | Inr identity \<Rightarrow>
          if \<not> list_ex (in_scope_named identity name) (st_clients st)
          then (Inl (no_budgeted_client name), st)
          else
            (case reset_client_spend now name (st_router st) of
               (True, r') \<Rightarrow> (Inr (ok_reply 200 ''ok''), st\<lparr>st_router := r'\<rparr>)
             | (False, r') \<Rightarrow> (Inl (no_budgeted_client name), st\<lparr>st_router := r'\<rparr>)))"

section \<open>Provisioning\<close>

definition hex_byte :: "u8 \<Rightarrow> string" where
  "hex_byte b = [hex_digit (unat b div 16), hex_digit (unat b mod 16)]"

definition generate_api_key :: "u8 list \<Rightarrow> string" where
  "generate_api_key bytes = ''rp_'' @ concat (map hex_byte bytes)"

record create_request =
  cq_name :: string
  cq_requests_per_minute :: u32
  cq_budget_usd :: "f64 option"
  cq_budget_period :: budget_period
  cq_api_key :: "string option"
  cq_organization :: "string option"
  cq_workspace :: "string option"
  cq_role :: client_role

record client_provision =
  cp_name :: string
  cp_organization :: "string option"
  cp_workspace :: "string option"
  cp_role :: client_role
  cp_requests_per_minute :: u32
  cp_budget_usd :: "f64 option"
  cp_budget_period :: budget_period
  cp_api_key :: "string option"

definition invalid_body :: "string \<Rightarrow> error_body server_reply" where
  "invalid_body e = json_error 400 (''invalid request body: '' @ e)"

definition zero_rpm :: "error_body server_reply" where
  "zero_rpm = json_error 400 (quoted ''requests_per_minute'' @ '' must be greater than zero'')"

definition negative_budget :: "error_body server_reply" where
  "negative_budget = json_error 400 (quoted ''budget_usd'' @ '' must not be negative'')"

text \<open>What a creation checks before its first write: the caller, the body, and that the name is free.\<close>

definition create_check :: "(string \<Rightarrow> string + create_request) \<Rightarrow> string option \<Rightarrow> string
    \<Rightarrow> 'k app_state \<Rightarrow> error_body server_reply + create_request" where
  "create_check parse authorization body st =
     (case check_admin_auth st authorization of
        Inl resp \<Rightarrow> Inl resp
      | Inr identity \<Rightarrow>
          (case parse body of
             Inl e \<Rightarrow> Inl (invalid_body e)
           | Inr req0 \<Rightarrow>
               if cq_name req0 = [] then Inl (json_error 400 (quoted ''name'' @ '' must not be empty''))
               else if cq_requests_per_minute req0 = 0 then Inl zero_rpm
               else if (case cq_budget_usd req0 of None \<Rightarrow> False | Some b \<Rightarrow> b < 0) then Inl negative_budget
               else
                 let req = (case identity of
                              Global \<Rightarrow> req0
                            | Scoped organization \<Rightarrow> req0\<lparr>cq_organization := organization\<rparr>)
                 in if list_ex (\<lambda>c. cl_name c = cq_name req) (st_clients st)
                    then Inl (json_error 409
                      (''a client named '' @ quoted (cq_name req) @ '' already exists''))
                    else Inr req))"

definition new_client :: "create_request \<Rightarrow> client_config" where
  "new_client req =
     \<lparr>cl_name = cq_name req, cl_api_key_env = [],
      cl_requests_per_minute = cq_requests_per_minute req, cl_budget_usd = cq_budget_usd req,
      cl_budget_period = cq_budget_period req, cl_budget_warning_threshold = None,
      cl_organization = cq_organization req, cl_workspace = cq_workspace req, cl_role = cq_role req\<rparr>"

text \<open>The writes of a creation: the key, unless it is taken, then the client and its budget.\<close>

definition create_commit :: "u8 list \<Rightarrow> create_request \<Rightarrow> 'k app_state
    \<Rightarrow> client_provision admin_reply \<times> 'k app_state" where
  "create_commit random req st =
     (let api_key = unwrap_or (generate_api_key random) (cq_api_key req)
      in if map_of (st_client_keys st) api_key \<noteq> None
         then (Inl (json_error 409 ''a client with this API key already exists''), st)
         else
           (Inr (ok_reply 201
              \<lparr>cp_name = cq_name req, cp_organization = cq_organization req,
               cp_workspace = cq_workspace req, cp_role = cq_role req,
               cp_requests_per_minute = cq_requests_per_minute req,
               cp_budget_usd = cq_budget_usd req, cp_budget_period = cq_budget_period req,
               cp_api_key = Some api_key\<rparr>),
            st\<lparr>st_client_keys :=
                 AList.update api_key (cq_name req, cq_requests_per_minute req) (st_client_keys st),
               st_clients := st_clients st @ [new_client req],
               st_router :=
                 set_client_budget (cq_name req)
                   (map_option (\<lambda>b. (b, cq_budget_period req)) (cq_budget_usd req)) (st_router st)\<rparr>))"

definition admin_create_client :: "(string \<Rightarrow> string + create_request) \<Rightarrow> u8 list \<Rightarrow> string option \<Rightarrow> string
    \<Rightarrow> 'k app_state \<Rightarrow> client_provision admin_reply \<times> 'k app_state" where
  "admin_create_client parse random authorization body st =
     (case create_check parse authorization body st of
        Inl resp \<Rightarrow> (Inl resp, st)
      | Inr req \<Rightarrow> create_commit random req st)"

text \<open>An update: \<open>uq_budget_usd\<close> tells a missing field from an explicit \<open>null\<close>.\<close>

record update_request =
  uq_requests_per_minute :: "u32 option"
  uq_budget_usd :: "f64 option option"
  uq_budget_period :: "budget_period option"
  uq_rotate_api_key :: bool

definition default_update :: update_request where
  "default_update =
     \<lparr>uq_requests_per_minute = None, uq_budget_usd = None, uq_budget_period = None,
      uq_rotate_api_key = False\<rparr>"

definition update_client :: "update_request \<Rightarrow> client_config \<Rightarrow> client_config" where
  "update_client req c =
     c\<lparr>cl_requests_per_minute := unwrap_or (cl_requests_per_minute c) (uq_requests_per_minute req),
       cl_budget_usd := unwrap_or (cl_budget_usd c) (uq_budget_usd req),
       cl_budget_period := unwrap_or (cl_budget_period c) (uq_budget_period req)\<rparr>"

fun update_first :: "('a \<Rightarrow> bool) \<Rightarrow> ('a \<Rightarrow> 'a) \<Rightarrow> 'a list \<Rightarrow> 'a list" where
  "update_first p f [] = []"
| "update_first p f (x # xs) = (if p x then f x # xs else x # update_first p f xs)"

text \<open>The keys after an update of a client, and the new key when it is rotated.\<close>

definition update_keys :: "u8 list \<Rightarrow> bool \<Rightarrow> string \<Rightarrow> u32 \<Rightarrow> (string \<times> string \<times> u32) list
    \<Rightarrow> string option \<times> (string \<times> string \<times> u32) list" where
  "update_keys random rotates name rpm keys =
     (let existing_key = map_option fst (List.find (\<lambda>(_, n, _). n = name) keys)
      in if rotates then
           (let kept = (case existing_key of None \<Rightarrow> keys | Some old \<Rightarrow> AList.delete old keys);
                key = generate_api_key random
            in (Some key, AList.update key (name, rpm) kept))
         else
           (None,
            case existing_key of
              None \<Rightarrow> keys
            | Some old \<Rightarrow>
                (case map_of keys old of
                   None \<Rightarrow> keys
                 | Some (n, _) \<Rightarrow> AList.update old (n, rpm) keys)))"

definition admin_update_client :: "(string \<Rightarrow> string + update_request) \<Rightarrow> u8 list \<Rightarrow> string option
    \<Rightarrow> string \<Rightarrow> string \<Rightarrow> 'k app_state \<Rightarrow> client_provision admin_reply \<times> 'k app_state" where
  "admin_update_client parse random authorization name body st =
     (case check_admin_auth st authorization of
        Inl resp \<Rightarrow> (Inl resp, st)
      | Inr identity \<Rightarrow>
          (case (if body = [] then Inr default_update else parse body) of
             Inl e \<Rightarrow> (Inl (invalid_body e), st)
           | Inr req \<Rightarrow>
               if uq_requests_per_minute req = Some 0 then (Inl zero_rpm, st)
               else if (case uq_budget_usd req of Some (Some b) \<Rightarrow> b < 0 | _ \<Rightarrow> False)
               then (Inl negative_budget, st)
               else
                 (case List.find (in_scope_named identity name) (st_clients st) of
                    None \<Rightarrow> (Inl (no_client name), st)
                  | Some client \<Rightarrow>
                      let updated = update_client req client;
                          (new_api_key, keys) =
                            update_keys random (uq_rotate_api_key req) name
                              (cl_requests_per_minute updated) (st_client_keys st)
                      in (Inr (ok_reply 200
                            \<lparr>cp_name = cl_name updated, cp_organization = cl_organization updated,
                             cp_workspace = cl_workspace updated, cp_role = cl_role updated,
                             cp_requests_per_minute = cl_requests_per_minute updated,
                             cp_budget_usd = cl_budget_usd updated,
                             cp_budget_period = cl_budget_period updated,
                             cp_api_key = new_api_key\<rparr>),
                          st\<lparr>st_clients :=
                               update_first (in_scope_named identity name) (update_client req)
                                 (st_clients st),
                             st_client_keys := keys,
                             st_router :=
                               set_client_budget name
                                 (map_option (\<lambda>b. (b, cl_budget_period updated))
                                    (cl_budget_usd updated))
                                 (st_router st)\<rparr>))))"

definition admin_delete_client :: "string option \<Rightarrow> string \<Rightarrow> 'k app_state
    \<Rightarrow> string admin_reply \<times> 'k app_state" where
  "admin_delete_client authorization name st =
     (case check_admin_auth st authorization of
        Inl resp \<Rightarrow> (Inl resp, st)
      | Inr identity \<Rightarrow>
          (let kept = filter (\<lambda>c. \<not> in_scope_named identity name c) (st_clients st)
           in if length kept = length (st_clients st) then (Inl (no_client name), st)
              else
                (Inr (ok_reply 200 ''ok''),
                 st\<lparr>st_clients := kept,
                    st_client_keys := filter (\<lambda>(_, n, _). n \<noteq> name) (st_client_keys st),
                    st_router := remove_client name (st_router st)\<rparr>)))"

end
