(* ===== verification/Server_Admin_Facts.thy ===== *)
theory Server_Admin_Facts
  imports Server_Admin
begin

text \<open>
  What the admin API keeps: the keys, the list of clients and the budgets the router enforces agree
  after every operation; a scoped administrator changes nothing outside its organization. And where
  it falls short: a changed rate limit, a warning threshold, the last client, two creations at once.
\<close>

section \<open>The invariant\<close>

text \<open>The budget the list of clients shows for a name.\<close>

definition shown_budget :: "client_config list \<Rightarrow> string \<Rightarrow> (f64 \<times> budget_period) option" where
  "shown_budget clients name =
     Option.bind (find_client name clients)
       (\<lambda>c. map_option (\<lambda>b. (b, cl_budget_period c)) (cl_budget_usd c))"

definition enforced_budget :: "router \<Rightarrow> string \<Rightarrow> (f64 \<times> budget_period) option" where
  "enforced_budget r name =
     map_option (\<lambda>s. (bs_budget_usd s, bs_period s)) (ro_client_budgets r name)"

definition key_owner :: "string \<times> string \<times> u32 \<Rightarrow> string" where
  "key_owner e = fst (snd e)"

definition keys_inv :: "(string \<times> string \<times> u32) list \<Rightarrow> client_config list \<Rightarrow> bool" where
  "keys_inv keys clients \<longleftrightarrow>
     distinct (map fst keys) \<and> distinct (map key_owner keys)
     \<and> (\<forall>e\<in>set keys. \<exists>c\<in>set clients.
          cl_name c = key_owner e \<and> cl_requests_per_minute c = snd (snd e))"

definition server_inv :: "'k app_state \<Rightarrow> bool" where
  "server_inv st \<longleftrightarrow>
     distinct (map cl_name (st_clients st)) \<and> keys_inv (st_client_keys st) (st_clients st)
     \<and> enforced_budget (st_router st) = shown_budget (st_clients st)"

lemma server_invI:
  "\<lbrakk>distinct (map cl_name (st_clients st)); keys_inv (st_client_keys st) (st_clients st);
    enforced_budget (st_router st) = shown_budget (st_clients st)\<rbrakk> \<Longrightarrow> server_inv st"
  by (simp add: server_inv_def)

section \<open>Lists of clients and keys\<close>

lemma find_None: "List.find p xs = None \<longleftrightarrow> (\<forall>x\<in>set xs. \<not> p x)"
  by (induction xs) auto

lemma find_Some: "List.find p xs = Some x \<Longrightarrow> x \<in> set xs \<and> p x"
  by (induction xs) (auto split: if_splits)

lemma find_client_append:
  "find_client n (xs @ ys) = (case find_client n xs of Some c \<Rightarrow> Some c | None \<Rightarrow> find_client n ys)"
  by (induction xs) (auto simp: find_client_def)

lemma find_client_notin: "n \<notin> cl_name ` set cs \<Longrightarrow> find_client n cs = None"
  by (auto simp: find_client_def find_None)

lemma find_client_distinct:
  "distinct (map cl_name cs) \<Longrightarrow> c \<in> set cs \<Longrightarrow> cl_name c = n \<Longrightarrow> find_client n cs = Some c"
  by (induction cs) (auto simp: find_client_def image_iff)

lemma update_first_map:
  assumes "distinct (map cl_name cs)" and "List.find (in_scope_named i name) cs = Some c"
  shows "update_first (in_scope_named i name) f cs = map (\<lambda>x. if cl_name x = name then f x else x) cs"
  using assms
proof (induction cs)
  case Nil then show ?case by simp
next
  case (Cons x xs)
  show ?case
  proof (cases "in_scope_named i name x")
    case True
    then have "map (\<lambda>x. if cl_name x = name then f x else x) xs = xs"
      using Cons.prems(1) by (intro map_idI) (auto simp: in_scope_named_def image_iff)
    with True show ?thesis by (simp add: in_scope_named_def)
  next
    case False
    with Cons.prems(2) have found: "List.find (in_scope_named i name) xs = Some c" by simp
    have "cl_name x \<noteq> name"
    proof
      assume "cl_name x = name"
      moreover have "c \<in> set xs" "cl_name c = name"
        using find_Some [OF found] by (simp_all add: in_scope_named_def)
      ultimately show False using Cons.prems(1) by (auto simp: image_iff)
    qed
    with False Cons.IH found Cons.prems(1) show ?thesis by simp
  qed
qed

lemma find_client_map:
  assumes "\<And>c. cl_name (f c) = cl_name c"
  shows "find_client n (map (\<lambda>x. if cl_name x = name then f x else x) cs)
    = (if n = name then map_option f (find_client n cs) else find_client n cs)"
  using assms by (induction cs) (auto simp: find_client_def)

lemma find_client_filter:
  "find_client n (filter (\<lambda>c. cl_name c \<noteq> name) cs) = (if n = name then None else find_client n cs)"
  by (induction cs) (auto simp: find_client_def)

lemma filter_in_scope:
  assumes "distinct (map cl_name cs)" and "list_ex (in_scope_named i name) cs"
  shows "filter (\<lambda>c. \<not> in_scope_named i name c) cs = filter (\<lambda>c. cl_name c \<noteq> name) cs"
proof (rule filter_cong [OF refl])
  fix c assume "c \<in> set cs"
  moreover from assms(2) obtain d where "d \<in> set cs" "in_scope_named i name d"
    by (auto simp: list_ex_iff)
  ultimately show "(\<not> in_scope_named i name c) = (cl_name c \<noteq> name)"
    using assms(1) by (auto simp: in_scope_named_def distinct_map inj_on_def)
qed

lemma alist_update_list:
  assumes "distinct (map fst al)"
  shows "AList.update k v al
    = (if k \<in> fst ` set al then map (\<lambda>e. if fst e = k then (k, v) else e) al else al @ [(k, v)])"
  using assms
proof (induction al)
  case Nil then show ?case by simp
next
  case (Cons e al)
  obtain j u where e: "e = (j, u)" by (cases e)
  show ?case
  proof (cases "j = k")
    case True
    then have "map (\<lambda>e. if fst e = k then (k, v) else e) al = al"
      using Cons.prems by (intro map_idI) (auto simp: e image_iff)
    with True show ?thesis by (simp add: e)
  next
    case False with Cons show ?thesis by (auto simp: e)
  qed
qed

text \<open>Giving a key to a client: the entry of the key is the client's, the others stay.\<close>

lemma alist_update_keys_inv:
  assumes "keys_inv keys clients" and "name \<notin> key_owner ` set keys"
    and "\<exists>c\<in>set clients. cl_name c = name \<and> cl_requests_per_minute c = rpm"
  shows "keys_inv (AList.update k (name, rpm) keys) clients"
proof -
  have d: "distinct (map fst keys)" "distinct (map key_owner keys)" using assms(1) by (simp_all add: keys_inv_def)
  have up: "AList.update k (name, rpm) keys
      = (if k \<in> fst ` set keys then map (\<lambda>e. if fst e = k then (k, name, rpm) else e) keys
         else keys @ [(k, name, rpm)])"
    using alist_update_list [OF d(1)] by simp
  have fst: "distinct (map fst (AList.update k (name, rpm) keys))" using d(1) by (rule distinct_update)
  have owners: "distinct (map key_owner (AList.update k (name, rpm) keys))"
  proof (cases "k \<in> fst ` set keys")
    case True
    have "inj_on (key_owner \<circ> (\<lambda>e. if fst e = k then (k, name, rpm) else e)) (set keys)"
    proof (rule inj_onI)
      fix x y assume x: "x \<in> set keys" and y: "y \<in> set keys"
        and eq: "(key_owner \<circ> (\<lambda>e. if fst e = k then (k, name, rpm) else e)) x
               = (key_owner \<circ> (\<lambda>e. if fst e = k then (k, name, rpm) else e)) y"
      have "fst x = fst y \<Longrightarrow> x = y" using d(1) x y by (auto simp: distinct_map inj_on_def)
      moreover have "key_owner x = key_owner y \<Longrightarrow> x = y" using d(2) x y by (auto simp: distinct_map inj_on_def)
      moreover have "key_owner x \<noteq> name" "key_owner y \<noteq> name" using assms(2) x y by auto
      ultimately show "x = y" using eq by (auto simp: key_owner_def split: if_splits)
    qed
    with True d(2) show ?thesis by (simp add: up distinct_map)
  next
    case False
    with d(2) assms(2) show ?thesis by (auto simp: up key_owner_def image_iff)
  qed
  have "\<forall>e\<in>set (AList.update k (name, rpm) keys). \<exists>c\<in>set clients.
      cl_name c = key_owner e \<and> cl_requests_per_minute c = snd (snd e)"
    using assms(1,3) by (auto simp: up keys_inv_def key_owner_def)
  with fst owners show ?thesis by (simp add: keys_inv_def)
qed

lemma keys_inv_filter:
  "keys_inv keys clients \<Longrightarrow> keys_inv (filter p keys) clients"
  by (auto simp: keys_inv_def distinct_map_filter)

lemma keys_inv_mono:
  "keys_inv keys clients \<Longrightarrow> set clients \<subseteq> set clients' \<Longrightarrow> keys_inv keys clients'"
  unfolding keys_inv_def by blast

section \<open>Every operation keeps it\<close>

lemma enforced_set_budget:
  "enforced_budget (set_client_budget name b r) = (enforced_budget r)(name := b)"
  by (auto simp: enforced_budget_def set_client_budget_def fun_eq_iff map_option.compositionality
      comp_def case_prod_beta option.map_id0 map_option_idI split: option.split)

lemma enforced_remove: "enforced_budget (remove_client name r) = (enforced_budget r)(name := None)"
  by (auto simp: enforced_budget_def remove_client_def fun_eq_iff)

lemma spend_status_budgets: "ro_client_budgets (snd (client_spend_status now name r)) = ro_client_budgets r"
  by (auto simp: client_spend_status_def spent_usd_for_def Let_def split: option.split)

lemma client_entries_budgets: "ro_client_budgets (snd (client_entries now cs r)) = ro_client_budgets r"
proof (induction cs arbitrary: r)
  case Nil then show ?case by simp
next
  case (Cons c cs)
  then show ?case using spend_status_budgets [of now "cl_name c" r] by (simp add: case_prod_beta)
qed

lemma group_entries_budgets: "ro_client_budgets (snd (group_entries now gs r)) = ro_client_budgets r"
proof (induction gs arbitrary: r)
  case Nil then show ?case by simp
next
  case (Cons g gs)
  then show ?case using client_entries_budgets [of now "snd g" r] by (cases g) (simp add: case_prod_beta)
qed

lemma reset_budgets: "ro_client_budgets (snd (reset_client_spend now name r)) = ro_client_budgets r"
  by (auto simp: reset_client_spend_def notify_def Let_def split: option.split)

lemma server_inv_router:
  assumes "server_inv st" and "ro_client_budgets r' = ro_client_budgets (st_router st)"
  shows "server_inv (st\<lparr>st_router := r'\<rparr>)"
proof -
  have "enforced_budget r' = enforced_budget (st_router st)"
    using assms(2) by (simp add: enforced_budget_def fun_eq_iff)
  with assms(1) show ?thesis by (simp add: server_inv_def)
qed

lemma list_clients_inv: "server_inv st \<Longrightarrow> server_inv (snd (admin_list_clients now auth st))"
  by (auto simp: admin_list_clients_def case_prod_beta client_entries_budgets
      intro: server_inv_router split: sum.split)

lemma list_organizations_inv: "server_inv st \<Longrightarrow> server_inv (snd (admin_list_organizations now auth st))"
  by (auto simp: admin_list_organizations_def case_prod_beta group_entries_budgets
      intro: server_inv_router split: sum.split)

lemma reset_inv: "server_inv st \<Longrightarrow> server_inv (snd (admin_reset_client_spend now auth name st))"
proof -
  assume inv: "server_inv st"
  have "server_inv (st\<lparr>st_router := r'\<rparr>)" if "reset_client_spend now name (st_router st) = (b, r')" for b r'
    using reset_budgets [of now name "st_router st"] that inv by (auto intro: server_inv_router)
  with inv show ?thesis
    by (auto simp: admin_reset_client_spend_def split: sum.split prod.split bool.split)
qed

lemma create_check_Inr:
  assumes "create_check parse auth body st = Inr req"
  shows "cq_name req \<notin> cl_name ` set (st_clients st)" and "cq_requests_per_minute req \<noteq> 0"
    and "\<exists>identity. check_admin_auth st auth = Inr identity \<and> in_admin_scope identity (new_client req)"
proof -
  obtain identity req0 where ok: "check_admin_auth st auth = Inr identity" "parse body = Inr req0"
    using assms by (auto simp: create_check_def split: sum.splits)
  have "\<not> list_ex (\<lambda>c. cl_name c = cq_name req) (st_clients st)" "cq_requests_per_minute req \<noteq> 0"
    "in_admin_scope identity (new_client req)"
    using assms ok
    by (auto simp: create_check_def new_client_def Let_def split: if_splits option.splits admin_identity.splits)
  with ok show "cq_name req \<notin> cl_name ` set (st_clients st)" "cq_requests_per_minute req \<noteq> 0"
    "\<exists>identity. check_admin_auth st auth = Inr identity \<and> in_admin_scope identity (new_client req)"
    by (auto simp: list_ex_iff)
qed

lemma keys_inv_owners: "keys_inv keys clients \<Longrightarrow> key_owner ` set keys \<subseteq> cl_name ` set clients"
  by (force simp: keys_inv_def)

lemma find_new_client:
  "find_client n [new_client req] = (if n = cq_name req then Some (new_client req) else None)"
  by (simp add: find_client_def new_client_def)

lemma create_commit_inv:
  assumes "server_inv st" and "cq_name req \<notin> cl_name ` set (st_clients st)"
  shows "server_inv (snd (create_commit random req st))"
proof (cases "map_of (st_client_keys st) (unwrap_or (generate_api_key random) (cq_api_key req)) = None")
  case False
  with assms(1) show ?thesis by (auto simp: create_commit_def Let_def)
next
  case True
  let ?clients = "st_clients st @ [new_client req]"
  have keys: "keys_inv (st_client_keys st) ?clients"
    using assms(1) by (auto simp: server_inv_def intro: keys_inv_mono)
  have "cq_name req \<notin> key_owner ` set (st_client_keys st)"
    using assms keys_inv_owners [of "st_client_keys st" "st_clients st"] by (auto simp: server_inv_def)
  then have keys': "keys_inv (AList.update k (cq_name req, cq_requests_per_minute req) (st_client_keys st)) ?clients"
    for k by (intro alist_update_keys_inv [OF keys]) (auto simp: new_client_def)
  have "find_client (cq_name req) (st_clients st) = None" using assms(2) by (rule find_client_notin)
  then have "shown_budget ?clients
      = (shown_budget (st_clients st))(cq_name req := map_option (\<lambda>b. (b, cq_budget_period req)) (cq_budget_usd req))"
    by (auto simp: shown_budget_def find_client_append fun_eq_iff find_new_client split: option.split)
       (simp_all add: new_client_def)
  with assms True keys' show ?thesis
    by (auto simp: create_commit_def Let_def server_inv_def enforced_set_budget new_client_def)
qed

lemma create_inv: "server_inv st \<Longrightarrow> server_inv (snd (admin_create_client parse random auth body st))"
  by (auto simp: admin_create_client_def split: sum.split intro: create_commit_inv dest: create_check_Inr(1))

lemma delete_inv: "server_inv st \<Longrightarrow> server_inv (snd (admin_delete_client auth name st))"
proof (cases "check_admin_auth st auth")
  case (Inl resp)
  assume "server_inv st"
  with Inl show ?thesis by (simp add: admin_delete_client_def)
next
  case (Inr i)
  assume inv: "server_inv st"
  show ?thesis
  proof (cases "list_ex (in_scope_named i name) (st_clients st)")
    case False
    then have "filter (\<lambda>c. \<not> in_scope_named i name c) (st_clients st) = st_clients st"
      by (auto simp: list_ex_iff intro: filter_True)
    with Inr inv show ?thesis by (simp add: admin_delete_client_def Let_def)
  next
    case True
    have kept: "filter (\<lambda>c. \<not> in_scope_named i name c) (st_clients st)
        = filter (\<lambda>c. cl_name c \<noteq> name) (st_clients st)"
      using inv True by (intro filter_in_scope) (simp_all add: server_inv_def)
    let ?keys = "filter (\<lambda>(_, n, _). n \<noteq> name) (st_client_keys st)"
    have "keys_inv ?keys (st_clients st)"
      using inv by (auto simp: server_inv_def intro: keys_inv_filter)
    then have keys: "keys_inv ?keys (filter (\<lambda>c. cl_name c \<noteq> name) (st_clients st))"
      by (fastforce simp: keys_inv_def key_owner_def)
    have "shown_budget (filter (\<lambda>c. cl_name c \<noteq> name) (st_clients st))
        = (shown_budget (st_clients st))(name := None)"
      by (auto simp: shown_budget_def find_client_filter fun_eq_iff)
    with inv keys have "server_inv (st\<lparr>st_clients := filter (\<lambda>c. cl_name c \<noteq> name) (st_clients st),
        st_client_keys := ?keys, st_router := remove_client name (st_router st)\<rparr>)"
      by (auto simp: server_inv_def enforced_remove distinct_map_filter)
    with Inr inv show ?thesis by (simp add: admin_delete_client_def Let_def kept)
  qed
qed

text \<open>An update of the client of a name, on the list and on the keys.\<close>

abbreviation update_named :: "string \<Rightarrow> (client_config \<Rightarrow> client_config) \<Rightarrow> client_config list \<Rightarrow> client_config list" where
  "update_named name f cs \<equiv> map (\<lambda>x. if cl_name x = name then f x else x) cs"

lemma keys_inv_others:
  assumes "keys_inv keys cs" and "name \<notin> key_owner ` set keys"
  shows "keys_inv keys (update_named name f cs)"
  using assms by (fastforce simp: keys_inv_def)

lemma update_client_simps [simp]:
  "cl_name (update_client req c) = cl_name c"
  "cl_organization (update_client req c) = cl_organization c"
  "cl_requests_per_minute (update_client req c)
     = unwrap_or (cl_requests_per_minute c) (uq_requests_per_minute req)"
  "cl_role (update_client req c) = cl_role c"
  by (simp_all add: update_client_def)

lemma update_keys_inv:
  assumes inv: "keys_inv keys cs" and c: "c \<in> set cs" "cl_name c = name"
    and f: "cl_name (f c) = name" "cl_requests_per_minute (f c) = rpm"
    and up: "update_keys random rot name rpm keys = (new_key, keys')"
  shows "keys_inv keys' (update_named name f cs)"
proof -
  have d: "distinct (map fst keys)" "distinct (map key_owner keys)" using inv by (simp_all add: keys_inv_def)
  have fc: "f c \<in> set (update_named name f cs)" using c by force
  show ?thesis
  proof (cases "List.find (\<lambda>(_, n, _). n = name) keys")
    case None
    then have fresh: "name \<notin> key_owner ` set keys" by (auto simp: find_None key_owner_def)
    with inv have keys: "keys_inv keys (update_named name f cs)" by (rule keys_inv_others)
    show ?thesis
    proof (cases rot)
      case True
      with up None have "keys' = AList.update (generate_api_key random) (name, rpm) keys"
        by (auto simp: update_keys_def Let_def)
      with alist_update_keys_inv [OF keys fresh] fc f show ?thesis by blast
    next
      case False
      with up None keys show ?thesis by (simp add: update_keys_def)
    qed
  next
    case (Some e)
    then obtain old r where e: "e = (old, name, r)" "(old, name, r) \<in> set keys"
      using find_Some [OF Some] by (cases e) auto
    have only: "key_owner x = name \<Longrightarrow> x = (old, name, r)" if "x \<in> set keys" for x
      using d(2) e(2) that by (auto simp: distinct_map inj_on_def key_owner_def)
    have fst_only: "fst x = old \<Longrightarrow> x = (old, name, r)" if "x \<in> set keys" for x
      using d(1) e(2) that by (auto simp: distinct_map inj_on_def)
    show ?thesis
    proof (cases rot)
      case True
      let ?kept = "filter (\<lambda>x. fst x \<noteq> old) keys"
      have "keys_inv ?kept cs" using inv by (rule keys_inv_filter)
      moreover have fresh: "name \<notin> key_owner ` set ?kept" using only by auto
      ultimately have kept: "keys_inv ?kept (update_named name f cs)" by (rule keys_inv_others)
      have "AList.delete old keys = ?kept" by (auto simp: AList.delete_eq intro!: filter_cong)
      with up True Some e have "keys' = AList.update (generate_api_key random) (name, rpm) ?kept"
        by (auto simp: update_keys_def Let_def)
      with alist_update_keys_inv [OF kept fresh] fc f show ?thesis by blast
    next
      case False
      have "map_of keys old = Some (name, r)" using d(1) e(2) by simp
      with up False Some e d(1)
      have keys': "keys' = map (\<lambda>x. if fst x = old then (old, name, rpm) else x) keys"
        by (force simp: update_keys_def alist_update_list)
      have owners: "map key_owner keys' = map key_owner keys" "map fst keys' = map fst keys"
        using fst_only by (auto simp: keys' key_owner_def)
      have "\<exists>d\<in>set (update_named name f cs). cl_name d = key_owner x \<and> cl_requests_per_minute d = snd (snd x)"
        if x: "x \<in> set keys'" for x
      proof (cases "fst x = old")
        case True
        then have "x = (old, name, rpm)" using x by (auto simp: keys' split: if_splits)
        with fc f show ?thesis by (auto simp: key_owner_def)
      next
        case False
        then have "x \<in> set keys" using x by (auto simp: keys' split: if_splits)
        moreover from this False have "key_owner x \<noteq> name" using only [of x] by (metis fst_conv)
        ultimately show ?thesis using inv by (fastforce simp: keys_inv_def)
      qed
      with owners d show ?thesis by (simp add: keys_inv_def)
    qed
  qed
qed

lemma update_effect:
  obtains (same) "snd (admin_update_client parse random auth name body st) = st"
    | (changed) i req client new_key keys' where
        "check_admin_auth st auth = Inr i"
        "(if body = [] then Inr default_update else parse body) = Inr req"
        "List.find (in_scope_named i name) (st_clients st) = Some client"
        "update_keys random (uq_rotate_api_key req) name (cl_requests_per_minute (update_client req client))
           (st_client_keys st) = (new_key, keys')"
        "snd (admin_update_client parse random auth name body st)
         = st\<lparr>st_clients := update_first (in_scope_named i name) (update_client req) (st_clients st),
              st_client_keys := keys',
              st_router := set_client_budget name
                (map_option (\<lambda>b. (b, cl_budget_period (update_client req client)))
                   (cl_budget_usd (update_client req client))) (st_router st)\<rparr>"
proof (cases "check_admin_auth st auth")
  case (Inl resp)
  then show ?thesis by (intro same) (simp add: admin_update_client_def)
next
  case i: (Inr i)
  show ?thesis
  proof (cases "if body = [] then Inr default_update else parse body")
    case (Inl e)
    with i show ?thesis by (intro same) (simp add: admin_update_client_def)
  next
    case req: (Inr req)
    let ?bad = "uq_requests_per_minute req = Some 0 \<or>
      (case uq_budget_usd req of Some (Some b) \<Rightarrow> b < 0 | _ \<Rightarrow> False)"
    show ?thesis
    proof (cases "?bad \<or> List.find (in_scope_named i name) (st_clients st) = None")
      case True
      with i req show ?thesis by (intro same) (auto simp: admin_update_client_def)
    next
      case False
      then obtain client where client: "List.find (in_scope_named i name) (st_clients st) = Some client"
        by blast
      obtain new_key keys' where keys: "update_keys random (uq_rotate_api_key req) name
          (cl_requests_per_minute (update_client req client)) (st_client_keys st) = (new_key, keys')"
        by fastforce
      from False i req client keys show ?thesis
        by (intro changed [OF i req client keys]) (simp add: admin_update_client_def Let_def)
    qed
  qed
qed

lemma update_inv: "server_inv st \<Longrightarrow> server_inv (snd (admin_update_client parse random auth name body st))"
proof -
  assume inv: "server_inv st"
  then have d: "distinct (map cl_name (st_clients st))" and keys: "keys_inv (st_client_keys st) (st_clients st)"
    by (simp_all add: server_inv_def)
  show ?thesis
  proof (rule update_effect [of parse random auth name body st])
    assume "snd (admin_update_client parse random auth name body st) = st"
    with inv show ?thesis by simp
  next
    fix i req client new_key keys'
    assume changed: "List.find (in_scope_named i name) (st_clients st) = Some client"
      "update_keys random (uq_rotate_api_key req) name (cl_requests_per_minute (update_client req client))
         (st_client_keys st) = (new_key, keys')"
      "snd (admin_update_client parse random auth name body st)
       = st\<lparr>st_clients := update_first (in_scope_named i name) (update_client req) (st_clients st),
            st_client_keys := keys',
            st_router := set_client_budget name
              (map_option (\<lambda>b. (b, cl_budget_period (update_client req client)))
                 (cl_budget_usd (update_client req client))) (st_router st)\<rparr>"
    let ?f = "update_client req"
    have client: "client \<in> set (st_clients st)" "cl_name client = name"
      using find_Some [OF changed(1)] by (simp_all add: in_scope_named_def)
    have up: "update_first (in_scope_named i name) ?f (st_clients st) = update_named name ?f (st_clients st)"
      using d changed(1) by (rule update_first_map)
    have "map cl_name (update_named name ?f (st_clients st)) = map cl_name (st_clients st)" by simp
    then have names: "distinct (map cl_name (update_named name ?f (st_clients st)))" using d by argo
    have "keys_inv keys' (update_named name ?f (st_clients st))"
      using client by (intro update_keys_inv [OF keys client _ _ changed(2)]) simp_all
    moreover have "find_client name (st_clients st) = Some client"
      using d client by (rule find_client_distinct)
    then have "shown_budget (update_named name ?f (st_clients st))
        = (shown_budget (st_clients st))(name := map_option (\<lambda>b. (b, cl_budget_period (?f client)))
             (cl_budget_usd (?f client)))"
      by (auto simp: shown_budget_def find_client_map fun_eq_iff)
    ultimately show ?thesis
      using inv names by (simp add: changed(3) up server_inv_def enforced_set_budget del: map_map)
  qed
qed

section \<open>The start\<close>

text \<open>The start: at most one key per client, when the names differ.\<close>

definition startup_key :: "(string \<rightharpoonup> string) \<Rightarrow> (string \<times> string \<times> u32) list \<Rightarrow> client_config
    \<Rightarrow> (string \<times> string \<times> u32) list" where
  "startup_key env keys c =
     (case env (cl_api_key_env c) of
        Some k \<Rightarrow> if k \<noteq> [] then AList.update k (cl_name c, cl_requests_per_minute c) keys else keys
      | None \<Rightarrow> keys)"

lemma startup_keys_step: "startup_keys env (cs @ [c]) = startup_key env (startup_keys env cs) c"
  by (simp only: startup_keys_def foldl_append foldl.simps startup_key_def)

lemma startup_keys_inv:
  assumes "distinct (map cl_name cs)"
  shows "keys_inv (startup_keys env cs) cs"
  using assms
proof (induction cs rule: rev_induct)
  case Nil then show ?case by (simp add: startup_keys_def keys_inv_def)
next
  case (snoc c cs)
  let ?keys = "startup_keys env cs"
  have IH: "keys_inv ?keys cs" using snoc by auto
  have keys: "keys_inv ?keys (cs @ [c])" using IH by (rule keys_inv_mono) auto
  have owner: "cl_name c \<notin> key_owner ` set ?keys"
    using keys_inv_owners [OF IH] snoc.prems by auto
  have "keys_inv (AList.update k (cl_name c, cl_requests_per_minute c) ?keys) (cs @ [c])" for k
    using owner by (intro alist_update_keys_inv [OF keys]) auto
  with keys show ?case
    by (simp add: startup_keys_step startup_key_def split: option.split)
qed

lemma settings_from_clients_find:
  assumes "distinct (map cl_name cs)"
  shows "settings_from_clients cs name = Option.bind (find_client name cs)
    (\<lambda>c. map_option (\<lambda>b. \<lparr>bs_budget_usd = b, bs_period = cl_budget_period c,
                           bs_warning_threshold = cl_budget_warning_threshold c\<rparr>) (cl_budget_usd c))"
  using assms
proof (induction cs rule: rev_induct)
  case Nil
  then show ?case by (simp add: settings_from_clients_def find_client_def List.map_filter_simps)
next
  case (snoc c cs)
  have "find_client (cl_name c) cs = None" using snoc.prems by (intro find_client_notin) simp
  moreover have "find_client name [c] = (if name = cl_name c then Some c else None)"
    by (simp add: find_client_def)
  ultimately show ?case
    using snoc
    by (auto simp: settings_from_clients_def find_client_append List.map_filter_def
        split: option.split)
qed

lemma server_start_inv:
  assumes "distinct (map cl_name (cf_clients config))"
  shows "server_inv (server_start lib env config (from_config renv regex open_db config))"
proof (rule server_invI)
  have "ro_client_budgets (from_config renv regex open_db config) = settings_from_clients (cf_clients config)"
    by (simp add: from_config_def Let_def split: prod.split)
  then show "enforced_budget (st_router (server_start lib env config (from_config renv regex open_db config)))
      = shown_budget (st_clients (server_start lib env config (from_config renv regex open_db config)))"
    using settings_from_clients_find [OF assms]
    by (auto simp: server_start_def enforced_budget_def shown_budget_def fun_eq_iff option.map_comp
        comp_def split: option.split bind_split)
qed (use assms startup_keys_inv [OF assms, of env] in \<open>simp_all add: server_start_def\<close>)

end
