(* ===== verification/Server_Chat.thy ===== *)
theory Server_Chat
  imports Server_Auth Entry Client_Spend Auto_Routing
begin

text \<open>
  The request handlers (\<open>crates/server/src/routes.rs\<close>, \<open>dashboard\<close> to \<open>metrics\<close> and \<open>chat_completions\<close>
  to \<open>apply_decision_headers\<close>): who asks, at which rate, and then the policy stages, the client's
  budget and the dispatch. A streamed answer is billed while the caller consumes its events. Tasks
  spawned by the billing are returned in order.
\<close>

section \<open>Handlers and the world\<close>

text \<open>
  What the handlers call outside: the runtime, the JWT library, the regular expressions of the
  guardrails, the web search and the moderation service when they are configured, and the check of
  a header's value by \<open>HeaderValue::from_str\<close>.
\<close>

record ('k, 'w) world_ops =
  wo_rt :: "'w rt"
  wo_jwt :: "('k, 'w) jwt_lib"
  wo_regex :: regex_engine
  wo_web_search :: "(string \<Rightarrow> 'w \<Rightarrow> brave_result list option http_reply \<times> 'w) option"
  wo_moderation :: "(string \<Rightarrow> 'w \<Rightarrow> moderation_result list http_reply \<times> 'w) option"
  wo_header_ok :: "string \<Rightarrow> bool"

datatype 'a reply_body =
    Failed error_body
  | Answered 'a

definition failed :: "error_body server_reply \<Rightarrow> 'a reply_body server_reply" where
  "failed resp = \<lparr>sr_status = sr_status resp, sr_headers = sr_headers resp, sr_body = Failed (sr_body resp)\<rparr>"

definition answered :: "'a \<Rightarrow> 'a reply_body server_reply" where
  "answered body = \<lparr>sr_status = 200, sr_headers = [], sr_body = Answered body\<rparr>"

text \<open>What a handler leaves: its reply, the tasks it spawned, the state and the world.\<close>

type_synonym ('a, 'k, 'w) handled =
  "'a reply_body server_reply \<times> spend_task list \<times> 'k app_state \<times> 'w"

abbreviation with_router :: "(router \<Rightarrow> router) \<Rightarrow> 'k app_state \<Rightarrow> 'k app_state" where
  "with_router f st \<equiv> st\<lparr>st_router := f (st_router st)\<rparr>"

section \<open>Reports\<close>

definition health :: string where
  "health = ''ok''"

text \<open>\<open>ready\<close>: the status of the reply.\<close>

definition ready :: "'k app_state \<Rightarrow> nat" where
  "ready st = (if check_readiness (st_router st) then 200 else 503)"

text \<open>A handler behind \<open>check_auth\<close>.\<close>

definition authenticated :: "('k, 'w) world_ops \<Rightarrow> string option
    \<Rightarrow> ('k app_state \<Rightarrow> 'w \<Rightarrow> ('a, 'k, 'w) handled) \<Rightarrow> 'k app_state \<Rightarrow> 'w \<Rightarrow> ('a, 'k, 'w) handled" where
  "authenticated ops authorization handler st w =
     (case check_auth (wo_jwt ops) authorization st w of
        (Some resp, st', w') \<Rightarrow> (failed resp, [], st', w')
      | (None, st', w') \<Rightarrow> handler st' w')"

text \<open>The entries of \<open>HashMap\<close>s are listed in no order: a list of models is their set.\<close>

definition named_model :: "string \<Rightarrow> string \<Rightarrow> model_info" where
  "named_model i owner =
     \<lparr>mi_id = i, mi_owned_by = owner, mi_context_length = None, mi_pricing = None,
      mi_supported_params = None\<rparr>"

definition models_of :: "router \<Rightarrow> model_info set" where
  "models_of r =
     (\<lambda>alias. named_model alias ''router-alias'') ` dom (ro_routes r)
     \<union> (\<lambda>p. named_model (p @ ''/*'') p) ` dom (ro_providers r)
     \<union> priced_models r"

definition list_models :: "('k, 'w) world_ops \<Rightarrow> string option \<Rightarrow> 'k app_state \<Rightarrow> 'w
    \<Rightarrow> (model_info set, 'k, 'w) handled" where
  "list_models ops authorization =
     authenticated ops authorization (\<lambda>st w. (answered (models_of (st_router st)), [], st, w))"

definition usage_stats_report :: "('k, 'w) world_ops \<Rightarrow> string option \<Rightarrow> 'k app_state \<Rightarrow> 'w
    \<Rightarrow> (string \<rightharpoonup> usage_stats, 'k, 'w) handled" where
  "usage_stats_report ops authorization =
     authenticated ops authorization (\<lambda>st w. (answered (usage_snapshot (st_router st)), [], st, w))"

definition free_tiers :: "('k, 'w) world_ops \<Rightarrow> string option \<Rightarrow> 'k app_state \<Rightarrow> 'w
    \<Rightarrow> (string \<rightharpoonup> free_tier_status, 'k, 'w) handled" where
  "free_tiers ops authorization =
     authenticated ops authorization
       (\<lambda>st w. case free_tier_status (rt_unix (wo_rt ops) w) (st_router st) of
          (status, r') \<Rightarrow> (answered status, [], st\<lparr>st_router := r'\<rparr>, w))"

definition provider_stats_report :: "('k, 'w) world_ops \<Rightarrow> string option \<Rightarrow> 'k app_state \<Rightarrow> 'w
    \<Rightarrow> (string \<rightharpoonup> provider_stats, 'k, 'w) handled" where
  "provider_stats_report ops authorization =
     authenticated ops authorization (\<lambda>st w. (answered (provider_stats_of (st_router st)), [], st, w))"

definition generation_report :: "('k, 'w) world_ops \<Rightarrow> string option \<Rightarrow> string \<Rightarrow> 'k app_state \<Rightarrow> 'w
    \<Rightarrow> (generation_record, 'k, 'w) handled" where
  "generation_report ops authorization i =
     authenticated ops authorization
       (\<lambda>st w. (case generation i (st_router st) of
                  Some rec \<Rightarrow> answered rec
                | None \<Rightarrow> failed (json_error 404 ''no generation found for that id''), [], st, w))"

text \<open>The metrics, before \<open>prometheus\<close> prints them.\<close>

definition metrics_report :: "('k, 'w) world_ops \<Rightarrow> string option \<Rightarrow> 'k app_state \<Rightarrow> 'w
    \<Rightarrow> (metrics, 'k, 'w) handled" where
  "metrics_report ops authorization =
     authenticated ops authorization
       (\<lambda>st w. (\<lparr>sr_status = 200, sr_headers = [(''content-type'', ''text/plain; version=0.0.4'')],
                 sr_body = Answered (ro_metrics (st_router st))\<rparr>, [], st, w))"

section \<open>Billing a client\<close>

text \<open>The usage and the cost of an answer or a chunk, recorded for the client of the request.\<close>

definition charge_client :: "i64 \<Rightarrow> string option \<Rightarrow> usage option \<Rightarrow> f64 option \<Rightarrow> router
    \<Rightarrow> spend_task list \<times> router" where
  "charge_client now client_name u cost r =
     (case client_name of
        None \<Rightarrow> ([], r)
      | Some name \<Rightarrow>
          (let r1 = (case u of None \<Rightarrow> r | Some u \<Rightarrow> record_client_daily_usage now name u cost r)
           in case cost of
                None \<Rightarrow> ([], r1)
              | Some c \<Rightarrow>
                  (case record_client_spend now name c r1 of
                     (task, r2) \<Rightarrow> ((case task of None \<Rightarrow> [] | Some t \<Rightarrow> [t]), r2))))"

datatype sse_event =
    ChunkEvent chat_chunk
  | ErrorEvent string
  | DoneEvent

text \<open>
  The events of a stream as the caller consumes them: each item with the times at which it is polled.
\<close>

definition stream_event :: "provider_error + chat_chunk \<Rightarrow> sse_event" where
  "stream_event item =
     (case item of Inr chunk \<Rightarrow> ChunkEvent chunk | Inl e \<Rightarrow> ErrorEvent (provider_error_text e))"

definition charge_item :: "i64 \<Rightarrow> string option \<Rightarrow> provider_error + chat_chunk \<Rightarrow> router
    \<Rightarrow> spend_task list \<times> router" where
  "charge_item now client_name item r =
     (case item of
        Inr chunk \<Rightarrow> charge_client now client_name (ck_usage chunk) (ck_cost_usd chunk) r
      | Inl e \<Rightarrow> ([], r))"

fun stream_events :: "string option \<Rightarrow> candidate \<Rightarrow> instant
    \<Rightarrow> (instant \<times> i64 \<times> (provider_error + chat_chunk)) list \<Rightarrow> router
    \<Rightarrow> sse_event list \<times> spend_task list \<times> router" where
  "stream_events client_name c started_at [] r = ([DoneEvent], [], r)"
| "stream_events client_name c started_at ((now, unix, item) # items) r =
     (case instrument_item c started_at now unix item r of (item', r1) \<Rightarrow>
        (case charge_item unix client_name item' r1 of (tasks, r2) \<Rightarrow>
           (case stream_events client_name c started_at items r2 of (events, tasks', r3) \<Rightarrow>
              (stream_event item' # events, tasks @ tasks', r3))))"

section \<open>Chat completions\<close>

text \<open>The body of an answer: one message, or the stream and the client it is billed to.\<close>

datatype chat_body =
    Completion chat_response
  | Events instrumented_stream "string option"

definition insert_header :: "(string \<Rightarrow> bool) \<Rightarrow> string \<Rightarrow> string \<Rightarrow> 'b server_reply \<Rightarrow> 'b server_reply" where
  "insert_header ok name value resp =
     (if ok value then resp\<lparr>sr_headers := AList.update name value (sr_headers resp)\<rparr> else resp)"

definition apply_decision_headers :: "(string \<Rightarrow> bool) \<Rightarrow> dispatch_trace \<Rightarrow> 'b server_reply \<Rightarrow> 'b server_reply" where
  "apply_decision_headers ok trace resp =
     (let decision = ''strategy='' @ dt_strategy trace @ ''; provider='' @ dt_provider trace
                       @ ''; model='' @ dt_model trace
                       @ ''; latency_ms='' @ show_nat (unat (dt_latency_ms trace))
      in insert_header ok ''x-rp-fallback-attempts'' (show_nat (unat (dt_fallback_attempts trace)))
           (insert_header ok ''x-rp-decision'' decision resp))"

definition budget_of :: "i64 \<Rightarrow> string option \<Rightarrow> router
    \<Rightarrow> (string \<times> client_budget_exceeded) option \<times> router" where
  "budget_of now client_name r =
     (case client_name of
        None \<Rightarrow> (None, r)
      | Some name \<Rightarrow>
          (case check_client_budget now name r of
             (Inl exceeded, r') \<Rightarrow> (Some (name, exceeded), r')
           | (Inr _, r') \<Rightarrow> (None, r')))"

text \<open>What follows the policy stages and the budget.\<close>

definition dispatch_chat :: "('k, 'w) world_ops \<Rightarrow> string option \<Rightarrow> chat_request \<Rightarrow> 'k app_state \<Rightarrow> 'w
    \<Rightarrow> (chat_body, 'k, 'w) handled" where
  "dispatch_chat ops client_name req st w =
     (if is_streaming req then
        (case dispatch_stream_traced (wo_rt ops) req (st_router st) w of
           (Inr (stream, trace), r', w') \<Rightarrow>
             (apply_decision_headers (wo_header_ok ops) trace
                (answered (Events stream client_name)), [], st\<lparr>st_router := r'\<rparr>, w')
         | (Inl e, r', w') \<Rightarrow>
             (failed (router_error_response e), [], st\<lparr>st_router := r'\<rparr>, w'))
      else
        (case dispatch_traced (wo_rt ops) req (st_router st) w of
           (Inr (resp, trace), r', w') \<Rightarrow>
             (case charge_client (rt_unix (wo_rt ops) w') client_name (rs_usage resp)
                     (rs_cost_usd resp) r' of
                (tasks, r'') \<Rightarrow>
                  (apply_decision_headers (wo_header_ok ops) trace (answered (Completion resp)),
                   tasks, st\<lparr>st_router := r''\<rparr>, w'))
         | (Inl e, r', w') \<Rightarrow>
             (failed (router_error_response e), [], st\<lparr>st_router := r'\<rparr>, w')))"

definition chat_completions_dispatch :: "('k, 'w) world_ops \<Rightarrow> string option \<Rightarrow> chat_request
    \<Rightarrow> 'k app_state \<Rightarrow> 'w \<Rightarrow> (chat_body, 'k, 'w) handled" where
  "chat_completions_dispatch ops client_name req st w =
     (if cr_messages req = []
      then (failed (json_error 400 (quoted ''messages'' @ '' must not be empty'')), [], st, w)
      else case apply_preset (ro_presets (st_router st)) req of
        Inl e \<Rightarrow> (failed (router_error_response e), [], st, w)
      | Inr req1 \<Rightarrow>
          (case apply_web_search (wo_web_search ops) req1 (ro_metrics (st_router st)) w of
             (req2, mt1, w1) \<Rightarrow>
               (let st1 = with_router (\<lambda>r. r\<lparr>ro_metrics := mt1\<rparr>) st in
                case apply_guardrails (wo_regex ops) (ro_guardrails (st_router st1)) req2 of
                  Inl e \<Rightarrow> (failed (router_error_response e), [], st1, w1)
                | Inr req3 \<Rightarrow>
                    (case apply_moderation (wo_moderation ops) req3 (ro_metrics (st_router st1)) w1 of
                       (ruling, mt2, w2) \<Rightarrow>
                         (let st2 = with_router (\<lambda>r. r\<lparr>ro_metrics := mt2\<rparr>) st1 in
                          case ruling of
                            Inl e \<Rightarrow> (failed (router_error_response e), [], st2, w2)
                          | Inr _ \<Rightarrow>
                              (case budget_of (rt_unix (wo_rt ops) w2) client_name (st_router st2) of
                                 (Some (name, exceeded), r3) \<Rightarrow>
                                   (case budget_exceeded_response name exceeded
                                           (st2\<lparr>st_router := r3\<rparr>) of
                                      (resp, st3) \<Rightarrow> (failed resp, [], st3, w2))
                               | (None, r3) \<Rightarrow>
                                   dispatch_chat ops client_name req3 (st2\<lparr>st_router := r3\<rparr>) w2))))))"

text \<open>The part that chat completions and embeddings share: authentication, client and rate limit.\<close>

definition rate_limited :: "('k, 'w) world_ops \<Rightarrow> string option \<Rightarrow> string
    \<Rightarrow> (string option \<Rightarrow> 'k app_state \<Rightarrow> 'w \<Rightarrow> ('a, 'k, 'w) handled)
    \<Rightarrow> 'k app_state \<Rightarrow> 'w \<Rightarrow> ('a, 'k, 'w) handled" where
  "rate_limited ops authorization ip handler =
     authenticated ops authorization
       (\<lambda>st1 w1. case resolve_client_identity (wo_jwt ops) authorization st1 w1 of
          (client_name, st2, w2) \<Rightarrow>
            (case resolve_rate_limit st2 client_name ip of
               None \<Rightarrow> handler client_name st2 w2
             | Some (identity, rpm) \<Rightarrow>
                 (case check identity rpm (rt_instant (wo_rt ops) w2) (st_rate_limiter st2) of
                    (Inl status, limiter) \<Rightarrow>
                      (case rate_limited_response identity status (st2\<lparr>st_rate_limiter := limiter\<rparr>) of
                         (resp, st3) \<Rightarrow> (failed resp, [], st3, w2))
                  | (Inr status, limiter) \<Rightarrow>
                      (case handler client_name (st2\<lparr>st_rate_limiter := limiter\<rparr>) w2 of
                         (resp, rest) \<Rightarrow> (apply_rate_limit_headers status resp, rest)))))"

definition chat_completions :: "('k, 'w) world_ops \<Rightarrow> string option \<Rightarrow> string \<Rightarrow> chat_request
    \<Rightarrow> 'k app_state \<Rightarrow> 'w \<Rightarrow> (chat_body, 'k, 'w) handled" where
  "chat_completions ops authorization ip req =
     rate_limited ops authorization ip (\<lambda>client_name. chat_completions_dispatch ops client_name req)"

definition serve_embeddings :: "('k, 'w) world_ops \<Rightarrow> string option \<Rightarrow> string \<Rightarrow> embeddings_request
    \<Rightarrow> 'k app_state \<Rightarrow> 'w \<Rightarrow> (embeddings_response, 'k, 'w) handled" where
  "serve_embeddings ops authorization ip req =
     rate_limited ops authorization ip
       (\<lambda>client_name st w. case embeddings (wo_rt ops) req (st_router st) w of
          (Inr resp, r', w') \<Rightarrow> (answered resp, [], st\<lparr>st_router := r'\<rparr>, w')
        | (Inl e, r', w') \<Rightarrow> (failed (router_error_response e), [], st\<lparr>st_router := r'\<rparr>, w'))"

end
