(* ===== verification/Server_Chat_Facts.thy ===== *)
theory Server_Chat_Facts
  imports Server_Chat Router_Runs
begin

text \<open>
  What the request handlers do to the state: a run of router operations, nothing to keys and clients
  (locale \<open>request_handler\<close>). And who is let through.
\<close>

section \<open>Runs of the router\<close>

definition provisioned :: "'k app_state \<Rightarrow>
    string option \<times> (string \<times> string \<times> u32) list \<times> u32 option \<times> client_config list \<times> string option \<times> nat option" where
  "provisioned st =
     (st_api_key st, st_client_keys st, st_default_rate_limit_rpm st, st_clients st, st_admin_key st,
      st_permits st)"

lemma provisioned_updates [simp]:
  "provisioned (st\<lparr>st_router := r\<rparr>) = provisioned st"
  "provisioned (st\<lparr>st_rate_limiter := limiter\<rparr>) = provisioned st"
  "provisioned (st\<lparr>st_jwt := jwt\<rparr>) = provisioned st"
  by (simp_all add: provisioned_def)

definition serves :: "'w rt \<Rightarrow> 'k app_state \<times> 'w \<Rightarrow> 'k app_state \<times> 'w \<Rightarrow> bool" where
  "serves rt s s' \<longleftrightarrow>
     (router_step rt)\<^sup>*\<^sup>* (st_router (fst s), snd s) (st_router (fst s'), snd s')
     \<and> ro_client_budgets (st_router (fst s')) = ro_client_budgets (st_router (fst s))
     \<and> provisioned (fst s') = provisioned (fst s)"

lemma serves_refl: "serves rt s s"
  by (simp add: serves_def)

lemma serves_trans: "serves rt s s1 \<Longrightarrow> serves rt s1 s2 \<Longrightarrow> serves rt s s2"
  by (auto simp: serves_def intro: rtranclp_trans)

lemma serves_router:
  assumes "router_step rt (st_router st, w) (r', w')"
    and "ro_client_budgets r' = ro_client_budgets (st_router st)"
  shows "serves rt (st, w) (st\<lparr>st_router := r'\<rparr>, w')"
  using assms by (auto simp: serves_def)

lemma serves_limiter: "serves rt (st, w) (st\<lparr>st_rate_limiter := limiter\<rparr>, w')"
  by (auto simp: serves_def router_step.elapse)

lemma serves_jwt: "\<exists>jwt. st' = st\<lparr>st_jwt := jwt\<rparr> \<Longrightarrow> serves rt (st, w) (st', w')"
  by (auto simp: serves_def router_step.elapse)

lemma verify_token_aside:
  "verify_token lib token st w = (claims, st', w') \<Longrightarrow> \<exists>jwt. st' = st\<lparr>st_jwt := jwt\<rparr>"
  by (auto simp: verify_token_def split: option.splits prod.splits intro: exI [of _ "st_jwt st"])

lemma check_auth_aside:
  "check_auth lib authorization st w = (ruling, st', w') \<Longrightarrow> \<exists>jwt. st' = st\<lparr>st_jwt := jwt\<rparr>"
  by (auto simp: check_auth_def split: option.splits prod.splits if_splits dest: verify_token_aside
      intro: exI [of _ "st_jwt st"])

lemma resolve_client_aside:
  "resolve_client_identity lib authorization st w = (client, st', w') \<Longrightarrow> \<exists>jwt. st' = st\<lparr>st_jwt := jwt\<rparr>"
  by (auto simp: resolve_client_identity_def split: option.splits prod.splits dest: verify_token_aside
      intro: exI [of _ "st_jwt st"])

section \<open>The contract of a handler\<close>

locale request_handler =
  fixes ops :: "('k, 'w) world_ops"
    and handle :: "string option \<Rightarrow> 'k app_state \<Rightarrow> 'w \<Rightarrow> ('a, 'k, 'w) handled"
  assumes runs: "handle client st w = (resp, tasks, st', w') \<Longrightarrow> serves (wo_rt ops) (st, w) (st', w')"
begin

lemma authenticated_runs:
  assumes "authenticated ops authorization (handle client) st w = (resp, tasks, st', w')"
  shows "serves (wo_rt ops) (st, w) (st', w')"
proof -
  obtain ruling st1 w1 where auth: "check_auth (wo_jwt ops) authorization st w = (ruling, st1, w1)"
    by (rule prod_cases3)
  have one: "serves (wo_rt ops) (st, w) (st1, w1)"
    by (rule serves_jwt [OF check_auth_aside [OF auth]])
  show ?thesis
  proof (cases ruling)
    case None
    with assms auth have "handle client st1 w1 = (resp, tasks, st', w')" by (simp add: authenticated_def)
    with serves_trans [OF one runs] show ?thesis .
  next
    case (Some r)
    with assms auth one show ?thesis by (simp add: authenticated_def)
  qed
qed

lemma limited_reply_runs:
  assumes "rate_limited_response who status st = (resp, st')"
  shows "serves (wo_rt ops) (st, w) (st', w)"
  using assms serves_router [OF router_step.limited [of "wo_rt ops" "st_router st" w who]]
  by (auto simp: rate_limited_response_def Let_def)

lemma rate_limited_runs:
  assumes "rate_limited ops authorization ip handle st w = (resp, tasks, st', w')"
  shows "serves (wo_rt ops) (st, w) (st', w')"
proof -
  obtain ruling st1 w1 where auth: "check_auth (wo_jwt ops) authorization st w = (ruling, st1, w1)"
    by (rule prod_cases3)
  obtain client st2 w2 where who: "resolve_client_identity (wo_jwt ops) authorization st1 w1 = (client, st2, w2)"
    by (rule prod_cases3)
  have one: "serves (wo_rt ops) (st, w) (st1, w1)" by (rule serves_jwt [OF check_auth_aside [OF auth]])
  have two: "serves (wo_rt ops) (st, w) (st2, w2)"
    by (rule serves_trans [OF one serves_jwt [OF resolve_client_aside [OF who]]])
  show ?thesis
  proof (cases ruling)
    case (Some r)
    with assms auth one show ?thesis by (simp add: rate_limited_def authenticated_def)
  next
    case passed: None
    show ?thesis
    proof (cases "resolve_rate_limit st2 client ip")
      case None
      with assms auth who passed have "handle client st2 w2 = (resp, tasks, st', w')"
        by (simp add: rate_limited_def authenticated_def)
      with serves_trans [OF two runs] show ?thesis .
    next
      case (Some limit)
      obtain i rpm where limit: "limit = (i, rpm)" by (cases limit)
      obtain res limiter where check: "check i rpm (rt_instant (wo_rt ops) w2) (st_rate_limiter st2)
          = (res, limiter)" by fastforce
      let ?st = "st2\<lparr>st_rate_limiter := limiter\<rparr>"
      have three: "serves (wo_rt ops) (st, w) (?st, w2)" by (rule serves_trans [OF two serves_limiter])
      show ?thesis
      proof (cases res)
        case (Inl status)
        obtain r3 st3 where over: "rate_limited_response i status ?st = (r3, st3)" by fastforce
        with assms auth who passed Some limit check Inl have "st' = st3 \<and> w' = w2"
          by (simp add: rate_limited_def authenticated_def)
        with serves_trans [OF three limited_reply_runs [OF over]] show ?thesis by simp
      next
        case (Inr status)
        obtain r3 tasks3 st3 w3 where run: "handle client ?st w2 = (r3, tasks3, st3, w3)"
          by (rule prod_cases4)
        with assms auth who passed Some limit check Inr have "st' = st3 \<and> w' = w3"
          by (simp add: rate_limited_def authenticated_def)
        with serves_trans [OF three runs [OF run]] show ?thesis by simp
      qed
    qed
  qed
qed

end

section \<open>The handlers meet it\<close>

lemma dispatch_traced_budgets:
  "dispatch_traced rt req r w = (res, r', w') \<Longrightarrow> ro_client_budgets r' = ro_client_budgets r"
  using settledD(1) [OF settled_dispatch_traced] .

lemma fixed_budgets: "fixed r' = fixed r \<Longrightarrow> ro_client_budgets r' = ro_client_budgets r"
  using settledD(1) [OF settled_fixed] .

lemma record_spend_budgets:
  "record_client_spend now client cost r = (task, r') \<Longrightarrow> ro_client_budgets r' = ro_client_budgets r"
  by (auto simp: record_client_spend_def Let_def split: option.splits)

lemma check_budget_budgets:
  "check_client_budget now client r = (ok, r') \<Longrightarrow> ro_client_budgets r' = ro_client_budgets r"
  by (auto simp: check_client_budget_def dest: spent_usd_for_state split: option.splits prod.splits)

lemma charge_client_runs:
  assumes "charge_client now client u cost (st_router st) = (tasks, r')"
  shows "serves rt (st, w) (st\<lparr>st_router := r'\<rparr>, w)"
proof (cases client)
  case None
  with assms serves_refl [of rt "(st, w)"] show ?thesis by (auto simp: charge_client_def)
next
  case (Some name)
  define r1 where "r1 = (case u of None \<Rightarrow> st_router st
    | Some u \<Rightarrow> record_client_daily_usage now name u cost (st_router st))"
  have one: "serves rt (st, w) (st\<lparr>st_router := r1\<rparr>, w)"
    using serves_refl [of rt "(st, w)"]
      serves_router [OF router_step.daily [where rt = rt and r = "st_router st" and w = w]]
    by (auto simp: r1_def record_client_daily_usage_def split: option.split)
  show ?thesis
  proof (cases cost)
    case None
    with assms Some one show ?thesis by (auto simp: charge_client_def Let_def r1_def)
  next
    case (Some c)
    obtain task r2 where rec: "record_client_spend now name c r1 = (task, r2)" by fastforce
    with assms Some \<open>client = Some name\<close> have "r' = r2"
      by (auto simp: charge_client_def Let_def r1_def)
    moreover have "serves rt (st\<lparr>st_router := r1\<rparr>, w) (st\<lparr>st_router := r2\<rparr>, w)"
      using serves_router [of rt "st\<lparr>st_router := r1\<rparr>" w r2 w] router_step.spend [OF rec, of rt w]
        record_spend_budgets [OF rec] by simp
    ultimately show ?thesis using serves_trans [OF one] by simp
  qed
qed

lemma dispatch_chat_runs:
  assumes "dispatch_chat ops client req st w = (resp, tasks, st', w')"
  shows "serves (wo_rt ops) (st, w) (st', w')"
proof (cases "is_streaming req")
  case True
  obtain res r1 w1 where run: "dispatch_stream_traced (wo_rt ops) req (st_router st) w = (res, r1, w1)"
    by (rule prod_cases3)
  have "ro_client_budgets r1 = ro_client_budgets (st_router st)"
    using fixed_budgets [OF fixed_stream_uncached [of "wo_rt ops" req "st_router st" w]]
      stream_traced_state [of "wo_rt ops" req "st_router st" w] run by simp
  with serves_router [OF router_step.stream [OF run]]
  have "serves (wo_rt ops) (st, w) (st\<lparr>st_router := r1\<rparr>, w1)" .
  with assms True run show ?thesis by (auto simp: dispatch_chat_def split: sum.splits)
next
  case False
  obtain res r1 w1 where run: "dispatch_traced (wo_rt ops) req (st_router st) w = (res, r1, w1)"
    by (rule prod_cases3)
  have one: "serves (wo_rt ops) (st, w) (st\<lparr>st_router := r1\<rparr>, w1)"
    using serves_router [OF router_step.chat [OF run] dispatch_traced_budgets [OF run]] .
  show ?thesis
  proof (cases res)
    case (Inl e)
    with assms False run one show ?thesis by (simp add: dispatch_chat_def)
  next
    case (Inr rt)
    obtain answer trace where rt: "rt = (answer, trace)" by (cases rt)
    obtain ts r2 where charge: "charge_client (rt_unix (wo_rt ops) w1) client (rs_usage answer)
        (rs_cost_usd answer) r1 = (ts, r2)" by fastforce
    with assms False run Inr rt have "st' = st\<lparr>st_router := r2\<rparr>" "w' = w1"
      by (simp_all add: dispatch_chat_def)
    moreover have "serves (wo_rt ops) (st\<lparr>st_router := r1\<rparr>, w1) (st\<lparr>st_router := r2\<rparr>, w1)"
      using charge_client_runs [of _ client _ _ "st\<lparr>st_router := r1\<rparr>"] charge by simp
    ultimately show ?thesis using serves_trans [OF one] by simp
  qed
qed

text \<open>The stages before the dispatch, one after the other.\<close>

lemma serves_metrics:
  assumes "router_step rt (st_router st, w) ((st_router st)\<lparr>ro_metrics := mt\<rparr>, w')"
  shows "serves rt (st, w) (with_router (\<lambda>r. r\<lparr>ro_metrics := mt\<rparr>) st, w')"
  by (rule serves_router [OF assms]) simp

lemma serves_budget:
  assumes "budget_of now client (st_router st) = (ruling, r')"
  shows "serves rt (st, w) (st\<lparr>st_router := r'\<rparr>, w)"
proof (cases client)
  case None
  with assms serves_refl [of rt "(st, w)"] show ?thesis by (auto simp: budget_of_def)
next
  case (Some name)
  obtain ok r1 where check: "check_client_budget now name (st_router st) = (ok, r1)" by fastforce
  with assms Some have "r' = r1" by (auto simp: budget_of_def split: sum.splits)
  with serves_router [OF router_step.budget [OF check] check_budget_budgets [OF check]]
  show ?thesis by simp
qed

lemma serves_refused:
  assumes "budget_exceeded_response name exceeded st = (resp, st')"
  shows "serves rt (st, w) (st', w)"
  using assms serves_router [OF router_step.refused [of rt "st_router st" w name]]
  by (auto simp: budget_exceeded_response_def)

lemma chat_dispatch_runs:
  assumes "chat_completions_dispatch ops client req st w = (resp, tasks, st', w')"
  shows "serves (wo_rt ops) (st, w) (st', w')"
proof (cases "cr_messages req = [] \<or> (\<exists>e. apply_preset (ro_presets (st_router st)) req = Inl e)")
  case True
  with assms have "st' = st \<and> w' = w"
    by (elim disjE exE) (simp_all add: chat_completions_dispatch_def split: if_splits)
  then show ?thesis by (simp add: serves_refl)
next
  case False
  then obtain req1 where req1: "cr_messages req \<noteq> []" "apply_preset (ro_presets (st_router st)) req = Inr req1"
    by (metis sum.exhaust)
  obtain req2 mt1 w1 where web: "apply_web_search (wo_web_search ops) req1 (ro_metrics (st_router st)) w
      = (req2, mt1, w1)" by (rule prod_cases3)
  define st1 where "st1 = with_router (\<lambda>r. r\<lparr>ro_metrics := mt1\<rparr>) st"
  have one: "serves (wo_rt ops) (st, w) (st1, w1)"
    unfolding st1_def by (rule serves_metrics [OF router_step.search [OF web]])
  show ?thesis
  proof (cases "apply_guardrails (wo_regex ops) (ro_guardrails (st_router st1)) req2")
    case (Inl e)
    with assms req1 web one show ?thesis
      by (simp add: chat_completions_dispatch_def st1_def Let_def)
  next
    case guarded: (Inr req3)
    obtain ruling mt2 w2 where moderation:
      "apply_moderation (wo_moderation ops) req3 (ro_metrics (st_router st1)) w1 = (ruling, mt2, w2)"
      by (rule prod_cases3)
    define st2 where "st2 = with_router (\<lambda>r. r\<lparr>ro_metrics := mt2\<rparr>) st1"
    have two: "serves (wo_rt ops) (st, w) (st2, w2)"
      unfolding st2_def by (rule serves_trans [OF one serves_metrics [OF router_step.moderation [OF moderation]]])
    show ?thesis
    proof (cases ruling)
      case (Inl e)
      with assms req1 web guarded moderation two show ?thesis
        by (simp add: chat_completions_dispatch_def st1_def st2_def Let_def)
    next
      case passed: (Inr u)
      obtain over r3 where budget: "budget_of (rt_unix (wo_rt ops) w2) client (st_router st2) = (over, r3)"
        by fastforce
      have three: "serves (wo_rt ops) (st, w) (st2\<lparr>st_router := r3\<rparr>, w2)"
        by (rule serves_trans [OF two serves_budget [OF budget]])
      show ?thesis
      proof (cases over)
        case None
        with assms req1 web guarded moderation passed budget
        have "dispatch_chat ops client req3 (st2\<lparr>st_router := r3\<rparr>) w2 = (resp, tasks, st', w')"
          by (simp add: chat_completions_dispatch_def st1_def st2_def Let_def)
        with serves_trans [OF three dispatch_chat_runs] show ?thesis .
      next
        case (Some x)
        obtain name exceeded where x: "x = (name, exceeded)" by (cases x)
        obtain r4 st4 where refuse: "budget_exceeded_response name exceeded (st2\<lparr>st_router := r3\<rparr>) = (r4, st4)"
          by fastforce
        with assms req1 web guarded moderation passed budget Some x have "st' = st4 \<and> w' = w2"
          by (simp add: chat_completions_dispatch_def st1_def st2_def Let_def)
        with serves_trans [OF three serves_refused [OF refuse]] show ?thesis by simp
      qed
    qed
  qed
qed

lemma embeddings_runs:
  assumes "(case embeddings (wo_rt ops) req (st_router st) w of
      (Inr resp, r', w') \<Rightarrow> (answered resp, [], st\<lparr>st_router := r'\<rparr>, w')
    | (Inl e, r', w') \<Rightarrow> (failed (router_error_response e), [], st\<lparr>st_router := r'\<rparr>, w'))
    = (resp, tasks, st', w')"
  shows "serves (wo_rt ops) (st, w) (st', w')"
proof -
  obtain res r1 w1 where run: "embeddings (wo_rt ops) req (st_router st) w = (res, r1, w1)"
    by (rule prod_cases3)
  have "ro_client_budgets r1 = ro_client_budgets (st_router st)"
    using fixed_budgets [OF fixed_embeddings [of "wo_rt ops" req "st_router st" w]] run by simp
  with serves_router [OF router_step.embed [OF run]]
  have "serves (wo_rt ops) (st, w) (st\<lparr>st_router := r1\<rparr>, w1)" .
  with assms run show ?thesis by (auto split: sum.splits)
qed

interpretation chat_handler:
  request_handler ops "\<lambda>client. chat_completions_dispatch ops client req"
  by unfold_locales (rule chat_dispatch_runs)

interpretation embeddings_handler:
  request_handler ops "\<lambda>client st w. case embeddings (wo_rt ops) req (st_router st) w of
      (Inr resp, r', w') \<Rightarrow> (answered resp, [], st\<lparr>st_router := r'\<rparr>, w')
    | (Inl e, r', w') \<Rightarrow> (failed (router_error_response e), [], st\<lparr>st_router := r'\<rparr>, w')"
  by unfold_locales (rule embeddings_runs)

text \<open>A report reads the state.\<close>

interpretation report:
  request_handler ops "\<lambda>client st w. (f st, [], st, w)"
  by unfold_locales (simp add: serves_refl)

lemma tiers_runs:
  assumes "(case free_tier_status (rt_unix (wo_rt ops) w) (st_router st) of
      (status, r') \<Rightarrow> (answered status, [], st\<lparr>st_router := r'\<rparr>, w)) = (resp, tasks, st', w')"
  shows "serves (wo_rt ops) (st, w) (st', w')"
proof -
  obtain status r1 where run: "free_tier_status (rt_unix (wo_rt ops) w) (st_router st) = (status, r1)"
    by fastforce
  then have "ro_client_budgets r1 = ro_client_budgets (st_router st)"
    by (auto simp: free_tier_status_def split: prod.splits)
  with serves_router [OF router_step.tiers [OF run, of "wo_rt ops" w]]
  have "serves (wo_rt ops) (st, w) (st\<lparr>st_router := r1\<rparr>, w)" by simp
  with assms run show ?thesis by simp
qed

interpretation tiers_handler:
  request_handler ops "\<lambda>client st w. case free_tier_status (rt_unix (wo_rt ops) w) (st_router st) of
      (status, r') \<Rightarrow> (answered status, [], st\<lparr>st_router := r'\<rparr>, w)"
  by unfold_locales (rule tiers_runs)

lemma chat_completions_runs:
  "chat_completions ops authorization ip req st w = (resp, tasks, st', w') \<Longrightarrow>
     serves (wo_rt ops) (st, w) (st', w')"
  unfolding chat_completions_def by (rule chat_handler.rate_limited_runs)

lemma serve_embeddings_runs:
  "serve_embeddings ops authorization ip req st w = (resp, tasks, st', w') \<Longrightarrow>
     serves (wo_rt ops) (st, w) (st', w')"
  unfolding serve_embeddings_def by (rule embeddings_handler.rate_limited_runs)

lemma reports_run:
  "list_models ops authorization st w = (resp1, tasks, st', w') \<Longrightarrow> serves (wo_rt ops) (st, w) (st', w')"
  "usage_stats_report ops authorization st w = (resp2, tasks, st', w') \<Longrightarrow> serves (wo_rt ops) (st, w) (st', w')"
  "provider_stats_report ops authorization st w = (resp3, tasks, st', w') \<Longrightarrow> serves (wo_rt ops) (st, w) (st', w')"
  "generation_report ops authorization i st w = (resp4, tasks, st', w') \<Longrightarrow> serves (wo_rt ops) (st, w) (st', w')"
  "metrics_report ops authorization st w = (resp5, tasks, st', w') \<Longrightarrow> serves (wo_rt ops) (st, w) (st', w')"
  unfolding list_models_def usage_stats_report_def provider_stats_report_def generation_report_def
    metrics_report_def by (rule report.authenticated_runs; assumption)+

lemma free_tiers_runs:
  "free_tiers ops authorization st w = (resp, tasks, st', w') \<Longrightarrow> serves (wo_rt ops) (st, w) (st', w')"
  unfolding free_tiers_def by (rule tiers_handler.authenticated_runs)

section \<open>A stream while it is consumed\<close>

lemma charge_item_runs:
  "charge_item now client item (st_router st) = (tasks, r') \<Longrightarrow> serves rt (st, w) (st\<lparr>st_router := r'\<rparr>, w)"
  using serves_refl [of rt "(st, w)"]
  by (auto simp: charge_item_def intro: charge_client_runs split: sum.splits)

lemma stream_events_runs:
  assumes "stream_events client c t0 items (st_router st) = (events, tasks, r')"
  shows "serves rt (st, w) (st\<lparr>st_router := r'\<rparr>, w)"
  using assms
proof (induction items arbitrary: st events tasks r')
  case Nil
  with serves_refl [of rt "(st, w)"] show ?case by auto
next
  case (Cons i items)
  obtain now unix item where i: "i = (now, unix, item)" by (cases i)
  obtain item' r1 where poll: "instrument_item c t0 now unix item (st_router st) = (item', r1)" by fastforce
  obtain ts r2 where charge: "charge_item unix client item' r1 = (ts, r2)" by fastforce
  obtain es ts' r3 where rest: "stream_events client c t0 items r2 = (es, ts', r3)" by (rule prod_cases3)
  from Cons.prems i poll charge rest have r': "r' = r3" by simp
  have "consume_items c t0 [(now, unix, item)] (st_router st) = ([item'], r1)" using poll by simp
  then have "router_step rt (st_router st, w) (r1, w)" by (rule router_step.consume)
  moreover have "ro_client_budgets r1 = ro_client_budgets (st_router st)"
    using fixed_budgets [OF fixed_instrument_item [of c t0 now unix item "st_router st"]] poll by simp
  ultimately have one: "serves rt (st, w) (st\<lparr>st_router := r1\<rparr>, w)" by (rule serves_router)
  have two: "serves rt (st\<lparr>st_router := r1\<rparr>, w) (st\<lparr>st_router := r2\<rparr>, w)"
    using charge_item_runs [of unix client item' "st\<lparr>st_router := r1\<rparr>" ts r2 rt w] charge by simp
  have "serves rt (st\<lparr>st_router := r2\<rparr>, w) (st\<lparr>st_router := r3\<rparr>, w)"
    using Cons.IH [of "st\<lparr>st_router := r2\<rparr>"] rest by simp
  with serves_trans [OF serves_trans [OF one two]] r' show ?case by simp
qed

section \<open>Who is let through\<close>


end
