(* ===== verification/Mcp_Native.thy ===== *)
theory Mcp_Native
  imports Server_Chat_Facts
begin

text \<open>
  The router's own operations as MCP tools (\<open>crates/mcp/src/native.rs\<close>), behind the server's check of
  who asks (\<open>mcp_auth\<close> of \<open>routes.rs\<close>). Tool schemas and the decoding of arguments are the libraries'.
\<close>

section \<open>Native tools\<close>

datatype mcp_error = Tool_Invalid string | Invalid_Params string

record mcp_chat_message =
  mm_role :: string
  mm_content :: string

record chat_completion_args =
  ca_model :: string
  ca_messages :: "mcp_chat_message list"
  ca_temperature :: "f32 option"
  ca_max_tokens :: "u32 option"

record chat_completion_output =
  co_content :: string
  co_model :: string
  co_prompt_tokens :: u32
  co_completion_tokens :: u32
  co_cost_usd :: "f64 option"

record embeddings_args =
  ea_model :: string
  ea_input :: "string list"

record embedding_output =
  eo_index :: nat
  eo_embedding :: "f32 list"

record model_summary =
  mdl_id :: string
  mdl_owned_by :: string

text \<open>
  The request \<open>from_value\<close> reads back from the JSON of the arguments: the role's name is decoded, and
  every field that is not named keeps its default. \<open>why\<close> is \<open>serde\<close>'s message when a role is none.
\<close>

definition role_named :: "string \<Rightarrow> role option" where
  "role_named s =
     (if s = ''system'' then Some System else if s = ''user'' then Some User
      else if s = ''assistant'' then Some Assistant else if s = ''tool'' then Some ToolRole else None)"

definition chat_message_of :: "mcp_chat_message \<Rightarrow> chat_message option" where
  "chat_message_of m = map_option (\<lambda>r. plain_message r (mm_content m)) (role_named (mm_role m))"

definition mcp_chat_request :: "(chat_completion_args \<Rightarrow> string) \<Rightarrow> chat_completion_args \<Rightarrow> mcp_error + chat_request" where
  "mcp_chat_request why args =
     (case those (map chat_message_of (ca_messages args)) of
        None \<Rightarrow> Inl (Tool_Invalid (''invalid chat request: '' @ why args))
      | Some messages \<Rightarrow>
          Inr ((bare_request (ca_model args) messages)
            \<lparr>cr_temperature := ca_temperature args, cr_max_tokens := ca_max_tokens args\<rparr>))"

definition first_text :: "chat_response \<Rightarrow> string" where
  "first_text resp =
     (case rs_choices resp of
        [] \<Rightarrow> []
      | c # _ \<Rightarrow> (case msg_content (ch_message c) of None \<Rightarrow> [] | Some content \<Rightarrow> as_plain_text content))"

definition chat_output :: "chat_response \<Rightarrow> chat_completion_output" where
  "chat_output resp =
     \<lparr>co_content = first_text resp, co_model = rs_model resp,
      co_prompt_tokens = (case rs_usage resp of None \<Rightarrow> 0 | Some u \<Rightarrow> us_prompt_tokens u),
      co_completion_tokens = (case rs_usage resp of None \<Rightarrow> 0 | Some u \<Rightarrow> us_completion_tokens u),
      co_cost_usd = rs_cost_usd resp\<rparr>"

definition mcp_chat_completion ::
  "'w rt \<Rightarrow> (chat_completion_args \<Rightarrow> string) \<Rightarrow> chat_completion_args \<Rightarrow> router \<Rightarrow> 'w
    \<Rightarrow> (mcp_error + chat_completion_output) \<times> router \<times> 'w" where
  "mcp_chat_completion rt why args r w =
     (case mcp_chat_request why args of
        Inl e \<Rightarrow> (Inl e, r, w)
      | Inr req \<Rightarrow>
          (case dispatch rt req r w of
             (res, r', w') \<Rightarrow> (map_sum (\<lambda>e. Tool_Invalid (router_error_text e)) chat_output res, r', w')))"

text \<open>The entries of a \<open>HashMap\<close> are listed in no order: the models are a set.\<close>

definition mcp_list_models :: "router \<Rightarrow> model_summary set" where
  "mcp_list_models r = (\<lambda>m. \<lparr>mdl_id = mi_id m, mdl_owned_by = mi_owned_by m\<rparr>) ` priced_models r"

definition mcp_embeddings_request :: "embeddings_args \<Rightarrow> embeddings_request" where
  "mcp_embeddings_request args =
     \<lparr>er_model = ea_model args,
      er_input = (case ea_input args of [t] \<Rightarrow> Single t | ts \<Rightarrow> Multiple ts),
      er_encoding_format = None, er_dimensions = None\<rparr>"

definition mcp_embeddings ::
  "'w rt \<Rightarrow> embeddings_args \<Rightarrow> router \<Rightarrow> 'w \<Rightarrow> (mcp_error + embedding_output list) \<times> router \<times> 'w" where
  "mcp_embeddings rt args r w =
     (case embeddings rt (mcp_embeddings_request args) r w of
        (res, r', w') \<Rightarrow>
          (map_sum (\<lambda>e. Tool_Invalid (router_error_text e))
             (\<lambda>resp. map (\<lambda>d. \<lparr>eo_index = ed_index d, eo_embedding = ed_embedding d\<rparr>) (es_data resp)) res, r', w'))"

text \<open>The endpoint is behind the server's own check (\<open>routes::mcp_auth\<close>) and nothing else.\<close>

definition mcp_chat_tool ::
  "('k, 'w) world_ops \<Rightarrow> (chat_completion_args \<Rightarrow> string) \<Rightarrow> string option \<Rightarrow> chat_completion_args
    \<Rightarrow> 'k app_state \<Rightarrow> 'w \<Rightarrow> (mcp_error + chat_completion_output, 'k, 'w) handled" where
  "mcp_chat_tool ops why authorization args =
     authenticated ops authorization
       (\<lambda>st w. case mcp_chat_completion (wo_rt ops) why args (st_router st) w of
          (res, r', w') \<Rightarrow> (answered res, [], st\<lparr>st_router := r'\<rparr>, w'))"

definition mcp_embeddings_tool ::
  "('k, 'w) world_ops \<Rightarrow> string option \<Rightarrow> embeddings_args
    \<Rightarrow> 'k app_state \<Rightarrow> 'w \<Rightarrow> (mcp_error + embedding_output list, 'k, 'w) handled" where
  "mcp_embeddings_tool ops authorization args =
     authenticated ops authorization
       (\<lambda>st w. case mcp_embeddings (wo_rt ops) args (st_router st) w of
          (res, r', w') \<Rightarrow> (answered res, [], st\<lparr>st_router := r'\<rparr>, w'))"

section \<open>The tools are handlers like the others\<close>

lemma mcp_chat_runs:
  assumes "(case mcp_chat_completion (wo_rt ops) why args (st_router st) w of
      (res, r', w') \<Rightarrow> (answered res, [], st\<lparr>st_router := r'\<rparr>, w')) = (resp, tasks, st', w')"
  shows "serves (wo_rt ops) (st, w) (st', w')"
proof (cases "mcp_chat_request why args")
  case (Inl e)
  with assms show ?thesis by (auto simp: mcp_chat_completion_def serves_refl)
next
  case (Inr req)
  obtain res r1 w1 where run: "dispatch_traced (wo_rt ops) req (st_router st) w = (res, r1, w1)" by (rule prod_cases3)
  have "st' = st\<lparr>st_router := r1\<rparr> \<and> w' = w1"
    using assms Inr run by (simp add: mcp_chat_completion_def dispatch_def)
  with serves_router [OF router_step.chat [OF run] dispatch_traced_budgets [OF run]] show ?thesis by simp
qed

lemma mcp_embeddings_runs:
  assumes "(case mcp_embeddings (wo_rt ops) args (st_router st) w of
      (res, r', w') \<Rightarrow> (answered res, [], st\<lparr>st_router := r'\<rparr>, w')) = (resp, tasks, st', w')"
  shows "serves (wo_rt ops) (st, w) (st', w')"
proof -
  let ?req = "mcp_embeddings_request args"
  obtain res r1 w1 where run: "embeddings (wo_rt ops) ?req (st_router st) w = (res, r1, w1)" by (rule prod_cases3)
  have "ro_client_budgets r1 = ro_client_budgets (st_router st)"
    using fixed_budgets [OF fixed_embeddings [of "wo_rt ops" ?req "st_router st" w]] run by simp
  with serves_router [OF router_step.embed [OF run]] assms run show ?thesis
    by (auto simp: mcp_embeddings_def)
qed

interpretation mcp_chat_handler:
  request_handler ops "\<lambda>client st w. case mcp_chat_completion (wo_rt ops) why args (st_router st) w of
      (res, r', w') \<Rightarrow> (answered res, [], st\<lparr>st_router := r'\<rparr>, w')"
  by unfold_locales (rule mcp_chat_runs)

interpretation mcp_embeddings_handler:
  request_handler ops "\<lambda>client st w. case mcp_embeddings (wo_rt ops) args (st_router st) w of
      (res, r', w') \<Rightarrow> (answered res, [], st\<lparr>st_router := r'\<rparr>, w')"
  by unfold_locales (rule mcp_embeddings_runs)

lemma mcp_tools_run:
  "mcp_chat_tool ops why authorization args st w = (resp, tasks, st', w') \<Longrightarrow> serves (wo_rt ops) (st, w) (st', w')"
  "mcp_embeddings_tool ops authorization eargs st w = (eresp, tasks, st', w') \<Longrightarrow> serves (wo_rt ops) (st, w) (st', w')"
  unfolding mcp_chat_tool_def mcp_embeddings_tool_def
  by (rule mcp_chat_handler.authenticated_runs, assumption) (rule mcp_embeddings_handler.authenticated_runs)

end
