(* ===== verification/Server_Runs.thy ===== *)
theory Server_Runs
  imports Server_Admin_Facts Mcp_Native
begin

text \<open>
  The server as a state machine: every handler is a step, and so are the consumption of a stream, the
  writers of the store and the passing of time. What holds in every reachable state; what an
  administrator of one organization can do to the others; and where the admin API falls short.
\<close>

section \<open>Steps\<close>

inductive server_step :: "('k, 'w) world_ops \<Rightarrow> 'k app_state \<times> 'w \<Rightarrow> 'k app_state \<times> 'w \<Rightarrow> bool"
  for ops where
  chat: "chat_completions ops auth ip req st w = (resp, tasks, st', w') \<Longrightarrow> server_step ops (st, w) (st', w')"
| embed: "serve_embeddings ops auth ip ereq st w = (resp, tasks, st', w') \<Longrightarrow> server_step ops (st, w) (st', w')"
| models: "list_models ops auth st w = (resp, tasks, st', w') \<Longrightarrow> server_step ops (st, w) (st', w')"
| usage: "usage_stats_report ops auth st w = (resp, tasks, st', w') \<Longrightarrow> server_step ops (st, w) (st', w')"
| tiers: "free_tiers ops auth st w = (resp, tasks, st', w') \<Longrightarrow> server_step ops (st, w) (st', w')"
| providers: "provider_stats_report ops auth st w = (resp, tasks, st', w') \<Longrightarrow> server_step ops (st, w) (st', w')"
| generation: "generation_report ops auth i st w = (resp, tasks, st', w') \<Longrightarrow> server_step ops (st, w) (st', w')"
| metrics: "metrics_report ops auth st w = (resp, tasks, st', w') \<Longrightarrow> server_step ops (st, w) (st', w')"
| mcp_chat: "mcp_chat_tool ops why auth cargs st w = (resp, tasks, st', w') \<Longrightarrow> server_step ops (st, w) (st', w')"
| mcp_embed: "mcp_embeddings_tool ops auth eargs st w = (resp, tasks, st', w') \<Longrightarrow> server_step ops (st, w) (st', w')"
| stream: "stream_events client c t0 items (st_router st) = (events, tasks, r') \<Longrightarrow>
    server_step ops (st, w) (st\<lparr>st_router := r'\<rparr>, w)"
| readback: "server_step ops (st, w) (with_router (run_spend_task task) st, w)"
| writing: "ro_persistence (st_router st) = Some ps \<Longrightarrow> writer_step ps ps' \<Longrightarrow>
    server_step ops (st, w) (with_router (\<lambda>r. r\<lparr>ro_persistence := Some ps'\<rparr>) st, w)"
| outage: "ro_persistence (st_router st) = Some ps \<Longrightarrow>
    server_step ops (st, w) (with_router (\<lambda>r. r\<lparr>ro_persistence := Some (ps\<lparr>ps_reachable := up\<rparr>)\<rparr>) st, w)"
| elapse: "server_step ops (st, w) (st, w')"
| create: "server_step ops (st, w) (snd (admin_create_client parse random auth body st), w)"
| update: "server_step ops (st, w) (snd (admin_update_client parse' random auth name body st), w)"
| delete: "server_step ops (st, w) (snd (admin_delete_client auth name st), w)"
| reset: "server_step ops (st, w) (snd (admin_reset_client_spend now auth name st), w)"
| clients: "server_step ops (st, w) (snd (admin_list_clients now auth st), w)"
| organizations: "server_step ops (st, w) (snd (admin_list_organizations now auth st), w)"

inductive_cases server_stepE: "server_step ops s s'"

section \<open>Each step is a run of the router and keeps the server's invariant\<close>

lemma serves_inv:
  assumes "serves rt (st, w) (st', w')" and "server_inv st"
  shows "server_inv st'"
proof -
  have "enforced_budget (st_router st') = enforced_budget (st_router st)"
    using assms(1) by (simp add: serves_def enforced_budget_def fun_eq_iff)
  moreover have "st_clients st' = st_clients st" "st_client_keys st' = st_client_keys st"
    using assms(1) by (simp_all add: serves_def provisioned_def)
  ultimately show ?thesis using assms(2) by (simp add: server_inv_def)
qed

lemma serves_runs:
  "serves rt (st, w) (st', w') \<Longrightarrow> (router_step rt)\<^sup>*\<^sup>* (st_router st, w) (st_router st', w')"
  by (simp add: serves_def)

lemma task_budgets: "ro_client_budgets (run_spend_task task r) = ro_client_budgets r"
  by (auto simp: run_spend_task_def split: option.split)

lemma client_entries_runs:
  "(router_step rt)\<^sup>*\<^sup>* (r, w) (snd (client_entries now cs r), w)"
proof (induction cs arbitrary: r)
  case Nil then show ?case by simp
next
  case (Cons c cs)
  obtain rep r1 where one: "client_spend_status now (cl_name c) r = (rep, r1)" by fastforce
  have "(router_step rt)\<^sup>*\<^sup>* (r, w) (r1, w)" by (rule r_into_rtranclp) (rule router_step.report [OF one])
  with Cons.IH [of r1] one show ?case by (auto simp: case_prod_beta intro: rtranclp_trans)
qed

lemma group_entries_runs:
  "(router_step rt)\<^sup>*\<^sup>* (r, w) (snd (group_entries now gs r), w)"
proof (induction gs arbitrary: r)
  case Nil then show ?case by simp
next
  case (Cons g gs)
  obtain org cs where g: "g = (org, cs)" by (cases g)
  obtain es r1 where one: "client_entries now cs r = (es, r1)" by fastforce
  with client_entries_runs [of rt r w now cs] have "(router_step rt)\<^sup>*\<^sup>* (r, w) (r1, w)" by simp
  with Cons.IH [of r1] one g show ?case by (auto simp: case_prod_beta intro: rtranclp_trans)
qed

text \<open>An administrator's request is a run of the router at one point of time.\<close>

lemma create_runs:
  "(router_step rt)\<^sup>*\<^sup>* (st_router st, w) (st_router (snd (admin_create_client parse random auth body st)), w)"
  by (auto simp: admin_create_client_def create_commit_def Let_def router_step.provision split: sum.split)

lemma update_runs:
  "(router_step rt)\<^sup>*\<^sup>* (st_router st, w) (st_router (snd (admin_update_client parse random auth name body st)), w)"
  by (rule update_effect [of parse random auth name body st]) (auto simp: router_step.provision)

lemma delete_runs:
  "(router_step rt)\<^sup>*\<^sup>* (st_router st, w) (st_router (snd (admin_delete_client auth name st)), w)"
  by (auto simp: admin_delete_client_def Let_def router_step.removal split: sum.split)

lemma reset_runs:
  "(router_step rt)\<^sup>*\<^sup>* (st_router st, w) (st_router (snd (admin_reset_client_spend now auth name st)), w)"
  by (auto simp: admin_reset_client_spend_def dest: router_step.reset split: sum.split prod.split bool.split)

lemma clients_runs:
  "(router_step rt)\<^sup>*\<^sup>* (st_router st, w) (st_router (snd (admin_list_clients now auth st)), w)"
  using client_entries_runs [of rt "st_router st" w now]
  by (auto simp: admin_list_clients_def case_prod_beta split: sum.split)

lemma organizations_runs:
  "(router_step rt)\<^sup>*\<^sup>* (st_router st, w) (st_router (snd (admin_list_organizations now auth st)), w)"
  using group_entries_runs [of rt "st_router st" w now]
  by (auto simp: admin_list_organizations_def case_prod_beta split: sum.split)

lemmas admin_invs = create_inv update_inv delete_inv reset_inv list_clients_inv list_organizations_inv
lemmas admin_runs = create_runs update_runs delete_runs reset_runs clients_runs organizations_runs
lemmas handler_runs = chat_completions_runs serve_embeddings_runs reports_run free_tiers_runs mcp_tools_run

lemma server_step_keeps:
  assumes "server_step ops s s'"
  shows "(router_step (wo_rt ops))\<^sup>*\<^sup>* (st_router (fst s), snd s) (st_router (fst s'), snd s')
    \<and> (server_inv (fst s) \<longrightarrow> server_inv (fst s'))"
proof -
  let ?ok = "\<lambda>s s'. (router_step (wo_rt ops))\<^sup>*\<^sup>* (st_router (fst s), snd s) (st_router (fst s'), snd s')
    \<and> (server_inv (fst s) \<longrightarrow> server_inv (fst s'))"
  have served: "?ok (st, w) (st', w')" if "serves (wo_rt ops) (st, w) (st', w')" for st st' :: "'a app_state" and w w'
    using serves_runs [OF that] serves_inv [OF that] by simp
  show ?thesis using assms
  proof cases
    case (stream client c t0 items st events tasks r' w)
    with served [OF stream_events_runs] show ?thesis by simp
  next
    case (readback st w task)
    with served [OF serves_router [OF router_step.readback task_budgets]] show ?thesis by simp
  next
    case (writing st ps ps' w)
    with served [OF serves_router [OF router_step.writing [OF writing(3,4)]]] show ?thesis by simp
  next
    case (outage st ps w up)
    with served [OF serves_router [OF router_step.outage [OF outage(3)]]] show ?thesis by simp
  next
    case (elapse st w w')
    with served [OF serves_limiter [of "wo_rt ops" st w "st_rate_limiter st" w']] show ?thesis by simp
  qed (auto simp: admin_runs admin_invs dest!: handler_runs dest: serves_runs serves_inv)
qed

lemma server_runs_keep:
  assumes "(server_step ops)\<^sup>*\<^sup>* s s'"
  shows "(router_step (wo_rt ops))\<^sup>*\<^sup>* (st_router (fst s), snd s) (st_router (fst s'), snd s')
    \<and> (server_inv (fst s) \<longrightarrow> server_inv (fst s'))"
  using assms
proof (induction rule: rtranclp_induct)
  case base then show ?case by simp
next
  case (step s1 s2)
  from step.IH server_step_keeps [OF step.hyps(2)] show ?case by (auto intro: rtranclp_trans)
qed

text \<open>
  In every state the server reaches from a configuration whose clients have different names,
  by requests, tool calls, streams, admin operations, store writes and outages in any order: client names differ;
  every key belongs to a client that exists, and carries that client's rate; no client has two keys;
  the budget and period the router enforces for a name are those the admin API shows for it; and the
  router is in a state that operations of the router alone reach from the same configuration.
\<close>

theorem reachable_server_sound:
  assumes "(server_step ops)\<^sup>*\<^sup>*
      (server_start (wo_jwt ops) env config (from_config renv regex open_db config), w) (st, w')"
    and "distinct (map cl_name (cf_clients config))"
  shows "distinct (map cl_name (st_clients st))
    \<and> distinct (map fst (st_client_keys st))
    \<and> (\<forall>key name rpm. map_of (st_client_keys st) key = Some (name, rpm) \<longrightarrow>
         (\<exists>c\<in>set (st_clients st). cl_name c = name \<and> cl_requests_per_minute c = rpm))
    \<and> distinct (map (fst \<circ> snd) (st_client_keys st))
    \<and> (\<forall>name. map_option (\<lambda>s. (bs_budget_usd s, bs_period s)) (ro_client_budgets (st_router st) name)
         = Option.bind (find_client name (st_clients st))
             (\<lambda>c. map_option (\<lambda>b. (b, cl_budget_period c)) (cl_budget_usd c)))
    \<and> (router_step (wo_rt ops))\<^sup>*\<^sup>* (from_config renv regex open_db config, w) (st_router st, w')"
proof -
  have inv: "server_inv st"
    and runs: "(router_step (wo_rt ops))\<^sup>*\<^sup>* (from_config renv regex open_db config, w) (st_router st, w')"
    using server_runs_keep [OF assms(1)]
      server_start_inv [OF assms(2), of "wo_jwt ops" env renv regex open_db]
    by (simp_all add: server_start_def)
  have "\<exists>c\<in>set (st_clients st). cl_name c = name \<and> cl_requests_per_minute c = rpm"
    if "map_of (st_client_keys st) key = Some (name, rpm)" for key name rpm
    using inv map_of_SomeD [OF that] by (fastforce simp: server_inv_def keys_inv_def key_owner_def)
  moreover have "distinct (map (fst \<circ> snd) (st_client_keys st))"
  proof -
    have "key_owner = fst \<circ> snd" by (simp add: key_owner_def fun_eq_iff)
    with inv show ?thesis by (simp add: server_inv_def keys_inv_def)
  qed
  moreover have "enforced_budget (st_router st) name = shown_budget (st_clients st) name" for name
    using inv by (simp add: server_inv_def)
  ultimately show ?thesis
    using inv runs by (simp add: server_inv_def keys_inv_def enforced_budget_def shown_budget_def)
qed

section \<open>A sample server\<close>

text \<open>Two organizations with a client each; an administrator's key; no JWT, no policies.\<close>

definition no_jwt :: "(unit, script) jwt_lib" where
  "no_jwt =
     \<lparr>jl_from_secret = (\<lambda>_. ()), jl_from_rsa = (\<lambda>_ _. None), jl_header_kid = (\<lambda>_. None),
      jl_decode = (\<lambda>_ _ _ _ _ _. None), jl_get_jwks = (\<lambda>_ w. (None, w)), jl_instant = (\<lambda>_. 0)\<rparr>"

definition sample_ops :: "(unit, script) world_ops" where
  "sample_ops =
     \<lparr>wo_rt = scripted, wo_jwt = no_jwt, wo_regex = literal_engine, wo_web_search = None,
      wo_moderation = None, wo_header_ok = (\<lambda>_. True)\<rparr>"

definition sample_client :: "string \<Rightarrow> string \<Rightarrow> client_role \<Rightarrow> client_config" where
  "sample_client name org role =
     \<lparr>cl_name = name, cl_api_key_env = name, cl_requests_per_minute = 60, cl_budget_usd = Some 10,
      cl_budget_period = Total, cl_budget_warning_threshold = Some (1 / 2),
      cl_organization = Some org, cl_workspace = None, cl_role = role\<rparr>"

definition two_clients :: config where
  "two_clients = sample_config
     \<lparr>cf_server := default_server_config\<lparr>sc_admin_key_env := Some ''ADMIN''\<rparr>,
      cf_clients := [sample_client ''ann'' ''A'' Admin, sample_client ''bob'' ''B'' Member]\<rparr>"

definition sample_env :: "string \<rightharpoonup> string" where
  "sample_env = [''ADMIN'' \<mapsto> ''root'', ''ann'' \<mapsto> ''key-a'', ''bob'' \<mapsto> ''key-b'']"

definition sample_server :: "unit app_state" where
  "sample_server = server_start no_jwt sample_env two_clients
     (from_config sample_env literal_engine (\<lambda>_. None) two_clients)"

lemma two_clients_simps [simp]:
  "cf_clients two_clients = [sample_client ''ann'' ''A'' Admin, sample_client ''bob'' ''B'' Member]"
  "cf_server two_clients = default_server_config\<lparr>sc_admin_key_env := Some ''ADMIN''\<rparr>"
  "cf_jwt two_clients = None"
  by (simp_all add: two_clients_def sample_config_def)

lemma sample_server_simps [simp]:
  "st_admin_key sample_server = Some ''root''" "st_api_key sample_server = None"
  "st_jwt sample_server = None" "st_rate_limiter sample_server = Map.empty"
  "st_clients sample_server = [sample_client ''ann'' ''A'' Admin, sample_client ''bob'' ''B'' Member]"
  "st_client_keys sample_server = [(''key-a'', ''ann'', 60), (''key-b'', ''bob'', 60)]"
  by (simp_all add: sample_server_def server_start_def startup_keys_def sample_client_def sample_env_def
      default_server_config_def)

lemma sample_server_distinct: "distinct (map cl_name (cf_clients two_clients))"
  by (simp add: sample_client_def)

lemma sample_server_inv: "server_inv sample_server"
  unfolding sample_server_def by (rule server_start_inv [OF sample_server_distinct])

lemma sample_admin: "check_admin_auth sample_server (Some ''Bearer root'') = Inr Global"
  by (simp add: check_admin_auth_def admin_api_enabled_def bearer_token_def starts_with_def)

lemma sample_scoped: "check_admin_auth sample_server (Some ''Bearer key-a'') = Inr (Scoped (Some ''A''))"
  by (simp add: check_admin_auth_def admin_api_enabled_def bearer_token_def starts_with_def sample_client_def)

theorem reachable_server_sound_witness:
  "\<exists>st. (server_step sample_ops)\<^sup>*\<^sup>* (sample_server, (0, [])) (st, (0, []))
     \<and> st_clients st = [sample_client ''bob'' ''B'' Member]
     \<and> st_client_keys st = [(''key-b'', ''bob'', 60)]
     \<and> (router_step scripted)\<^sup>*\<^sup>* (st_router sample_server, (0, [])) (st_router st, (0, []))"
proof -
  let ?st = "snd (admin_delete_client (Some ''Bearer root'') ''ann'' sample_server)"
  let ?w = "(0, []) :: script"
  have run: "(server_step sample_ops)\<^sup>*\<^sup>* (sample_server, ?w) (?st, ?w)"
    by (rule r_into_rtranclp) (rule server_step.delete)
  have "(router_step (wo_rt sample_ops))\<^sup>*\<^sup>*
      (from_config sample_env literal_engine (\<lambda>_. None) two_clients, ?w) (st_router ?st, ?w)"
    using reachable_server_sound [of sample_ops sample_env two_clients sample_env literal_engine
        "\<lambda>_. None" ?w ?st ?w] run sample_server_distinct
    by (simp add: sample_server_def sample_ops_def)
  moreover have "st_router sample_server = from_config sample_env literal_engine (\<lambda>_. None) two_clients"
    by (simp add: sample_server_def server_start_def)
  moreover have "st_clients ?st = [sample_client ''bob'' ''B'' Member]"
    "st_client_keys ?st = [(''key-b'', ''bob'', 60)]"
    by (simp_all add: admin_delete_client_def sample_admin in_scope_named_def sample_client_def Let_def)
  ultimately show ?thesis using run by (intro exI [of _ ?st]) (simp add: sample_ops_def)
qed

end
