(* ===== verification/Server_Scopes.thy ===== *)
theory Server_Scopes
  imports Server_Runs
begin

text \<open>
  What an administrator of one organization can do to the others: nothing, whatever it asks for and
  in whatever order. And where the admin API falls short of what it says: the last client, a changed
  rate, a warning threshold, two creations at once.
\<close>

section \<open>Writes within a scope\<close>

text \<open>
  A write by an administrator whose key puts it in the scope of an organization. A rotated key is
  random: it is no key in use.
\<close>

inductive scoped_write :: "string option \<Rightarrow> 'k app_state \<Rightarrow> 'k app_state \<Rightarrow> bool" for org where
  create: "check_admin_auth st auth = Inr (Scoped org) \<Longrightarrow>
    scoped_write org st (snd (admin_create_client parse random auth body st))"
| update: "check_admin_auth st auth = Inr (Scoped org) \<Longrightarrow>
    generate_api_key random \<notin> fst ` set (st_client_keys st) \<Longrightarrow>
    scoped_write org st (snd (admin_update_client parse' random auth name body st))"
| delete: "check_admin_auth st auth = Inr (Scoped org) \<Longrightarrow>
    scoped_write org st (snd (admin_delete_client auth name st))"
| reset: "check_admin_auth st auth = Inr (Scoped org) \<Longrightarrow>
    scoped_write org st (snd (admin_reset_client_spend now auth name st))"

text \<open>A client as the server holds it: its keys, its budget and its spend in memory.\<close>

definition held :: "'k app_state \<Rightarrow> client_config \<Rightarrow>
    (string \<times> string \<times> u32) list \<times> client_budget_setting option \<times> spend_state option" where
  "held st c =
     (filter (\<lambda>e. key_owner e = cl_name c) (st_client_keys st),
      ro_client_budgets (st_router st) (cl_name c), ro_client_spend (st_router st) (cl_name c))"

definition untouched :: "string option \<Rightarrow> 'k app_state \<Rightarrow> 'k app_state \<Rightarrow> bool" where
  "untouched org st st' \<longleftrightarrow>
     (\<forall>c. cl_organization c \<noteq> org \<longrightarrow>
        (c \<in> set (st_clients st') \<longleftrightarrow> c \<in> set (st_clients st))
        \<and> (c \<in> set (st_clients st) \<longrightarrow> held st' c = held st c))"

lemma untouched_refl: "untouched org st st"
  by (simp add: untouched_def)

lemma untouched_trans: "untouched org st st1 \<Longrightarrow> untouched org st1 st2 \<Longrightarrow> untouched org st st2"
  unfolding untouched_def by metis

text \<open>A change that is confined to the client of one name, in the scope, leaves the others alone.\<close>

lemma untouchedI:
  assumes "\<And>c. cl_organization c \<noteq> org \<Longrightarrow> c \<in> set (st_clients st') \<longleftrightarrow> c \<in> set (st_clients st)"
    and "\<And>c. cl_organization c \<noteq> org \<Longrightarrow> c \<in> set (st_clients st) \<Longrightarrow> cl_name c \<noteq> name"
    and "\<And>n. n \<noteq> name \<Longrightarrow> filter (\<lambda>e. key_owner e = n) (st_client_keys st')
        = filter (\<lambda>e. key_owner e = n) (st_client_keys st)"
    and "\<And>n. n \<noteq> name \<Longrightarrow> ro_client_budgets (st_router st') n = ro_client_budgets (st_router st) n"
    and "\<And>n. n \<noteq> name \<Longrightarrow> ro_client_spend (st_router st') n = ro_client_spend (st_router st) n"
  shows "untouched org st st'"
  using assms by (simp add: untouched_def held_def)

lemma set_budget_others:
  "n \<noteq> name \<Longrightarrow> ro_client_budgets (set_client_budget name b r) n = ro_client_budgets r n"
  "ro_client_spend (set_client_budget name b r) = ro_client_spend r"
  "n \<noteq> name \<Longrightarrow> ro_client_budgets (remove_client name r) n = ro_client_budgets r n"
  "n \<noteq> name \<Longrightarrow> ro_client_spend (remove_client name r) n = ro_client_spend r n"
  by (simp_all add: set_client_budget_def remove_client_def)

lemma reset_others:
  "ro_client_budgets (snd (reset_client_spend now name r)) = ro_client_budgets r"
  "n \<noteq> name \<Longrightarrow> ro_client_spend (snd (reset_client_spend now name r)) n = ro_client_spend r n"
  by (auto simp: reset_client_spend_def Let_def split: option.split)

lemma update_others:
  assumes "distinct (map fst keys)" and "\<And>e. e \<in> set keys \<Longrightarrow> fst e = k \<Longrightarrow> key_owner e = name" and "n \<noteq> name"
  shows "filter (\<lambda>e. key_owner e = n) (AList.update k (name, rpm) keys) = filter (\<lambda>e. key_owner e = n) keys"
proof (cases "k \<in> fst ` set keys")
  case True
  have "filter (\<lambda>e. key_owner e = n) (map (\<lambda>e. if fst e = k then (k, name, rpm) else e) xs)
      = filter (\<lambda>e. key_owner e = n) xs" if "\<And>e. e \<in> set xs \<Longrightarrow> fst e = k \<Longrightarrow> key_owner e = name" for xs
    using that assms(3) by (induction xs) (auto simp: key_owner_def)
  with assms(2) True show ?thesis by (simp add: alist_update_list [OF assms(1)])
next
  case False
  with assms(3) show ?thesis by (simp add: alist_update_list [OF assms(1)] key_owner_def)
qed

text \<open>In a sound server a name stands for one client, so that one in the scope is none outside it.\<close>

lemma named_in_scope:
  assumes "server_inv st" and "d \<in> set (st_clients st)" and "in_scope_named (Scoped org) name d"
    and "cl_organization c \<noteq> org" and "c \<in> set (st_clients st)"
  shows "cl_name c \<noteq> name"
proof
  assume "cl_name c = name"
  with assms(2,3,5) have "cl_name c = cl_name d" by (simp add: in_scope_named_def)
  with assms(1,2,5) have "c = d" by (auto simp: server_inv_def distinct_map inj_on_def)
  with assms(3,4) show False by (simp add: in_scope_named_def)
qed

lemma create_untouched:
  assumes "server_inv st" and "check_admin_auth st auth = Inr (Scoped org)"
  shows "untouched org st (snd (admin_create_client parse random auth body st))"
proof (cases "create_check parse auth body st")
  case (Inl resp)
  then show ?thesis by (simp add: admin_create_client_def untouched_refl)
next
  case (Inr req)
  let ?key = "unwrap_or (generate_api_key random) (cq_api_key req)"
  show ?thesis
  proof (cases "map_of (st_client_keys st) ?key = None")
    case False
    with Inr show ?thesis by (auto simp: admin_create_client_def create_commit_def Let_def untouched_refl)
  next
    case True
    have "cl_organization (new_client req) = org" and fresh: "cq_name req \<notin> cl_name ` set (st_clients st)"
      using create_check_Inr(1,3) [OF Inr] assms(2) by simp_all
    moreover have "filter (\<lambda>e. key_owner e = n)
        (AList.update ?key (cq_name req, cq_requests_per_minute req) (st_client_keys st))
        = filter (\<lambda>e. key_owner e = n) (st_client_keys st)" if "n \<noteq> cq_name req" for n
      using assms(1) True that
      by (intro update_others) (force simp: server_inv_def keys_inv_def map_of_eq_None_iff image_iff)+
    ultimately show ?thesis using True Inr
      by (intro untouchedI [where name = "cq_name req"])
        (auto simp: admin_create_client_def create_commit_def Let_def set_budget_others image_iff)
  qed
qed

lemma delete_untouched:
  assumes "server_inv st" and "check_admin_auth st auth = Inr (Scoped org)"
  shows "untouched org st (snd (admin_delete_client auth name st))"
proof (cases "list_ex (in_scope_named (Scoped org) name) (st_clients st)")
  case False
  then have "filter (\<lambda>c. \<not> in_scope_named (Scoped org) name c) (st_clients st) = st_clients st"
    by (auto simp: list_ex_iff intro: filter_True)
  with assms(2) show ?thesis by (simp add: admin_delete_client_def Let_def untouched_refl)
next
  case True
  then obtain d where d: "d \<in> set (st_clients st)" "in_scope_named (Scoped org) name d"
    by (auto simp: list_ex_iff)
  let ?st = "st\<lparr>st_clients := filter (\<lambda>c. \<not> in_scope_named (Scoped org) name c) (st_clients st),
    st_client_keys := filter (\<lambda>(_, n, _). n \<noteq> name) (st_client_keys st),
    st_router := remove_client name (st_router st)\<rparr>"
  have keys: "filter (\<lambda>x. (case x of (_, m, _) \<Rightarrow> m \<noteq> name) \<and> key_owner x = n) keys
      = filter (\<lambda>e. key_owner e = n) keys" if "n \<noteq> name" for n keys
    using that by (intro filter_cong) (auto simp: key_owner_def)
  have "untouched org st ?st"
  proof (rule untouchedI [where name = name])
    fix c :: client_config assume "cl_organization c \<noteq> org"
    then show "c \<in> set (st_clients ?st) \<longleftrightarrow> c \<in> set (st_clients st)" by (auto simp: in_scope_named_def)
  next
    fix c :: client_config assume "cl_organization c \<noteq> org" and "c \<in> set (st_clients st)"
    then show "cl_name c \<noteq> name" using named_in_scope [OF assms(1) d] by blast
  qed (simp_all add: keys set_budget_others)
  with assms(2) show ?thesis by (simp add: admin_delete_client_def Let_def untouched_refl)
qed

lemma reset_untouched:
  assumes "server_inv st" and "check_admin_auth st auth = Inr (Scoped org)"
  shows "untouched org st (snd (admin_reset_client_spend now auth name st))"
proof (cases "list_ex (in_scope_named (Scoped org) name) (st_clients st)")
  case False
  with assms(2) show ?thesis by (simp add: admin_reset_client_spend_def untouched_refl)
next
  case True
  then obtain d where d: "d \<in> set (st_clients st)" "in_scope_named (Scoped org) name d"
    by (auto simp: list_ex_iff)
  obtain done' r' where run: "reset_client_spend now name (st_router st) = (done', r')" by fastforce
  have "untouched org st (st\<lparr>st_router := r'\<rparr>)"
    using named_in_scope [OF assms(1) d] reset_others(1) [of now name "st_router st"]
      reset_others(2) [of _ name now "st_router st"] run
    by (intro untouchedI [where name = name]) auto
  with assms(2) True run show ?thesis
    by (cases done') (simp_all add: admin_reset_client_spend_def)
qed

text \<open>An update of the keys concerns the keys of one client.\<close>

lemma update_keys_others:
  assumes "keys_inv keys cs" and "generate_api_key random \<notin> fst ` set keys"
    and "update_keys random rot name rpm keys = (new_key, keys')" and "n \<noteq> name"
  shows "filter (\<lambda>e. key_owner e = n) keys' = filter (\<lambda>e. key_owner e = n) keys"
proof -
  have d: "distinct (map fst keys)" using assms(1) by (simp add: keys_inv_def)
  have new: "filter (\<lambda>e. key_owner e = n) (AList.update (generate_api_key random) (name, rpm) ks)
      = filter (\<lambda>e. key_owner e = n) ks" if "set ks \<subseteq> set keys" "distinct (map fst ks)" for ks
    using assms(2,4) that by (intro update_others) (force simp: image_iff)+
  show ?thesis
  proof (cases "List.find (\<lambda>(_, m, _). m = name) keys")
    case None
    with assms(3) new [of keys] d show ?thesis
      by (auto simp: update_keys_def Let_def split: if_splits)
  next
    case (Some e)
    then obtain old r where e: "e = (old, name, r)" "(old, name, r) \<in> set keys"
      using find_Some [OF Some] by (cases e) auto
    have only: "x = (old, name, r)" if "x \<in> set keys" "fst x = old" for x
      using d e(2) that by (auto simp: distinct_map inj_on_def)
    have owner: "key_owner x = name" if "x \<in> set keys" "fst x = old" for x
      unfolding only [OF that] by (simp add: key_owner_def)
    show ?thesis
    proof (cases rot)
      case True
      let ?kept = "AList.delete old keys"
      have kept: "?kept = filter (\<lambda>x. fst x \<noteq> old) keys" by (auto simp: AList.delete_eq intro!: filter_cong)
      have "filter (\<lambda>e. key_owner e = n) ?kept = filter (\<lambda>e. key_owner e = n) keys"
        unfolding kept filter_filter using owner assms(4) by (intro filter_cong) auto
      moreover have "keys' = AList.update (generate_api_key random) (name, rpm) ?kept"
        using assms(3) True Some e by (auto simp: update_keys_def Let_def)
      moreover have "set ?kept \<subseteq> set keys" "distinct (map fst ?kept)"
        using d by (auto simp: kept distinct_map_filter)
      ultimately show ?thesis using new by simp
    next
      case False
      have "map_of keys old = Some (name, r)" using d e(2) by simp
      with assms(3) False Some e have "keys' = AList.update old (name, rpm) keys"
        by (auto simp: update_keys_def)
      with update_others [OF d owner assms(4)] show ?thesis by simp
    qed
  qed
qed

lemma update_untouched:
  assumes "server_inv st" and "check_admin_auth st auth = Inr (Scoped org)"
    and "generate_api_key random \<notin> fst ` set (st_client_keys st)"
  shows "untouched org st (snd (admin_update_client parse random auth name body st))"
proof (rule update_effect [of parse random auth name body st])
  assume "snd (admin_update_client parse random auth name body st) = st"
  then show ?thesis by (simp add: untouched_refl)
next
  fix i req client new_key keys'
  assume i: "check_admin_auth st auth = Inr i"
    and client: "List.find (in_scope_named i name) (st_clients st) = Some client"
    and keys: "update_keys random (uq_rotate_api_key req) name (cl_requests_per_minute (update_client req client))
         (st_client_keys st) = (new_key, keys')"
    and st': "snd (admin_update_client parse random auth name body st)
       = st\<lparr>st_clients := update_first (in_scope_named i name) (update_client req) (st_clients st),
            st_client_keys := keys',
            st_router := set_client_budget name
              (map_option (\<lambda>b. (b, cl_budget_period (update_client req client)))
                 (cl_budget_usd (update_client req client))) (st_router st)\<rparr>"
  have org: "i = Scoped org" using i assms(2) by simp
  have d: "client \<in> set (st_clients st)" "in_scope_named (Scoped org) name client"
    using find_Some [OF client] org by simp_all
  note others = named_in_scope [OF assms(1) d]
  have clients: "update_first (in_scope_named i name) (update_client req) (st_clients st)
      = update_named name (update_client req) (st_clients st)"
    using assms(1) client by (intro update_first_map) (simp_all add: server_inv_def)
  have in_org: "x \<in> set (st_clients st) \<Longrightarrow> cl_name x = name \<Longrightarrow> cl_organization x = org" for x
    using others by blast
  show ?thesis unfolding st' clients
  proof (rule untouchedI [where name = name])
    fix c :: client_config assume c: "cl_organization c \<noteq> org"
    have "c \<in> set (update_named name (update_client req) (st_clients st)) \<longleftrightarrow> c \<in> set (st_clients st)"
    proof
      assume "c \<in> set (update_named name (update_client req) (st_clients st))"
      then obtain x where x: "x \<in> set (st_clients st)" "c = (if cl_name x = name then update_client req x else x)"
        by auto
      with in_org [OF x(1)] c show "c \<in> set (st_clients st)" by (auto split: if_splits)
    next
      assume "c \<in> set (st_clients st)"
      with others [OF c] show "c \<in> set (update_named name (update_client req) (st_clients st))" by force
    qed
    then show "c \<in> set (st_clients (st\<lparr>st_clients := update_named name (update_client req) (st_clients st),
        st_client_keys := keys', st_router := set_client_budget name
          (map_option (\<lambda>b. (b, cl_budget_period (update_client req client)))
             (cl_budget_usd (update_client req client))) (st_router st)\<rparr>))
      \<longleftrightarrow> c \<in> set (st_clients st)" by simp
  next
    fix c :: client_config assume "cl_organization c \<noteq> org" and "c \<in> set (st_clients st)"
    then show "cl_name c \<noteq> name" by (rule others)
  next
    fix n assume "n \<noteq> name"
    moreover have "keys_inv (st_client_keys st) (st_clients st)" using assms(1) by (simp add: server_inv_def)
    ultimately show "filter (\<lambda>e. key_owner e = n)
        (st_client_keys (st\<lparr>st_clients := update_named name (update_client req) (st_clients st),
          st_client_keys := keys', st_router := set_client_budget name
            (map_option (\<lambda>b. (b, cl_budget_period (update_client req client)))
               (cl_budget_usd (update_client req client))) (st_router st)\<rparr>))
      = filter (\<lambda>e. key_owner e = n) (st_client_keys st)"
      using update_keys_others [OF _ assms(3) keys] by simp
  qed (simp_all add: set_budget_others)
qed

lemma scoped_write_keeps:
  "scoped_write org st st' \<Longrightarrow> server_inv st \<Longrightarrow> server_inv st' \<and> untouched org st st'"
  by (induction rule: scoped_write.induct)
    (simp_all add: admin_invs create_untouched update_untouched delete_untouched reset_untouched)



section \<open>Where the admin API falls short\<close>

text \<open>
  Deleting the last client with a key opens a server that has neither a shared key nor a JWT
  verifier: before, a request without a token is refused; after, it is let through.
\<close>

theorem deleted_last_client_opens:
  assumes "st_api_key st = None" and "st_jwt st = None" and "st_client_keys st = [(key, name, rpm)]"
    and "check_admin_auth st auth = Inr identity" and "list_ex (in_scope_named identity name) (st_clients st)"
  shows "fst (check_auth lib None st w) = Some unauthorized
    \<and> fst (check_auth lib None (snd (admin_delete_client auth name st)) w) = None"
proof -
  let ?kept = "filter (\<lambda>c. \<not> in_scope_named identity name c) (st_clients st)"
  obtain c where "c \<in> set (st_clients st)" "in_scope_named identity name c"
    using assms(5) by (auto simp: list_ex_iff)
  then have "length ?kept < length (st_clients st)" by (intro length_filter_less) auto
  with assms have "st_client_keys (snd (admin_delete_client auth name st)) = []"
    "st_api_key (snd (admin_delete_client auth name st)) = None"
    "st_jwt (snd (admin_delete_client auth name st)) = None"
    by (simp_all add: admin_delete_client_def Let_def)
  with assms(1-3) show ?thesis by (simp add: check_auth_def no_auth_configured_def bearer_token_def)
qed

theorem deleted_last_client_opens_witness:
  "let st = snd (admin_delete_client (Some ''Bearer root'') ''ann'' sample_server) in
     st_clients st = [sample_client ''bob'' ''B'' Member]
     \<and> fst (check_auth no_jwt None st (0, [])) = Some unauthorized
     \<and> fst (check_auth no_jwt None (snd (admin_delete_client (Some ''Bearer root'') ''bob'' st)) (0, [])) = None"
proof -
  let ?st = "snd (admin_delete_client (Some ''Bearer root'') ''ann'' sample_server)"
  have st: "st_clients ?st = [sample_client ''bob'' ''B'' Member]" "st_client_keys ?st = [(''key-b'', ''bob'', 60)]"
    "st_admin_key ?st = Some ''root''" "st_api_key ?st = None" "st_jwt ?st = None"
    by (simp_all add: admin_delete_client_def sample_admin in_scope_named_def sample_client_def Let_def)
  have admin: "check_admin_auth ?st (Some ''Bearer root'') = Inr Global"
    by (simp add: check_admin_auth_def admin_api_enabled_def bearer_token_def starts_with_def st)
  have "list_ex (in_scope_named Global ''bob'') (st_clients ?st)"
    by (simp add: st in_scope_named_def sample_client_def)
  from deleted_last_client_opens [OF st(4,5,2) admin this, of no_jwt "(0, [])"] st(1)
  show ?thesis by (simp add: Let_def)
qed

text \<open>What an update of a client that is found leaves.\<close>

lemma find_client_update_first:
  assumes "List.find (in_scope_named i name) cs = Some client"
  shows "find_client name cs \<noteq> None" "find_client name (update_first (in_scope_named i name) (update_client req) cs) \<noteq> None"
proof -
  have "client \<in> set cs" "cl_name client = name"
    using find_Some [OF assms] by (simp_all add: in_scope_named_def)
  moreover have "cl_name ` set (update_first (in_scope_named i name) (update_client req) xs) = cl_name ` set xs" for xs
    by (induction xs) auto
  ultimately have "name \<in> cl_name ` set cs"
    "name \<in> cl_name ` set (update_first (in_scope_named i name) (update_client req) cs)" by auto
  then show "find_client name cs \<noteq> None"
    "find_client name (update_first (in_scope_named i name) (update_client req) cs) \<noteq> None"
    by (auto simp: find_client_def find_None)
qed

lemma resolved_bucket:
  "resolve_rate_limit st (Some name) ip = Some (identity, rpm) \<Longrightarrow> find_client name (st_clients st) \<noteq> None \<Longrightarrow>
     identity = ''client:'' @ name"
  by (auto simp: resolve_rate_limit_def)

lemma update_success:
  assumes "admin_update_client parse random auth name body st = (Inr resp, st')"
  obtains i req client keys' where
    "List.find (in_scope_named i name) (st_clients st) = Some client"
    "st' = st\<lparr>st_clients := update_first (in_scope_named i name) (update_client req) (st_clients st),
             st_client_keys := keys',
             st_router := set_client_budget name
               (map_option (\<lambda>b. (b, cl_budget_period (update_client req client)))
                  (cl_budget_usd (update_client req client))) (st_router st)\<rparr>"
  using assms
  by (auto simp: admin_update_client_def Let_def case_prod_beta split: sum.splits option.splits if_splits)

text \<open>
  A rate changed by an update is the one the server looks up, but is not enforced while the
  client's bucket exists: every check answers as it would have with the old rate.
\<close>

theorem patched_rate_not_enforced:
  assumes "st_rate_limiter st (''client:'' @ name) = Some bucket"
    and "admin_update_client parse random auth name body st = (Inr resp, st')"
    and "resolve_rate_limit st (Some name) ip = Some (identity, old_rpm)"
    and "resolve_rate_limit st' (Some name) ip = Some (identity', new_rpm)"
  shows "identity' = identity \<and> check identity' new_rpm now (st_rate_limiter st')
    = check identity old_rpm now (st_rate_limiter st)"
  using assms(2)
proof (rule update_success)
  fix i req client keys'
  assume client: "List.find (in_scope_named i name) (st_clients st) = Some client"
    and st': "st' = st\<lparr>st_clients := update_first (in_scope_named i name) (update_client req) (st_clients st),
             st_client_keys := keys',
             st_router := set_client_budget name
               (map_option (\<lambda>b. (b, cl_budget_period (update_client req client)))
                  (cl_budget_usd (update_client req client))) (st_router st)\<rparr>"
  have "identity = ''client:'' @ name" "identity' = ''client:'' @ name"
    using resolved_bucket [OF assms(3)] resolved_bucket [OF assms(4)] find_client_update_first [OF client]
    by (simp_all add: st')
  with assms(1) show ?thesis
    by (simp add: st' check_ignores_new_rpm [of "st_rate_limiter st" _ bucket new_rpm now old_rpm])
qed

theorem patched_rate_not_enforced_witness:
  "let st = sample_server\<lparr>st_rate_limiter := [''client:bob'' \<mapsto> new_bucket 60 0]\<rparr>;
       parse = (\<lambda>_. Inr (default_update\<lparr>uq_requests_per_minute := Some 1\<rparr>));
       st' = snd (admin_update_client parse [] (Some ''Bearer root'') ''bob'' ''{}'' st)
   in resolve_rate_limit st' (Some ''bob'') ''::1'' = Some (''client:bob'', 1)
      \<and> check ''client:bob'' 1 0 (st_rate_limiter st') = check ''client:bob'' 60 0 (st_rate_limiter st)"
proof -
  let ?st = "sample_server\<lparr>st_rate_limiter := [''client:bob'' \<mapsto> new_bucket 60 0]\<rparr>"
  let ?parse = "\<lambda>_. Inr (default_update\<lparr>uq_requests_per_minute := Some 1\<rparr>)"
  let ?done = "admin_update_client ?parse [] (Some ''Bearer root'') ''bob'' ''{}'' ?st"
  have admin: "check_admin_auth ?st (Some ''Bearer root'') = Inr Global"
    by (simp add: check_admin_auth_def admin_api_enabled_def bearer_token_def starts_with_def)
  obtain resp st' where run: "?done = (Inr resp, st')"
    by (simp add: admin_update_client_def admin Let_def default_update_def in_scope_named_def
        sample_client_def update_keys_def)
  have old: "resolve_rate_limit ?st (Some ''bob'') ''::1'' = Some (''client:bob'', 60)"
    by (simp add: resolve_rate_limit_def find_client_def sample_client_def)
  have "st_clients (snd ?done) = [sample_client ''ann'' ''A'' Admin,
      (sample_client ''bob'' ''B'' Member)\<lparr>cl_requests_per_minute := 1\<rparr>]"
    by (simp add: admin_update_client_def admin Let_def default_update_def in_scope_named_def
        sample_client_def update_keys_def update_client_def)
  then have new: "resolve_rate_limit st' (Some ''bob'') ''::1'' = Some (''client:bob'', 1)"
    by (simp add: run resolve_rate_limit_def find_client_def sample_client_def)
  have "st_rate_limiter ?st (''client:'' @ ''bob'') = Some (new_bucket 60 0)" by simp
  from patched_rate_not_enforced [OF this run old new, of 0] new
  show ?thesis by (simp add: run Let_def)
qed

text \<open>
  Any successful update of a client drops the warning threshold of its budget: whatever the
  body asks for, the budget the router enforces afterwards has none, while the client keeps the one
  of the configuration.
\<close>

theorem update_drops_threshold:
  assumes "admin_update_client parse random auth name body st = (Inr resp, st')"
    and "server_inv st" and "find_client name (st_clients st) = Some client"
  shows "(case ro_client_budgets (st_router st') name of None \<Rightarrow> True
      | Some setting \<Rightarrow> bs_warning_threshold setting = None)
    \<and> map_option cl_budget_warning_threshold (find_client name (st_clients st'))
        = Some (cl_budget_warning_threshold client)"
  using assms(1)
proof (rule update_success)
  fix i req client' keys'
  assume client': "List.find (in_scope_named i name) (st_clients st) = Some client'"
    and st': "st' = st\<lparr>st_clients := update_first (in_scope_named i name) (update_client req) (st_clients st),
             st_client_keys := keys',
             st_router := set_client_budget name
               (map_option (\<lambda>b. (b, cl_budget_period (update_client req client')))
                  (cl_budget_usd (update_client req client'))) (st_router st)\<rparr>"
  have "st_clients st' = update_named name (update_client req) (st_clients st)"
    using assms(2) client' by (simp add: st' server_inv_def update_first_map)
  then have "map_option cl_budget_warning_threshold (find_client name (st_clients st'))
      = Some (cl_budget_warning_threshold client)"
    using assms(3) by (simp add: find_client_map update_client_def)
  moreover have "case ro_client_budgets (st_router st') name of None \<Rightarrow> True
      | Some setting \<Rightarrow> bs_warning_threshold setting = None"
    by (simp add: st' set_client_budget_def split: option.split)
  ultimately show ?thesis by blast
qed

theorem update_drops_threshold_witness:
  "let st' = snd (admin_update_client (\<lambda>_. Inr default_update) [] (Some ''Bearer root'') ''bob'' [] sample_server)
   in map_option cl_budget_warning_threshold (find_client ''bob'' (st_clients st')) = Some (Some (1 / 2))
      \<and> (case ro_client_budgets (st_router st') ''bob'' of None \<Rightarrow> True
         | Some setting \<Rightarrow> bs_warning_threshold setting = None)"
proof -
  let ?done = "admin_update_client (\<lambda>_. Inr default_update) [] (Some ''Bearer root'') ''bob'' [] sample_server"
  obtain resp st' where run: "?done = (Inr resp, st')"
    by (simp add: admin_update_client_def sample_admin Let_def default_update_def in_scope_named_def
        sample_client_def update_keys_def)
  have "find_client ''bob'' (st_clients sample_server) = Some (sample_client ''bob'' ''B'' Member)"
    by (simp add: find_client_def sample_client_def)
  from update_drops_threshold [OF run sample_server_inv this]
  show ?thesis by (simp add: run Let_def) (simp add: sample_client_def)
qed

lemma create_success:
  assumes "create_commit random req st = (Inr resp, st')"
  obtains key where "map_of (st_client_keys st) key = None"
    "st' = st\<lparr>st_client_keys := AList.update key (cq_name req, cq_requests_per_minute req) (st_client_keys st),
         st_clients := st_clients st @ [new_client req],
         st_router := set_client_budget (cq_name req)
           (map_option (\<lambda>b. (b, cq_budget_period req)) (cq_budget_usd req)) (st_router st)\<rparr>"
proof (cases "map_of (st_client_keys st) (unwrap_or (generate_api_key random) (cq_api_key req))")
  case None
  with assms(1) show ?thesis
    by (intro that [of "unwrap_or (generate_api_key random) (cq_api_key req)"])
      (simp_all add: create_commit_def Let_def)
next
  case (Some x)
  with assms(1) show ?thesis by (simp add: create_commit_def Let_def)
qed

text \<open>
  Two creations of one name at once: both pass the check before either has written its client,
  and with different keys both are carried out, so that the name stands for two clients with two
  valid keys, and the budget enforced for it is that of the second.
\<close>

theorem racing_creations:
  assumes "create_check parse auth body st = Inr req" and "create_check parse auth' body' st = Inr req'"
    and "cq_name req' = cq_name req"
    and "create_commit random req st = (Inr resp, st1)" and "create_commit random' req' st1 = (Inr resp', st2)"
  shows "st_clients st2 = st_clients st @ [new_client req, new_client req']
    \<and> \<not> distinct (map cl_name (st_clients st2))
    \<and> map_option bs_budget_usd (ro_client_budgets (st_router st2) (cq_name req)) = cq_budget_usd req'
    \<and> (\<exists>key key'. key \<noteq> key'
         \<and> map_of (st_client_keys st2) key = Some (cq_name req, cq_requests_per_minute req)
         \<and> map_of (st_client_keys st2) key' = Some (cq_name req, cq_requests_per_minute req'))"
proof -
  obtain key where key: "map_of (st_client_keys st) key = None"
      "st1 = st\<lparr>st_client_keys := AList.update key (cq_name req, cq_requests_per_minute req) (st_client_keys st),
         st_clients := st_clients st @ [new_client req],
         st_router := set_client_budget (cq_name req)
           (map_option (\<lambda>b. (b, cq_budget_period req)) (cq_budget_usd req)) (st_router st)\<rparr>"
    using assms(4) by (rule create_success)
  obtain key' where key': "map_of (st_client_keys st1) key' = None"
      "st2 = st1\<lparr>st_client_keys := AList.update key' (cq_name req', cq_requests_per_minute req') (st_client_keys st1),
         st_clients := st_clients st1 @ [new_client req'],
         st_router := set_client_budget (cq_name req')
           (map_option (\<lambda>b. (b, cq_budget_period req')) (cq_budget_usd req')) (st_router st1)\<rparr>"
    using assms(5) by (rule create_success)
  have "key \<noteq> key'" using key' key(2) by (auto simp: update_conv)
  moreover have "map_of (st_client_keys st2) key = Some (cq_name req, cq_requests_per_minute req)"
    "map_of (st_client_keys st2) key' = Some (cq_name req, cq_requests_per_minute req')"
    using \<open>key \<noteq> key'\<close> assms(3) by (simp_all add: key(2) key'(2) update_conv)
  moreover have "st_clients st2 = st_clients st @ [new_client req, new_client req']"
    by (simp add: key(2) key'(2))
  moreover have "map_option bs_budget_usd (ro_client_budgets (st_router st2) (cq_name req)) = cq_budget_usd req'"
    using assms(3) by (simp add: key'(2) set_client_budget_def option.map_comp comp_def option.map_ident)
  ultimately show ?thesis using assms(3) by (auto simp: new_client_def)
qed

definition sample_creation :: create_request where
  "sample_creation =
     \<lparr>cq_name = ''cy'', cq_requests_per_minute = 5, cq_budget_usd = Some 3, cq_budget_period = Daily,
      cq_api_key = None, cq_organization = None, cq_workspace = None, cq_role = Member\<rparr>"

theorem racing_creations_witness:
  "\<exists>st2 :: unit app_state. st_clients st2 = st_clients sample_server @ [new_client sample_creation, new_client sample_creation]
     \<and> \<not> distinct (map cl_name (st_clients st2))"
proof -
  have check: "create_check (\<lambda>_. Inr sample_creation) (Some ''Bearer root'') ''{}'' sample_server
      = Inr sample_creation"
    by (simp add: create_check_def sample_admin sample_creation_def sample_client_def)
  obtain resp1 st1 where one: "create_commit [1] sample_creation sample_server = (Inr resp1, st1)"
    by (simp add: create_commit_def sample_creation_def generate_api_key_def hex_byte_def hex_digit_def Let_def char_of_def bit_0)
  have "st_client_keys (snd (create_commit [1] sample_creation sample_server))
      = [(''key-a'', ''ann'', 60), (''key-b'', ''bob'', 60), (''rp_01'', ''cy'', 5)]"
    by (simp add: create_commit_def sample_creation_def generate_api_key_def hex_byte_def hex_digit_def Let_def char_of_def bit_0)
  then have keys: "st_client_keys st1 = [(''key-a'', ''ann'', 60), (''key-b'', ''bob'', 60), (''rp_01'', ''cy'', 5)]"
    by (simp add: one)
  obtain resp2 st2 where two: "create_commit [2] sample_creation st1 = (Inr resp2, st2)"
    by (simp add: create_commit_def keys sample_creation_def generate_api_key_def hex_byte_def hex_digit_def Let_def char_of_def bit_0)
  from racing_creations [OF check check refl one two] show ?thesis by blast
qed

end
