(* ===== verification/Server_Routes.thy ===== *)
theory Server_Routes
  imports Server_Chat Server_Admin
begin

text \<open>
  The application around the handlers (\<open>crates/server/src/lib.rs\<close>): the routing table, the endpoint of
  the MCP service, and the layers every request passes. Of \<open>axum\<close> and \<open>tower-http\<close> it uses their
  documented behaviour: at each segment of a path a literal is preferred to a capture and a capture to
  the rest of a nested service; \<open>GET\<close> also answers \<open>HEAD\<close>; a path that is there under another method is
  \<open>405\<close>; extractors run before the handler; the CORS layer answers \<open>OPTIONS\<close> itself.
\<close>

section \<open>Requests\<close>

datatype http_method = GET | HEAD | POST | PATCH | DELETE | OPTIONS | Other_Method string

record app_request =
  aq_method :: http_method
  aq_path :: string
  aq_query :: string
  aq_origin :: "string option"
  aq_authorization :: "string option"
  aq_ip :: string
  aq_json_type :: bool
  aq_body :: string

text \<open>
  What the extractors read with \<open>serde\<close>: JSON bodies, query strings and the percent-decoded segment of a
  path. A JSON body that is refused is ill-formed or has other data than the type wants.
\<close>

datatype json_rejection = Syntax_Error | Data_Error

record app_decoders =
  ad_chat :: "string \<Rightarrow> json_rejection + chat_request"
  ad_embed :: "string \<Rightarrow> json_rejection + embeddings_request"
  ad_create :: "string \<Rightarrow> string + create_request"
  ad_update :: "string \<Rightarrow> string + update_request"
  ad_generation_id :: "string \<Rightarrow> string option"
  ad_days :: "string \<Rightarrow> u32 option option"
  ad_name :: "string \<Rightarrow> string option"

section \<open>The routing table\<close>

datatype endpoint =
    Health | Ready | Dashboard | Models | Usage_Stats | Free_Tiers | Provider_Stats
  | Generation | Metrics_Text | Chat | Embeddings
  | List_Clients | Create_Client | List_Organizations | Update_Client | Delete_Client
  | Reset_Spend | Usage_History

datatype target =
    Methods "(http_method \<times> endpoint) list"
  | Mcp_Service

datatype segment = Exactly string | Capture | Rest

fun split_on :: "char \<Rightarrow> string \<Rightarrow> string list" where
  "split_on d [] = [[]]"
| "split_on d (c # cs) =
     (if c = d then [] # split_on d cs
      else case split_on d cs of [] \<Rightarrow> [[c]] | s # ss \<Rightarrow> (c # s) # ss)"

definition path_segments :: "string \<Rightarrow> string list" where
  "path_segments path = split_on (CHR ''/'') (tl path)"

definition route_pattern :: "string \<Rightarrow> segment list" where
  "route_pattern path =
     map (\<lambda>s. if starts_with s ''{'' then Capture else Exactly s) (path_segments path)"

definition routes :: "(string \<times> target) list" where
  "routes =
     [(''/health'', Methods [(GET, Health)]),
      (''/ready'', Methods [(GET, Ready)]),
      (''/dashboard'', Methods [(GET, Dashboard)]),
      (''/v1/models'', Methods [(GET, Models)]),
      (''/v1/usage'', Methods [(GET, Usage_Stats)]),
      (''/v1/free-tiers'', Methods [(GET, Free_Tiers)]),
      (''/v1/providers/stats'', Methods [(GET, Provider_Stats)]),
      (''/v1/generation'', Methods [(GET, Generation)]),
      (''/metrics'', Methods [(GET, Metrics_Text)]),
      (''/v1/chat/completions'', Methods [(POST, Chat)]),
      (''/v1/embeddings'', Methods [(POST, Embeddings)]),
      (''/v1/admin/clients'', Methods [(GET, List_Clients), (POST, Create_Client)]),
      (''/v1/admin/organizations'', Methods [(GET, List_Organizations)]),
      (''/v1/admin/clients/{name}'', Methods [(PATCH, Update_Client), (DELETE, Delete_Client)]),
      (''/v1/admin/clients/{name}/reset-spend'', Methods [(POST, Reset_Spend)]),
      (''/v1/admin/clients/{name}/usage-history'', Methods [(GET, Usage_History)])]"

type_synonym route_table = "(segment list \<times> target) list"

definition route_table :: route_table where
  "route_table = map (\<lambda>(path, t). (route_pattern path, t)) routes"

text \<open>The patterns that go on after one segment, and the target of a path with what it captured.\<close>

definition advance :: "segment \<Rightarrow> (segment list \<times> 'h) list \<Rightarrow> (segment list \<times> 'h) list" where
  "advance seg table =
     List.map_filter
       (\<lambda>(p, h). case p of [] \<Rightarrow> None | q # rest \<Rightarrow> if q = seg then Some (rest, h) else None) table"

fun lookup_route :: "(segment list \<times> 'h) list \<Rightarrow> string list \<Rightarrow> ('h \<times> string list) option" where
  "lookup_route table [] = map_option (\<lambda>h. (h, [])) (map_of table [])"
| "lookup_route table (s # ss) =
     (case lookup_route (advance (Exactly s) table) ss of
        Some found \<Rightarrow> Some found
      | None \<Rightarrow>
          (case (if s = [] then None else lookup_route (advance Capture table) ss) of
             Some (h, captured) \<Rightarrow> Some (h, s # captured)
           | None \<Rightarrow> map_option (\<lambda>h. (h, [])) (map_of table [Rest])))"

text \<open>\<open>mount_mcp\<close>: no service, the service for every path no route has, or nested under a path.\<close>

text \<open>A nested path must start with a slash and be free; \<open>None\<close> is the panic of \<open>nest_service\<close>.\<close>

definition mount_mcp :: "bool \<Rightarrow> string \<Rightarrow> route_table \<Rightarrow> (route_table \<times> bool) option" where
  "mount_mcp enabled mount table =
     (if \<not> enabled then Some (table, False)
      else
        let path = trim_end_slashes mount
        in if path = [] then Some (table, True)
           else if starts_with path ''/'' \<and> route_pattern path \<notin> fst ` set table
           then Some (table @ [(route_pattern path, Mcp_Service), (route_pattern path @ [Rest], Mcp_Service)], False)
           else None)"

section \<open>Cross-origin requests\<close>

datatype cors = Permissive | Only "string list"

text \<open>\<open>AllowOrigin::list\<close> panics when the list contains the wildcard.\<close>

definition build_cors_layer :: "(string \<Rightarrow> bool) \<Rightarrow> string list option \<Rightarrow> cors option" where
  "build_cors_layer header_ok cors_allowed_origins =
     (case cors_allowed_origins of
        None \<Rightarrow> Some Permissive
      | Some origins \<Rightarrow>
          (let parsed = filter header_ok origins
           in if ''*'' \<in> set parsed then None else Some (Only parsed)))"

definition allowed_origin :: "cors \<Rightarrow> string option \<Rightarrow> string option" where
  "allowed_origin c origin =
     (case c of
        Permissive \<Rightarrow> Some ''*''
      | Only origins \<Rightarrow> (case origin of Some v \<Rightarrow> if v \<in> set origins then Some v else None | None \<Rightarrow> None))"

definition add_cors_headers :: "cors \<Rightarrow> string option \<Rightarrow> 'b server_reply \<Rightarrow> 'b server_reply" where
  "add_cors_headers c origin resp =
     (case allowed_origin c origin of
        None \<Rightarrow> resp
      | Some v \<Rightarrow> resp\<lparr>sr_headers := AList.update ''access-control-allow-origin'' v (sr_headers resp)\<rparr>)"

section \<open>The application\<close>

text \<open>
  What \<open>build_app\<close> makes of the state: \<open>'m\<close> is what the MCP service, the library's transport over the
  tools, answers.
\<close>

type_synonym ('m, 'k, 'w) mcp_service =
  "app_request \<Rightarrow> 'k app_state \<Rightarrow> 'w \<Rightarrow> ('m, 'k, 'w) handled"

record ('m, 'k, 'w) app =
  ap_table :: route_table
  ap_mcp_fallback :: bool
  ap_mcp :: "('m, 'k, 'w) mcp_service option"
  ap_cors :: cors
  ap_max_body_bytes :: nat

definition build_app :: "(string \<Rightarrow> bool) \<Rightarrow> ('m, 'k, 'w) mcp_service \<Rightarrow> config \<Rightarrow> ('m, 'k, 'w) app option" where
  "build_app header_ok service config =
     (let mcp = (case cf_mcp config of
                   Some m \<Rightarrow> if mcp_enabled m then Some service else None
                 | None \<Rightarrow> None);
          mount = (case cf_mcp config of Some m \<Rightarrow> mcp_path m | None \<Rightarrow> ''/mcp'')
      in case (build_cors_layer header_ok (sc_cors_allowed_origins (cf_server config)),
               mount_mcp (mcp \<noteq> None) mount route_table) of
           (Some c, Some (table, fallback)) \<Rightarrow>
             Some \<lparr>ap_table = table, ap_mcp_fallback = fallback, ap_mcp = mcp, ap_cors = c,
                   ap_max_body_bytes = sc_max_body_bytes (cf_server config)\<rparr>
         | _ \<Rightarrow> None)"

datatype resolved =
    To endpoint "string list"
  | To_Mcp
  | Wrong_Method
  | No_Route

definition method_endpoint :: "(http_method \<times> endpoint) list \<Rightarrow> http_method \<Rightarrow> endpoint option" where
  "method_endpoint methods m =
     (case map_of methods m of
        Some e \<Rightarrow> Some e
      | None \<Rightarrow> if m = HEAD then map_of methods GET else None)"

definition resolve_route :: "('m, 'k, 'w) app \<Rightarrow> http_method \<Rightarrow> string \<Rightarrow> resolved" where
  "resolve_route app m path =
     (case (if starts_with path ''/'' then lookup_route (ap_table app) (path_segments path) else None) of
        Some (Methods methods, captured) \<Rightarrow>
          (case method_endpoint methods m of Some e \<Rightarrow> To e captured | None \<Rightarrow> Wrong_Method)
      | Some (Mcp_Service, _) \<Rightarrow> To_Mcp
      | None \<Rightarrow> if ap_mcp_fallback app then To_Mcp else No_Route)"

section \<open>Serving a request\<close>

text \<open>The bodies of all handlers; an extractor's refusal and an unknown route have a text or none.\<close>

datatype 'm app_body =
    No_Body
  | Error_Body error_body
  | Rejection
  | Health_Text string
  | Readiness
  | Dashboard_Page
  | Model_List "model_info set"
  | Usage_Report "string \<rightharpoonup> usage_stats"
  | Free_Tier_Report "string \<rightharpoonup> free_tier_status"
  | Provider_Report "string \<rightharpoonup> provider_stats"
  | Generation_Body generation_record
  | Exposition metrics
  | Chat_Body chat_body
  | Embeddings_Body embeddings_response
  | Client_List "admin_client_entry list"
  | Organization_List "(string option \<times> admin_client_entry list) list"
  | Provisioned client_provision
  | Done_Text string
  | History string u32 "daily_usage list"
  | Mcp_Body 'm

type_synonym ('m, 'k, 'w) served =
  "'m app_body server_reply \<times> spend_task list \<times> 'k app_state \<times> 'w"

definition with_body :: "('a \<Rightarrow> 'm app_body) \<Rightarrow> 'a reply_body server_reply \<Rightarrow> 'm app_body server_reply" where
  "with_body f resp =
     \<lparr>sr_status = sr_status resp, sr_headers = sr_headers resp,
      sr_body = (case sr_body resp of Failed e \<Rightarrow> Error_Body e | Answered a \<Rightarrow> f a)\<rparr>"

definition refuse :: "error_body server_reply \<Rightarrow> 'm app_body server_reply" where
  "refuse resp =
     \<lparr>sr_status = sr_status resp, sr_headers = sr_headers resp, sr_body = Error_Body (sr_body resp)\<rparr>"

definition plain_reply :: "nat \<Rightarrow> 'm app_body \<Rightarrow> 'm app_body server_reply" where
  "plain_reply status body = \<lparr>sr_status = status, sr_headers = [], sr_body = body\<rparr>"

definition handled :: "('a \<Rightarrow> 'm app_body) \<Rightarrow> ('a, 'k, 'w) handled \<Rightarrow> ('m, 'k, 'w) served" where
  "handled f = (\<lambda>(resp, tasks, st, w). (with_body f resp, tasks, st, w))"

definition admin_handled :: "('a \<Rightarrow> 'm app_body) \<Rightarrow> 'w \<Rightarrow> 'a admin_reply \<times> 'k app_state \<Rightarrow> ('m, 'k, 'w) served" where
  "admin_handled f w = (\<lambda>(reply, st).
     (case reply of
        Inl e \<Rightarrow> refuse e
      | Inr resp \<Rightarrow> \<lparr>sr_status = sr_status resp, sr_headers = sr_headers resp, sr_body = f (sr_body resp)\<rparr>,
      [], st, w))"

text \<open>The extractors of bodies: the content type first, then the limit, then the data.\<close>

definition extract_bytes :: "nat \<Rightarrow> app_request \<Rightarrow> nat + string" where
  "extract_bytes max_body_bytes rq =
     (if max_body_bytes < length (aq_body rq) then Inl 413 else Inr (aq_body rq))"

fun rejection_status :: "json_rejection \<Rightarrow> nat" where
  "rejection_status Syntax_Error = 400"
| "rejection_status Data_Error = 422"

definition extract_json :: "nat \<Rightarrow> (string \<Rightarrow> json_rejection + 'a) \<Rightarrow> app_request \<Rightarrow> nat + 'a" where
  "extract_json max_body_bytes decode rq =
     (if \<not> aq_json_type rq then Inl 415
      else case extract_bytes max_body_bytes rq of
        Inl status \<Rightarrow> Inl status
      | Inr body \<Rightarrow> map_sum rejection_status id (decode body))"

definition extract_or_400 :: "'a option \<Rightarrow> nat + 'a" where
  "extract_or_400 x = (case x of None \<Rightarrow> Inl 400 | Some a \<Rightarrow> Inr a)"

text \<open>A handler behind an extractor.\<close>

definition extracted :: "nat + 'a \<Rightarrow> ('a \<Rightarrow> 'k app_state \<Rightarrow> 'w \<Rightarrow> ('m, 'k, 'w) served)
    \<Rightarrow> 'k app_state \<Rightarrow> 'w \<Rightarrow> ('m, 'k, 'w) served" where
  "extracted x handler st w =
     (case x of Inl status \<Rightarrow> (plain_reply status Rejection, [], st, w) | Inr a \<Rightarrow> handler a st w)"

fun serve_endpoint :: "('k, 'w) world_ops \<Rightarrow> app_decoders \<Rightarrow> u8 list \<Rightarrow> nat \<Rightarrow> app_request
    \<Rightarrow> endpoint \<Rightarrow> string \<Rightarrow> 'k app_state \<Rightarrow> 'w \<Rightarrow> ('m, 'k, 'w) served" where
  "serve_endpoint ops dec random limit rq Health capture st w =
     (plain_reply 200 (Health_Text health), [], st, w)"
| "serve_endpoint ops dec random limit rq Ready capture st w =
     (plain_reply (ready st) Readiness, [], st, w)"
| "serve_endpoint ops dec random limit rq Dashboard capture st w =
     (\<lparr>sr_status = 200, sr_headers = [(''content-type'', ''text/html; charset=utf-8'')],
       sr_body = Dashboard_Page\<rparr>, [], st, w)"
| "serve_endpoint ops dec random limit rq Models capture st w =
     handled Model_List (list_models ops (aq_authorization rq) st w)"
| "serve_endpoint ops dec random limit rq Usage_Stats capture st w =
     handled Usage_Report (usage_stats_report ops (aq_authorization rq) st w)"
| "serve_endpoint ops dec random limit rq Free_Tiers capture st w =
     handled Free_Tier_Report (free_tiers ops (aq_authorization rq) st w)"
| "serve_endpoint ops dec random limit rq Provider_Stats capture st w =
     handled Provider_Report (provider_stats_report ops (aq_authorization rq) st w)"
| "serve_endpoint ops dec random limit rq Generation capture st w =
     extracted (extract_or_400 (ad_generation_id dec (aq_query rq)))
       (\<lambda>i st w. handled Generation_Body (generation_report ops (aq_authorization rq) i st w)) st w"
| "serve_endpoint ops dec random limit rq Metrics_Text capture st w =
     handled Exposition (metrics_report ops (aq_authorization rq) st w)"
| "serve_endpoint ops dec random limit rq Chat capture st w =
     extracted (extract_json limit (ad_chat dec) rq)
       (\<lambda>req st w. handled Chat_Body (chat_completions ops (aq_authorization rq) (aq_ip rq) req st w)) st w"
| "serve_endpoint ops dec random limit rq Embeddings capture st w =
     extracted (extract_json limit (ad_embed dec) rq)
       (\<lambda>req st w. handled Embeddings_Body (serve_embeddings ops (aq_authorization rq) (aq_ip rq) req st w)) st w"
| "serve_endpoint ops dec random limit rq List_Clients capture st w =
     admin_handled Client_List w (admin_list_clients (rt_unix (wo_rt ops) w) (aq_authorization rq) st)"
| "serve_endpoint ops dec random limit rq Create_Client capture st w =
     extracted (extract_bytes limit rq)
       (\<lambda>body st w. admin_handled Provisioned w
          (admin_create_client (ad_create dec) random (aq_authorization rq) body st)) st w"
| "serve_endpoint ops dec random limit rq List_Organizations capture st w =
     admin_handled Organization_List w
       (admin_list_organizations (rt_unix (wo_rt ops) w) (aq_authorization rq) st)"
| "serve_endpoint ops dec random limit rq Update_Client capture st w =
     extracted (extract_or_400 (ad_name dec capture))
       (\<lambda>name. extracted (extract_bytes limit rq)
          (\<lambda>body st w. admin_handled Provisioned w
             (admin_update_client (ad_update dec) random (aq_authorization rq) name body st))) st w"
| "serve_endpoint ops dec random limit rq Delete_Client capture st w =
     extracted (extract_or_400 (ad_name dec capture))
       (\<lambda>name st w. admin_handled Done_Text w (admin_delete_client (aq_authorization rq) name st)) st w"
| "serve_endpoint ops dec random limit rq Reset_Spend capture st w =
     extracted (extract_or_400 (ad_name dec capture))
       (\<lambda>name st w. admin_handled Done_Text w
          (admin_reset_client_spend (rt_unix (wo_rt ops) w) (aq_authorization rq) name st)) st w"
| "serve_endpoint ops dec random limit rq Usage_History capture st w =
     extracted (extract_or_400 (ad_name dec capture))
       (\<lambda>name. extracted (extract_or_400 (ad_days dec (aq_query rq)))
          (\<lambda>days st w. admin_handled (\<lambda>(n, d, us). History n d us) w
             (admin_client_usage_history (rt_unix (wo_rt ops) w) (aq_authorization rq) name days st, st))) st w"

text \<open>The MCP service behind \<open>mcp_auth\<close>.\<close>

definition serve_mcp :: "('k, 'w) world_ops \<Rightarrow> ('m, 'k, 'w) app \<Rightarrow> app_request \<Rightarrow> 'k app_state \<Rightarrow> 'w
    \<Rightarrow> ('m, 'k, 'w) served" where
  "serve_mcp ops app rq st w =
     (case ap_mcp app of
        Some service \<Rightarrow> handled Mcp_Body (authenticated ops (aq_authorization rq) (service rq) st w)
      | None \<Rightarrow> (plain_reply 404 No_Body, [], st, w))"

definition route_request :: "('k, 'w) world_ops \<Rightarrow> app_decoders \<Rightarrow> u8 list \<Rightarrow> ('m, 'k, 'w) app
    \<Rightarrow> app_request \<Rightarrow> 'k app_state \<Rightarrow> 'w \<Rightarrow> ('m, 'k, 'w) served" where
  "route_request ops dec random app rq st w =
     (case resolve_route app (aq_method rq) (aq_path rq) of
        To e captured \<Rightarrow>
          (case serve_endpoint ops dec random (ap_max_body_bytes app) rq e (case captured of [] \<Rightarrow> [] | name # _ \<Rightarrow> name) st w of
             (resp, rest) \<Rightarrow> (if aq_method rq = HEAD then resp\<lparr>sr_body := No_Body\<rparr> else resp, rest))
      | To_Mcp \<Rightarrow> serve_mcp ops app rq st w
      | Wrong_Method \<Rightarrow> (plain_reply 405 No_Body, [], st, w)
      | No_Route \<Rightarrow> (plain_reply 404 No_Body, [], st, w))"

definition cors_layer :: "cors \<Rightarrow> app_request \<Rightarrow> ('k app_state \<Rightarrow> 'w \<Rightarrow> ('m, 'k, 'w) served)
    \<Rightarrow> 'k app_state \<Rightarrow> 'w \<Rightarrow> ('m, 'k, 'w) served" where
  "cors_layer c rq inner st w =
     (if aq_method rq = OPTIONS
      then (add_cors_headers c (aq_origin rq)
              \<lparr>sr_status = 200,
               sr_headers = [(''access-control-allow-methods'', ''*''), (''access-control-allow-headers'', ''*'')],
               sr_body = No_Body\<rparr>, [], st, w)
      else case inner st w of (resp, rest) \<Rightarrow> (add_cors_headers c (aq_origin rq) resp, rest))"

text \<open>The whole: a permit, then CORS, then the route.\<close>

definition serve_app :: "('k, 'w) world_ops \<Rightarrow> app_decoders \<Rightarrow> u8 list \<Rightarrow> ('m, 'k, 'w) app
    \<Rightarrow> app_request \<Rightarrow> 'k app_state \<Rightarrow> 'w \<Rightarrow> ('m, 'k, 'w) served" where
  "serve_app ops dec random app rq st w =
     (case concurrency_limit
             (\<lambda>st w. case cors_layer (ap_cors app) rq (route_request ops dec random app rq) st w of
                (resp, tasks, rest) \<Rightarrow> ((resp, tasks), rest))
             (\<lambda>e. (refuse e, [])) st w of
        ((resp, tasks), st', w') \<Rightarrow> (resp, tasks, st', w'))"

end
