(* ===== verification/Server_Routes_Facts.thy ===== *)
theory Server_Routes_Facts
  imports Server_Routes Server_Runs
begin

text \<open>
  The application as a whole: the routing table is unambiguous and complete, a request that
  authenticates as nobody changes nothing, every request keeps the server's invariant and gives its
  permit back; and what is answered before authentication.
\<close>

section \<open>Routing\<close>

text \<open>What a path must look like for a pattern, and the captures; a reference for the look-up.\<close>

inductive matches :: "segment list \<Rightarrow> string list \<Rightarrow> string list \<Rightarrow> bool" where
  finished: "matches [] [] []"
| literal: "matches p ss cs \<Longrightarrow> matches (Exactly s # p) (s # ss) cs"
| capture: "s \<noteq> [] \<Longrightarrow> matches p ss cs \<Longrightarrow> matches (Capture # p) (s # ss) (s # cs)"
| rest: "ss \<noteq> [] \<Longrightarrow> matches [Rest] ss []"

inductive_cases matches_NilE: "matches [] ss cs"
inductive_cases matches_ExactlyE: "matches (Exactly s # p) ss cs"
inductive_cases matches_CaptureE: "matches (Capture # p) ss cs"
inductive_cases matches_RestE: "matches (Rest # p) ss cs"
inductive_simps matches_empty: "matches p [] cs"
inductive_simps matches_Cons: "matches p (s # ss) cs"

lemma advance_mem: "(p, h) \<in> set (advance seg table) \<longleftrightarrow> (seg # p, h) \<in> set table"
  by (force simp: advance_def List.map_filter_def split: list.splits if_splits)

lemma lookup_sound:
  "lookup_route table ss = Some (h, cs) \<Longrightarrow> \<exists>p. (p, h) \<in> set table \<and> matches p ss cs"
proof (induction ss arbitrary: table cs)
  case Nil
  then show ?case by (auto dest!: map_of_SomeD intro: matches.finished)
next
  case (Cons s ss)
  show ?case
  proof (cases "lookup_route (advance (Exactly s) table) ss")
    case (Some found)
    with Cons.prems have "lookup_route (advance (Exactly s) table) ss = Some (h, cs)" by simp
    from Cons.IH [OF this] show ?thesis by (auto simp: advance_mem intro: matches.literal)
  next
    case no_literal: None
    show ?thesis
    proof (cases "if s = [] then None else lookup_route (advance Capture table) ss")
      case None
      with Cons.prems no_literal have "map_of table [Rest] = Some h" "cs = []" by auto
      then show ?thesis by (auto dest: map_of_SomeD intro: matches.rest)
    next
      case (Some found)
      obtain k ds where found: "found = (k, ds)" by (cases found)
      with Cons.prems no_literal Some have "h = k" "cs = s # ds" by simp_all
      with Some found have "s \<noteq> []" "lookup_route (advance Capture table) ss = Some (h, ds)"
        by (simp_all split: if_splits)
      with Cons.IH [of "advance Capture table" ds] \<open>cs = s # ds\<close> show ?thesis
        by (auto simp: advance_mem intro: matches.capture)
    qed
  qed
qed

lemma lookup_complete: "(p, h) \<in> set table \<Longrightarrow> matches p ss cs \<Longrightarrow> lookup_route table ss \<noteq> None"
proof (induction ss arbitrary: table p cs)
  case Nil
  then show ?case by (auto simp: matches_empty map_of_eq_None_iff image_iff intro: bexI [rotated])
next
  case (Cons s ss)
  from Cons.prems(2) consider q where "p = Exactly s # q" "matches q ss cs"
    | q ds where "p = Capture # q" "s \<noteq> []" "matches q ss ds" | "p = [Rest]"
    by (auto simp: matches_Cons)
  then show ?case
  proof cases
    case 1
    with Cons.prems(1) Cons.IH [of q "advance (Exactly s) table" cs] show ?thesis by (auto simp: advance_mem)
  next
    case 2
    with Cons.prems(1) Cons.IH [of q "advance Capture table" ds] show ?thesis
      by (auto simp: advance_mem split: option.split)
  next
    case 3
    with Cons.prems(1) have "[Rest] \<in> fst ` set table" by force
    then have "map_of table [Rest] \<noteq> None" by (simp add: map_of_eq_None_iff)
    then show ?thesis by (auto split: option.split)
  qed
qed

text \<open>Whether some path is matched by both patterns, up to empty segments.\<close>

fun overlap :: "segment list \<Rightarrow> segment list \<Rightarrow> bool" where
  "overlap [] [] \<longleftrightarrow> True"
| "overlap (Exactly a # p) (Exactly b # q) \<longleftrightarrow> a = b \<and> overlap p q"
| "overlap (Exactly _ # p) (Capture # q) \<longleftrightarrow> overlap p q"
| "overlap (Capture # p) (Exactly _ # q) \<longleftrightarrow> overlap p q"
| "overlap (Capture # p) (Capture # q) \<longleftrightarrow> overlap p q"
| "overlap (Rest # _) (_ # _) \<longleftrightarrow> True"
| "overlap (_ # _) (Rest # _) \<longleftrightarrow> True"
| "overlap _ _ \<longleftrightarrow> False"

lemma matches_overlap: "matches p ss cs \<Longrightarrow> matches q ss ds \<Longrightarrow> overlap p q"
proof (induction arbitrary: q ds rule: matches.induct)
  case finished then show ?case by (auto simp: matches_empty)
next
  case literal then show ?case by (auto simp: matches_Cons)
next
  case capture then show ?case by (auto simp: matches_Cons)
next
  case (rest ss)
  then show ?case by (cases q) (auto elim: matches_NilE)
qed

lemma overlap_sym: "overlap p q = overlap q p"
proof (induction p q rule: overlap.induct)
  case (6 p q qs) then show ?case by (cases q) simp_all
qed auto

fun unambiguous :: "(segment list \<times> 'h) list \<Rightarrow> bool" where
  "unambiguous [] \<longleftrightarrow> True"
| "unambiguous ((p, h) # table) \<longleftrightarrow> list_all (\<lambda>(q, _). \<not> overlap p q) table \<and> unambiguous table"

lemma unambiguous_unique:
  "unambiguous table \<Longrightarrow> (p, h) \<in> set table \<Longrightarrow> (q, k) \<in> set table \<Longrightarrow> overlap p q \<Longrightarrow> p = q \<and> h = k"
proof (induction table rule: unambiguous.induct)
  case 1 then show ?case by simp
next
  case 2 then show ?case by (auto simp: list_all_iff overlap_sym)
qed

lemma route_table_eq:
  "route_table =
     [([Exactly ''health''], Methods [(GET, Health)]),
      ([Exactly ''ready''], Methods [(GET, Ready)]),
      ([Exactly ''dashboard''], Methods [(GET, Dashboard)]),
      ([Exactly ''v1'', Exactly ''models''], Methods [(GET, Models)]),
      ([Exactly ''v1'', Exactly ''usage''], Methods [(GET, Usage_Stats)]),
      ([Exactly ''v1'', Exactly ''free-tiers''], Methods [(GET, Free_Tiers)]),
      ([Exactly ''v1'', Exactly ''providers'', Exactly ''stats''], Methods [(GET, Provider_Stats)]),
      ([Exactly ''v1'', Exactly ''generation''], Methods [(GET, Generation)]),
      ([Exactly ''metrics''], Methods [(GET, Metrics_Text)]),
      ([Exactly ''v1'', Exactly ''chat'', Exactly ''completions''], Methods [(POST, Chat)]),
      ([Exactly ''v1'', Exactly ''embeddings''], Methods [(POST, Embeddings)]),
      ([Exactly ''v1'', Exactly ''admin'', Exactly ''clients''],
         Methods [(GET, List_Clients), (POST, Create_Client)]),
      ([Exactly ''v1'', Exactly ''admin'', Exactly ''organizations''], Methods [(GET, List_Organizations)]),
      ([Exactly ''v1'', Exactly ''admin'', Exactly ''clients'', Capture],
         Methods [(PATCH, Update_Client), (DELETE, Delete_Client)]),
      ([Exactly ''v1'', Exactly ''admin'', Exactly ''clients'', Capture, Exactly ''reset-spend''],
         Methods [(POST, Reset_Spend)]),
      ([Exactly ''v1'', Exactly ''admin'', Exactly ''clients'', Capture, Exactly ''usage-history''],
         Methods [(GET, Usage_History)])]"
  by (simp add: route_table_def routes_def route_pattern_def path_segments_def starts_with_def)

lemma route_table_unambiguous: "unambiguous route_table"
  by (simp add: route_table_eq)

lemma matches_unique: "matches p ss cs \<Longrightarrow> matches p ss ds \<Longrightarrow> cs = ds"
proof (induction arbitrary: ds rule: matches.induct)
  case finished then show ?case by (auto elim: matches_NilE)
next
  case literal from literal.prems literal.IH show ?case by (auto elim: matches_ExactlyE)
next
  case capture from capture.prems capture.IH show ?case by (auto elim!: matches_CaptureE)
next
  case rest from rest.prems show ?case by (auto elim: matches_RestE)
qed

text \<open>A table whose other routes, those of the service, match no path that a route matches.\<close>

definition mount_apart :: "('m, 'k, 'w) app \<Rightarrow> bool" where
  "mount_apart app \<longleftrightarrow>
     (\<exists>mounted. ap_table app = route_table @ mounted
        \<and> list_all (\<lambda>(q, t). t = Mcp_Service \<and> list_all (\<lambda>(p, _). \<not> overlap p q) route_table) mounted)"


section \<open>The permit\<close>

lemma concurrency_limit_cases:
  assumes "concurrency_limit h wrap st w = (resp, st', w')"
  obtains (shed) "st_permits st = Some 0" "resp = wrap (json_error 503 ''server is at capacity, try again shortly'')"
      "st' = st" "w' = w"
  | (free) "st_permits st = None" "h st w = (resp, st', w')"
  | (held) n st1 where "st_permits st = Some (Suc n)" "h (st\<lparr>st_permits := Some n\<rparr>) w = (resp, st1, w')"
      "st' = st1\<lparr>st_permits := map_option Suc (st_permits st1)\<rparr>"
  using assms by (auto simp: concurrency_limit_def split: option.splits nat.splits prod.splits)

lemma permits_irrelevant [simp]:
  "no_auth_configured (st\<lparr>st_permits := p\<rparr>) = no_auth_configured st"
  "key_accepted (st\<lparr>st_permits := p\<rparr>) = key_accepted st"
  "check_admin_auth (st\<lparr>st_permits := p\<rparr>) authorization = check_admin_auth st authorization"
  "server_inv (st\<lparr>st_permits := p\<rparr>) = server_inv st"
  by (auto simp: no_auth_configured_def key_accepted_def check_admin_auth_def admin_api_enabled_def
      server_inv_def fun_eq_iff split: option.split)

lemma verify_token_permits:
  "verify_token lib token (st\<lparr>st_permits := p\<rparr>) w =
     (case verify_token lib token st w of (claims, st', w') \<Rightarrow> (claims, st'\<lparr>st_permits := p\<rparr>, w'))"
  by (simp add: verify_token_def split: option.split prod.split)

lemma check_auth_permits:
  "fst (check_auth lib authorization (st\<lparr>st_permits := p\<rparr>) w) = fst (check_auth lib authorization st w)"
  by (auto simp: check_auth_def verify_token_permits split: option.split prod.split)

section \<open>A request that authenticates as nobody\<close>

definition nobody :: "('k, 'w) world_ops \<Rightarrow> string option \<Rightarrow> 'k app_state \<Rightarrow> 'w \<Rightarrow> bool" where
  "nobody ops authorization st w \<longleftrightarrow>
     fst (check_auth (wo_jwt ops) authorization st w) \<noteq> None \<and> isl (check_admin_auth st authorization)"

lemma nobody_permits [simp]: "nobody ops authorization (st\<lparr>st_permits := p\<rparr>) w = nobody ops authorization st w"
  by (simp add: nobody_def check_auth_permits)

lemma check_auth_status: "check_auth lib authorization st w = (Some e, st', w') \<Longrightarrow> sr_status e = 401"
  by (auto simp: check_auth_def unauthorized_def json_error_def json_error_with_retry_after_def
      status_code_of_def Let_def split: if_splits option.splits prod.splits)

lemma check_admin_status: "check_admin_auth st authorization = Inl e \<Longrightarrow> sr_status e \<in> {401, 404}"
  by (auto simp: check_admin_auth_def admin_unauthorized_def json_error_def json_error_with_retry_after_def
      status_code_of_def Let_def split: if_splits option.splits)

text \<open>What a refusal leaves: the cache of the JWT verifier may be new, nothing else.\<close>

definition refused :: "nat set \<Rightarrow> 'k app_state \<Rightarrow> ('m, 'k, 'w) served \<Rightarrow> bool" where
  "refused codes st = (\<lambda>(resp, tasks, st', w').
     sr_status resp \<in> codes \<and> tasks = [] \<and> (\<exists>jwt. st' = st\<lparr>st_jwt := jwt\<rparr>))"

lemma same_jwt [simp]: "\<exists>jwt. st = st\<lparr>st_jwt := jwt\<rparr>"
  by (rule exI [of _ "st_jwt st"]) simp

lemma refused_authenticated:
  assumes "nobody ops authorization st w" and "401 \<in> codes"
  shows "refused codes st (handled f (authenticated ops authorization h st w))"
proof -
  obtain e st1 w1 where auth: "check_auth (wo_jwt ops) authorization st w = (Some e, st1, w1)"
    using assms(1) by (cases "check_auth (wo_jwt ops) authorization st w") (auto simp: nobody_def)
  with assms(2) check_auth_status [OF auth] check_auth_aside [OF auth] show ?thesis
    by (simp add: refused_def handled_def authenticated_def failed_def with_body_def)
qed

lemma refused_admin:
  assumes "nobody ops authorization st w" and "{401, 404} \<subseteq> codes"
    and "\<And>e. check_admin_auth st authorization = Inl e \<Longrightarrow> reply = (Inl e, st)"
  shows "refused codes st (admin_handled f w reply)"
proof -
  obtain e where e: "check_admin_auth st authorization = Inl e"
    using assms(1) by (auto simp: nobody_def isl_def)
  with assms(2) assms(3) [OF e] check_admin_status [OF e] show ?thesis
    by (auto simp: refused_def admin_handled_def refuse_def)
qed

lemma refused_extracted:
  assumes "\<And>a. x = Inr a \<Longrightarrow> refused codes st (handler a st w)" and "\<And>status. x = Inl status \<Longrightarrow> status \<in> codes"
  shows "refused codes st (extracted x handler st w)"
  using assms by (cases x) (auto simp: extracted_def refused_def plain_reply_def)

lemma rejection_codes: "rejection_status e \<in> {400, 422}"
  by (cases e) simp_all

lemma extract_json_status: "extract_json limit decode rq = Inl status \<Longrightarrow> status \<in> {400, 413, 415, 422}"
  using rejection_codes
  by (auto simp: extract_json_def extract_bytes_def map_sum_def split: if_splits sum.splits)

lemma extract_bytes_status: "extract_bytes limit rq = Inl status \<Longrightarrow> status = 413"
  by (simp add: extract_bytes_def split: if_splits)

lemma extract_or_400_status: "extract_or_400 x = Inl status \<Longrightarrow> status = 400"
  by (simp add: extract_or_400_def split: option.splits)

lemmas extract_status = extract_json_status extract_bytes_status extract_or_400_status

definition refusal_codes :: "nat set" where
  "refusal_codes = {400, 401, 404, 405, 413, 415, 422, 503}"

definition public_endpoint :: "endpoint \<Rightarrow> bool" where
  "public_endpoint e \<longleftrightarrow> e = Health \<or> e = Ready \<or> e = Dashboard"

lemma endpoint_refused:
  assumes nobody: "nobody ops (aq_authorization rq) st w" and "\<not> public_endpoint e"
  shows "refused refusal_codes st (serve_endpoint ops dec random limit rq e capture st w)"
proof -
  have codes: "401 \<in> refusal_codes" "{401, 404} \<subseteq> refusal_codes" by (simp_all add: refusal_codes_def)
  note client = refused_authenticated [OF nobody codes(1)] and admin = refused_admin [OF nobody codes(2)]
  have status: "status \<in> refusal_codes" if "status \<in> {400, 413, 415, 422} \<or> status = 413 \<or> status = 400" for status
    using that by (auto simp: refusal_codes_def)
  show ?thesis using assms(2)
    by (cases e)
      (auto simp: public_endpoint_def list_models_def usage_stats_report_def free_tiers_def
        provider_stats_report_def generation_report_def metrics_report_def chat_completions_def
        serve_embeddings_def rate_limited_def admin_list_clients_def admin_create_client_def
        create_check_def admin_list_organizations_def admin_update_client_def admin_delete_client_def
        admin_reset_client_spend_def admin_client_usage_history_def
        intro!: client admin refused_extracted dest!: extract_status intro: status)
qed

lemma refused_resp:
  "refused codes st (resp, rest) \<Longrightarrow> sr_status resp' = sr_status resp \<Longrightarrow> refused codes st (resp', rest)"
  by (simp add: refused_def split: prod.splits)

lemma add_cors_status [simp]: "sr_status (add_cors_headers c origin resp) = sr_status resp"
  by (simp add: add_cors_headers_def split: option.split)

lemma route_refused:
  fixes app :: "('m, 'k, 'w) app"
  assumes nobody: "nobody ops (aq_authorization rq) st w"
    and "\<And>e captured. resolve_route app (aq_method rq) (aq_path rq) = To e captured \<Longrightarrow> \<not> public_endpoint e"
  shows "refused refusal_codes st (route_request ops dec random app rq st w)"
proof (cases "resolve_route app (aq_method rq) (aq_path rq)")
  case (To e captured)
  let ?name = "case captured of [] \<Rightarrow> [] | name # _ \<Rightarrow> name"
  have "refused refusal_codes st
      (serve_endpoint ops dec random (ap_max_body_bytes app) rq e ?name st w :: ('m, 'k, 'w) served)"
    by (rule endpoint_refused [OF nobody assms(2) [OF To]])
  then show ?thesis by (auto simp: route_request_def To intro: refused_resp split: prod.split)
next
  case To_Mcp
  show ?thesis
  proof (cases "ap_mcp app")
    case None
    with To_Mcp show ?thesis
      by (simp add: route_request_def serve_mcp_def refused_def plain_reply_def refusal_codes_def)
  next
    case (Some service)
    with To_Mcp show ?thesis
      by (simp add: route_request_def serve_mcp_def refusal_codes_def refused_authenticated [OF nobody])
  qed
qed (simp_all add: route_request_def refused_def plain_reply_def refusal_codes_def)

text \<open>
  \<^bold>\<open>C11.\<close> A request whose token is neither the shared key, a client's key, a valid JWT nor an
  administrator's, on a server that has authentication configured, is refused wherever it is routed, the MCP
  endpoint included, unless it asks for \<open>/health\<close>, \<open>/ready\<close> or \<open>/dashboard\<close> or is a CORS preflight: it
  is answered with an error status, spawns nothing, and leaves the router, the rate limits, the clients, the keys
  and the permits as they were; only the cached keys of the JWT verifier may be fetched anew.
\<close>

theorem nobody_changes_nothing:
  assumes "fst (check_auth (wo_jwt ops) (aq_authorization rq) st w) \<noteq> None"
    and "isl (check_admin_auth st (aq_authorization rq))"
    and "serve_app ops dec random app rq st w = (resp, tasks, st', w')"
    and "aq_method rq \<noteq> OPTIONS"
    and "\<And>e captured. resolve_route app (aq_method rq) (aq_path rq) = To e captured \<Longrightarrow> e \<notin> {Health, Ready, Dashboard}"
  shows "sr_status resp \<in> {400, 401, 404, 405, 413, 415, 422, 503}
    \<and> tasks = [] \<and> (\<exists>jwt. st' = st\<lparr>st_jwt := jwt\<rparr>)"
proof -
  have nobody: "nobody ops (aq_authorization rq) (st\<lparr>st_permits := p\<rparr>) w" for p
    using assms(1,2) by (simp add: nobody_def check_auth_permits)
  have public: "\<not> public_endpoint e" if "resolve_route app (aq_method rq) (aq_path rq) = To e captured" for e captured
    using assms(5) [OF that] by (simp add: public_endpoint_def)
  let ?route = "route_request ops dec random app rq"
  let ?inner = "\<lambda>st w. case cors_layer (ap_cors app) rq ?route st w of (resp, tasks, rest) \<Rightarrow> ((resp, tasks), rest)"
  have inner: "refused refusal_codes (st\<lparr>st_permits := p\<rparr>) (r, ts, s1, w1)"
    if "?inner (st\<lparr>st_permits := p\<rparr>) w = ((r, ts), s1, w1)" for p r ts s1 w1
  proof -
    obtain r0 rest where routed: "?route (st\<lparr>st_permits := p\<rparr>) w = (r0, rest)" by (rule prod.exhaust)
    have "refused refusal_codes (st\<lparr>st_permits := p\<rparr>) (?route (st\<lparr>st_permits := p\<rparr>) w)"
      by (rule route_refused [OF nobody public])
    with routed have "refused refusal_codes (st\<lparr>st_permits := p\<rparr>) (r0, rest)" by simp
    with that assms(4) routed show ?thesis
      by (auto simp: cors_layer_def intro: refused_resp split: prod.splits)
  qed
  obtain run where run: "concurrency_limit ?inner (\<lambda>e. (refuse e, [])) st w = ((resp, tasks), st', w')"
    using assms(3) by (auto simp: serve_app_def split: prod.splits)
  have "refused refusal_codes st (resp, tasks, st', w')"
    using run
  proof (cases rule: concurrency_limit_cases)
    case shed
    then show ?thesis
      by (simp add: refused_def refusal_codes_def refuse_def json_error_def json_error_with_retry_after_def
          status_code_of_def Let_def)
  next
    case free
    from free(1) have "st\<lparr>st_permits := None\<rparr> = st" by simp
    with inner [of None] free(2) show ?thesis by metis
  next
    case (held n st1)
    from inner [OF held(2)] obtain jwt where "st1 = st\<lparr>st_permits := Some n, st_jwt := jwt\<rparr>"
      and codes: "sr_status resp \<in> refusal_codes" "tasks = []" by (auto simp: refused_def)
    with held(1,3) have "st' = st\<lparr>st_jwt := jwt\<rparr>" by simp
    with codes show ?thesis by (auto simp: refused_def)
  qed
  then show ?thesis by (simp add: refused_def refusal_codes_def)
qed

section \<open>Every request keeps the server sound\<close>

text \<open>A request's effect: a run of the router, the invariant of keys and clients, the permits.\<close>

definition keeps :: "('k, 'w) world_ops \<Rightarrow> 'k app_state \<times> 'w \<Rightarrow> ('m, 'k, 'w) served \<Rightarrow> bool" where
  "keeps ops s = (\<lambda>(resp, tasks, s').
     (router_step (wo_rt ops))\<^sup>*\<^sup>* (st_router (fst s), snd s) (st_router (fst s'), snd s')
     \<and> (server_inv (fst s) \<longrightarrow> server_inv (fst s')) \<and> st_permits (fst s') = st_permits (fst s))"

lemma keeps_unchanged: "keeps ops (st, w) (resp, tasks, st, w)"
  by (simp add: keeps_def)

lemma keeps_serves:
  assumes "serves (wo_rt ops) (st, w) (st', w')"
  shows "keeps ops (st, w) (resp, tasks, st', w')"
  using serves_runs [OF assms] serves_inv [OF assms] assms
  by (simp add: keeps_def serves_def provisioned_def)

lemma keeps_handled:
  assumes "\<And>resp tasks st' w'. x = (resp, tasks, st', w') \<Longrightarrow> serves (wo_rt ops) (st, w) (st', w')"
  shows "keeps ops (st, w) (handled f x)"
  using assms by (cases x) (auto simp: handled_def intro: keeps_serves)

lemma keeps_admin:
  assumes "(router_step (wo_rt ops))\<^sup>*\<^sup>* (st_router st, w) (st_router (snd x), w)"
    and "server_inv st \<Longrightarrow> server_inv (snd x)" and "st_permits (snd x) = st_permits st"
  shows "keeps ops (st, w) (admin_handled f w x)"
  using assms by (cases x) (simp add: keeps_def admin_handled_def)

lemma keeps_extracted:
  "(\<And>a. x = Inr a \<Longrightarrow> keeps ops (st, w) (handler a st w)) \<Longrightarrow> keeps ops (st, w) (extracted x handler st w)"
  by (cases x) (auto simp: extracted_def keeps_unchanged)

lemma admin_permits [simp]:
  "st_permits (snd (admin_list_clients now authorization st)) = st_permits st"
  "st_permits (snd (admin_list_organizations now authorization st)) = st_permits st"
  "st_permits (snd (admin_create_client parse random authorization body st)) = st_permits st"
  "st_permits (snd (admin_delete_client authorization name st)) = st_permits st"
  "st_permits (snd (admin_reset_client_spend now authorization name st)) = st_permits st"
  by (auto simp: admin_list_clients_def admin_list_organizations_def admin_create_client_def create_commit_def
      admin_delete_client_def admin_reset_client_spend_def Let_def split: sum.split prod.split bool.split)

lemma admin_update_permits [simp]:
  "st_permits (snd (admin_update_client parse random authorization name body st)) = st_permits st"
  by (auto simp: admin_update_client_def Let_def case_prod_beta split: sum.split option.split)

lemma endpoint_keeps: "keeps ops (st, w) (serve_endpoint ops dec random limit rq e capture st w)"
  by (cases e)
    (auto simp: keeps_unchanged intro!: keeps_handled keeps_extracted keeps_admin
      intro: handler_runs admin_runs admin_invs)

lemma keeps_resp: "keeps ops s (resp, rest) \<Longrightarrow> keeps ops s (resp', rest)"
  by (simp add: keeps_def split: prod.splits)

lemma route_keeps:
  fixes app :: "('m, 'k, 'w) app"
  assumes "\<And>service. ap_mcp app = Some service \<Longrightarrow> request_handler ops (\<lambda>client. service rq)"
  shows "keeps ops (st, w) (route_request ops dec random app rq st w)"
proof (cases "resolve_route app (aq_method rq) (aq_path rq)")
  case (To e captured)
  let ?name = "case captured of [] \<Rightarrow> [] | name # _ \<Rightarrow> name"
  have "keeps ops (st, w)
      (serve_endpoint ops dec random (ap_max_body_bytes app) rq e ?name st w :: ('m, 'k, 'w) served)"
    by (rule endpoint_keeps)
  then show ?thesis by (auto simp: route_request_def To intro: keeps_resp split: prod.split)
next
  case To_Mcp
  show ?thesis
  proof (cases "ap_mcp app")
    case None
    with To_Mcp show ?thesis by (simp add: route_request_def serve_mcp_def keeps_unchanged)
  next
    case (Some service)
    have "keeps ops (st, w)
        (handled Mcp_Body (authenticated ops (aq_authorization rq) (service rq) st w) :: ('m, 'k, 'w) served)"
      by (rule keeps_handled)
        (rule request_handler.authenticated_runs [OF assms [OF Some]])
    with To_Mcp Some show ?thesis by (simp add: route_request_def serve_mcp_def)
  qed
qed (simp_all add: route_request_def keeps_unchanged)

text \<open>
  Whatever request reaches the application, however it is routed, and whatever its body, the
  server stays sound: the router makes a run of its own operations, the agreement of keys, clients and
  enforced budgets is kept, and the permit the request held is given back. Of the MCP service it is
  required that it is a handler over the router, as the server's own tools are.
\<close>

lemma app_request_keeps:
  assumes "serve_app ops dec random app rq st w = (resp, tasks, st', w')"
    and "\<And>service. ap_mcp app = Some service \<Longrightarrow> request_handler ops (\<lambda>client. service rq)"
  shows "(router_step (wo_rt ops))\<^sup>*\<^sup>* (st_router st, w) (st_router st', w')
    \<and> (server_inv st \<longrightarrow> server_inv st') \<and> st_permits st' = st_permits st"
proof -
  let ?route = "route_request ops dec random app rq"
  let ?inner = "\<lambda>st w. case cors_layer (ap_cors app) rq ?route st w of (resp, tasks, rest) \<Rightarrow> ((resp, tasks), rest)"
  have inner: "keeps ops (st, w) (r, ts, s1, w1)" if "?inner st w = ((r, ts), s1, w1)" for st r ts s1 w1
  proof -
    have "keeps ops (st, w) (?route st w)" by (rule route_keeps) (rule assms(2))
    with that show ?thesis
      by (auto simp: cors_layer_def intro: keeps_unchanged keeps_resp split: if_splits prod.splits)
  qed
  have run: "concurrency_limit ?inner (\<lambda>e. (refuse e, [])) st w = ((resp, tasks), st', w')"
    using assms(1) by (auto simp: serve_app_def split: prod.splits)
  then show ?thesis
  proof (cases rule: concurrency_limit_cases)
    case shed
    then show ?thesis by simp
  next
    case free
    from inner [OF free(2)] show ?thesis by (simp add: keeps_def)
  next
    case (held n st1)
    from inner [OF held(2)] held(1,3) show ?thesis by (simp add: keeps_def)
  qed
qed

section \<open>What is answered before authentication\<close>

text \<open>
  A chat request whose body is not read, because its content type is another, it is too long, or it
  is no chat request, is answered with the status of the extractor whoever sends it: no
  key is asked for, and no rate limit is taken. The admin handlers avoid this for their bodies, not
  for the query of a usage history: a \<open>days\<close> that is no number is \<open>400\<close> even with the admin API off.
\<close>

theorem extractors_run_first:
  assumes "resolve_route app (aq_method rq) (aq_path rq) = To e captured"
    and "aq_method rq \<noteq> OPTIONS" and "st_permits st = None"
    and "e = Chat \<and> extract_json (ap_max_body_bytes app) (ad_chat dec) rq = Inl status
      \<or> e = Usage_History \<and> captured = [c] \<and> ad_name dec c \<noteq> None \<and> ad_days dec (aq_query rq) = None
          \<and> status = 400"
  shows "\<exists>resp. serve_app ops dec random app rq st w = (resp, [], st, w) \<and> sr_status resp = status"
  using assms
  by (auto simp: serve_app_def concurrency_limit_def cors_layer_def route_request_def extracted_def
      plain_reply_def extract_or_400_def)

lemma wildcard_origin_panics: "header_ok ''*'' \<Longrightarrow> build_cors_layer header_ok (Some [''*'']) = None"
  by (simp add: build_cors_layer_def)

section \<open>A sample application\<close>

definition sample_service :: "(mcp_error + chat_completion_output, unit, script) mcp_service" where
  "sample_service rq st w =
     (case mcp_chat_completion (wo_rt sample_ops) (\<lambda>_. [])
             \<lparr>ca_model = ''a/m'', ca_messages = [], ca_temperature = None, ca_max_tokens = None\<rparr>
             (st_router st) w of
        (res, r', w') \<Rightarrow> (answered res, [], st\<lparr>st_router := r'\<rparr>, w'))"

lemma sample_service_handles: "request_handler sample_ops (\<lambda>client. sample_service rq)"
  unfolding sample_service_def [abs_def] by (rule mcp_chat_handler.request_handler_axioms)

definition mcp_app :: "(mcp_error + chat_completion_output, unit, script) app" where
  "mcp_app =
     \<lparr>ap_table = route_table @ [([Exactly ''mcp''], Mcp_Service), ([Exactly ''mcp'', Rest], Mcp_Service)],
      ap_mcp_fallback = False, ap_mcp = Some sample_service, ap_cors = Permissive,
      ap_max_body_bytes = default_max_body_bytes\<rparr>"

definition mcp_setup :: mcp_config where
  "mcp_setup =
     \<lparr>mcp_enabled = True, mcp_path = default_mcp_path, mcp_upstreams = [], mcp_reconnect_backoff_secs = 1,
      mcp_reconnect_backoff_max_secs = 60, mcp_max_reconnect_attempts = None\<rparr>"

lemma mcp_app_built:
  "build_app (\<lambda>_. True) sample_service (two_clients\<lparr>cf_mcp := Some mcp_setup\<rparr>) = Some mcp_app"
proof -
  have "route_pattern ''/mcp'' = [Exactly ''mcp'']" "trim_end_slashes ''/mcp'' = ''/mcp''"
    by (simp_all add: route_pattern_def path_segments_def starts_with_def trim_end_slashes_def)
  moreover have "[Exactly ''mcp''] \<notin> fst ` set route_table" by (simp add: route_table_eq)
  ultimately show ?thesis
    by (simp add: build_app_def mcp_app_def mcp_setup_def default_mcp_path_def mount_mcp_def starts_with_def
        build_cors_layer_def default_server_config_def)
qed

lemma mcp_app_apart: "mount_apart mcp_app"
  unfolding mount_apart_def
  by (rule exI [of _ "[([Exactly ''mcp''], Mcp_Service), ([Exactly ''mcp'', Rest], Mcp_Service)]"])
    (simp add: mcp_app_def, simp add: route_table_eq)


definition sample_decoders :: app_decoders where
  "sample_decoders =
     \<lparr>ad_chat = (\<lambda>_. Inl Syntax_Error), ad_embed = (\<lambda>_. Inl Syntax_Error), ad_create = (\<lambda>_. Inl []),
      ad_update = (\<lambda>_. Inl []), ad_generation_id = (\<lambda>_. None), ad_days = (\<lambda>_. None), ad_name = Some\<rparr>"

definition anonymous :: "http_method \<Rightarrow> string \<Rightarrow> app_request" where
  "anonymous m path =
     \<lparr>aq_method = m, aq_path = path, aq_query = [], aq_origin = None, aq_authorization = None,
      aq_ip = ''10.0.0.1'', aq_json_type = True, aq_body = []\<rparr>"

lemma anonymous_simps [simp]:
  "aq_method (anonymous m path) = m" "aq_path (anonymous m path) = path"
  "aq_authorization (anonymous m path) = None" "aq_json_type (anonymous m path) = True"
  "aq_body (anonymous m path) = []"
  by (simp_all add: anonymous_def)

lemma sample_nobody:
  "fst (check_auth (wo_jwt sample_ops) None sample_server w) \<noteq> None" "isl (check_admin_auth sample_server None)"
  by (simp_all add: check_auth_def no_auth_configured_def bearer_token_def check_admin_auth_def admin_api_enabled_def)

lemma mcp_app_routes:
  "resolve_route mcp_app DELETE ''/v1/admin/clients/bob'' = To Delete_Client [''bob'']"
  "resolve_route mcp_app POST ''/v1/chat/completions'' = To Chat []"
  by (simp_all add: resolve_route_def mcp_app_def route_table_eq path_segments_def starts_with_def advance_def
      List.map_filter_simps method_endpoint_def)

theorem nobody_changes_nothing_witness:
  "case serve_app sample_ops sample_decoders [] mcp_app (anonymous DELETE ''/v1/admin/clients/bob'') sample_server (0, []) of
     (resp, tasks, st', w') \<Rightarrow>
       sr_status resp \<in> {400, 401, 404, 405, 413, 415, 422, 503}
       \<and> st_clients st' = [sample_client ''ann'' ''A'' Admin, sample_client ''bob'' ''B'' Member]"
proof -
  let ?rq = "anonymous DELETE ''/v1/admin/clients/bob''"
  obtain resp tasks st' w' where
    run: "serve_app sample_ops sample_decoders [] mcp_app ?rq sample_server (0, []) = (resp, tasks, st', w')"
    by (rule prod_cases4)
  have "sr_status resp \<in> {400, 401, 404, 405, 413, 415, 422, 503} \<and> tasks = []
      \<and> (\<exists>jwt. st' = sample_server\<lparr>st_jwt := jwt\<rparr>)"
    by (rule nobody_changes_nothing [OF _ _ run]) (simp_all add: sample_nobody mcp_app_routes)
  then show ?thesis unfolding run by auto
qed

theorem extractors_run_first_witness:
  "\<exists>resp. serve_app sample_ops sample_decoders [] mcp_app (anonymous POST ''/v1/chat/completions'') sample_server (0, [])
       = (resp, [], sample_server, (0, [])) \<and> sr_status resp = 400"
proof -
  let ?rq = "anonymous POST ''/v1/chat/completions''"
  have body: "extract_json (ap_max_body_bytes mcp_app) (ad_chat sample_decoders) ?rq = Inl 400"
    by (simp add: extract_json_def extract_bytes_def sample_decoders_def)
  have permits: "st_permits sample_server = None"
    by (simp add: sample_server_def server_start_def default_server_config_def)
  have route: "resolve_route mcp_app (aq_method ?rq) (aq_path ?rq) = To Chat []" by (simp add: mcp_app_routes)
  show ?thesis using extractors_run_first [OF route _ permits disjI1, of sample_decoders 400] body by simp
qed

end
