(* ===== verification/Cli_Setup.thy ===== *)
theory Cli_Setup
  imports Prelude
begin

text \<open>
  \<open>rp-cli setup\<close> (\<open>crates/cli/src/setup.rs\<close>): the configuration file of another tool is read, the
  fields of a target are set in it at dotted paths, and the result is written back beside a backup.
  A document is a tree of tables; strings are what \<open>setup\<close> writes, and every other value is one of
  the library's, of a type \<open>'v\<close>. Reading and printing JSON and TOML are \<open>serde_json\<close>'s and \<open>toml\<close>'s, and
  parameters. The disk is the regular files by path, and the failures of its calls.
\<close>

section \<open>Documents\<close>

text \<open>Tables are maps: \<open>serde_json::Map\<close> and \<open>toml::Table\<close> print their entries in the order of the keys.\<close>

datatype 'v doc =
    Doc_Text string
  | Doc_Value 'v
  | Doc_Table "string \<Rightarrow> 'v doc option"

definition empty_doc :: "'v doc" where
  "empty_doc = Doc_Table Map.empty"

text \<open>\<open>path_prefix_label\<close> of the segments already passed.\<close>

definition path_prefix_label :: "string list \<Rightarrow> string" where
  "path_prefix_label passed = (if passed = [] then ''the file root'' else quoted (join ''.'' passed))"

text \<open>
  \<open>set_json_path\<close> and \<open>set_toml_path\<close> differ in the word for a table only. \<open>passed\<close> are the segments
  above \<open>cur\<close>; \<open>entry(..).or_insert_with(..)\<close> opens a table where there is none.
\<close>

fun set_path :: "string \<Rightarrow> string list \<Rightarrow> string list \<Rightarrow> 'v doc \<Rightarrow> 'v doc \<Rightarrow> string + 'v doc" where
  "set_path noun passed [] v cur = Inr cur"
| "set_path noun passed (seg # rest) v cur =
     (case cur of
        Doc_Table m \<Rightarrow>
          if rest = [] then Inr (Doc_Table (m(seg \<mapsto> v)))
          else map_sum id (\<lambda>sub. Doc_Table (m(seg \<mapsto> sub)))
                 (set_path noun (passed @ [seg]) rest v (unwrap_or empty_doc (m seg)))
      | _ \<Rightarrow> Inl (''cannot set '' @ quoted (join ''.'' (passed @ seg # rest)) @ '': ''
                  @ path_prefix_label passed @ '' is not '' @ noun @ '' in the existing file''))"

definition set_json_path :: "'v doc \<Rightarrow> string list \<Rightarrow> 'v doc \<Rightarrow> string + 'v doc" where
  "set_json_path doc path v = set_path ''an object'' [] path v doc"

definition set_toml_path :: "'v doc \<Rightarrow> string list \<Rightarrow> 'v doc \<Rightarrow> string + 'v doc" where
  "set_toml_path doc path v = set_path ''a table'' [] path v doc"

section \<open>Targets\<close>

datatype doc_format = Json_File | Toml_File

record field_spec =
  fs_path :: string
  fs_value :: string
  fs_requires_api_key_env :: bool

record setup_target =
  tg_name :: string
  tg_description :: string
  tg_config_path :: string
  tg_format :: doc_format
  tg_fields :: "field_spec list"

text \<open>\<open>str::replace\<close> with a pattern that is not empty: occurrences from the left, none overlapping.\<close>

fun replace_all :: "string \<Rightarrow> string \<Rightarrow> string \<Rightarrow> string" where
  "replace_all pat to [] = []"
| "replace_all pat to (c # cs) =
     (if starts_with (c # cs) pat then to @ replace_all pat to (drop (length pat - 1) cs)
      else c # replace_all pat to cs)"

text \<open>\<open>str::split('.')\<close>: the pieces between the dots, one more than there are dots.\<close>

fun split_dots :: "string \<Rightarrow> string list" where
  "split_dots [] = [[]]"
| "split_dots (c # cs) =
     (if c = CHR ''.'' then [] # split_dots cs
      else (case split_dots cs of [] \<Rightarrow> [[c]] | seg # segs \<Rightarrow> (c # seg) # segs))"

definition render_value :: "string \<Rightarrow> string \<Rightarrow> string option \<Rightarrow> string" where
  "render_value template base_url api_key_env =
     (let rendered = replace_all ''{{base_url}}'' base_url template
      in case api_key_env of
           None \<Rightarrow> rendered
         | Some var \<Rightarrow> replace_all ''{{api_key_env}}'' var rendered)"

text \<open>\<open>expand_home\<close> with the value of \<open>HOME\<close>, \<open>None\<close> when it is not set.\<close>

definition trim_slashes :: "string \<Rightarrow> string" where
  "trim_slashes s = rev (dropWhile (\<lambda>c. c = CHR ''/'') (rev s))"

definition expand_home :: "string option \<Rightarrow> string \<Rightarrow> string" where
  "expand_home home path =
     (case home of
        None \<Rightarrow> path
      | Some dir \<Rightarrow>
          if starts_with path ''~/'' then trim_slashes dir @ ''/'' @ drop 2 path
          else if path = ''~'' then dir else path)"

section \<open>The disk\<close>

text \<open>
  A call may fail with the system's message; a copy and a write that fail after they have opened
  their destination leave what was written so far there, cut after some bytes.
\<close>

datatype disk_call = Read_File string | Create_Dirs string | Copy_File string string | Write_File string

datatype disk_fault = Refused string | Cut_Short string nat

record disk =
  dk_files :: "string \<rightharpoonup> string"
  dk_fault :: "disk_call \<Rightarrow> disk_fault option"

definition fault_text :: "disk_fault \<Rightarrow> string" where
  "fault_text f = (case f of Refused e \<Rightarrow> e | Cut_Short e _ \<Rightarrow> e)"

definition no_such_file :: string where
  "no_such_file = ''No such file or directory (os error 2)''"

definition is_file :: "disk \<Rightarrow> string \<Rightarrow> bool" where
  "is_file d path \<longleftrightarrow> dk_files d path \<noteq> None"

definition read_to_string :: "disk \<Rightarrow> string \<Rightarrow> string + string" where
  "read_to_string d path =
     (case dk_fault d (Read_File path) of
        Some f \<Rightarrow> Inl (fault_text f)
      | None \<Rightarrow> (case dk_files d path of None \<Rightarrow> Inl no_such_file | Some content \<Rightarrow> Inr content))"

definition create_dir_all :: "disk \<Rightarrow> string \<Rightarrow> string option" where
  "create_dir_all d path = map_option fault_text (dk_fault d (Create_Dirs path))"

text \<open>Bytes arriving at a path under the fault of a call: the error if any, and the files then.\<close>

definition put_file :: "disk_fault option \<Rightarrow> string \<Rightarrow> string \<Rightarrow> disk \<Rightarrow> string option \<times> disk" where
  "put_file fault path content d =
     (case fault of
        None \<Rightarrow> (None, d\<lparr>dk_files := (dk_files d)(path \<mapsto> content)\<rparr>)
      | Some (Refused e) \<Rightarrow> (Some e, d)
      | Some (Cut_Short e n) \<Rightarrow> (Some e, d\<lparr>dk_files := (dk_files d)(path \<mapsto> take n content)\<rparr>))"

definition fs_write :: "string \<Rightarrow> string \<Rightarrow> disk \<Rightarrow> string option \<times> disk" where
  "fs_write path content d = put_file (dk_fault d (Write_File path)) path content d"

definition fs_copy :: "string \<Rightarrow> string \<Rightarrow> disk \<Rightarrow> string option \<times> disk" where
  "fs_copy src dst d =
     (case dk_files d src of
        None \<Rightarrow> (Some no_such_file, d)
      | Some content \<Rightarrow> put_file (dk_fault d (Copy_File src dst)) dst content d)"

text \<open>
  \<open>Path::parent\<close>: the path without its last component, \<open>None\<close> for the root and the empty path. (A
  component \<open>.\<close> on the way is kept here and dropped by the library; the directory is the same.)
\<close>

definition parent_dir :: "string \<Rightarrow> string option" where
  "parent_dir path =
     (let trimmed = trim_slashes path;
          above = rev (dropWhile (\<lambda>c. c \<noteq> CHR ''/'') (rev trimmed))
      in if trimmed = [] then None
         else Some (if above \<noteq> [] \<and> trim_slashes above = [] then ''/'' else trim_slashes above))"

section \<open>Plans\<close>

record setup_plan =
  pl_target_name :: string
  pl_config_path :: string
  pl_existed_before :: bool
  pl_before :: string
  pl_after :: string
  pl_changed :: bool
  pl_skipped_fields :: "string list"

record 'v doc_codec =
  dc_parse :: "string \<Rightarrow> string + 'v doc"
  dc_print :: "'v doc \<Rightarrow> string + string"

text \<open>The loop over the applicable fields; an error ends it.\<close>

fun set_fields ::
  "('v doc \<Rightarrow> string list \<Rightarrow> 'v doc \<Rightarrow> string + 'v doc) \<Rightarrow> string \<Rightarrow> string option \<Rightarrow> field_spec list
    \<Rightarrow> 'v doc \<Rightarrow> string + 'v doc" where
  "set_fields put base_url api_key_env [] doc = Inr doc"
| "set_fields put base_url api_key_env (f # fs) doc =
     (case put doc (split_dots (fs_path f)) (Doc_Text (render_value (fs_value f) base_url api_key_env)) of
        Inl e \<Rightarrow> Inl e
      | Inr doc' \<Rightarrow> set_fields put base_url api_key_env fs doc')"

text \<open>The two branches of \<open>build_plan\<close>'s \<open>match target.format\<close>: parse, set the fields, print.\<close>

definition merge_doc ::
  "'v doc_codec \<Rightarrow> ('v doc \<Rightarrow> string list \<Rightarrow> 'v doc \<Rightarrow> string + 'v doc) \<Rightarrow> string \<Rightarrow> string \<Rightarrow> string option
    \<Rightarrow> string \<Rightarrow> string option \<Rightarrow> field_spec list \<Rightarrow> string + string" where
  "merge_doc codec put kind config_path before base_url api_key_env specs =
     (case (case before of
              None \<Rightarrow> Inr empty_doc
            | Some text \<Rightarrow> map_sum (\<lambda>e. ''parsing '' @ config_path @ '' as '' @ kind @ '': '' @ e) id
                             (dc_parse codec text)) of
        Inl e \<Rightarrow> Inl e
      | Inr doc \<Rightarrow>
          (case set_fields put base_url api_key_env specs doc of
             Inl e \<Rightarrow> Inl e
           | Inr doc' \<Rightarrow>
               map_sum (\<lambda>e. ''serializing '' @ config_path @ '': '' @ e) id (dc_print codec doc')))"

definition applicable :: "string option \<Rightarrow> field_spec \<Rightarrow> bool" where
  "applicable api_key_env f \<longleftrightarrow> \<not> (fs_requires_api_key_env f \<and> api_key_env = None)"

definition merged_text ::
  "'j doc_codec \<Rightarrow> 't doc_codec \<Rightarrow> doc_format \<Rightarrow> string \<Rightarrow> string option \<Rightarrow> string \<Rightarrow> string option
    \<Rightarrow> field_spec list \<Rightarrow> string + string" where
  "merged_text json toml format config_path before base_url api_key_env specs =
     (case format of
        Json_File \<Rightarrow> map_sum id (\<lambda>s. s @ [CHR 10])
          (merge_doc json set_json_path ''JSON'' config_path before base_url api_key_env specs)
      | Toml_File \<Rightarrow>
          merge_doc toml set_toml_path ''TOML'' config_path before base_url api_key_env specs)"

definition build_plan ::
  "'j doc_codec \<Rightarrow> 't doc_codec \<Rightarrow> string option \<Rightarrow> setup_target \<Rightarrow> string \<Rightarrow> string option
    \<Rightarrow> string option \<Rightarrow> disk \<Rightarrow> string + setup_plan" where
  "build_plan json toml home target base_url api_key_env config_path_override d =
     (let config_path = expand_home home (unwrap_or (tg_config_path target) config_path_override);
          existed_before = is_file d config_path
      in case (if existed_before
               then map_sum (\<lambda>e. ''reading '' @ config_path @ '': '' @ e) Some (read_to_string d config_path)
               else Inr None) of
           Inl e \<Rightarrow> Inl e
         | Inr before \<Rightarrow>
             map_sum id (\<lambda>after.
               \<lparr>pl_target_name = tg_name target, pl_config_path = config_path,
                pl_existed_before = existed_before, pl_before = unwrap_or [] before, pl_after = after,
                pl_changed = (after \<noteq> unwrap_or [] before),
                pl_skipped_fields =
                  map fs_path (filter (\<lambda>f. \<not> applicable api_key_env f) (tg_fields target))\<rparr>)
               (merged_text json toml (tg_format target) config_path before base_url api_key_env
                 (filter (applicable api_key_env) (tg_fields target))))"

text \<open>\<open>apply_plan\<close>: the error or the backup made, and the disk, changed also by a call that fails.\<close>

definition backup_path :: "setup_plan \<Rightarrow> string" where
  "backup_path plan = pl_config_path plan @ ''.bak''"

definition make_backup :: "setup_plan \<Rightarrow> disk \<Rightarrow> (string + string option) \<times> disk" where
  "make_backup plan d =
     (if pl_existed_before plan
      then (case fs_copy (pl_config_path plan) (backup_path plan) d of
              (Some e, d') \<Rightarrow>
                (Inl (''backing up '' @ pl_config_path plan @ '' to '' @ backup_path plan @ '': '' @ e), d')
            | (None, d') \<Rightarrow> (Inr (Some (backup_path plan)), d'))
      else (Inr None, d))"

definition make_parent :: "setup_plan \<Rightarrow> disk \<Rightarrow> string option" where
  "make_parent plan d =
     (case parent_dir (pl_config_path plan) of
        None \<Rightarrow> None
      | Some dir \<Rightarrow>
          if dir = [] then None
          else map_option (\<lambda>e. ''creating '' @ dir @ '': '' @ e) (create_dir_all d dir))"

definition apply_plan :: "setup_plan \<Rightarrow> disk \<Rightarrow> (string + string option) \<times> disk" where
  "apply_plan plan d =
     (if \<not> pl_changed plan then (Inr None, d)
      else case make_parent plan d of
        Some e \<Rightarrow> (Inl e, d)
      | None \<Rightarrow>
          (case make_backup plan d of
             (Inl e, d') \<Rightarrow> (Inl e, d')
           | (Inr backup, d') \<Rightarrow>
               (case fs_write (pl_config_path plan) (pl_after plan) d' of
                  (Some e, d'') \<Rightarrow> (Inl (''writing '' @ pl_config_path plan @ '': '' @ e), d'')
                | (None, d'') \<Rightarrow> (Inr backup, d''))))"

end
