(* ===== verification/Cli_Reports.thy ===== *)
theory Cli_Reports
  imports Server_State Cli_Setup
begin

text \<open>
  The operator's command line: the reports of \<open>crates/cli/src/lib.rs\<close> on a configuration and an
  environment, and the commands of \<open>crates/cli/src/main.rs\<close>. A command takes the arguments that follow
  it and the disk, and yields its exit code, what it printed, and the disk.
\<close>

section \<open>Reports\<close>

record provider_report =
  rpt_name :: string
  rpt_kind :: provider_kind
  rpt_base_url :: string
  rpt_api_key_env :: string
  rpt_active :: bool

text \<open>\<open>env_lookup(var).is_some_and(|v| !v.is_empty())\<close>.\<close>

definition is_set :: "(string \<rightharpoonup> string) \<Rightarrow> string \<Rightarrow> bool" where
  "is_set env var \<longleftrightarrow> (case env var of None \<Rightarrow> False | Some v \<Rightarrow> v \<noteq> [])"

text \<open>The keys of \<open>[providers.*]\<close>, sorted.\<close>

definition provider_names :: "config \<Rightarrow> string list" where
  "provider_names config = sorted_list_of_set (dom (cf_providers config))"

definition provider_report_of :: "(string \<rightharpoonup> string) \<Rightarrow> string \<Rightarrow> provider_config \<Rightarrow> provider_report" where
  "provider_report_of env name cfg =
     \<lparr>rpt_name = name, rpt_kind = pc_kind cfg, rpt_base_url = pc_base_url cfg,
      rpt_api_key_env = pc_api_key_env cfg, rpt_active = is_set env (pc_api_key_env cfg)\<rparr>"

definition provider_reports :: "(string \<rightharpoonup> string) \<Rightarrow> config \<Rightarrow> provider_report list" where
  "provider_reports env config =
     List.map_filter (\<lambda>name. map_option (provider_report_of env name) (cf_providers config name))
       (provider_names config)"

record key_env_report =
  ke_label :: string
  ke_env_var :: string
  ke_set :: bool

definition key_row :: "(string \<rightharpoonup> string) \<Rightarrow> string \<Rightarrow> string \<Rightarrow> key_env_report" where
  "key_row env label var = \<lparr>ke_label = label, ke_env_var = var, ke_set = is_set env var\<rparr>"

definition optional_row :: "(string \<rightharpoonup> string) \<Rightarrow> string \<Rightarrow> string option \<Rightarrow> key_env_report list" where
  "optional_row env label var = (case var of None \<Rightarrow> [] | Some v \<Rightarrow> [key_row env label v])"

definition key_env_reports :: "(string \<rightharpoonup> string) \<Rightarrow> config \<Rightarrow> key_env_report list" where
  "key_env_reports env config =
     optional_row env ''server.api_key_env'' (sc_api_key_env (cf_server config))
     @ optional_row env ''server.admin_key_env'' (sc_admin_key_env (cf_server config))
     @ List.map_filter (\<lambda>name.
         map_option (\<lambda>cfg. key_row env (''providers.'' @ name @ ''.api_key_env'') (pc_api_key_env cfg))
           (cf_providers config name)) (provider_names config)
     @ map (\<lambda>c. key_row env (''clients.'' @ cl_name c @ ''.api_key_env'') (cl_api_key_env c)) (cf_clients config)
     @ optional_row env ''persistence.postgres_url_env''
         (Option.bind (cf_persistence config) pst_postgres_url_env)
     @ optional_row env ''webhook.auth_header_env'' (Option.bind (cf_webhook config) wh_auth_header_env)
     @ optional_row env ''moderation.api_key_env'' (map_option mo_api_key_env (cf_moderation config))
     @ optional_row env ''web_search.api_key_env'' (map_option ws_api_key_env (cf_web_search config))
     @ optional_row env ''jwt.hs256_secret_env'' (Option.bind (cf_jwt config) jw_hs256_secret_env)"

record guardrail_check =
  gk_name :: string
  gk_error :: "string option"

text \<open>\<open>why\<close> is the regex library's message for a pattern it does not compile.\<close>

definition check_guardrails :: "regex_engine \<Rightarrow> (string \<Rightarrow> string) \<Rightarrow> config \<Rightarrow> guardrail_check list" where
  "check_guardrails regex why config =
     map (\<lambda>g. \<lparr>gk_name = gc_name g,
                gk_error = (if re_valid regex (gc_pattern g) then None else Some (why (gc_pattern g)))\<rparr>)
       (cf_guardrails config)"

section \<open>Arguments\<close>

datatype printed = Out string | Err string

text \<open>What the commands rely on: libraries that read and print, the environment, the built-in targets.\<close>

record ('j, 't) cli =
  cli_json :: "'j doc_codec"
  cli_toml :: "'t doc_codec"
  cli_env :: "string \<rightharpoonup> string"
  cli_from_toml :: "string \<Rightarrow> string + config"
  cli_parse_targets :: "string \<Rightarrow> string + setup_target list"
  cli_default_targets :: "string + setup_target list"
  cli_regex :: regex_engine
  cli_regex_error :: "string \<Rightarrow> string"

definition DEFAULT_BASE_URL :: string where
  "DEFAULT_BASE_URL = ''http://localhost:8080/v1''"

fun value_after :: "(string \<Rightarrow> bool) \<Rightarrow> string list \<Rightarrow> string option" where
  "value_after is_flag [] = None"
| "value_after is_flag (a # rest) =
     (if is_flag a then (case rest of [] \<Rightarrow> None | v # _ \<Rightarrow> Some v) else value_after is_flag rest)"

definition path_arg :: "string list \<Rightarrow> string" where
  "path_arg args = unwrap_or ''config.toml'' (value_after (\<lambda>a. a = ''--path'' \<or> a = ''-p'') args)"

definition opt_arg :: "string list \<Rightarrow> string \<Rightarrow> string option" where
  "opt_arg args flag = value_after (\<lambda>a. a = flag) args"

definition has_flag :: "string list \<Rightarrow> string \<Rightarrow> bool" where
  "has_flag args flag \<longleftrightarrow> flag \<in> set args"

text \<open>\<open>{:<n}\<close> pads on the right.\<close>

definition pad :: "nat \<Rightarrow> string \<Rightarrow> string" where
  "pad n s = s @ replicate (n - length s) CHR '' ''"

definition from_file :: "(string \<Rightarrow> string + config) \<Rightarrow> string \<Rightarrow> disk \<Rightarrow> string + config" where
  "from_file from_toml_str path d =
     (case read_to_string d path of
        Inl e \<Rightarrow> Inl (''failed to read '' @ path @ '': '' @ e)
      | Inr raw \<Rightarrow> map_sum (\<lambda>e. ''failed to parse '' @ path @ '': '' @ e) id (from_toml_str raw))"

definition load_config :: "('j, 't) cli \<Rightarrow> string \<Rightarrow> disk \<Rightarrow> printed list + config" where
  "load_config c path d = map_sum (\<lambda>e. [Err (''error: '' @ e)]) id (from_file (cli_from_toml c) path d)"

definition load_targets :: "('j, 't) cli \<Rightarrow> string list \<Rightarrow> disk \<Rightarrow> printed list + setup_target list" where
  "load_targets c args d =
     (case opt_arg args ''--targets'' of
        Some path \<Rightarrow>
          (case read_to_string d path of
             Inl e \<Rightarrow> Inl [Err (''error: reading '' @ path @ '': '' @ e)]
           | Inr content \<Rightarrow>
               map_sum (\<lambda>e. [Err (''error: parsing '' @ path @ '': '' @ e)]) id (cli_parse_targets c content))
      | None \<Rightarrow>
          map_sum (\<lambda>e. [Err (''error: parsing built-in cli_targets.toml: '' @ e)]) id (cli_default_targets c))"

section \<open>\<open>rp-cli setup\<close>\<close>

definition target_line :: "('j, 't) cli \<Rightarrow> disk \<Rightarrow> setup_target \<Rightarrow> printed" where
  "target_line c d t =
     (let expanded = expand_home (cli_env c ''HOME'') (tg_config_path t)
      in Out (pad 12 (tg_name t) @ '' '' @ pad 58 (tg_description t) @ '' ''
           @ (if is_file d expanded then ''config file exists ('' @ expanded @ '')''
              else ''config file not found, would be created ('' @ expanded @ '')'')))"

definition cmd_setup_list :: "('j, 't) cli \<Rightarrow> string list \<Rightarrow> disk \<Rightarrow> int \<times> printed list \<times> disk" where
  "cmd_setup_list c args d =
     (case load_targets c args d of
        Inl out \<Rightarrow> (1, out, d)
      | Inr targets \<Rightarrow>
          (0, if targets = [] then [Out ''no targets configured''] else map (target_line c d) targets, d))"

definition resolve_plan :: "('j, 't) cli \<Rightarrow> string \<Rightarrow> string list \<Rightarrow> disk \<Rightarrow> printed list + setup_plan" where
  "resolve_plan c name args d =
     (case load_targets c args d of
        Inl out \<Rightarrow> Inl out
      | Inr targets \<Rightarrow>
          (case List.find (\<lambda>t. tg_name t = name) targets of
             None \<Rightarrow> Inl [Err (''error: unknown target '' @ quoted name @ '' -- see `rp-cli setup list`'')]
           | Some target \<Rightarrow>
               map_sum (\<lambda>e. [Err (''error: '' @ e)]) id
                 (build_plan (cli_json c) (cli_toml c) (cli_env c ''HOME'') target
                   (unwrap_or DEFAULT_BASE_URL (opt_arg args ''--base-url''))
                   (opt_arg args ''--api-key-env'') (opt_arg args ''--config-path'') d)))"

definition print_plan :: "setup_plan \<Rightarrow> printed list" where
  "print_plan plan =
     [Out (''target: '' @ pl_target_name plan), Out (''file:   '' @ pl_config_path plan),
      Out (''status: '' @ (if pl_existed_before plan then ''exists -- will be merged into, other keys are kept''
                           else ''does not exist -- will be created''))]
     @ (if pl_skipped_fields plan = [] then []
        else [Out (''skipped (pass --api-key-env <VAR> to include): '' @ join '', '' (pl_skipped_fields plan))])
     @ [Out (if pl_changed plan
             then CHR 10 # ''--- '' @ pl_config_path plan @ '' (after) ---'' @ CHR 10 # pl_after plan
             else CHR 10 # ''already up to date -- nothing to change.'')]"

definition setup_options :: string where
  "setup_options = ''[--targets <path>] [--base-url <url>] [--api-key-env <VAR>] [--config-path <path>]''"

definition cmd_setup_show :: "('j, 't) cli \<Rightarrow> string list \<Rightarrow> disk \<Rightarrow> int \<times> printed list \<times> disk" where
  "cmd_setup_show c args d =
     (case args of
        [] \<Rightarrow> (1, [Err (''usage: rp-cli setup show <name> '' @ setup_options)], d)
      | name # rest \<Rightarrow>
          (case resolve_plan c name rest d of
             Inl out \<Rightarrow> (1, out, d)
           | Inr plan \<Rightarrow> (0, print_plan plan, d)))"

definition applied_lines :: "setup_plan \<Rightarrow> string option \<Rightarrow> printed list" where
  "applied_lines plan backup =
     (if \<not> pl_changed plan then [Out (pl_config_path plan @ '' already up to date -- nothing written.'')]
      else (case backup of None \<Rightarrow> [] | Some b \<Rightarrow> [Out (''backed up previous file to '' @ b)])
           @ [Out (''wrote '' @ pl_config_path plan)])
     @ (if pl_skipped_fields plan = [] then []
        else [Out (''skipped (pass --api-key-env <VAR> to include): '' @ join '', '' (pl_skipped_fields plan))])"

definition cmd_setup_apply :: "('j, 't) cli \<Rightarrow> string list \<Rightarrow> disk \<Rightarrow> int \<times> printed list \<times> disk" where
  "cmd_setup_apply c args d =
     (case args of
        [] \<Rightarrow> (1, [Err (''usage: rp-cli setup apply <name> --yes '' @ setup_options)], d)
      | name # rest \<Rightarrow>
          if \<not> has_flag rest ''--yes''
          then (1, [Err (''error: setup apply writes to '' @ name @ CHR 0x27 # ''s own config file -- run `rp-cli setup show ''
                         @ name @ ''` first, then rerun with --yes'')], d)
          else (case resolve_plan c name rest d of
             Inl out \<Rightarrow> (1, out, d)
           | Inr plan \<Rightarrow>
               (case apply_plan plan d of
                  (Inl e, d') \<Rightarrow> (1, [Err (''error: '' @ e)], d')
                | (Inr backup, d') \<Rightarrow> (0, applied_lines plan backup, d'))))"

section \<open>\<open>rp-cli config\<close>, \<open>providers\<close> and \<open>keys\<close>\<close>

definition skipped_line :: "provider_report \<Rightarrow> printed" where
  "skipped_line p = Out (''  - '' @ rpt_name p @ '' skipped: '' @ rpt_api_key_env p @ '' is not set'')"

definition broken_guardrails :: "guardrail_check list \<Rightarrow> (string \<times> string) list" where
  "broken_guardrails checks = List.map_filter (\<lambda>c. map_option (Pair (gk_name c)) (gk_error c)) checks"

definition guardrail_lines :: "guardrail_check list \<Rightarrow> printed list" where
  "guardrail_lines checks =
     (let broken = broken_guardrails checks
      in if checks = [] then [Out ''guardrails: none configured'']
         else Out (''guardrails: '' @ show_nat (length checks) @ '' configured, ''
                   @ show_nat (length broken) @ '' invalid'')
              # map (\<lambda>(name, e). Out (''  - '' @ name @ '': invalid pattern: '' @ e)) broken)"

definition jwt_line :: "config \<Rightarrow> printed" where
  "jwt_line config =
     Out (''jwt auth: '' @
       (case cf_jwt config of
          None \<Rightarrow> ''not configured''
        | Some jwt \<Rightarrow>
            if jw_hs256_secret_env jwt \<noteq> None then ''configured (hs256)''
            else if jw_jwks_url jwt \<noteq> None then ''configured (jwks)''
            else ''configured but neither hs256_secret_env nor jwks_url is set -- disabled at startup with a warning''))"

definition broken_note :: string where
  "broken_note =
     CHR 10 # ''note: an invalid guardrail pattern doesn'' @ CHR 0x27 # ''t fail startup -- rusty_provider skips ''
     @ ''it with a warning and keeps running, same as it does for the other soft-failure ''
     @ ''cases above. Fix it here so the router isn'' @ CHR 0x27 # ''t silently missing a guardrail you ''
     @ ''think is active.''"

definition config_lines :: "('j, 't) cli \<Rightarrow> string \<Rightarrow> config \<Rightarrow> printed list" where
  "config_lines c path config =
     (let providers = provider_reports (cli_env c) config;
          active = length (filter rpt_active providers);
          checks = check_guardrails (cli_regex c) (cli_regex_error c) config
      in [Out (path @ '': valid TOML, matches the config schema.'' @ [CHR 10]),
          Out (''providers: '' @ show_nat (length providers) @ '' configured, '' @ show_nat active
               @ '' active, '' @ show_nat (length providers - active) @ '' skipped (unresolved api_key_env)'')]
         @ map skipped_line (filter (\<lambda>p. \<not> rpt_active p) providers)
         @ [Out (''route aliases: '' @ show_nat (length (cf_routes config))),
            Out (''clients: '' @ show_nat (length (cf_clients config)))]
         @ guardrail_lines checks
         @ [Out (''persistence: '' @ (if cf_persistence config \<noteq> None then ''configured''
                                      else ''in-memory only (not configured)'')),
            Out (''admin API: '' @ (if sc_admin_key_env (cf_server config) \<noteq> None then ''enabled''
                                    else ''disabled (server.admin_key_env not set)'')),
            jwt_line config]
         @ (if broken_guardrails checks = [] then [] else [Err broken_note]))"

definition cmd_config_check :: "('j, 't) cli \<Rightarrow> string list \<Rightarrow> disk \<Rightarrow> int \<times> printed list \<times> disk" where
  "cmd_config_check c args d =
     (case load_config c (path_arg args) d of
        Inl out \<Rightarrow> (1, out, d)
      | Inr config \<Rightarrow> (0, config_lines c (path_arg args) config, d))"

definition kind_name :: "provider_kind \<Rightarrow> string" where
  "kind_name k = (case k of Openai \<Rightarrow> ''Openai'' | Anthropic \<Rightarrow> ''Anthropic'' | Gemini \<Rightarrow> ''Gemini'')"

definition provider_line :: "provider_report \<Rightarrow> printed" where
  "provider_line p =
     Out (pad 20 (rpt_name p) @ '' '' @ pad 10 (kind_name (rpt_kind p)) @ '' '' @ pad 42 (rpt_base_url p) @ '' ''
          @ (if rpt_active p then ''active'' else ''skipped ('' @ rpt_api_key_env p @ '' not set)''))"

definition cmd_providers_list :: "('j, 't) cli \<Rightarrow> string list \<Rightarrow> disk \<Rightarrow> int \<times> printed list \<times> disk" where
  "cmd_providers_list c args d =
     (case load_config c (path_arg args) d of
        Inl out \<Rightarrow> (1, out, d)
      | Inr config \<Rightarrow>
          (let providers = provider_reports (cli_env c) config
           in (0, if providers = [] then [Out (''no [providers.*] entries in '' @ path_arg args)]
                  else map provider_line providers, d)))"

definition key_line :: "key_env_report \<Rightarrow> printed" where
  "key_line row = Out (pad 45 (ke_label row) @ '' '' @ pad 20 (ke_env_var row) @ '' ''
                       @ (if ke_set row then ''set'' else ''NOT SET''))"

definition unset_note :: "key_env_report list \<Rightarrow> printed list" where
  "unset_note rows =
     (let unset_count = length (filter (\<lambda>row. \<not> ke_set row) rows)
      in if unset_count = 0 then []
         else [Out (CHR 10 # show_nat unset_count @ '' of '' @ show_nat (length rows)
                @ '' env vars not set -- the corresponding provider/client/section ''
                @ ''will be skipped at startup, not treated as a hard error.'')])"

definition cmd_keys_check :: "('j, 't) cli \<Rightarrow> string list \<Rightarrow> disk \<Rightarrow> int \<times> printed list \<times> disk" where
  "cmd_keys_check c args d =
     (case load_config c (path_arg args) d of
        Inl out \<Rightarrow> (1, out, d)
      | Inr config \<Rightarrow>
          (let rows = key_env_reports (cli_env c) config
           in (0, if rows = [] then [Out (''no *_env fields configured in '' @ path_arg args)]
                  else map key_line rows @ unset_note rows, d)))"

section \<open>The program\<close>

text \<open>The lines of \<open>print_usage\<close>.\<close>

definition usage_lines :: "string list" where
  "usage_lines =
     [''rp-cli -- operator config/ops tooling for rusty_provider'', [], ''USAGE:'',
      ''  rp-cli config check [--path <config.toml>]'',
      ''  rp-cli providers list [--path <config.toml>]'',
      ''  rp-cli keys check [--path <config.toml>]'',
      ''  rp-cli setup list [--targets <path>]'',
      ''  rp-cli setup show <name> [--targets <path>] [--base-url <url>]'',
      ''                           [--api-key-env <VAR>] [--config-path <path>]'',
      ''  rp-cli setup apply <name> --yes [--targets <path>] [--base-url <url>]'',
      ''                             [--api-key-env <VAR>] [--config-path <path>]'', [],
      ''  --path defaults to '' @ quoted ''config.toml'' @ '' in the current directory.'',
      ''  --base-url defaults to '' @ quoted DEFAULT_BASE_URL @ ''.'', [],
      ''config/providers/keys are read-only: no network call, no'',
      ''resolved secret'' @ CHR 0x27 # ''s value printed, only whether its env var is'', ''set.'', [],
      ''setup rewrites a known third-party CLI tool'' @ CHR 0x27 # ''s own config file to'',
      ''point its endpoint at rusty_provider (see ADR-0004) -- '' @ quoted ''show'' @ '' is'',
      ''a dry run, '' @ quoted ''apply'' @ '' requires --yes and always backs up the'',
      ''previous file first. Never writes a literal API key, only an'',
      ''env-var reference naming --api-key-env when the target format'', ''supports one.'']"

definition run_cli :: "('j, 't) cli \<Rightarrow> string list \<Rightarrow> disk \<Rightarrow> int \<times> printed list \<times> disk" where
  "run_cli c args d =
     (let usage = [Err (join [CHR 10] usage_lines)]
      in case args of
           [] \<Rightarrow> (0, usage, d)
         | a # as \<Rightarrow>
             (case as of
                [] \<Rightarrow> (if a = ''--help'' \<or> a = ''-h'' then 0 else 1, usage, d)
              | b # rest \<Rightarrow>
                  if a = ''config'' \<and> b = ''check'' then cmd_config_check c rest d
                  else if a = ''providers'' \<and> b = ''list'' then cmd_providers_list c rest d
                  else if a = ''keys'' \<and> b = ''check'' then cmd_keys_check c rest d
                  else if a = ''setup'' \<and> b = ''list'' then cmd_setup_list c rest d
                  else if a = ''setup'' \<and> b = ''show'' then cmd_setup_show c rest d
                  else if a = ''setup'' \<and> b = ''apply'' then cmd_setup_apply c rest d
                  else (if a = ''--help'' \<or> a = ''-h'' then 0 else 1, usage, d)))"

end
