(* ===== verification/Server_Main.thy ===== *)
theory Server_Main
  imports Server_Routes_Facts Cli_Reports
begin

text \<open>
  The process (\<open>crates/server/src/main.rs\<close>): from the environment and the configuration file to a server that
  listens, one that serves its tools over standard input, or an exit; and what holds while it runs.
\<close>

section \<open>Starting\<close>

text \<open>The outcome: an exit with a message, a panic while the application is built, or what is served.\<close>

datatype ('m, 'k, 'w) process =
    Exited string
  | Panicked
  | Serving_Stdio "('m, 'k, 'w) mcp_service"
  | Listening string "('m, 'k, 'w) app" "'k app_state"

definition starting_point :: string where
  "starting_point = [CHR 10, CHR 10] @ ''See config.example.toml for a starting point.''"

definition server_main :: "('k, 'w) jwt_lib \<Rightarrow> regex_engine \<Rightarrow> (persistence_target \<Rightarrow> persistence option)
    \<Rightarrow> (string \<Rightarrow> string + config) \<Rightarrow> (string \<Rightarrow> bool) \<Rightarrow> ('m, 'k, 'w) mcp_service
    \<Rightarrow> (string \<rightharpoonup> string) \<Rightarrow> disk \<Rightarrow> ('m, 'k, 'w) process" where
  "server_main lib regex open_db from_toml header_ok service env d =
     (case from_file from_toml (unwrap_or ''config.toml'' (env ''CONFIG_PATH'')) d of
        Inl e \<Rightarrow> Exited (e @ starting_point)
      | Inr config \<Rightarrow>
          let st = server_start lib env config (from_config env regex open_db config);
              mcp = (case cf_mcp config of Some m \<Rightarrow> mcp_enabled m | None \<Rightarrow> False)
          in if env ''MCP_STDIO'' \<noteq> None
             then if mcp then Serving_Stdio service
                  else Exited ''MCP_STDIO is set but [mcp].enabled is not true in config''
             else case build_app header_ok service config of
               None \<Rightarrow> Panicked
             | Some app \<Rightarrow>
                 Listening (sc_host (cf_server config) @ '':'' @ show_nat (unat (sc_port (cf_server config)))) app st)"

section \<open>Running\<close>

text \<open>
  A step of the running server: a request through the application, or anything the server does beside
  (a stream that is consumed, a write to the store, time).
\<close>

inductive app_step :: "('k, 'w) world_ops \<Rightarrow> app_decoders \<Rightarrow> ('m, 'k, 'w) app
    \<Rightarrow> 'k app_state \<times> 'w \<Rightarrow> 'k app_state \<times> 'w \<Rightarrow> bool" for ops dec app where
  request: "serve_app ops dec random app rq st w = (resp, tasks, st', w') \<Longrightarrow> app_step ops dec app (st, w) (st', w')"
| beside: "server_step ops s s' \<Longrightarrow> app_step ops dec app s s'"

lemma serves_permits: "serves rt (st, w) (st', w') \<Longrightarrow> st_permits st' = st_permits st"
  by (simp add: serves_def provisioned_def)

lemma server_step_permits:
  assumes "server_step ops s s'"
  shows "st_permits (fst s') = st_permits (fst s)"
  using assms by cases (auto dest!: handler_runs serves_permits)

definition mcp_over_router :: "('k, 'w) world_ops \<Rightarrow> ('m, 'k, 'w) app \<Rightarrow> bool" where
  "mcp_over_router ops app \<longleftrightarrow>
     (\<forall>service rq. ap_mcp app = Some service \<longrightarrow> request_handler ops (\<lambda>client. service rq))"

lemma app_step_keeps:
  assumes "app_step ops dec app s s'"
    and "mcp_over_router ops app"
  shows "(router_step (wo_rt ops))\<^sup>*\<^sup>* (st_router (fst s), snd s) (st_router (fst s'), snd s')
    \<and> (server_inv (fst s) \<longrightarrow> server_inv (fst s')) \<and> st_permits (fst s') = st_permits (fst s)"
  using assms(1)
proof cases
  case (request random rq st w resp tasks st' w')
  have "(router_step (wo_rt ops))\<^sup>*\<^sup>* (st_router st, w) (st_router st', w')
      \<and> (server_inv st \<longrightarrow> server_inv st') \<and> st_permits st' = st_permits st"
    by (rule app_request_keeps [OF request(3)]) (use assms(2) in \<open>simp add: mcp_over_router_def\<close>)
  with request(1,2) show ?thesis by simp
next
  case beside
  with server_step_keeps [OF beside] server_step_permits [OF beside] show ?thesis by simp
qed

lemma app_runs_keep:
  assumes "(app_step ops dec app)\<^sup>*\<^sup>* s s'"
    and "mcp_over_router ops app"
  shows "(router_step (wo_rt ops))\<^sup>*\<^sup>* (st_router (fst s), snd s) (st_router (fst s'), snd s')
    \<and> (server_inv (fst s) \<longrightarrow> server_inv (fst s')) \<and> st_permits (fst s') = st_permits (fst s)"
  using assms(1)
proof (induction rule: rtranclp_induct)
  case base then show ?case by simp
next
  case (step s1 s2)
  from step.IH app_step_keeps [OF step.hyps(2) assms(2)] show ?case by (auto intro: rtranclp_trans)
qed

lemma build_app_mcp: "build_app header_ok service config = Some app \<Longrightarrow> ap_mcp app = Some s \<Longrightarrow> s = service"
  by (auto simp: build_app_def Let_def split: option.splits prod.splits if_splits)

lemma server_main_listens:
  assumes "server_main lib regex open_db from_toml header_ok service env d = Listening addr app st"
  obtains config where "from_file from_toml (unwrap_or ''config.toml'' (env ''CONFIG_PATH'')) d = Inr config"
    "build_app header_ok service config = Some app"
    "st = server_start lib env config (from_config env regex open_db config)" "env ''MCP_STDIO'' = None"
  using assms by (auto simp: server_main_def Let_def split: sum.splits if_splits option.splits)


definition served_config :: config where
  "served_config = two_clients\<lparr>cf_mcp := Some mcp_setup\<rparr>"

definition served_disk :: disk where
  "served_disk = \<lparr>dk_files = [''config.toml'' \<mapsto> ''...''], dk_fault = (\<lambda>_. None)\<rparr>"

lemma served_listens:
  "server_main (wo_jwt sample_ops) literal_engine (\<lambda>_. None) (\<lambda>_. Inr served_config) (\<lambda>_. True) sample_service
      sample_env served_disk
   = Listening (sc_host default_server_config @ '':'' @ show_nat (unat (sc_port default_server_config))) mcp_app
       (server_start (wo_jwt sample_ops) sample_env served_config
          (from_config sample_env literal_engine (\<lambda>_. None) served_config))"
  using mcp_app_built
  by (simp add: server_main_def from_file_def read_to_string_def served_disk_def sample_env_def served_config_def
      mcp_setup_def Let_def)


end
