(* ===== verification/Mcp_Gateway.thy ===== *)
theory Mcp_Gateway
  imports Config "HOL-Library.List_Lexorder" "HOL-Library.Char_ord"
begin

text \<open>
  The MCP gateway (\<open>crates/mcp/src/gateway.rs\<close>): tools of other MCP servers under the names
  \<open>upstream/tool\<close>, and a supervisor for each connection that reconnects it. The client side of the
  protocol is \<open>rmcp\<close>'s: its operations on handles of a type \<open>'p\<close> take the state of the world.
\<close>

section \<open>Upstreams\<close>

text \<open>A tool is its name and what else the library says of it.\<close>

record 'x mcp_tool =
  to_name :: string
  to_rest :: 'x

record ('p, 'x, 'a, 'r, 'w) mcp_client =
  mc_spawn :: "string \<Rightarrow> string list \<Rightarrow> 'w \<Rightarrow> (string + 'p) \<times> 'w"
  mc_http :: "string \<Rightarrow> string option \<Rightarrow> 'w \<Rightarrow> (string + 'p) \<times> 'w"
  mc_list_tools :: "'p \<Rightarrow> 'w \<Rightarrow> (string + 'x mcp_tool list) \<times> 'w"
  mc_call_tool :: "'p \<Rightarrow> string \<Rightarrow> 'a option \<Rightarrow> 'w \<Rightarrow> (string + 'r) \<times> 'w"
  mc_sleep :: "nat \<Rightarrow> 'w \<Rightarrow> 'w"

definition connect_one ::
  "('p, 'x, 'a, 'r, 'w) mcp_client \<Rightarrow> (string \<rightharpoonup> string) \<Rightarrow> mcp_upstream_config \<Rightarrow> 'w \<Rightarrow> (string + 'p) \<times> 'w" where
  "connect_one client env upstream w =
     (case mu_transport upstream of
        Stdio command args \<Rightarrow> mc_spawn client command args w
      | Http url bearer_token_env \<Rightarrow>
          (case bearer_token_env of
             None \<Rightarrow> mc_http client url None w
           | Some var \<Rightarrow>
               (case env var of
                  None \<Rightarrow> (Inl (''bearer_token_env '' @ CHR 0x27 # var @ CHR 0x27 # '' is not set in the environment''), w)
                | Some token \<Rightarrow> mc_http client url (Some token) w)))"

text \<open>Durations are nanoseconds.\<close>

record reconnect_policy =
  rcp_initial_backoff :: nat
  rcp_max_backoff :: nat
  rcp_max_attempts :: "u32 option"

definition reconnect_policy_of :: "mcp_config \<Rightarrow> reconnect_policy" where
  "reconnect_policy_of config =
     \<lparr>rcp_initial_backoff = unat (mcp_reconnect_backoff_secs config) * 1000000000,
      rcp_max_backoff = unat (mcp_reconnect_backoff_max_secs config) * 1000000000,
      rcp_max_attempts = mcp_max_reconnect_attempts config\<rparr>"

definition doubled_backoff :: "nat \<Rightarrow> nat \<Rightarrow> nat" where
  "doubled_backoff current max_backoff = min (current * 2) max_backoff"

definition should_give_up :: "u32 \<Rightarrow> u32 option \<Rightarrow> bool" where
  "should_give_up attempts max_attempts = (case max_attempts of None \<Rightarrow> False | Some m \<Rightarrow> m \<le> attempts)"

section \<open>The gateway\<close>

text \<open>
  The connected peers by upstream name. \<open>connect\<close> starts a supervisor for each connection it makes;
  a supervisor is \<open>Watching\<close> its connection, \<open>Retrying\<close> with the next backoff and the attempts made,
  or \<open>Gone\<close>.
\<close>

datatype 'p supervisor = Watching 'p | Retrying nat u32 | Gone

type_synonym 'p peers = "string \<rightharpoonup> 'p"
type_synonym 'p supervisors = "(mcp_upstream_config \<times> 'p supervisor) list"

definition empty_gateway :: "'p peers" where
  "empty_gateway = Map.empty"

fun connect_all ::
  "('p, 'x, 'a, 'r, 'w) mcp_client \<Rightarrow> (string \<rightharpoonup> string) \<Rightarrow> mcp_upstream_config list
    \<Rightarrow> 'p peers \<Rightarrow> 'p supervisors \<Rightarrow> 'w \<Rightarrow> 'p peers \<times> 'p supervisors \<times> 'w" where
  "connect_all client env [] peers sups w = (peers, sups, w)"
| "connect_all client env (u # us) peers sups w =
     (case connect_one client env u w of
        (Inl e, w') \<Rightarrow> connect_all client env us peers sups w'
      | (Inr p, w') \<Rightarrow> connect_all client env us (peers(mu_name u \<mapsto> p)) (sups @ [(u, Watching p)]) w')"

definition connect :: "('p, 'x, 'a, 'r, 'w) mcp_client \<Rightarrow> (string \<rightharpoonup> string) \<Rightarrow> mcp_upstream_config list \<Rightarrow> 'w
    \<Rightarrow> 'p peers \<times> 'p supervisors \<times> 'w" where
  "connect client env upstreams w = connect_all client env upstreams empty_gateway [] w"

definition prefixed :: "string \<Rightarrow> 'x mcp_tool \<Rightarrow> 'x mcp_tool" where
  "prefixed name tool = tool\<lparr>to_name := name @ ''/'' @ to_name tool\<rparr>"

text \<open>\<open>list_tools\<close> visits the peers in the order \<open>names\<close> the map iterates in.\<close>

fun list_proxied ::
  "('p, 'x, 'a, 'r, 'w) mcp_client \<Rightarrow> 'p peers \<Rightarrow> string list \<Rightarrow> 'w \<Rightarrow> 'x mcp_tool list \<times> 'w" where
  "list_proxied client peers [] w = ([], w)"
| "list_proxied client peers (name # names) w =
     (case peers name of
        None \<Rightarrow> list_proxied client peers names w
      | Some peer \<Rightarrow>
          (case mc_list_tools client peer w of
             (Inl e, w') \<Rightarrow> list_proxied client peers names w'
           | (Inr tools, w') \<Rightarrow>
               (case list_proxied client peers names w' of
                  (others, w'') \<Rightarrow> (map (prefixed name) tools @ others, w''))))"

datatype gateway_error = UnknownUpstream string | Service string

definition gateway_error_text :: "gateway_error \<Rightarrow> string" where
  "gateway_error_text e =
     (case e of
        UnknownUpstream u \<Rightarrow> ''no MCP upstream named '' @ CHR 0x27 # u @ CHR 0x27 # '' is connected''
      | Service text \<Rightarrow> text)"

definition call_proxied ::
  "('p, 'x, 'a, 'r, 'w) mcp_client \<Rightarrow> 'p peers \<Rightarrow> string \<Rightarrow> string \<Rightarrow> 'a option \<Rightarrow> 'w
    \<Rightarrow> (gateway_error + 'r) \<times> 'w" where
  "call_proxied client peers upstream tool arguments w =
     (case peers upstream of
        None \<Rightarrow> (Inl (UnknownUpstream upstream), w)
      | Some peer \<Rightarrow>
          (case mc_call_tool client peer tool arguments w of (res, w') \<Rightarrow> (map_sum Service id res, w')))"

section \<open>Reconnecting\<close>

text \<open>
  The inner loop of a supervisor. Without a limit it may run forever, and then has no result. The
  counter is a \<open>u32\<close>: a limit is reached before it can wrap.
\<close>

partial_function (option) reconnect ::
  "('p, 'x, 'a, 'r, 'w) mcp_client \<Rightarrow> (string \<rightharpoonup> string) \<Rightarrow> mcp_upstream_config \<Rightarrow> reconnect_policy
    \<Rightarrow> nat \<Rightarrow> u32 \<Rightarrow> 'w \<Rightarrow> ('p option \<times> 'w) option" where
  "reconnect client env upstream policy backoff attempts w =
     (if should_give_up attempts (rcp_max_attempts policy) then Some (None, w)
      else case connect_one client env upstream (mc_sleep client backoff w) of
             (Inr p, w') \<Rightarrow> Some (Some p, w')
           | (Inl e, w') \<Rightarrow>
               reconnect client env upstream policy (doubled_backoff backoff (rcp_max_backoff policy))
                 (attempts + 1) w')"

text \<open>A supervisor from the end of its connection on: the peer is removed, and the loop run.\<close>

definition drop_and_reconnect ::
  "('p, 'x, 'a, 'r, 'w) mcp_client \<Rightarrow> (string \<rightharpoonup> string) \<Rightarrow> reconnect_policy \<Rightarrow> mcp_upstream_config
    \<Rightarrow> 'p peers \<Rightarrow> 'w \<Rightarrow> ('p peers \<times> 'p supervisor \<times> 'w) option" where
  "drop_and_reconnect client env policy upstream peers w =
     map_option (\<lambda>(res, w').
       (case res of
          None \<Rightarrow> (peers(mu_name upstream := None), Gone, w')
        | Some p \<Rightarrow> (peers(mu_name upstream \<mapsto> p), Watching p, w')))
       (reconnect client env upstream policy (rcp_initial_backoff policy) 0 w)"

text \<open>
  Supervisors run side by side, each loop turn a step: what the turns of the others do to the peers
  falls in between.
\<close>

inductive gateway_step ::
  "reconnect_policy \<Rightarrow> 'p peers \<times> 'p supervisors \<Rightarrow> 'p peers \<times> 'p supervisors \<Rightarrow> bool"
  for policy :: reconnect_policy where
  dropped: "i < length sups \<Longrightarrow> sups ! i = (u, Watching p)
    \<Longrightarrow> gateway_step policy (peers, sups)
      (peers(mu_name u := None), sups[i := (u, Retrying (rcp_initial_backoff policy) 0)])"
| gave_up: "i < length sups \<Longrightarrow> sups ! i = (u, Retrying b a) \<Longrightarrow> should_give_up a (rcp_max_attempts policy)
    \<Longrightarrow> gateway_step policy (peers, sups) (peers, sups[i := (u, Gone)])"
| failed: "i < length sups \<Longrightarrow> sups ! i = (u, Retrying b a) \<Longrightarrow> \<not> should_give_up a (rcp_max_attempts policy)
    \<Longrightarrow> gateway_step policy (peers, sups)
      (peers, sups[i := (u, Retrying (doubled_backoff b (rcp_max_backoff policy)) (a + 1))])"
| reconnected: "i < length sups \<Longrightarrow> sups ! i = (u, Retrying b a) \<Longrightarrow> \<not> should_give_up a (rcp_max_attempts policy)
    \<Longrightarrow> gateway_step policy (peers, sups) (peers(mu_name u \<mapsto> p), sups[i := (u, Watching p)])"

inductive_cases gateway_stepE: "gateway_step policy (peers, sups) (peers', sups')"

end
