(* ===== verification/Mcp_Gateway_Facts.thy ===== *)
theory Mcp_Gateway_Facts
  imports Mcp_Gateway
begin

text \<open>
  What the gateway guarantees: a limited reconnection ends within its limit and an unlimited one when
  an attempt succeeds, and the peers are at all times the connections the supervisors watch.
\<close>

section \<open>Reconnecting ends\<close>

text \<open>At most \<open>n\<close> attempts, as a specification: the first that connects, or none.\<close>

fun attempts_run ::
  "('p, 'x, 'a, 'r, 'w) mcp_client \<Rightarrow> (string \<rightharpoonup> string) \<Rightarrow> mcp_upstream_config \<Rightarrow> reconnect_policy
    \<Rightarrow> nat \<Rightarrow> nat \<Rightarrow> 'w \<Rightarrow> 'p option \<times> 'w" where
  "attempts_run client env u policy 0 backoff w = (None, w)"
| "attempts_run client env u policy (Suc n) backoff w =
     (case connect_one client env u (mc_sleep client backoff w) of
        (Inr p, w') \<Rightarrow> (Some p, w')
      | (Inl e, w') \<Rightarrow> attempts_run client env u policy n (doubled_backoff backoff (rcp_max_backoff policy)) w')"

lemma reconnect_limited:
  assumes "rcp_max_attempts policy = Some m"
  shows "a \<le> m \<Longrightarrow> reconnect client env u policy b a w
    = Some (attempts_run client env u policy (unat m - unat a) b w)"
proof (induction "unat m - unat a" arbitrary: a b w)
  case 0
  then have "a = m" by (simp add: word_le_nat_alt word_unat_eq_iff)
  then show ?case by (subst reconnect.simps) (simp add: should_give_up_def assms)
next
  case (Suc n)
  then have less: "a < m" by (simp add: word_less_nat_alt)
  have "unat (a + 1) = Suc (unat a)" using unat_Suc_less [OF less] by simp
  with Suc.hyps(2) have n: "n = unat m - unat (a + 1)" by simp
  moreover have "a + 1 \<le> m" using less by (rule inc_le)
  ultimately have IH: "reconnect client env u policy b' (a + 1) w' = Some (attempts_run client env u policy n b' w')"
    for b' w' using Suc.hyps(1) [OF n] by simp
  have "\<not> should_give_up a (rcp_max_attempts policy)" using less by (simp add: should_give_up_def assms)
  then show ?case
    unfolding Suc.hyps(2) [symmetric] by (subst reconnect.simps) (simp add: IH split: prod.split sum.split)
qed

lemma reconnect_unlimited_result:
  "reconnect client env u policy b a w = Some y \<Longrightarrow> rcp_max_attempts policy = None
    \<longrightarrow> fst y \<noteq> None \<and> (\<exists>n. attempts_run client env u policy n b w = y)"
proof (erule reconnect.raw_induct [rotated, where P = "\<lambda>client env u policy b a w y.
    rcp_max_attempts policy = None \<longrightarrow> fst y \<noteq> None \<and> (\<exists>n. attempts_run client env u policy n b w = y)"])
  fix loop client env u policy b a w y
  assume IH: "\<And>client env u policy b a w y. loop client env u policy b a w = Some y \<Longrightarrow>
      rcp_max_attempts policy = None \<longrightarrow> fst y \<noteq> None \<and> (\<exists>n. attempts_run client env u policy n b w = y)"
    and step: "(if should_give_up a (rcp_max_attempts policy) then Some (None, w)
      else case connect_one client env u (mc_sleep client b w) of
             (Inr p, w') \<Rightarrow> Some (Some p, w')
           | (Inl e, w') \<Rightarrow>
               loop client env u policy (doubled_backoff b (rcp_max_backoff policy)) (a + 1) w') = Some y"
  show "rcp_max_attempts policy = None \<longrightarrow> fst y \<noteq> None \<and> (\<exists>n. attempts_run client env u policy n b w = y)"
  proof (intro impI)
    assume unlimited: "rcp_max_attempts policy = None"
    obtain r w' where conn: "connect_one client env u (mc_sleep client b w) = (r, w')" by fastforce
    show "fst y \<noteq> None \<and> (\<exists>n. attempts_run client env u policy n b w = y)"
    proof (cases r)
      case (Inr p)
      with step conn unlimited have "attempts_run client env u policy (Suc 0) b w = y" "fst y \<noteq> None"
        by (auto simp: should_give_up_def)
      then show ?thesis by blast
    next
      case (Inl e)
      with step conn unlimited have
        "loop client env u policy (doubled_backoff b (rcp_max_backoff policy)) (a + 1) w' = Some y"
        by (simp add: should_give_up_def)
      from IH [OF this] unlimited obtain n where "fst y \<noteq> None"
        "attempts_run client env u policy n (doubled_backoff b (rcp_max_backoff policy)) w' = y" by blast
      with Inl conn have "attempts_run client env u policy (Suc n) b w = y" by simp
      with \<open>fst y \<noteq> None\<close> show ?thesis by blast
    qed
  qed
qed

lemma reconnect_unlimited_finds:
  "rcp_max_attempts policy = None \<Longrightarrow> attempts_run client env u policy n b w = (Some p, w')
    \<Longrightarrow> reconnect client env u policy b a w = Some (Some p, w')"
proof (induction n arbitrary: b a w)
  case (Suc n)
  then show ?case
    by (subst reconnect.simps) (auto simp: should_give_up_def split: prod.splits sum.splits)
qed simp

text \<open>
  \<^bold>\<open>C32.\<close> Reconnecting to an upstream ends as the configuration says. With a limit it always ends, with
  the first of that many attempts that connects, or with none. Without a limit it never gives up, and
  ends as soon as an attempt connects, if one ever does.
\<close>

theorem reconnect_outcome:
  "case rcp_max_attempts policy of
     Some m \<Rightarrow> reconnect client env u policy b 0 w = Some (attempts_run client env u policy (unat m) b w)
   | None \<Rightarrow> (\<forall>res w'. reconnect client env u policy b 0 w = Some (res, w') \<longleftrightarrow>
       (\<exists>n p. res = Some p \<and> attempts_run client env u policy n b w = (Some p, w')))"
proof (cases "rcp_max_attempts policy")
  case None
  have "\<exists>n p. res = Some p \<and> attempts_run client env u policy n b w = (Some p, w')"
    if "reconnect client env u policy b 0 w = Some (res, w')" for res w'
    using reconnect_unlimited_result [OF that] None by auto
  with reconnect_unlimited_finds [OF None] None show ?thesis by auto
next
  case (Some m)
  with reconnect_limited [OF Some, of 0 client env u b w] show ?thesis by simp
qed

section \<open>Peers and supervisors\<close>

definition supervisor_in_bounds :: "reconnect_policy \<Rightarrow> 'p supervisor \<Rightarrow> bool" where
  "supervisor_in_bounds policy s =
     (case s of
        Retrying b a \<Rightarrow> b \<le> max (rcp_initial_backoff policy) (rcp_max_backoff policy)
          \<and> (case rcp_max_attempts policy of None \<Rightarrow> True | Some m \<Rightarrow> a \<le> m)
      | _ \<Rightarrow> True)"

definition gateway_inv :: "reconnect_policy \<Rightarrow> 'p peers \<times> 'p supervisors \<Rightarrow> bool" where
  "gateway_inv policy g \<longleftrightarrow>
     distinct (map (mu_name \<circ> fst) (snd g))
     \<and> (\<forall>name p. fst g name = Some p \<longleftrightarrow> (\<exists>u. mu_name u = name \<and> (u, Watching p) \<in> set (snd g)))
     \<and> list_all (supervisor_in_bounds policy \<circ> snd) (snd g)"

lemma gateway_invI:
  assumes "distinct (map (mu_name \<circ> fst) sups)"
    and "\<And>name p. peers name = Some p \<longleftrightarrow> (\<exists>u. mu_name u = name \<and> (u, Watching p) \<in> set sups)"
    and "list_all (supervisor_in_bounds policy \<circ> snd) sups"
  shows "gateway_inv policy (peers, sups)"
  using assms by (simp add: gateway_inv_def)

text \<open>One supervisor moves on and sets its own entry of the peers accordingly.\<close>

lemma watching_update:
  assumes "distinct (map (mu_name \<circ> fst) sups)" and "i < length sups" and "fst (sups ! i) = u"
  shows "(\<exists>v. mu_name v = name \<and> (v, Watching p) \<in> set (sups[i := (u, s)])) \<longleftrightarrow>
    (if name = mu_name u then s = Watching p else \<exists>v. mu_name v = name \<and> (v, Watching p) \<in> set sups)"
proof -
  have other: "j = i" if "j < length sups" "mu_name (fst (sups ! j)) = mu_name u" for j
    using assms nth_eq_iff_index_eq [OF assms(1), of j i] that by simp
  show ?thesis
  proof (cases "name = mu_name u")
    case True
    with other assms(2) show ?thesis
      by (auto simp: in_set_conv_nth nth_list_update split: if_splits)
  next
    case False
    with assms(2,3) show ?thesis
      by (auto simp: in_set_conv_nth nth_list_update split: if_splits) (metis fst_conv)+
  qed
qed

lemma gateway_inv_update:
  assumes "gateway_inv policy (peers, sups)" and "i < length sups" and "fst (sups ! i) = u"
    and "supervisor_in_bounds policy s"
    and "\<And>name. peers' name = (if name = mu_name u then (case s of Watching p \<Rightarrow> Some p | _ \<Rightarrow> None) else peers name)"
  shows "gateway_inv policy (peers', sups[i := (u, s)])"
proof (rule gateway_invI)
  have d: "distinct (map (mu_name \<circ> fst) sups)" using assms(1) by (simp add: gateway_inv_def)
  have same: "map (mu_name \<circ> fst) (sups[i := (u, s)]) = map (mu_name \<circ> fst) sups"
    using assms(2,3) by (simp add: map_update list_update_same_conv)
  show "distinct (map (mu_name \<circ> fst) (sups[i := (u, s)]))" unfolding same by (rule d)
  show "peers' name = Some p \<longleftrightarrow> (\<exists>v. mu_name v = name \<and> (v, Watching p) \<in> set (sups[i := (u, s)]))" for name p
    unfolding watching_update [OF d assms(2,3)] assms(5)
    using assms(1) by (auto simp: gateway_inv_def split: supervisor.split)
  show "list_all (supervisor_in_bounds policy \<circ> snd) (sups[i := (u, s)])"
    using assms(1,2,4) by (auto simp: gateway_inv_def list_all_length nth_list_update)
qed

lemma gateway_entry:
  assumes "gateway_inv policy (peers, sups)" and "i < length sups" and "sups ! i = (u, s)"
  shows "peers (mu_name u) = (case s of Watching p \<Rightarrow> Some p | _ \<Rightarrow> None)" "supervisor_in_bounds policy s"
proof -
  have d: "distinct (map (mu_name \<circ> fst) sups)" using assms(1) by (simp add: gateway_inv_def)
  have eq: "peers (mu_name u) = Some p \<longleftrightarrow> s = Watching p" for p
  proof -
    have "(\<exists>v. mu_name v = mu_name u \<and> (v, Watching p) \<in> set sups) \<longleftrightarrow> s = Watching p"
      using watching_update [OF d assms(2), of u "mu_name u" p s] assms(2,3) by (metis fst_conv list_update_id)
    then show ?thesis using assms(1) by (simp add: gateway_inv_def)
  qed
  show "peers (mu_name u) = (case s of Watching p \<Rightarrow> Some p | _ \<Rightarrow> None)"
  proof (cases s)
    case (Watching p) with eq [of p] show ?thesis by simp
  next
    case (Retrying b a) then show ?thesis using eq [of "the (peers (mu_name u))"] by (cases "peers (mu_name u)") simp_all
  next
    case Gone then show ?thesis using eq [of "the (peers (mu_name u))"] by (cases "peers (mu_name u)") simp_all
  qed
  show "supervisor_in_bounds policy s"
    using assms by (auto simp: gateway_inv_def list_all_length)
qed

lemma gateway_step_inv:
  assumes "gateway_step policy g g'" and "gateway_inv policy g"
  shows "gateway_inv policy g' \<and> map fst (snd g') = map fst (snd g)"
  using assms
proof (induction rule: gateway_step.induct)
  case (dropped i sups u p peers)
  then show ?case
    by (auto intro!: gateway_inv_update simp: supervisor_in_bounds_def map_update list_update_same_conv
        split: option.split)
next
  case (gave_up i sups u b a peers)
  with gateway_entry(1) [OF gave_up(4,1,2)] show ?case
    by (auto intro!: gateway_inv_update simp: supervisor_in_bounds_def map_update list_update_same_conv)
next
  case (failed i sups u b a peers)
  have "supervisor_in_bounds policy (Retrying (doubled_backoff b (rcp_max_backoff policy)) (a + 1))"
    using failed(3)
    by (auto simp: supervisor_in_bounds_def doubled_backoff_def should_give_up_def not_le inc_le split: option.splits)
  with failed gateway_entry(1) [OF failed(4,1,2)] show ?case
    by (auto intro!: gateway_inv_update simp: map_update list_update_same_conv)
next
  case (reconnected i sups u b a peers p)
  then show ?case
    by (auto intro!: gateway_inv_update simp: supervisor_in_bounds_def map_update list_update_same_conv)
qed

lemma gateway_steps_inv:
  "(gateway_step policy)\<^sup>*\<^sup>* g g' \<Longrightarrow> gateway_inv policy g
    \<Longrightarrow> gateway_inv policy g' \<and> map fst (snd g') = map fst (snd g)"
  by (induction rule: rtranclp_induct) (simp, metis gateway_step_inv)

lemma connect_all_inv:
  "connect_all client env us peers sups w = (peers', sups', w') \<Longrightarrow> gateway_inv policy (peers, sups)
    \<Longrightarrow> distinct (map (mu_name \<circ> fst) sups @ map mu_name us)
    \<Longrightarrow> gateway_inv policy (peers', sups') \<and> set (map fst sups') \<subseteq> set (map fst sups) \<union> set us"
proof (induction us arbitrary: peers sups w)
  case (Cons u us)
  obtain r w1 where conn: "connect_one client env u w = (r, w1)" by fastforce
  show ?case
  proof (cases r)
    case (Inl e)
    from Cons.IH [of peers sups w1] Cons.prems Inl conn show ?thesis by auto
  next
    case (Inr p)
    have inv: "gateway_inv policy (peers(mu_name u \<mapsto> p), sups @ [(u, Watching p)])"
    proof (rule gateway_invI)
      show "(peers(mu_name u \<mapsto> p)) name = Some q \<longleftrightarrow>
          (\<exists>v. mu_name v = name \<and> (v, Watching q) \<in> set (sups @ [(u, Watching p)]))" for name q
        using Cons.prems(2,3) by (force simp: gateway_inv_def)
    qed (use Cons.prems(2,3) in \<open>auto simp: gateway_inv_def supervisor_in_bounds_def\<close>)
    have run: "connect_all client env us (peers(mu_name u \<mapsto> p)) (sups @ [(u, Watching p)]) w1 = (peers', sups', w')"
      using Cons.prems(1) Inr conn by simp
    have "distinct (map (mu_name \<circ> fst) (sups @ [(u, Watching p)]) @ map mu_name us)"
      using Cons.prems(3) by (simp add: comp_def)
    from Cons.IH [OF run inv this] show ?thesis by auto
  qed
qed auto

text \<open>
  \<^bold>\<open>C31.\<close> With upstreams of different names, at any moment a tool of an upstream can be called exactly
  while its supervisor watches a live connection, and the call goes to that connection; while it is
  reconnecting or has been given up, a call is answered as for a name that is not configured. Waits
  stay below the larger of the two configured backoffs, attempts within the limit.
\<close>

theorem reachable_gateway_sound:
  assumes "distinct (map mu_name upstreams)"
    and "connect client env upstreams w = (peers0, sups0, w')"
    and "(gateway_step policy)\<^sup>*\<^sup>* (peers0, sups0) (peers, sups)"
  shows "(\<forall>u s. (u, s) \<in> set sups \<longrightarrow> u \<in> set upstreams \<and> supervisor_in_bounds policy s
      \<and> call_proxied client peers (mu_name u) tool args v =
          (case s of
             Watching p \<Rightarrow> (case mc_call_tool client p tool args v of (res, v') \<Rightarrow> (map_sum Service id res, v'))
           | _ \<Rightarrow> (Inl (UnknownUpstream (mu_name u)), v)))
    \<and> (\<forall>name. name \<notin> mu_name ` fst ` set sups \<longrightarrow>
        call_proxied client peers name tool args v = (Inl (UnknownUpstream name), v))"
proof -
  have "gateway_inv policy (Map.empty, [])" by (simp add: gateway_inv_def)
  from connect_all_inv [OF assms(2) [unfolded connect_def empty_gateway_def] this] assms(1)
  have start: "gateway_inv policy (peers0, sups0)" "set (map fst sups0) \<subseteq> set upstreams" by simp_all
  with gateway_steps_inv [OF assms(3)] have inv: "gateway_inv policy (peers, sups)"
    and configured: "fst ` set sups \<subseteq> set upstreams" by (simp_all, metis set_map)
  have "u \<in> set upstreams \<and> supervisor_in_bounds policy s \<and> call_proxied client peers (mu_name u) tool args v =
          (case s of
             Watching p \<Rightarrow> (case mc_call_tool client p tool args v of (res, v') \<Rightarrow> (map_sum Service id res, v'))
           | _ \<Rightarrow> (Inl (UnknownUpstream (mu_name u)), v))" if entry: "(u, s) \<in> set sups" for u s
  proof -
    obtain i where i: "i < length sups" "sups ! i = (u, s)" using entry by (auto simp: in_set_conv_nth)
    from gateway_entry [OF inv i] configured entry show ?thesis
      by (cases s) (auto simp: call_proxied_def)
  qed
  moreover have "peers name = None" if "name \<notin> mu_name ` fst ` set sups" for name
    using inv that by (cases "peers name") (force simp: gateway_inv_def)+
  ultimately show ?thesis by (simp add: call_proxied_def)
qed

text \<open>A client whose connections are named by the command, all with one tool.\<close>

definition echo_client :: "(string, unit, string, string, unit) mcp_client" where
  "echo_client =
     \<lparr>mc_spawn = (\<lambda>command args w. (Inr command, w)), mc_http = (\<lambda>url token w. (Inr url, w)),
      mc_list_tools = (\<lambda>p w. (Inr [\<lparr>to_name = ''read'', to_rest = ()\<rparr>], w)),
      mc_call_tool = (\<lambda>p tool args w. (Inr (p @ '':'' @ tool), w)), mc_sleep = (\<lambda>n w. w)\<rparr>"

definition sample_upstream :: "string \<Rightarrow> string \<Rightarrow> mcp_upstream_config" where
  "sample_upstream name command = \<lparr>mu_name = name, mu_transport = Stdio command []\<rparr>"

definition sample_policy :: reconnect_policy where
  "sample_policy = \<lparr>rcp_initial_backoff = 1, rcp_max_backoff = 60, rcp_max_attempts = Some 3\<rparr>"

theorem reachable_gateway_sound_witness:
  "\<exists>down up. (gateway_step sample_policy)\<^sup>*\<^sup>*
        ([''fs'' \<mapsto> ''npx''], [(sample_upstream ''fs'' ''npx'', Watching ''npx'')]) (down, [(sample_upstream ''fs'' ''npx'', Retrying 1 0)])
     \<and> (gateway_step sample_policy)\<^sup>*\<^sup>*
        ([''fs'' \<mapsto> ''npx''], [(sample_upstream ''fs'' ''npx'', Watching ''npx'')]) (up, [(sample_upstream ''fs'' ''npx'', Watching ''again'')])
     \<and> call_proxied echo_client down ''fs'' ''read'' None () = (Inl (UnknownUpstream ''fs''), ())
     \<and> call_proxied echo_client up ''fs'' ''read'' None () = (Inr ''again:read'', ())"
proof -
  let ?u = "sample_upstream ''fs'' ''npx''"
  let ?start = "([''fs'' \<mapsto> ''npx''], [(?u, Watching ''npx'')])"
  let ?down = "(([''fs'' \<mapsto> ''npx''])(mu_name ?u := None), [(?u, Watching ''npx'')][0 := (?u, Retrying (rcp_initial_backoff sample_policy) 0)])"
  let ?up = "((fst ?down)(mu_name ?u \<mapsto> ''again''), (snd ?down)[0 := (?u, Watching ''again'')])"
  have down: "gateway_step sample_policy ?start ?down" by (rule gateway_step.dropped) simp_all
  have up: "gateway_step sample_policy ?down ?up"
    by (simp only: fst_conv snd_conv, rule gateway_step.reconnected)
      (simp, simp, simp add: sample_policy_def should_give_up_def)
  have conn: "connect echo_client Map.empty [?u] () = (fst ?start, snd ?start, ())"
    by (simp add: connect_def connect_one_def echo_client_def empty_gateway_def sample_upstream_def)
  note sound = reachable_gateway_sound [OF _ conn, of sample_policy]
  have runs: "(gateway_step sample_policy)\<^sup>*\<^sup>* ?start ?down" "(gateway_step sample_policy)\<^sup>*\<^sup>* ?start ?up"
    using down up by (auto intro: rtranclp.rtrancl_into_rtrancl)
  have "call_proxied echo_client (fst ?down) ''fs'' ''read'' None () = (Inl (UnknownUpstream ''fs''), ())"
    using sound [of "fst ?down" "snd ?down" "''read''" None "()"] runs(1) by (simp add: sample_upstream_def)
  moreover have "call_proxied echo_client (fst ?up) ''fs'' ''read'' None () = (Inr ''again:read'', ())"
    using sound [of "fst ?up" "snd ?up" "''read''" None "()"] runs(2)
    by (simp add: sample_upstream_def echo_client_def)
  ultimately show ?thesis
    using runs by (intro exI [of _ "fst ?down"] exI [of _ "fst ?up"]) (simp add: sample_policy_def)
qed

text \<open>
  Two upstreams of one name, which the configuration forbids in words only: the peers hold the later
  connection, and the end of the earlier one removes it, though it is alive and watched.
\<close>

lemma duplicate_name_loses_peer:
  "connect echo_client Map.empty [sample_upstream ''fs'' ''a'', sample_upstream ''fs'' ''b''] ()
     = ([''fs'' \<mapsto> ''b''], [(sample_upstream ''fs'' ''a'', Watching ''a''), (sample_upstream ''fs'' ''b'', Watching ''b'')], ())"
  "gateway_step policy
     ([''fs'' \<mapsto> ''b''], [(sample_upstream ''fs'' ''a'', Watching ''a''), (sample_upstream ''fs'' ''b'', Watching ''b'')])
     (Map.empty, [(sample_upstream ''fs'' ''a'', Retrying (rcp_initial_backoff policy) 0), (sample_upstream ''fs'' ''b'', Watching ''b'')])"
proof -
  show "connect echo_client Map.empty [sample_upstream ''fs'' ''a'', sample_upstream ''fs'' ''b''] ()
     = ([''fs'' \<mapsto> ''b''], [(sample_upstream ''fs'' ''a'', Watching ''a''), (sample_upstream ''fs'' ''b'', Watching ''b'')], ())"
    by (simp add: connect_def connect_one_def echo_client_def empty_gateway_def sample_upstream_def)
  show "gateway_step policy
     ([''fs'' \<mapsto> ''b''], [(sample_upstream ''fs'' ''a'', Watching ''a''), (sample_upstream ''fs'' ''b'', Watching ''b'')])
     (Map.empty, [(sample_upstream ''fs'' ''a'', Retrying (rcp_initial_backoff policy) 0), (sample_upstream ''fs'' ''b'', Watching ''b'')])"
    using gateway_step.dropped [of 0 "[(sample_upstream ''fs'' ''a'', Watching ''a''), (sample_upstream ''fs'' ''b'', Watching ''b'')]"
        "sample_upstream ''fs'' ''a''" "''a''" policy "[''fs'' \<mapsto> ''b'']"]
    by (simp add: sample_upstream_def)
qed

text \<open>The first wait is the configured initial backoff, also where that is above the ceiling.\<close>

lemma first_wait_above_ceiling:
  "rcp_max_backoff policy < rcp_initial_backoff policy
    \<Longrightarrow> gateway_step policy (peers, [(u, Watching p)]) (peers', sups') \<Longrightarrow> \<exists>b. sups' = [(u, Retrying b 0)] \<and> rcp_max_backoff policy < b"
  by (erule gateway_stepE) auto

end
