(* ===== verification/Server_Billing.thy ===== *)
theory Server_Billing
  imports Server_Runs
begin

text \<open>
  What a client is billed: exactly what the answers and the chunks it is handed show; and that a
  client whose budget is used up is never dispatched for.
\<close>

section \<open>What a client is billed\<close>

definition event_cost :: "sse_event \<Rightarrow> f64" where
  "event_cost e = (case e of ChunkEvent chunk \<Rightarrow> unwrap_or 0 (ck_cost_usd chunk) | _ \<Rightarrow> 0)"

lemma roll_again: "roll_period_if_needed (roll_period_if_needed s k) k = roll_period_if_needed s k"
  by (simp add: roll_period_if_needed_def)

text \<open>Charging a client in memory adds the cost to its spend of the period.\<close>

lemma charge_client_spend:
  assumes "ro_persistence r = None" and "ro_client_budgets r name = Some s"
    and "charge_client now (Some name) u cost r = (tasks, r')"
  shows "tasks = [] \<and> ro_persistence r' = None \<and> ro_client_budgets r' = ro_client_budgets r
    \<and> sp_spent_usd (memory_spend name (period_key_at (bs_period s) now) r')
        = sp_spent_usd (memory_spend name (period_key_at (bs_period s) now) r) + unwrap_or 0 cost"
proof -
  have daily: "record_client_daily_usage now name v cost r = r" for v
    using assms(1) by (simp add: record_client_daily_usage_def)
  show ?thesis
  proof (cases cost)
    case None
    with assms daily show ?thesis by (auto simp: charge_client_def Let_def split: option.splits)
  next
    case (Some x)
    have r1: "(case u of None \<Rightarrow> r | Some v \<Rightarrow> record_client_daily_usage now name v cost r) = r"
      using daily by (simp split: option.split)
    with assms Some have "tasks = []" "r' = snd (record_client_spend now name x r)"
      by (auto simp: charge_client_def Let_def record_client_spend_def split: option.splits)
    with memory_record [OF assms(1,2), of now x] Some show ?thesis
      by (simp add: memory_spend_def add_spend_def roll_period_if_needed_def)
  qed
qed

text \<open>
  \<^bold>\<open>C6.\<close> What follows the checks bills a client exactly for what it is handed: with its spend in
  memory, an answer adds the cost written on the answer to the spend of the period in which it
  arrives; a stream, a refusal or an error adds nothing yet.
\<close>

theorem answer_billed:
  assumes "ro_persistence (st_router st) = None" and "ro_client_budgets (st_router st) name = Some s"
    and "dispatch_chat ops (Some name) req st w = (resp, tasks, st', w')"
  shows "let k = period_key_at (bs_period s) (rt_unix (wo_rt ops) w') in
     tasks = [] \<and> sp_spent_usd (memory_spend name k (st_router st'))
       = sp_spent_usd (memory_spend name k (st_router st))
         + (case sr_body resp of Answered (Completion a) \<Rightarrow> unwrap_or 0 (rs_cost_usd a) | _ \<Rightarrow> 0)"
proof (cases "is_streaming req")
  case True
  obtain res r1 w1 where run: "dispatch_stream_traced (wo_rt ops) req (st_router st) w = (res, r1, w1)"
    by (rule prod_cases3)
  have same_fixed: "fixed r1 = fixed (st_router st)"
    using fixed_stream_uncached [of "wo_rt ops" req "st_router st" w]
      stream_traced_state [of "wo_rt ops" req "st_router st" w] run by simp
  have "memory_spend name k r1 = memory_spend name k (st_router st)" for k
    by (simp add: memory_spend_def fixedD(10) [OF same_fixed])
  with assms(3) True run show ?thesis
    by (auto simp: dispatch_chat_def apply_decision_headers_def insert_header_def answered_def failed_def
        Let_def split: sum.splits)
next
  case False
  obtain res r1 w1 where run: "dispatch_traced (wo_rt ops) req (st_router st) w = (res, r1, w1)"
    by (rule prod_cases3)
  note keep = settledD [OF settled_dispatch_traced [OF run]]
  have same: "memory_spend name k r1 = memory_spend name k (st_router st)" for k
    by (simp add: memory_spend_def keep(2))
  show ?thesis
  proof (cases res)
    case (Inl e)
    with assms(3) False run same show ?thesis by (auto simp: dispatch_chat_def failed_def)
  next
    case (Inr x)
    obtain a trace where x: "x = (a, trace)" by (cases x)
    obtain ts r2 where charge: "charge_client (rt_unix (wo_rt ops) w1) (Some name) (rs_usage a)
        (rs_cost_usd a) r1 = (ts, r2)" by fastforce
    have "sr_body resp = Answered (Completion a)" "st_router st' = r2" "w' = w1" "tasks = ts"
      using assms(3) False run Inr x charge
      by (auto simp: dispatch_chat_def apply_decision_headers_def insert_header_def answered_def Let_def)
    with charge_client_spend [OF _ _ charge] assms(1,2) keep same show ?thesis by (simp add: Let_def)
  qed
qed

text \<open>The sample server's router.\<close>

lemma sample_server_router [simp]:
  "ro_persistence (st_router sample_server) = None"
  "ro_client_budgets (st_router sample_server) ''bob''
     = Some \<lparr>bs_budget_usd = 10, bs_period = Total, bs_warning_threshold = Some (1 / 2)\<rparr>"
  "ro_client_spend (st_router sample_server) = Map.empty"
proof -
  have r: "st_router sample_server = from_config sample_env literal_engine (\<lambda>_. None) two_clients"
    by (simp add: sample_server_def server_start_def)
  have budgets: "ro_client_budgets (st_router sample_server) = settings_from_clients (cf_clients two_clients)"
    unfolding r from_config_def Let_def by (simp split: prod.split)
  show "ro_persistence (st_router sample_server) = None"
    unfolding r from_config_def Let_def by (simp add: two_clients_def sample_config_def split: prod.split)
  show "ro_client_spend (st_router sample_server) = Map.empty"
    unfolding r from_config_def Let_def by (simp split: prod.split)
  show "ro_client_budgets (st_router sample_server) ''bob''
     = Some \<lparr>bs_budget_usd = 10, bs_period = Total, bs_warning_threshold = Some (1 / 2)\<rparr>"
    unfolding budgets settings_from_clients_find [OF sample_server_distinct]
    by (simp add: find_client_def sample_client_def)
qed

theorem answer_billed_witness:
  "\<exists>resp st' w'. dispatch_chat sample_ops (Some ''bob'') (bare_request ''a/x'' [user_message ''hi''])
        sample_server (0, [(7, Inr (answer ''p''))]) = (resp, [], st', w')
     \<and> sp_spent_usd (memory_spend ''bob'' 0 (st_router st'))
         = (case sr_body resp of Answered (Completion a) \<Rightarrow> unwrap_or 0 (rs_cost_usd a) | _ \<Rightarrow> 0)"
proof -
  let ?s = "\<lparr>bs_budget_usd = 10, bs_period = Total, bs_warning_threshold = Some (1 / 2)\<rparr>"
  obtain resp tasks st' w' where run: "dispatch_chat sample_ops (Some ''bob'')
      (bare_request ''a/x'' [user_message ''hi'']) sample_server (0, [(7, Inr (answer ''p''))])
      = (resp, tasks, st', w')" by (rule prod_cases4)
  from answer_billed [OF sample_server_router(1,2) run]
  have "sp_spent_usd (memory_spend ''bob'' 0 (st_router st'))
      = (case sr_body resp of Answered (Completion a) \<Rightarrow> unwrap_or 0 (rs_cost_usd a) | _ \<Rightarrow> 0)"
    by (simp add: Let_def memory_spend_def default_spend_state_def roll_period_if_needed_def)
  moreover have "tasks = []"
    using answer_billed [OF sample_server_router(1,2) run] by (simp add: Let_def)
  ultimately show ?thesis using run by blast
qed

text \<open>
  \<^bold>\<open>C7.\<close> A streamed answer is billed while it is consumed, and for what its events show: every item
  of the provider is passed on in order, unchanged but for its cost, and closed by \<open>[DONE]\<close>; with the
  spend in memory and the stream within one period, the client's spend grows by the sum of the costs
  on the chunks it was sent.
\<close>

theorem stream_billed:
  assumes "ro_persistence r = None" and "ro_client_budgets r name = Some s"
    and "\<forall>(now, unix, item)\<in>set items. period_key_at (bs_period s) unix = k"
  shows "case stream_events (Some name) c t0 items r of (events, tasks, r') \<Rightarrow>
     (\<exists>out. list_all2 same_but_cost (map (snd \<circ> snd) items) out
        \<and> events = map stream_event out @ [DoneEvent])
     \<and> tasks = []
     \<and> sp_spent_usd (memory_spend name k r')
         = sp_spent_usd (memory_spend name k r) + sum_list (map event_cost events)"
  using assms
proof (induction items arbitrary: r)
  case Nil
  then show ?case by (simp add: event_cost_def)
next
  case (Cons i items)
  obtain now unix item where i: "i = (now, unix, item)" by (cases i)
  obtain item' r1 where poll: "instrument_item c t0 now unix item r = (item', r1)" by fastforce
  obtain ts r2 where charge: "charge_item unix (Some name) item' r1 = (ts, r2)" by fastforce
  obtain es ts' r3 where rest: "stream_events (Some name) c t0 items r2 = (es, ts', r3)" by (rule prod_cases3)
  have "settled r1 = settled r"
    using settled_fixed [OF fixed_instrument_item [of c t0 now unix item r]] poll by simp
  note keep = settledD [OF this]
  have same: "memory_spend name k r1 = memory_spend name k r" by (simp add: memory_spend_def keep(2))
  have k: "period_key_at (bs_period s) unix = k" using Cons.prems(3) i by simp
  have billed: "ts = [] \<and> ro_persistence r2 = None \<and> ro_client_budgets r2 = ro_client_budgets r1
      \<and> sp_spent_usd (memory_spend name k r2)
          = sp_spent_usd (memory_spend name k r1) + event_cost (stream_event item')"
  proof (cases item')
    case (Inl e)
    with charge keep Cons.prems show ?thesis by (simp add: charge_item_def event_cost_def stream_event_def)
  next
    case (Inr chunk)
    with charge have "charge_client unix (Some name) (ck_usage chunk) (ck_cost_usd chunk) r1 = (ts, r2)"
      by (simp add: charge_item_def)
    from charge_client_spend [OF _ _ this] keep Cons.prems k Inr show ?thesis
      by (simp add: event_cost_def stream_event_def)
  qed
  have "same_but_cost item item'" using instrument_item_effect [OF poll] by simp
  moreover have "ro_client_budgets r2 name = Some s" using billed keep(1) Cons.prems(2) by simp
  ultimately show ?case
    using Cons.IH [of r2] Cons.prems(3) billed poll charge rest same i
    by (fastforce intro: exI [of _ "item' # _"])
qed

theorem stream_billed_witness:
  "\<exists>events r'. stream_events (Some ''bob'') (''a'', ''x'') 0 [(1, 5, Inl (Other ''gone''))]
       (st_router sample_server) = (events, [], r')
     \<and> sp_spent_usd (memory_spend ''bob'' 0 r') = sum_list (map event_cost events)"
proof -
  let ?items = "[(1, 5, Inl (Other ''gone''))] :: (instant \<times> i64 \<times> (provider_error + chat_chunk)) list"
  obtain events tasks r' where run: "stream_events (Some ''bob'') (''a'', ''x'') 0 ?items (st_router sample_server)
      = (events, tasks, r')" by (rule prod_cases3)
  have "\<forall>(now, unix, item)\<in>set ?items. period_key_at (bs_period
      \<lparr>bs_budget_usd = 10, bs_period = Total, bs_warning_threshold = Some (1 / 2)\<rparr>) unix = 0" by simp
  from stream_billed [OF sample_server_router(1,2) this, of "(''a'', ''x'')" 0] run
  have "tasks = []" "sp_spent_usd (memory_spend ''bob'' 0 r') = sum_list (map event_cost events)"
    by (simp_all add: memory_spend_def default_spend_state_def roll_period_if_needed_def)
  with run show ?thesis by blast
qed

text \<open>How a chat request ends: refused before the budget, at the budget, or dispatched.\<close>

lemma chat_dispatch_cases:
  assumes "chat_completions_dispatch ops client req st w = (resp, tasks, st', w')"
  obtains (refused) resp0 mt where "resp = failed resp0" "tasks = []"
      "st' = with_router (\<lambda>r. r\<lparr>ro_metrics := mt\<rparr>) st"
    | (over) resp0 name exceeded mt r3 v where "resp = failed resp0" "tasks = []"
      "budget_of (rt_unix (wo_rt ops) v) client ((st_router st)\<lparr>ro_metrics := mt\<rparr>) = (Some (name, exceeded), r3)"
      "budget_exceeded_response name exceeded (st\<lparr>st_router := r3\<rparr>) = (resp0, st')"
    | (dispatched) req' mt r3 v where
      "budget_of (rt_unix (wo_rt ops) v) client ((st_router st)\<lparr>ro_metrics := mt\<rparr>) = (None, r3)"
      "dispatch_chat ops client req' (st\<lparr>st_router := r3\<rparr>) v = (resp, tasks, st', w')"
proof (cases "cr_messages req = [] \<or> (\<exists>e. apply_preset (ro_presets (st_router st)) req = Inl e)")
  case True
  with assms(1) have "tasks = [] \<and> st' = st \<and> (\<exists>resp0. resp = failed resp0)"
    by (elim disjE exE) (auto simp: chat_completions_dispatch_def split: if_splits)
  then obtain resp0 where "resp = failed resp0" "tasks = []" "st' = st" by blast
  then show ?thesis by (intro refused [of resp0 "ro_metrics (st_router st)"]) simp_all
next
  case False
  then obtain req1 where req1: "cr_messages req \<noteq> []" "apply_preset (ro_presets (st_router st)) req = Inr req1"
    by (metis sum.exhaust)
  obtain req2 mt1 w1 where web: "apply_web_search (wo_web_search ops) req1 (ro_metrics (st_router st)) w
      = (req2, mt1, w1)" by (rule prod_cases3)
  show ?thesis
  proof (cases "apply_guardrails (wo_regex ops) (ro_guardrails (st_router st)) req2")
    case (Inl e)
    with assms(1) req1 web show ?thesis
      by (intro refused [of "router_error_response e" mt1]) (simp_all add: chat_completions_dispatch_def Let_def)
  next
    case guarded: (Inr req3)
    obtain ruling mt2 w2 where moderation: "apply_moderation (wo_moderation ops) req3 mt1 w1 = (ruling, mt2, w2)"
      by (rule prod_cases3)
    obtain ruled r3 where budget: "budget_of (rt_unix (wo_rt ops) w2) client ((st_router st)\<lparr>ro_metrics := mt2\<rparr>)
        = (ruled, r3)" by fastforce
    note run = assms(1) req1 web guarded moderation budget
    consider (flagged) e where "ruling = Inl e" | (over) u x where "ruling = Inr u" "ruled = Some x"
      | (clear) u where "ruling = Inr u" "ruled = None" by (metis not_None_eq sum.exhaust)
    then show ?thesis
    proof cases
      case (flagged e)
      with run show ?thesis
        by (intro refused [of "router_error_response e" mt2]) (simp_all add: chat_completions_dispatch_def Let_def)
    next
      case (over u x)
      obtain name exceeded where x: "x = (name, exceeded)" by (cases x)
      obtain resp0 st3 where refuse: "budget_exceeded_response name exceeded (st\<lparr>st_router := r3\<rparr>) = (resp0, st3)"
        by fastforce
      with run over x show ?thesis
        by (intro that(2) [of resp0 w2 mt2 name exceeded r3])
          (simp_all add: chat_completions_dispatch_def Let_def)
    next
      case (clear u)
      with run show ?thesis
        by (intro dispatched [of w2 mt2 r3 req3]) (simp_all add: chat_completions_dispatch_def Let_def)
    qed
  qed
qed

lemma budget_of_state:
  assumes "budget_of now client r = (ruling, r')" shows "\<exists>spend. r' = r\<lparr>ro_client_spend := spend\<rparr>"
proof (cases client)
  case None
  with assms show ?thesis by (auto simp: budget_of_def intro: exI [of _ "ro_client_spend r"])
next
  case (Some name)
  obtain ok r1 where check: "check_client_budget now name r = (ok, r1)" by fastforce
  with assms Some have "r' = r1" by (auto simp: budget_of_def split: sum.splits)
  moreover have "\<exists>spend. r1 = r\<lparr>ro_client_spend := spend\<rparr>"
    using check by (auto simp: check_client_budget_def dest: spent_usd_for_state
        intro: exI [of _ "ro_client_spend r"] split: option.splits prod.splits)
  ultimately show ?thesis by simp
qed



end
