(* ===== verification/Mcp_Server.thy ===== *)
theory Mcp_Server
  imports Mcp_Gateway_Facts Server_Billing
begin

text \<open>
  The MCP surface (\<open>crates/mcp/src/server.rs\<close>): the router's own tools and the proxied ones under one
  list, and what a call by name reaches. Paging is the library's.
\<close>

section \<open>The merged server\<close>

text \<open>\<open>list_tools\<close> before paging: native and proxied tools, sorted by name.\<close>

definition merged_tools ::
  "'x mcp_tool list \<Rightarrow> ('p, 'x, 'a, 'r, 'w) mcp_client \<Rightarrow> 'p peers \<Rightarrow> string list \<Rightarrow> 'w \<Rightarrow> 'x mcp_tool list \<times> 'w" where
  "merged_tools native client peers names w =
     (case list_proxied client peers names w of
        (proxied, w') \<Rightarrow> (sort_key to_name (native @ proxied), w'))"

definition mcp_list_tools ::
  "('x mcp_tool list \<Rightarrow> string option \<Rightarrow> mcp_error + 'x mcp_tool list \<times> string option) \<Rightarrow> 'x mcp_tool list
    \<Rightarrow> ('p, 'x, 'a, 'r, 'w) mcp_client \<Rightarrow> 'p peers \<Rightarrow> string list \<Rightarrow> string option \<Rightarrow> 'w
    \<Rightarrow> (mcp_error + 'x mcp_tool list \<times> string option) \<times> 'w" where
  "mcp_list_tools page native client peers names cursor w =
     (case merged_tools native client peers names w of (tools, w') \<Rightarrow> (page tools cursor, w'))"

text \<open>A name with a slash is a proxied tool's; any other call is the native tools'.\<close>

definition mcp_call_tool ::
  "(string \<Rightarrow> 'a option \<Rightarrow> 'w \<Rightarrow> (mcp_error + 'r) \<times> 'w) \<Rightarrow> ('p, 'x, 'a, 'r, 'w) mcp_client \<Rightarrow> 'p peers
    \<Rightarrow> string \<Rightarrow> 'a option \<Rightarrow> 'w \<Rightarrow> (mcp_error + 'r) \<times> 'w" where
  "mcp_call_tool native_call client peers name arguments w =
     (case split_once CHR ''/'' name of
        Some (upstream, tool) \<Rightarrow>
          (case call_proxied client peers upstream tool arguments w of
             (res, w') \<Rightarrow> (map_sum (\<lambda>e. Invalid_Params (gateway_error_text e)) id res, w'))
      | None \<Rightarrow> native_call name arguments w)"

definition mcp_get_tool :: "'x mcp_tool list \<Rightarrow> string \<Rightarrow> 'x mcp_tool option" where
  "mcp_get_tool native name =
     (case split_once CHR ''/'' name of
        Some _ \<Rightarrow> None
      | None \<Rightarrow> List.find (\<lambda>t. to_name t = name) native)"

section \<open>Listed tools can be called\<close>

lemma list_proxied_mem:
  "list_proxied client peers names w = (tools, w') \<Longrightarrow> t \<in> set tools \<Longrightarrow>
     \<exists>name peer own v ts v'. peers name = Some peer \<and> own \<in> set ts \<and> t = prefixed name own
       \<and> mc_list_tools client peer v = (Inr ts, v')"
proof (induction names arbitrary: w tools w')
  case (Cons name names)
  show ?case
  proof (cases "peers name")
    case None with Cons show ?thesis by simp
  next
    case (Some peer)
    obtain res w1 where listed: "mc_list_tools client peer w = (res, w1)" by fastforce
    obtain others w2 where rest: "list_proxied client peers names w1 = (others, w2)" by fastforce
    show ?thesis
    proof (cases res)
      case (Inl e)
      with Cons.prems Some listed rest Cons.IH [OF rest] show ?thesis by simp
    next
      case (Inr ts)
      with Cons.prems Some listed rest have "t \<in> prefixed name ` set ts \<or> t \<in> set others" by auto
      with Some listed Inr Cons.IH [OF rest] show ?thesis by blast
    qed
  qed
qed simp

lemma service_text:
  "map_sum (\<lambda>e. Invalid_Params (gateway_error_text e)) id (map_sum Service id res) = map_sum Invalid_Params id res"
  by (cases res) (simp_all add: gateway_error_text_def)

text \<open>
  \<^bold>\<open>C33.\<close> Every tool listed can be called under the name it is listed with. The list is sorted by name;
  a native tool's call is handled natively, and a proxied tool's goes to the upstream that listed it,
  under the name it has there, provided no upstream and no native tool has a slash in its name.
\<close>

theorem listed_tools_callable:
  assumes "merged_tools native client peers names w = (tools, w')" and "t \<in> set tools"
    and "\<forall>name\<in>dom peers. CHR ''/'' \<notin> set name" and "\<forall>tool\<in>set native. CHR ''/'' \<notin> set (to_name tool)"
  shows "sorted (map to_name tools)
    \<and> (t \<in> set native \<and> mcp_call_tool native_call client peers (to_name t) args v = native_call (to_name t) args v
      \<or> (\<exists>name peer own u ts u'. peers name = Some peer \<and> own \<in> set ts \<and> t = prefixed name own
          \<and> mc_list_tools client peer u = (Inr ts, u')
          \<and> mcp_call_tool native_call client peers (to_name t) args v =
              (case mc_call_tool client peer (to_name own) args v of
                 (res, v') \<Rightarrow> (map_sum Invalid_Params id res, v'))))"
proof
  obtain proxied where proxied: "list_proxied client peers names w = (proxied, w')"
    "tools = sort_key to_name (native @ proxied)"
    using assms(1) by (auto simp: merged_tools_def split: prod.splits)
  then show "sorted (map to_name tools)" by simp
  show "t \<in> set native \<and> mcp_call_tool native_call client peers (to_name t) args v = native_call (to_name t) args v
      \<or> (\<exists>name peer own u ts u'. peers name = Some peer \<and> own \<in> set ts \<and> t = prefixed name own
          \<and> mc_list_tools client peer u = (Inr ts, u')
          \<and> mcp_call_tool native_call client peers (to_name t) args v =
              (case mc_call_tool client peer (to_name own) args v of
                 (res, v') \<Rightarrow> (map_sum Invalid_Params id res, v')))"
  proof (cases "t \<in> set native")
    case True
    with assms(4) have "split_once CHR ''/'' (to_name t) = None" by simp
    with True show ?thesis by (simp only: mcp_call_tool_def option.case simp_thms)
  next
    case False
    with assms(2) proxied(2) have "t \<in> set proxied" by simp
    from list_proxied_mem [OF proxied(1) this] obtain name peer own u ts u' where
      own: "peers name = Some peer" "own \<in> set ts" "t = prefixed name own" "mc_list_tools client peer u = (Inr ts, u')"
      by blast
    with assms(3) have "split_once CHR ''/'' (to_name t) = Some (name, to_name own)"
      by (auto simp: split_once_Some prefixed_def)
    then have "mcp_call_tool native_call client peers (to_name t) args v =
        (case mc_call_tool client peer (to_name own) args v of (res, v') \<Rightarrow> (map_sum Invalid_Params id res, v'))"
      by (simp add: mcp_call_tool_def call_proxied_def own(1) service_text split: prod.split)
    with own show ?thesis by blast
  qed
qed

definition own_tool :: "unit mcp_tool" where
  "own_tool = \<lparr>to_name = ''list_models'', to_rest = ()\<rparr>"

theorem listed_tools_callable_witness:
  "fst (merged_tools [own_tool] echo_client [''fs'' \<mapsto> ''npx''] [''fs''] ())
     = [prefixed ''fs'' \<lparr>to_name = ''read'', to_rest = ()\<rparr>, own_tool]
   \<and> mcp_call_tool (\<lambda>name args w. (Inr ''native'', w)) echo_client [''fs'' \<mapsto> ''npx''] ''fs/read'' None ()
     = (Inr ''npx:read'', ())"
proof -
  let ?native = "\<lambda>name args w. (Inr ''native'', w)" and ?peers = "[''fs'' \<mapsto> ''npx'']"
  have list: "merged_tools [own_tool] echo_client ?peers [''fs''] ()
      = ([prefixed ''fs'' \<lparr>to_name = ''read'', to_rest = ()\<rparr>, own_tool], ())"
    by (simp add: merged_tools_def echo_client_def prefixed_def own_tool_def)
  let ?t = "prefixed ''fs'' \<lparr>to_name = ''read'', to_rest = ()\<rparr>"
  have t: "?t \<noteq> own_tool" "to_name ?t = ''fs/read''" by (simp_all add: prefixed_def own_tool_def)
  have "?t \<in> set [?t, own_tool]" "\<forall>name\<in>dom ?peers. CHR ''/'' \<notin> set name"
    "\<forall>tool\<in>set [own_tool]. CHR ''/'' \<notin> set (to_name tool)" by (simp_all add: own_tool_def)
  from listed_tools_callable [OF list this, of ?native None "()"] t(1) obtain name peer own where
    e: "?peers name = Some peer" "?t = prefixed name own"
      "mcp_call_tool ?native echo_client ?peers (to_name ?t) None ()
        = (case mc_call_tool echo_client peer (to_name own) None () of (res, v') \<Rightarrow> (map_sum Invalid_Params id res, v'))"
    by fastforce
  from e(1) have "name = ''fs''" "peer = ''npx''" by (simp_all split: if_splits)
  moreover from this have "to_name own = ''read''"
    using arg_cong [OF e(2), of to_name] by (simp add: prefixed_def)
  ultimately have "mcp_call_tool ?native echo_client ?peers ''fs/read'' None () = (Inr ''npx:read'', ())"
    using e(3) by (simp add: t(2) echo_client_def)
  with list show ?thesis by simp
qed

text \<open>An upstream with a slash in its name has its tools listed, but no call reaches them.\<close>

lemma slash_in_upstream_name:
  "fst (merged_tools [] echo_client [''a/b'' \<mapsto> ''npx''] [''a/b''] ())
     = [prefixed ''a/b'' \<lparr>to_name = ''read'', to_rest = ()\<rparr>]"
  "mcp_call_tool native_call echo_client [''a/b'' \<mapsto> ''npx'']
       (to_name (prefixed ''a/b'' \<lparr>to_name = ''read'', to_rest = ()\<rparr>)) args ()
     = (Inl (Invalid_Params (gateway_error_text (UnknownUpstream ''a''))), ())"
  by (simp_all add: merged_tools_def echo_client_def prefixed_def mcp_call_tool_def call_proxied_def)

section \<open>A tool's call is not the client's request\<close>

text \<open>
  The chat tool checks who asks and nothing else: a caller who gets past authentication is
  answered by the router whatever its rate limit and its budget, nothing is charged to any client, and
  no limit is counted down, while the usage of the models is recorded as for any dispatch.
\<close>

theorem mcp_chat_unbilled:
  assumes "mcp_chat_tool ops why authorization args st w = (resp, tasks, st', w')"
  shows "tasks = [] \<and> st_rate_limiter st' = st_rate_limiter st
    \<and> ro_client_spend (st_router st') = ro_client_spend (st_router st)
    \<and> ro_notified (st_router st') = ro_notified (st_router st)
    \<and> (case check_auth (wo_jwt ops) authorization st w of
         (Some refusal, _) \<Rightarrow> resp = failed refusal
       | (None, st1, w1) \<Rightarrow>
           \<exists>res r'. mcp_chat_completion (wo_rt ops) why args (st_router st1) w1 = (res, r', w')
             \<and> resp = answered res \<and> st' = st1\<lparr>st_router := r'\<rparr>)"
proof -
  obtain ruling st1 w1 where auth: "check_auth (wo_jwt ops) authorization st w = (ruling, st1, w1)"
    by (rule prod_cases3)
  obtain jwt where st1: "st1 = st\<lparr>st_jwt := jwt\<rparr>" using check_auth_aside [OF auth] by blast
  show ?thesis
  proof (cases ruling)
    case (Some refusal)
    with assms auth st1 show ?thesis by (auto simp: mcp_chat_tool_def authenticated_def)
  next
    case None
    obtain res r1 where run: "mcp_chat_completion (wo_rt ops) why args (st_router st1) w1 = (res, r1, w')"
      and reply: "resp = answered res" "tasks = []" "st' = st1\<lparr>st_router := r1\<rparr>"
      using assms auth None by (auto simp: mcp_chat_tool_def authenticated_def split: prod.splits)
    have "settled r1 = settled (st_router st1)"
      using run settled_dispatch_traced
      by (auto simp: mcp_chat_completion_def dispatch_def split: sum.splits prod.splits)
    from settledD(2,3) [OF this] run reply st1 auth None show ?thesis by simp
  qed
qed

text \<open>A client that has used up its budget, and an answer it gets from the tool.\<close>

theorem mcp_chat_unbilled_witness:
  "let st = with_router (\<lambda>r. r\<lparr>ro_client_spend := [''bob'' \<mapsto> \<lparr>sp_period_key = 0, sp_spent_usd = 10\<rparr>]\<rparr>) sample_server;
       args = \<lparr>ca_model = ''a/x'', ca_messages = [\<lparr>mm_role = ''user'', mm_content = ''hi''\<rparr>],
               ca_temperature = None, ca_max_tokens = None\<rparr>
   in \<exists>res st' w'. mcp_chat_tool sample_ops (\<lambda>_. []) (Some ''Bearer key-b'') args st (0, [(7, Inr (answer ''p''))])
        = (answered res, [], st', w')
      \<and> ro_client_spend (st_router st') ''bob'' = Some \<lparr>sp_period_key = 0, sp_spent_usd = 10\<rparr>"
proof -
  let ?st = "with_router (\<lambda>r. r\<lparr>ro_client_spend := [''bob'' \<mapsto> \<lparr>sp_period_key = 0, sp_spent_usd = 10\<rparr>]\<rparr>) sample_server"
  let ?args = "\<lparr>ca_model = ''a/x'', ca_messages = [\<lparr>mm_role = ''user'', mm_content = ''hi''\<rparr>],
               ca_temperature = None, ca_max_tokens = None\<rparr>"
  obtain resp tasks st' w' where run: "mcp_chat_tool sample_ops (\<lambda>_. []) (Some ''Bearer key-b'') ?args ?st
      (0, [(7, Inr (answer ''p''))]) = (resp, tasks, st', w')" by (rule prod_cases4)
  have "check_auth (wo_jwt sample_ops) (Some ''Bearer key-b'') ?st (0, [(7, Inr (answer ''p''))])
      = (None, ?st, (0, [(7, Inr (answer ''p''))]))"
    by (simp add: check_auth_def no_auth_configured_def key_accepted_def bearer_token_def starts_with_def)
  with mcp_chat_unbilled [OF run] obtain res where "resp = answered res" "tasks = []"
    "ro_client_spend (st_router st') ''bob'' = Some \<lparr>sp_period_key = 0, sp_spent_usd = 10\<rparr>" by auto
  with run show ?thesis by (simp only: Let_def) blast
qed

end
