(* ===== verification/Cli_Setup_Facts.thy ===== *)
theory Cli_Setup_Facts
  imports Cli_Setup
begin

text \<open>
  What \<open>setup\<close> keeps: a field is set at its path and nothing beside it changes (locale
  \<open>doc_setter\<close>, for both formats); a second run finds nothing to do; and whatever call fails, the
  previous content of the file is at its path or in the backup.
\<close>

section \<open>Setting one path\<close>

fun doc_at :: "string list \<Rightarrow> 'v doc \<Rightarrow> 'v doc option" where
  "doc_at [] doc = Some doc"
| "doc_at (seg # rest) doc =
     (case doc of Doc_Table m \<Rightarrow> Option.bind (m seg) (doc_at rest) | _ \<Rightarrow> None)"

text \<open>Two paths that lead to different places, neither above the other.\<close>

definition apart :: "string list \<Rightarrow> string list \<Rightarrow> bool" where
  "apart p q \<longleftrightarrow> \<not> prefix p q \<and> \<not> prefix q p"

lemma apart_simps [simp]:
  "\<not> apart [] q" "\<not> apart p []" "apart (x # p) (y # q) \<longleftrightarrow> x \<noteq> y \<or> apart p q"
  by (auto simp: apart_def)

lemma doc_at_empty [simp]: "doc_at p empty_doc = (if p = [] then Some empty_doc else None)"
  by (cases p) (simp_all add: empty_doc_def)

lemma empty_doc_table [simp]:
  "\<exists>m. empty_doc = Doc_Table m" "(\<forall>m. empty_doc \<noteq> Doc_Table m) = False"
  by (auto simp: empty_doc_def)

lemma set_path_cases:
  assumes "set_path noun passed (seg # rest) v doc = Inr doc'"
  obtains m sub where "doc = Doc_Table m" "doc' = Doc_Table (m(seg \<mapsto> sub))"
    "if rest = [] then sub = v
     else set_path noun (passed @ [seg]) rest v (unwrap_or empty_doc (m seg)) = Inr sub"
  using assms by (auto split: doc.splits if_splits sum.splits simp: map_sum_def elim!: sum.exhaust)

lemma set_path_get:
  "set_path noun passed path v doc = Inr doc' \<Longrightarrow> path \<noteq> [] \<Longrightarrow> doc_at path doc' = Some v"
proof (induction path arbitrary: passed doc doc')
  case (Cons seg rest)
  from Cons.prems(1) show ?case
  proof (cases rule: set_path_cases)
    case (1 m sub)
    then show ?thesis using Cons.IH by (cases "rest = []") auto
  qed
qed simp

lemma set_path_frame:
  "set_path noun passed path v doc = Inr doc' \<Longrightarrow> apart path q \<Longrightarrow> doc_at q doc' = doc_at q doc"
proof (induction path arbitrary: passed doc doc' q)
  case (Cons seg rest)
  obtain x q' where q: "q = x # q'" using Cons.prems(2) by (cases q) auto
  from Cons.prems(1) show ?case
  proof (cases rule: set_path_cases)
    case (1 m sub)
    show ?thesis
    proof (cases "x = seg")
      case True
      with Cons.prems(2) q have "apart rest q'" "rest \<noteq> []" "q' \<noteq> []" by auto
      with 1 True q Cons.IH [of "passed @ [seg]" "unwrap_or empty_doc (m seg)" sub q']
      show ?thesis by (cases "m seg") auto
    qed (use 1 q in simp)
  qed
qed simp

lemma set_path_same:
  "doc_at path doc = Some v \<Longrightarrow> path \<noteq> [] \<Longrightarrow> set_path noun passed path v doc = Inr doc"
proof (induction path arbitrary: passed doc)
  case (Cons seg rest)
  then obtain m sub where m: "doc = Doc_Table m" "m seg = Some sub" "doc_at rest sub = Some v"
    by (auto split: doc.splits bind_splits)
  then show ?case using Cons.IH by (cases "rest = []") (auto simp: fun_upd_idem)
qed simp

text \<open>The one way to fail: something on the way that is no table.\<close>

lemma set_path_fails_iff:
  "path \<noteq> [] \<Longrightarrow> (\<exists>e. set_path noun passed path v doc = Inl e) \<longleftrightarrow>
     (\<exists>q other. strict_prefix q path \<and> doc_at q doc = Some other \<and> (\<forall>m. other \<noteq> Doc_Table m))"
proof (induction path arbitrary: passed doc)
  case (Cons seg rest)
  have split: "(\<exists>q other. strict_prefix q (seg # rest) \<and> doc_at q doc = Some other \<and> (\<forall>m. other \<noteq> Doc_Table m))
      \<longleftrightarrow> (\<forall>m. doc \<noteq> Doc_Table m)
        \<or> (\<exists>q other. strict_prefix q rest \<and> doc_at (seg # q) doc = Some other \<and> (\<forall>m. other \<noteq> Doc_Table m))"
    (is "?l = ?r")
  proof
    assume ?l
    then obtain q other where q: "strict_prefix q (seg # rest)" "doc_at q doc = Some other"
      "\<forall>m. other \<noteq> Doc_Table m" by blast
    then show ?r by (cases q) auto
  next
    assume ?r
    then show ?l
    proof (elim disjE exE conjE)
      assume "\<forall>m. doc \<noteq> Doc_Table m"
      then show ?l by (intro exI [of _ "[]"] exI [of _ doc]) simp
    next
      fix q other
      assume "strict_prefix q rest" "doc_at (seg # q) doc = Some other" "\<forall>m. other \<noteq> Doc_Table m"
      then show ?l by (intro exI [of _ "seg # q"] exI [of _ other]) simp
    qed
  qed
  show ?case
  proof (cases doc)
    case (Doc_Table m)
    show ?thesis
    proof (cases "rest = []")
      case False
      have "(\<exists>e. set_path noun passed (seg # rest) v doc = Inl e) \<longleftrightarrow>
          (\<exists>e. set_path noun (passed @ [seg]) rest v (unwrap_or empty_doc (m seg)) = Inl e)"
        using Doc_Table False by (auto simp: map_sum_def split: sum.splits)
      also have "\<dots> \<longleftrightarrow> (\<exists>q other. strict_prefix q rest
          \<and> doc_at q (unwrap_or empty_doc (m seg)) = Some other \<and> (\<forall>m. other \<noteq> Doc_Table m))"
        by (rule Cons.IH [OF False])
      finally show ?thesis unfolding split using Doc_Table
        by (cases "m seg") (auto simp del: set_path.simps split: if_splits)
    qed (use Doc_Table split in \<open>simp add: strict_prefix_def\<close>)
  next
    case (Doc_Text s) then show ?thesis unfolding split by simp
  next
    case (Doc_Value x) then show ?thesis unfolding split by simp
  qed
qed simp
section \<open>Setting all fields, in either format\<close>

lemma split_dots_nonempty [simp]: "split_dots s \<noteq> []"
  by (cases s) (simp_all split: list.split)

text \<open>The place a field is set at and the text it gets.\<close>

definition field_path :: "field_spec \<Rightarrow> string list" where
  "field_path f = split_dots (fs_path f)"

definition field_doc :: "string \<Rightarrow> string option \<Rightarrow> field_spec \<Rightarrow> 'v doc" where
  "field_doc base_url api_key_env f = Doc_Text (render_value (fs_value f) base_url api_key_env)"

definition independent :: "field_spec list \<Rightarrow> bool" where
  "independent fs \<longleftrightarrow> sorted_wrt (\<lambda>f g. apart (field_path f) (field_path g)) fs"

text \<open>A document with fields set in it: they are there, and everything apart from them is as before.\<close>

definition merged_into :: "string \<Rightarrow> string option \<Rightarrow> field_spec list \<Rightarrow> 'v doc \<Rightarrow> 'v doc \<Rightarrow> bool" where
  "merged_into base_url key fs doc doc' \<longleftrightarrow>
     (\<forall>f\<in>set fs. doc_at (field_path f) doc' = Some (field_doc base_url key f))
     \<and> (\<forall>q. (\<forall>f\<in>set fs. apart (field_path f) q) \<longrightarrow> doc_at q doc' = doc_at q doc)"

text \<open>What the loop over the fields needs of the function that sets one.\<close>

locale doc_setter =
  fixes put :: "'v doc \<Rightarrow> string list \<Rightarrow> 'v doc \<Rightarrow> string + 'v doc"
  assumes put_get: "put doc path v = Inr doc' \<Longrightarrow> path \<noteq> [] \<Longrightarrow> doc_at path doc' = Some v"
    and put_frame: "put doc path v = Inr doc' \<Longrightarrow> apart path q \<Longrightarrow> doc_at q doc' = doc_at q doc"
    and put_same: "doc_at path doc = Some v \<Longrightarrow> path \<noteq> [] \<Longrightarrow> put doc path v = Inr doc"
begin

lemma set_fields_frame:
  "set_fields put base_url api_key_env fs doc = Inr doc' \<Longrightarrow> \<forall>f\<in>set fs. apart (field_path f) q
    \<Longrightarrow> doc_at q doc' = doc_at q doc"
proof (induction fs arbitrary: doc)
  case (Cons f fs)
  then show ?case
    using put_frame by (fastforce simp: field_path_def split: sum.splits)
qed simp

lemma set_fields_get:
  "set_fields put base_url api_key_env fs doc = Inr doc' \<Longrightarrow> independent fs \<Longrightarrow> f \<in> set fs
    \<Longrightarrow> doc_at (field_path f) doc' = Some (field_doc base_url api_key_env f)"
proof (induction fs arbitrary: doc)
  case (Cons g gs)
  from Cons.prems(1) obtain mid where mid: "put doc (field_path g) (field_doc base_url api_key_env g) = Inr mid"
    and rest: "set_fields put base_url api_key_env gs mid = Inr doc'"
    by (auto simp: field_path_def field_doc_def split: sum.splits)
  have gs: "independent gs" and g: "\<forall>h\<in>set gs. apart (field_path g) (field_path h)"
    using Cons.prems(2) by (simp_all add: independent_def)
  show ?case
  proof (cases "f \<in> set gs")
    case True
    with Cons.IH [OF rest gs] show ?thesis by simp
  next
    case False
    with Cons.prems(3) have "f = g" by simp
    moreover have "doc_at (field_path g) doc' = doc_at (field_path g) mid"
      using g by (intro set_fields_frame [OF rest]) (auto simp: apart_def)
    ultimately show ?thesis using put_get [OF mid] by (simp add: field_path_def)
  qed
qed simp

lemma set_fields_same:
  "\<forall>f\<in>set fs. doc_at (field_path f) doc = Some (field_doc base_url api_key_env f)
    \<Longrightarrow> set_fields put base_url api_key_env fs doc = Inr doc"
  by (induction fs) (simp_all add: put_same field_path_def field_doc_def)

text \<open>Merging what was printed again changes nothing.\<close>

lemma merge_again:
  assumes "merge_doc codec put kind path before base_url api_key_env fs = Inr text"
    and "independent fs" and law: "\<And>doc t. dc_print codec doc = Inr t \<Longrightarrow> dc_parse codec (ending t) = Inr doc"
  shows "merge_doc codec put kind path (Some (ending text)) base_url api_key_env fs = Inr text"
proof -
  obtain doc doc' where set: "set_fields put base_url api_key_env fs doc = Inr doc'"
    and printed: "dc_print codec doc' = Inr text"
    using assms(1) by (auto simp: merge_doc_def map_sum_def split: sum.splits option.splits)
  have "set_fields put base_url api_key_env fs doc' = Inr doc'"
    using set_fields_get [OF set assms(2)] by (intro set_fields_same) blast
  with printed law show ?thesis by (simp add: merge_doc_def)
qed

lemma merged_doc:
  assumes "merge_doc codec put kind path (Some before) base_url api_key_env fs = Inr text"
    and "independent fs" and "dc_parse codec before = Inr doc"
  shows "\<exists>doc'. dc_print codec doc' = Inr text \<and> merged_into base_url api_key_env fs doc doc'"
proof -
  obtain doc' where set: "set_fields put base_url api_key_env fs doc = Inr doc'"
    and printed: "dc_print codec doc' = Inr text"
    using assms(1,3) by (auto simp: merge_doc_def map_sum_def split: sum.splits)
  then show ?thesis using set_fields_get [OF set assms(2)] set_fields_frame [OF set]
    unfolding merged_into_def by blast
qed

end

interpretation json_setter: doc_setter set_json_path
  by unfold_locales (auto simp: set_json_path_def intro: set_path_get set_path_frame set_path_same)

interpretation toml_setter: doc_setter set_toml_path
  by unfold_locales (auto simp: set_toml_path_def intro: set_path_get set_path_frame set_path_same)

section \<open>Plans\<close>

lemma build_plan_Inr:
  assumes "build_plan json toml home target base_url key override d = Inr plan"
  obtains before where
    "pl_config_path plan = expand_home home (unwrap_or (tg_config_path target) override)"
    "pl_existed_before plan = is_file d (pl_config_path plan)"
    "if is_file d (pl_config_path plan)
     then dk_fault d (Read_File (pl_config_path plan)) = None \<and> before = dk_files d (pl_config_path plan)
     else before = None"
    "merged_text json toml (tg_format target) (pl_config_path plan) before base_url key
       (filter (applicable key) (tg_fields target)) = Inr (pl_after plan)"
    "pl_changed plan \<longleftrightarrow> pl_after plan \<noteq> unwrap_or [] before"
  using assms
  by (fastforce simp: build_plan_def read_to_string_def is_file_def Let_def map_sum_def
      split: if_splits sum.splits option.splits)

lemma merged_text_again:
  assumes "merged_text json toml format path before base_url key fs = Inr printed" and "independent fs"
    and "\<And>doc t. dc_print json doc = Inr t \<Longrightarrow> dc_parse json (t @ [CHR 10]) = Inr doc"
    and "\<And>doc t. dc_print toml doc = Inr t \<Longrightarrow> dc_parse toml t = Inr doc"
  shows "merged_text json toml format path (Some printed) base_url key fs = Inr printed"
proof (cases format)
  case Json_File
  with assms(1) obtain t where t: "printed = t @ [CHR 10]"
    "merge_doc json set_json_path ''JSON'' path before base_url key fs = Inr t"
    by (auto simp: merged_text_def map_sum_def split: sum.splits)
  from json_setter.merge_again [OF t(2) assms(2), of "\<lambda>t. t @ [CHR 10]"] assms(3) Json_File t(1)
  show ?thesis by (simp add: merged_text_def)
next
  case Toml_File
  with assms(1) have "merge_doc toml set_toml_path ''TOML'' path before base_url key fs = Inr printed"
    by (simp add: merged_text_def)
  from toml_setter.merge_again [OF this assms(2), of "\<lambda>t. t"] assms(4) Toml_File
  show ?thesis by (simp add: merged_text_def)
qed

section \<open>Writing a plan\<close>

text \<open>A call changes the file it writes only, and leaves the faults of the disk.\<close>

lemma put_file_frame:
  "put_file fault path content d = (r, d') \<Longrightarrow>
     dk_fault d' = dk_fault d \<and> (\<forall>q. q \<noteq> path \<longrightarrow> dk_files d' q = dk_files d q)
     \<and> (r = None \<longrightarrow> dk_files d' path = Some content)"
  by (auto simp: put_file_def split: option.splits disk_fault.splits)

lemma backup_path_other [simp]: "backup_path plan \<noteq> pl_config_path plan" "pl_config_path plan \<noteq> backup_path plan"
  by (simp_all add: backup_path_def)

lemma make_backup_frame:
  assumes "make_backup plan d = (r, d')"
  shows "dk_fault d' = dk_fault d \<and> (\<forall>q. q \<noteq> backup_path plan \<longrightarrow> dk_files d' q = dk_files d q)
    \<and> (\<forall>b. r = Inr b \<longrightarrow> b = (if pl_existed_before plan then Some (backup_path plan) else None)
         \<and> (pl_existed_before plan \<longrightarrow> dk_files d' (backup_path plan) = dk_files d (pl_config_path plan))
         \<and> (\<not> pl_existed_before plan \<longrightarrow> d' = d))"
  using assms
  by (auto simp: make_backup_def fs_copy_def split: if_splits option.splits prod.splits dest!: put_file_frame)

lemma apply_plan_effect:
  assumes "apply_plan plan d = (result, d')"
  shows "dk_fault d' = dk_fault d
    \<and> (\<forall>q. q \<noteq> pl_config_path plan \<longrightarrow> q \<noteq> backup_path plan \<longrightarrow> dk_files d' q = dk_files d q)
    \<and> (pl_existed_before plan \<longrightarrow> dk_files d' (pl_config_path plan) = dk_files d (pl_config_path plan)
         \<or> dk_files d' (backup_path plan) = dk_files d (pl_config_path plan))
    \<and> (\<forall>b. result = Inr b \<longrightarrow>
         (if pl_changed plan
          then dk_files d' (pl_config_path plan) = Some (pl_after plan)
            \<and> b = (if pl_existed_before plan then Some (backup_path plan) else None)
          else d' = d \<and> b = None))"
proof (cases "\<not> pl_changed plan \<or> make_parent plan d \<noteq> None")
  case True
  with assms show ?thesis by (auto simp: apply_plan_def split: if_splits option.splits)
next
  case False
  obtain r d1 where backup: "make_backup plan d = (r, d1)" by fastforce
  note b = make_backup_frame [OF backup]
  show ?thesis
  proof (cases r)
    case (Inl e)
    with False backup assms have "result = Inl e" "d' = d1" by (simp_all add: apply_plan_def)
    with b show ?thesis by simp
  next
    case (Inr made)
    obtain w d2 where wrote: "fs_write (pl_config_path plan) (pl_after plan) d1 = (w, d2)" by fastforce
    note w = put_file_frame [OF wrote [unfolded fs_write_def]]
    have "d' = d2" "\<And>b. result = Inr b \<Longrightarrow> w = None \<and> b = made"
      using False backup assms Inr wrote by (auto simp: apply_plan_def split: option.splits)
    with b w Inr False show ?thesis by auto
  qed
qed

lemma apply_plan_keeps:
  assumes "apply_plan plan d = (result, d')" and "pl_existed_before plan"
    and "dk_files d (pl_config_path plan) = Some content"
  shows "dk_files d' (pl_config_path plan) = Some content \<or> dk_files d' (backup_path plan) = Some content"
proof -
  have "pl_existed_before plan \<longrightarrow> dk_files d' (pl_config_path plan) = dk_files d (pl_config_path plan)
      \<or> dk_files d' (backup_path plan) = dk_files d (pl_config_path plan)"
    using apply_plan_effect [OF assms(1)] by blast
  with assms(2,3) show ?thesis by simp
qed

section \<open>What an operator relies on\<close>

text \<open>A target with two fields, one of which needs a key, on a disk with a file of another setting.\<close>

definition sample_target :: setup_target where
  "sample_target =
     \<lparr>tg_name = ''t'', tg_description = [], tg_config_path = ''~/c.json'', tg_format = Json_File,
      tg_fields =
        [\<lparr>fs_path = ''a.b'', fs_value = ''{{base_url}}'', fs_requires_api_key_env = False\<rparr>,
         \<lparr>fs_path = ''a.k'', fs_value = ''{env:{{api_key_env}}}'', fs_requires_api_key_env = True\<rparr>]\<rparr>"

definition other_setting :: "unit doc" where
  "other_setting = Doc_Table [''z'' \<mapsto> Doc_Text ''kept'']"

definition both_settings :: "unit doc" where
  "both_settings =
     Doc_Table [''z'' \<mapsto> Doc_Text ''kept'', ''a'' \<mapsto> Doc_Table [''b'' \<mapsto> Doc_Text ''url'']]"

definition sample_codec :: "unit doc_codec" where
  "sample_codec =
     \<lparr>dc_parse = (\<lambda>s. if s \<in> {''Z'', ''Z'' @ [CHR 10]} then Inr other_setting
                      else if s \<in> {''AZ'', ''AZ'' @ [CHR 10]} then Inr both_settings else Inl ''syntax''),
      dc_print = (\<lambda>doc. if doc = both_settings then Inr ''AZ''
                        else if doc = other_setting then Inr ''Z'' else Inl ''not printable'')\<rparr>"

definition sample_disk :: disk where
  "sample_disk = \<lparr>dk_files = [''/h/c.json'' \<mapsto> ''Z''], dk_fault = (\<lambda>_. None)\<rparr>"

definition sample_plan :: setup_plan where
  "sample_plan =
     \<lparr>pl_target_name = ''t'', pl_config_path = ''/h/c.json'', pl_existed_before = True, pl_before = ''Z'',
      pl_after = ''AZ'' @ [CHR 10], pl_changed = True, pl_skipped_fields = [''a.k'']\<rparr>"

lemma sample_fields:
  "filter (applicable None) (tg_fields sample_target) =
     [\<lparr>fs_path = ''a.b'', fs_value = ''{{base_url}}'', fs_requires_api_key_env = False\<rparr>]"
  by (simp add: sample_target_def applicable_def)

lemma sample_build_plan:
  assumes "dk_files d ''/h/c.json'' = Some ''Z''" and "dk_fault d (Read_File ''/h/c.json'') = None"
  shows "build_plan sample_codec sample_codec (Some ''/h'') sample_target ''url'' None None d = Inr sample_plan"
proof -
  have path: "expand_home (Some ''/h'') (tg_config_path sample_target) = ''/h/c.json''"
    by (simp add: expand_home_def sample_target_def starts_with_def trim_slashes_def)
  have "render_value ''{{base_url}}'' ''url'' None = ''url''"
    by (simp add: render_value_def starts_with_def)
  then have "set_fields set_json_path ''url'' None (filter (applicable None) (tg_fields sample_target)) other_setting
      = Inr both_settings"
    by (simp add: sample_fields set_json_path_def other_setting_def both_settings_def empty_doc_def)
  then have "merged_text sample_codec sample_codec Json_File ''/h/c.json'' (Some ''Z'') ''url'' None
      (filter (applicable None) (tg_fields sample_target)) = Inr (''AZ'' @ [CHR 10])"
    by (simp add: merged_text_def merge_doc_def sample_codec_def)
  moreover have "map fs_path (filter (\<lambda>f. \<not> applicable None f) (tg_fields sample_target)) = [''a.k'']"
    by (simp add: sample_target_def applicable_def)
  moreover have "is_file d ''/h/c.json''" "read_to_string d ''/h/c.json'' = Inr ''Z''"
    "tg_name sample_target = ''t''" "tg_format sample_target = Json_File"
    using assms by (simp_all add: is_file_def read_to_string_def sample_target_def)
  ultimately show ?thesis by (simp add: build_plan_def path sample_plan_def Let_def)
qed

lemma sample_disk_plan:
  "build_plan sample_codec sample_codec (Some ''/h'') sample_target ''url'' None None sample_disk = Inr sample_plan"
  by (rule sample_build_plan) (simp_all add: sample_disk_def)



text \<open>
  Setting up a tool twice is setting it up once: when a plan has been applied, planning again
  finds nothing to change and applying that writes nothing, provided the formats read back what they
  print and the fields are set at independent paths.
\<close>

theorem setup_rerun:
  assumes "build_plan json toml home target base_url key override d = Inr plan"
    and "apply_plan plan d = (Inr made, d')"
    and "independent (filter (applicable key) (tg_fields target))"
    and "\<forall>doc t. dc_print json doc = Inr t \<longrightarrow> dc_parse json (t @ [CHR 10]) = Inr doc"
    and "\<forall>doc t. dc_print toml doc = Inr t \<longrightarrow> dc_parse toml t = Inr doc"
    and "dk_fault d (Read_File (pl_config_path plan)) = None"
  shows "\<exists>plan'. build_plan json toml home target base_url key override d' = Inr plan'
    \<and> \<not> pl_changed plan' \<and> apply_plan plan' d' = (Inr None, d')"
proof -
  note effect = apply_plan_effect [OF assms(2)]
  from build_plan_Inr [OF assms(1)] obtain before where plan:
    "pl_config_path plan = expand_home home (unwrap_or (tg_config_path target) override)"
    "merged_text json toml (tg_format target) (pl_config_path plan) before base_url key
       (filter (applicable key) (tg_fields target)) = Inr (pl_after plan)" by blast
  have "\<exists>plan'. build_plan json toml home target base_url key override d' = Inr plan' \<and> \<not> pl_changed plan'"
  proof (cases "pl_changed plan")
    case True
    with effect have "dk_files d' (pl_config_path plan) = Some (pl_after plan)" "dk_fault d' = dk_fault d" by auto
    moreover have "merged_text json toml (tg_format target) (pl_config_path plan) (Some (pl_after plan))
        base_url key (filter (applicable key) (tg_fields target)) = Inr (pl_after plan)"
      using merged_text_again [OF plan(2) assms(3)] assms(4,5) by blast
    ultimately show ?thesis
      using assms(6) by (simp add: build_plan_def is_file_def read_to_string_def Let_def flip: plan(1))
  next
    case False
    with effect assms(1) show ?thesis by auto
  qed
  then show ?thesis by (auto simp: apply_plan_def)
qed

theorem setup_rerun_witness:
  "\<exists>made d' plan'. apply_plan sample_plan sample_disk = (Inr made, d')
     \<and> dk_files d' ''/h/c.json.bak'' = Some ''Z''
     \<and> build_plan sample_codec sample_codec (Some ''/h'') sample_target ''url'' None None d' = Inr plan'
     \<and> apply_plan plan' d' = (Inr None, d')"
proof -
  let ?d' = "sample_disk\<lparr>dk_files := (dk_files sample_disk)(''/h/c.json.bak'' \<mapsto> ''Z'', ''/h/c.json'' \<mapsto> ''AZ'' @ [CHR 10])\<rparr>"
  have run: "apply_plan sample_plan sample_disk = (Inr (Some ''/h/c.json.bak''), ?d')"
    by (simp add: apply_plan_def make_parent_def make_backup_def create_dir_all_def fs_copy_def fs_write_def
        put_file_def backup_path_def sample_plan_def sample_disk_def split: option.split)
  have "independent (filter (applicable None) (tg_fields sample_target))"
    by (simp add: sample_fields independent_def)
  moreover have "\<forall>doc t. dc_print sample_codec doc = Inr t
      \<longrightarrow> dc_parse sample_codec (t @ [CHR 10]) = Inr doc \<and> dc_parse sample_codec t = Inr doc"
    by (auto simp: sample_codec_def split: if_splits)
  moreover have "dk_fault sample_disk (Read_File (pl_config_path sample_plan)) = None"
    by (simp add: sample_disk_def)
  ultimately obtain plan' where
    "build_plan sample_codec sample_codec (Some ''/h'') sample_target ''url'' None None ?d' = Inr plan'"
    "apply_plan plan' ?d' = (Inr None, ?d')"
    using setup_rerun [OF sample_disk_plan run] by blast
  with run show ?thesis by (intro exI [of _ "Some ''/h/c.json.bak''"] exI [of _ ?d'] exI [of _ plan']) simp
qed

end
