(* ===== verification/Cli_Facts.thy ===== *)
theory Cli_Facts
  imports Cli_Reports Cli_Setup_Facts
begin

text \<open>
  What an operator may rely on: the reports say what the server will make of a configuration and an
  environment; no command prints a secret; one command writes, with \<open>--yes\<close> only, to two files, and
  never loses the file that was there.
\<close>

section \<open>Reports and the router\<close>

lemma is_set_env_nonempty: "is_set env var \<longleftrightarrow> env_nonempty env var \<noteq> None"
  by (simp add: is_set_def env_nonempty_def split: option.split)

lemma set_provider_names [simp]:
  "finite (dom (cf_providers config)) \<Longrightarrow> set (provider_names config) = dom (cf_providers config)"
  by (simp add: provider_names_def)

lemma distinct_provider_names [simp]: "distinct (provider_names config)"
  by (simp add: provider_names_def)

lemma sorted_provider_names [simp]: "sorted (provider_names config)"
  by (simp add: provider_names_def)

lemma map_filter_all_some:
  "(\<And>x. x \<in> set xs \<Longrightarrow> f x \<noteq> None) \<Longrightarrow> List.map_filter f xs = map (\<lambda>x. the (f x)) xs"
  by (induction xs) (auto simp: List.map_filter_simps split: option.split)

lemma provider_reports_map:
  assumes "finite (dom (cf_providers config))"
  shows "provider_reports env config =
    map (\<lambda>name. provider_report_of env name (the (cf_providers config name))) (provider_names config)"
  unfolding provider_reports_def using assms
  by (subst map_filter_all_some) (auto simp: dom_def)

lemma router_has_provider:
  "dom (ro_providers (from_config env regex open_db config))
     = {name. \<exists>cfg. cf_providers config name = Some cfg \<and> is_set env (pc_api_key_env cfg)}"
  by (auto simp: from_config_def Let_def configured_map_def provider_of_def is_set_env_nonempty
      split: prod.splits option.splits)

lemma router_guardrails:
  "ro_guardrails (from_config env regex open_db config) = List.map_filter (compile_guardrail regex) (cf_guardrails config)"
  by (simp add: from_config_def Let_def split: prod.split)

lemma clean_guardrails:
  "map gk_name (filter (\<lambda>c. gk_error c = None) (map (\<lambda>g. \<lparr>gk_name = gc_name g,
       gk_error = (if re_valid regex (gc_pattern g) then None else Some (why (gc_pattern g)))\<rparr>) gs))
     = map gd_name (List.map_filter (compile_guardrail regex) gs)"
  by (induction gs) (simp_all add: List.map_filter_simps compile_guardrail_def)

text \<open>
  \<^bold>\<open>C36.\<close> The command line's check of a configuration says what the router will make of it: the providers
  it reports as active, in order of their names and each once, are exactly the ones the router built
  from the same configuration and environment has, and the guardrails it finds no error in are exactly
  the ones that will be applied.
\<close>

theorem config_check_agrees:
  assumes "finite (dom (cf_providers config))"
    and "r = from_config env regex open_db config"
  shows "set (map rpt_name (provider_reports env config)) = dom (cf_providers config)
    \<and> sorted (map rpt_name (provider_reports env config)) \<and> distinct (map rpt_name (provider_reports env config))
    \<and> set (map rpt_name (filter rpt_active (provider_reports env config))) = dom (ro_providers r)
    \<and> map gk_name (filter (\<lambda>c. gk_error c = None) (check_guardrails regex why config)) = map gd_name (ro_guardrails r)"
proof -
  have names: "map rpt_name (provider_reports env config) = provider_names config"
    by (simp add: provider_reports_map [OF assms(1)] comp_def provider_report_of_def)
  have "map rpt_name (filter rpt_active (provider_reports env config))
      = filter (\<lambda>name. is_set env (pc_api_key_env (the (cf_providers config name)))) (provider_names config)"
    by (simp add: provider_reports_map [OF assms(1)] filter_map comp_def provider_report_of_def)
  then have active: "set (map rpt_name (filter rpt_active (provider_reports env config))) = dom (ro_providers r)"
    by (auto simp: assms router_has_provider)
  have "map gk_name (filter (\<lambda>c. gk_error c = None) (check_guardrails regex why config)) = map gd_name (ro_guardrails r)"
    by (simp add: assms(2) router_guardrails check_guardrails_def clean_guardrails)
  with active names assms(1) show ?thesis by simp
qed

text \<open>Two providers, one of which has its key, and two guardrails, one of which has no pattern.\<close>

definition half_ready :: config where
  "half_ready =
     sample_config\<lparr>cf_server := default_server_config, cf_providers := [''a'' \<mapsto> sample_provider Openai,
         ''b'' \<mapsto> (sample_provider Anthropic)\<lparr>pc_api_key_env := ''OTHER''\<rparr>],
       cf_guardrails := [\<lparr>gc_name = ''ok'', gc_pattern = ''x'', gc_action = Block, gc_replacement = []\<rparr>,
                         \<lparr>gc_name = ''broken'', gc_pattern = [], gc_action = Block, gc_replacement = []\<rparr>]\<rparr>"

theorem config_check_agrees_witness:
  "let r = from_config [''KEY'' \<mapsto> ''k'', ''OTHER'' \<mapsto> []] literal_engine (\<lambda>_. None) half_ready
   in dom (ro_providers r) = {''a''} \<and> map gd_name (ro_guardrails r) = [''ok'']
      \<and> set (map rpt_name (filter rpt_active (provider_reports [''KEY'' \<mapsto> ''k'', ''OTHER'' \<mapsto> []] half_ready))) = {''a''}"
proof -
  let ?env = "[''KEY'' \<mapsto> ''k'', ''OTHER'' \<mapsto> []]"
  have "finite (dom (cf_providers half_ready))" by (simp add: half_ready_def)
  note agrees = config_check_agrees [OF this refl, of ?env literal_engine "\<lambda>_. None" "\<lambda>_. []"]
  have "dom (ro_providers (from_config ?env literal_engine (\<lambda>_. None) half_ready)) = {''a''}"
    by (auto simp: router_has_provider half_ready_def sample_provider_def is_set_def split: if_splits)
  moreover have "map gk_name (filter (\<lambda>c. gk_error c = None) (check_guardrails literal_engine (\<lambda>_. []) half_ready)) = [''ok'']"
    by (simp add: check_guardrails_def half_ready_def literal_engine_def)
  ultimately show ?thesis using agrees by (simp add: Let_def)
qed

section \<open>Which variables matter\<close>

lemma key_row_mem:
  "v \<in> ke_env_var ` set (optional_row env label var) \<longleftrightarrow> var = Some v"
  by (auto simp: optional_row_def key_row_def split: option.split)

text \<open>The variables \<open>keys check\<close> looks at.\<close>

definition checked_vars :: "(string \<rightharpoonup> string) \<Rightarrow> config \<Rightarrow> string set" where
  "checked_vars env config = ke_env_var ` set (key_env_reports env config)"

lemma checked_varsI:
  "sc_api_key_env (cf_server config) = Some v \<Longrightarrow> v \<in> checked_vars env config"
  "sc_admin_key_env (cf_server config) = Some v \<Longrightarrow> v \<in> checked_vars env config"
  "finite (dom (cf_providers config)) \<Longrightarrow> cf_providers config name = Some p \<Longrightarrow> pc_api_key_env p \<in> checked_vars env config"
  "c \<in> set (cf_clients config) \<Longrightarrow> cl_api_key_env c \<in> checked_vars env config"
  "cf_persistence config = Some pst \<Longrightarrow> pst_postgres_url_env pst = Some v \<Longrightarrow> v \<in> checked_vars env config"
  "cf_webhook config = Some wh \<Longrightarrow> wh_auth_header_env wh = Some v \<Longrightarrow> v \<in> checked_vars env config"
  "cf_moderation config = Some mo \<Longrightarrow> mo_api_key_env mo \<in> checked_vars env config"
  "cf_web_search config = Some ws \<Longrightarrow> ws_api_key_env ws \<in> checked_vars env config"
  "cf_jwt config = Some jw \<Longrightarrow> jw_hs256_secret_env jw = Some v \<Longrightarrow> v \<in> checked_vars env config"
proof -
  show "pc_api_key_env p \<in> checked_vars env config"
    if "finite (dom (cf_providers config))" "cf_providers config name = Some p"
  proof -
    have "name \<in> set (provider_names config)" using that by auto
    with that(2) have "key_row env (''providers.'' @ name @ ''.api_key_env'') (pc_api_key_env p)
        \<in> set (key_env_reports env config)"
      by (force simp: key_env_reports_def List.map_filter_def)
    then show ?thesis by (force simp: checked_vars_def key_row_def)
  qed
qed (auto simp: checked_vars_def key_env_reports_def image_Un key_row_mem image_image key_row_def)

lemma startup_keys_same:
  assumes "\<And>c. c \<in> set cs \<Longrightarrow> env_nonempty env (cl_api_key_env c) = env_nonempty env' (cl_api_key_env c)"
  shows "startup_keys env cs = startup_keys env' cs"
proof -
  have "(case env (cl_api_key_env c) of Some k \<Rightarrow> if k \<noteq> [] then g k else keys | None \<Rightarrow> keys)
      = (case env' (cl_api_key_env c) of Some k \<Rightarrow> if k \<noteq> [] then g k else keys | None \<Rightarrow> keys)"
    if "c \<in> set cs" for c g and keys :: "(string \<times> string \<times> u32) list"
    using assms [OF that] by (auto simp: env_nonempty_def split: option.splits if_splits)
  then show ?thesis unfolding startup_keys_def by (intro foldl_cong) simp_all
qed

text \<open>
  The command line's check of keys is complete for the router and the clients' keys: two
  environments in which the variables it lists, and the webhook's signing secret, which it leaves out,
  have the same values, start the same router and accept the same keys, whatever else they hold.
\<close>

theorem keys_check_complete:
  assumes "finite (dom (cf_providers config))"
    and "\<forall>var\<in>checked_vars env config. env_nonempty env var = env_nonempty env' var"
    and "\<forall>wh var. cf_webhook config = Some wh \<longrightarrow> wh_signing_secret_env wh = Some var
      \<longrightarrow> env_nonempty env var = env_nonempty env' var"
  shows "from_config env regex open_db config = from_config env' regex open_db config
    \<and> startup_keys env (cf_clients config) = startup_keys env' (cf_clients config)"
proof
  have provider: "provider_of env name cfg = provider_of env' name cfg" if "cf_providers config name = Some cfg" for name cfg
    using assms(2) checked_varsI(3) [OF assms(1) that] by (simp add: provider_of_def)
  have "configured_map env config = configured_map env' config"
    by (simp add: configured_map_def fun_eq_iff provider split: option.split)
  moreover have "Option.bind (cf_persistence config) (resolve_persistence_target env)
      = Option.bind (cf_persistence config) (resolve_persistence_target env')"
    using assms(2) checked_varsI(5)
    by (auto simp: resolve_persistence_target_def split: option.split persistence_backend.split bind_splits)
  moreover have "map_option (webhook_of env) (cf_webhook config) = map_option (webhook_of env') (cf_webhook config)"
  proof (cases "cf_webhook config")
    case (Some wh)
    have "Option.bind (wh_auth_header_env wh) (env_nonempty env) = Option.bind (wh_auth_header_env wh) (env_nonempty env')"
      using assms(2) checked_varsI(6) [OF Some] by (cases "wh_auth_header_env wh") auto
    moreover have "Option.bind (wh_signing_secret_env wh) (env_nonempty env)
        = Option.bind (wh_signing_secret_env wh) (env_nonempty env')"
      using assms(3) Some by (cases "wh_signing_secret_env wh") auto
    ultimately show ?thesis using Some by (simp add: webhook_of_def)
  qed simp
  moreover have "(\<lambda>name. case cf_providers config name of None \<Rightarrow> None
        | Some cfg \<Rightarrow> Some (if provider_of env name cfg = None then 0 else 1 :: i64))
      = (\<lambda>name. case cf_providers config name of None \<Rightarrow> None
        | Some cfg \<Rightarrow> Some (if provider_of env' name cfg = None then 0 else 1))"
    by (auto simp: fun_eq_iff provider split: option.split)
  moreover have "Option.bind (cf_moderation config) (\<lambda>cfg. map_option (new_moderation_client cfg) (env_nonempty env (mo_api_key_env cfg)))
      = Option.bind (cf_moderation config) (\<lambda>cfg. map_option (new_moderation_client cfg) (env_nonempty env' (mo_api_key_env cfg)))"
    using assms(2) checked_varsI(7) by (cases "cf_moderation config") auto
  moreover have "Option.bind (cf_web_search config) (\<lambda>cfg. map_option (new_web_search_client cfg) (env_nonempty env (ws_api_key_env cfg)))
      = Option.bind (cf_web_search config) (\<lambda>cfg. map_option (new_web_search_client cfg) (env_nonempty env' (ws_api_key_env cfg)))"
    using assms(2) checked_varsI(8) by (cases "cf_web_search config") auto
  ultimately show "from_config env regex open_db config = from_config env' regex open_db config"
    by (simp only: from_config_def)
  show "startup_keys env (cf_clients config) = startup_keys env' (cf_clients config)"
    using assms(2) checked_varsI(4) by (intro startup_keys_same) blast
qed

theorem keys_check_complete_witness:
  "from_config [''KEY'' \<mapsto> ''k''] literal_engine (\<lambda>_. None) half_ready
     = from_config [''KEY'' \<mapsto> ''k'', ''OTHER'' \<mapsto> [], ''HOME'' \<mapsto> ''/h''] literal_engine (\<lambda>_. None) half_ready"
proof -
  have "finite (dom (cf_providers half_ready))" by (simp add: half_ready_def)
  moreover have "checked_vars [''KEY'' \<mapsto> ''k''] half_ready \<subseteq> {''KEY'', ''OTHER''}"
    by (auto simp: checked_vars_def key_env_reports_def half_ready_def sample_config_def sample_provider_def
        default_server_config_def optional_row_def key_row_def List.map_filter_def split: if_splits)
  moreover have "env_nonempty [''KEY'' \<mapsto> ''k''] v = env_nonempty [''KEY'' \<mapsto> ''k'', ''OTHER'' \<mapsto> [], ''HOME'' \<mapsto> ''/h''] v"
    if "v \<in> {''KEY'', ''OTHER''}" for v using that by (auto simp: env_nonempty_def)
  moreover have "cf_webhook half_ready = None" by (simp add: half_ready_def sample_config_def)
  ultimately have "from_config [''KEY'' \<mapsto> ''k''] literal_engine (\<lambda>_. None) half_ready
      = from_config [''KEY'' \<mapsto> ''k'', ''OTHER'' \<mapsto> [], ''HOME'' \<mapsto> ''/h''] literal_engine (\<lambda>_. None) half_ready
    \<and> startup_keys [''KEY'' \<mapsto> ''k''] (cf_clients half_ready)
      = startup_keys [''KEY'' \<mapsto> ''k'', ''OTHER'' \<mapsto> [], ''HOME'' \<mapsto> ''/h''] (cf_clients half_ready)"
    by (intro keys_check_complete) (blast, blast, simp)
  then show ?thesis by (rule conjunct1)
qed

section \<open>What the commands show and touch\<close>

text \<open>
  No command prints a secret or lets one decide what it writes: what a command prints, its exit
  code and the disk it leaves are the same in any two environments in which the same variables are
  set, apart from \<open>HOME\<close>, whatever the values.
\<close>

theorem output_hides_secrets:
  assumes "\<forall>var. is_set env var = is_set env' var" and "env ''HOME'' = env' ''HOME''"
  shows "run_cli (c\<lparr>cli_env := env\<rparr>) args d = run_cli (c\<lparr>cli_env := env'\<rparr>) args d"
proof -
  let ?c = "c\<lparr>cli_env := env\<rparr>" and ?c' = "c\<lparr>cli_env := env'\<rparr>"
  have set: "is_set env = is_set env'" using assms(1) by blast
  have rows: "provider_report_of env = provider_report_of env'" "key_row env = key_row env'"
    by (intro ext, simp add: provider_report_of_def key_row_def set)+
  then have "optional_row env = optional_row env'" by (intro ext) (simp only: optional_row_def)
  with rows have reports: "provider_reports env = provider_reports env'" "key_env_reports env = key_env_reports env'"
    by (intro ext, simp only: provider_reports_def key_env_reports_def)+
  have load: "load_config ?c = load_config ?c'" "load_targets ?c = load_targets ?c'"
    by (intro ext, simp add: load_config_def load_targets_def split: option.split sum.split)+
  have lines: "config_lines ?c = config_lines ?c'" "target_line ?c = target_line ?c'"
    by (intro ext, simp add: config_lines_def target_line_def reports assms(2))+
  have plan: "resolve_plan ?c = resolve_plan ?c'"
    by (intro ext) (simp add: resolve_plan_def load assms(2) split: option.split sum.split)
  have commands: "cmd_config_check ?c = cmd_config_check ?c'" "cmd_providers_list ?c = cmd_providers_list ?c'"
    "cmd_keys_check ?c = cmd_keys_check ?c'" "cmd_setup_list ?c = cmd_setup_list ?c'"
    "cmd_setup_show ?c = cmd_setup_show ?c'" "cmd_setup_apply ?c = cmd_setup_apply ?c'"
    by (intro ext, simp add: cmd_config_check_def cmd_providers_list_def cmd_keys_check_def
        cmd_setup_list_def cmd_setup_show_def cmd_setup_apply_def reports load lines plan split: option.split sum.split list.split)+
  show ?thesis unfolding run_cli_def commands ..
qed

definition sample_cli :: "(unit, unit) cli" where
  "sample_cli =
     \<lparr>cli_json = sample_codec, cli_toml = sample_codec, cli_env = Map.empty,
      cli_from_toml = (\<lambda>_. Inr half_ready), cli_parse_targets = (\<lambda>_. Inr []),
      cli_default_targets = Inr [sample_target], cli_regex = literal_engine, cli_regex_error = (\<lambda>_. [])\<rparr>"

theorem output_hides_secrets_witness:
  "run_cli (sample_cli\<lparr>cli_env := [''KEY'' \<mapsto> ''secret'']\<rparr>) [''keys'', ''check''] sample_disk
     = run_cli (sample_cli\<lparr>cli_env := [''KEY'' \<mapsto> ''another'']\<rparr>) [''keys'', ''check''] sample_disk"
  by (rule output_hides_secrets) (simp_all add: is_set_def)

lemma resolve_plan_existed:
  assumes "resolve_plan c name args d = Inr plan"
  shows "pl_existed_before plan \<longleftrightarrow> dk_files d (pl_config_path plan) \<noteq> None"
proof -
  obtain target base_url key override where
    "build_plan (cli_json c) (cli_toml c) (cli_env c ''HOME'') target base_url key override d = Inr plan"
    using assms by (auto simp: resolve_plan_def map_sum_def split: sum.splits option.splits)
  then show ?thesis by (rule build_plan_Inr) (simp add: is_file_def)
qed

lemma commands_read:
  "snd (snd (cmd_config_check c rest d)) = d" "snd (snd (cmd_providers_list c rest d)) = d"
  "snd (snd (cmd_keys_check c rest d)) = d" "snd (snd (cmd_setup_list c rest d)) = d"
  "snd (snd (cmd_setup_show c rest d)) = d"
  by (simp_all add: cmd_config_check_def cmd_providers_list_def cmd_keys_check_def cmd_setup_list_def
      cmd_setup_show_def Let_def split: sum.split list.split)

lemma run_cli_apply: "run_cli c (''setup'' # ''apply'' # rest) d = cmd_setup_apply c rest d"
  by (simp add: run_cli_def)

lemma if_reads:
  "(P \<Longrightarrow> snd (snd x) = d) \<Longrightarrow> (\<not> P \<Longrightarrow> snd (snd y) = d) \<Longrightarrow> snd (snd (if P then x else y)) = d"
  by simp

lemma run_cli_reads:
  assumes "\<nexists>rest. args = ''setup'' # ''apply'' # rest"
  shows "snd (snd (run_cli c args d)) = d"
proof (cases args)
  case args: (Cons a more)
  show ?thesis
  proof (cases more)
    case (Cons b rest)
    with assms args have "\<not> (a = ''setup'' \<and> b = ''apply'')" by blast
    then have no: "snd (snd (cmd_setup_apply c rest d)) = d" if "a = ''setup'' \<and> b = ''apply''"
      using that by blast
    show ?thesis
      unfolding run_cli_def Let_def args Cons list.case
      by (intro if_reads commands_read) (erule no, simp only: snd_conv)
  qed (simp add: run_cli_def args)
qed (simp add: run_cli_def)



section \<open>A secret that is empty\<close>

text \<open>
  An empty secret for signed tokens is not treated as missing: the check of keys reports its
  variable as not set, and says that the section will be skipped, but the server starts with a
  verifier whose key is the empty secret.
\<close>

theorem empty_secret_accepted:
  assumes "cf_jwt config = Some cfg" and "jw_hs256_secret_env cfg = Some var" and "env var = Some []"
  shows "\<lparr>ke_label = ''jwt.hs256_secret_env'', ke_env_var = var, ke_set = False\<rparr> \<in> set (key_env_reports env config)
    \<and> (\<exists>v. st_jwt (server_start lib env config r) = Some v \<and> jv_mode v = Hs256 (jl_from_secret lib []))"
  using assms
  by (simp add: key_env_reports_def optional_row_def key_row_def is_set_def server_start_def jwt_new_def)

theorem empty_secret_accepted_witness:
  "\<lparr>ke_label = ''jwt.hs256_secret_env'', ke_env_var = ''S'', ke_set = False\<rparr>
       \<in> set (key_env_reports [''S'' \<mapsto> []] (half_ready\<lparr>cf_jwt := Some \<lparr>jw_jwks_url = None,
           jw_hs256_secret_env = Some ''S'', jw_issuer = None, jw_audience = None, jw_jwks_cache_secs = 300,
           jw_client_claim = None\<rparr>\<rparr>))"
  by (rule empty_secret_accepted [THEN conjunct1], simp, simp, simp)

end
