(* ===== verification/Persistence_Sql.thy ===== *)
theory Persistence_Sql
  imports Persistence "HOL-Library.AList"
begin

text \<open>
  The SQL of \<open>crates/router/src/persistence.rs\<close>: the schema, the statement and the parameters each
  backend executes for an event, and the queries it reads with, over a model of what the two
  engines document of \<open>INSERT .. ON CONFLICT .. DO UPDATE\<close> and \<open>SELECT\<close>. Both backends refine
  \<open>execute_write\<close>.
\<close>

section \<open>Values, rows and statements\<close>

datatype sql_value = SNull | SText string | SInt int | SReal f64

type_synonym sql_row = "(string \<times> sql_value) list"
type_synonym sql_db = "string \<rightharpoonup> sql_row list"

text \<open>An expression of a statement: a column may be qualified by its table.\<close>

datatype sql_expr =
    Param nat
  | IntLit int
  | RealLit f64
  | Column "string option" string
  | Plus sql_expr sql_expr
  | CaseEq sql_expr sql_expr sql_expr sql_expr

fun sql_add :: "sql_value \<Rightarrow> sql_value \<Rightarrow> sql_value" where
  "sql_add (SInt a) (SInt b) = SInt (a + b)"
| "sql_add (SReal a) (SReal b) = SReal (a + b)"
| "sql_add (SInt a) (SReal b) = SReal (of_int a + b)"
| "sql_add (SReal a) (SInt b) = SReal (a + of_int b)"
| "sql_add _ _ = SNull"

definition column :: "sql_row \<Rightarrow> string \<Rightarrow> sql_value" where
  "column row c = unwrap_or SNull (map_of row c)"

fun sql_eval :: "sql_value list \<Rightarrow> sql_row \<Rightarrow> sql_expr \<Rightarrow> sql_value" where
  "sql_eval ps row (Param n) = (if 1 \<le> n \<and> n \<le> length ps then ps ! (n - 1) else SNull)"
| "sql_eval ps row (IntLit i) = SInt i"
| "sql_eval ps row (RealLit x) = SReal x"
| "sql_eval ps row (Column t c) = column row c"
| "sql_eval ps row (Plus a b) = sql_add (sql_eval ps row a) (sql_eval ps row b)"
| "sql_eval ps row (CaseEq a b x y) =
     (if sql_eval ps row a \<noteq> SNull \<and> sql_eval ps row a = sql_eval ps row b
      then sql_eval ps row x else sql_eval ps row y)"

record sql_upsert =
  up_table :: string
  up_columns :: "string list"
  up_values :: "sql_expr list"
  up_conflict :: "string list"
  up_set :: "(string \<times> sql_expr) list"

text \<open>The row that would be inserted; where its key is taken, the row that has it is changed instead.\<close>

definition new_row :: "sql_upsert \<Rightarrow> sql_value list \<Rightarrow> sql_row" where
  "new_row u ps = zip (up_columns u) (map (sql_eval ps []) (up_values u))"

definition set_columns :: "sql_value list \<Rightarrow> (string \<times> sql_expr) list \<Rightarrow> sql_row \<Rightarrow> sql_row" where
  "set_columns ps sets row =
     map (\<lambda>(c, v). (c, case map_of sets c of None \<Rightarrow> v | Some e \<Rightarrow> sql_eval ps row e)) row"

definition same_key :: "string list \<Rightarrow> sql_row \<Rightarrow> sql_row \<Rightarrow> bool" where
  "same_key key a b \<longleftrightarrow> map (column a) key = map (column b) key"

definition run_upsert :: "sql_upsert \<Rightarrow> sql_value list \<Rightarrow> sql_row list \<Rightarrow> sql_row list" where
  "run_upsert u ps rows =
     (let new = new_row u ps; clash = same_key (up_conflict u) new
      in if list_ex clash rows
         then map (\<lambda>row. if clash row then set_columns ps (up_set u) row else row) rows
         else rows @ [new])"

text \<open>A statement on a table that is not there fails and changes nothing.\<close>

definition run_statement :: "sql_upsert \<times> sql_value list \<Rightarrow> sql_db \<Rightarrow> sql_db" where
  "run_statement = (\<lambda>(u, ps) db.
     (case db (up_table u) of None \<Rightarrow> db | Some rows \<Rightarrow> db(up_table u \<mapsto> run_upsert u ps rows)))"

section \<open>The schema\<close>

record sql_table =
  tb_name :: string
  tb_columns :: "string list"
  tb_key :: "string list"

definition schema_sql :: "sql_table list" where
  "schema_sql =
     [\<lparr>tb_name = ''usage_stats'',
       tb_columns = [''key'', ''requests'', ''prompt_tokens'', ''completion_tokens'', ''cost_usd''],
       tb_key = [''key'']\<rparr>,
      \<lparr>tb_name = ''client_spend'', tb_columns = [''client_name'', ''period_key'', ''spent_usd''],
       tb_key = [''client_name'']\<rparr>,
      \<lparr>tb_name = ''client_daily_usage'',
       tb_columns = [''client_name'', ''day'', ''requests'', ''prompt_tokens'', ''completion_tokens'', ''cost_usd''],
       tb_key = [''client_name'', ''day'']\<rparr>]"

text \<open>\<open>CREATE TABLE IF NOT EXISTS\<close> for each table, when a connection is opened.\<close>

definition create_tables :: "sql_db \<Rightarrow> sql_db" where
  "create_tables db =
     foldl (\<lambda>d t. if d (tb_name t) = None then d(tb_name t \<mapsto> []) else d) db schema_sql"

text \<open>
  What an engine checks of a statement: the table and its columns are there, each inserted column has a value,
  the conflict target is the table's key, and every parameter is bound.
\<close>

fun expr_ok :: "nat \<Rightarrow> string list \<Rightarrow> sql_expr \<Rightarrow> bool" where
  "expr_ok n cols (Param i) \<longleftrightarrow> 1 \<le> i \<and> i \<le> n"
| "expr_ok n cols (Column t c) \<longleftrightarrow> c \<in> set cols"
| "expr_ok n cols (Plus a b) \<longleftrightarrow> expr_ok n cols a \<and> expr_ok n cols b"
| "expr_ok n cols (CaseEq a b x y) \<longleftrightarrow>
     expr_ok n cols a \<and> expr_ok n cols b \<and> expr_ok n cols x \<and> expr_ok n cols y"
| "expr_ok n cols _ \<longleftrightarrow> True"

definition statement_ok :: "sql_upsert \<times> sql_value list \<Rightarrow> bool" where
  "statement_ok = (\<lambda>(u, ps).
     list_ex (\<lambda>t. tb_name t = up_table u \<and> tb_key t = up_conflict u \<and> tb_columns t = up_columns u
        \<and> length (up_values u) = length (up_columns u)
        \<and> list_all (expr_ok (length ps) []) (up_values u)
        \<and> list_all (\<lambda>(c, e). c \<in> set (tb_columns t) \<and> expr_ok (length ps) (tb_columns t) e) (up_set u))
       schema_sql)"

section \<open>The statements of SQLite\<close>

definition counted :: "string option \<Rightarrow> nat \<Rightarrow> (string \<times> sql_expr) list" where
  "counted t n =
     [(''requests'', Plus (Column t ''requests'') (IntLit 1)),
      (''prompt_tokens'', Plus (Column t ''prompt_tokens'') (Param n)),
      (''completion_tokens'', Plus (Column t ''completion_tokens'') (Param (n + 1))),
      (''cost_usd'', Plus (Column t ''cost_usd'') (Param (n + 2)))]"

fun sqlite_statement :: "db_write \<Rightarrow> sql_upsert \<times> sql_value list" where
  "sqlite_statement (UsageEvent key p c cost) =
     (\<lparr>up_table = ''usage_stats'',
       up_columns = [''key'', ''requests'', ''prompt_tokens'', ''completion_tokens'', ''cost_usd''],
       up_values = [Param 1, IntLit 1, Param 2, Param 3, Param 4],
       up_conflict = [''key''], up_set = counted None 2\<rparr>,
      [SText key, SInt (uint p), SInt (uint c), SReal (unwrap_or 0 cost)])"
| "sqlite_statement (ClientSpend client period_key cost) =
     (\<lparr>up_table = ''client_spend'', up_columns = [''client_name'', ''period_key'', ''spent_usd''],
       up_values = [Param 1, Param 2, Param 3], up_conflict = [''client_name''],
       up_set = [(''period_key'', Param 2),
         (''spent_usd'', CaseEq (Column (Some ''client_spend'') ''period_key'') (Param 2)
            (Plus (Column (Some ''client_spend'') ''spent_usd'') (Param 3)) (Param 3))]\<rparr>,
      [SText client, SInt period_key, SReal cost])"
| "sqlite_statement (ResetClientSpend client period_key) =
     (\<lparr>up_table = ''client_spend'', up_columns = [''client_name'', ''period_key'', ''spent_usd''],
       up_values = [Param 1, Param 2, RealLit 0], up_conflict = [''client_name''],
       up_set = [(''period_key'', Param 2), (''spent_usd'', RealLit 0)]\<rparr>,
      [SText client, SInt period_key])"
| "sqlite_statement (DailyClientUsage client day p c cost) =
     (\<lparr>up_table = ''client_daily_usage'',
       up_columns = [''client_name'', ''day'', ''requests'', ''prompt_tokens'', ''completion_tokens'', ''cost_usd''],
       up_values = [Param 1, Param 2, IntLit 1, Param 3, Param 4, Param 5],
       up_conflict = [''client_name'', ''day''], up_set = counted None 3\<rparr>,
      [SText client, SInt day, SInt (uint p), SInt (uint c), SReal (unwrap_or 0 cost)])"

section \<open>The statements of Postgres\<close>

definition pg_record :: "string \<Rightarrow> u32 \<Rightarrow> u32 \<Rightarrow> f64 option \<Rightarrow> sql_upsert \<times> sql_value list" where
  "pg_record key prompt completion cost =
     (\<lparr>up_table = ''usage_stats'',
       up_columns = [''key'', ''requests'', ''prompt_tokens'', ''completion_tokens'', ''cost_usd''],
       up_values = [Param 1, IntLit 1, Param 2, Param 3, Param 4],
       up_conflict = [''key''], up_set = counted (Some ''usage_stats'') 2\<rparr>,
      [SText key, SInt (uint prompt), SInt (uint completion), SReal (unwrap_or 0 cost)])"

definition pg_record_client_spend :: "string \<Rightarrow> i64 \<Rightarrow> f64 \<Rightarrow> sql_upsert \<times> sql_value list" where
  "pg_record_client_spend client period_key cost =
     (\<lparr>up_table = ''client_spend'', up_columns = [''client_name'', ''period_key'', ''spent_usd''],
       up_values = [Param 1, Param 2, Param 3], up_conflict = [''client_name''],
       up_set = [(''period_key'', Param 2),
         (''spent_usd'', CaseEq (Column (Some ''client_spend'') ''period_key'') (Param 2)
            (Plus (Column (Some ''client_spend'') ''spent_usd'') (Param 3)) (Param 3))]\<rparr>,
      [SText client, SInt period_key, SReal cost])"

definition pg_reset_client_spend :: "string \<Rightarrow> i64 \<Rightarrow> sql_upsert \<times> sql_value list" where
  "pg_reset_client_spend client period_key =
     (\<lparr>up_table = ''client_spend'', up_columns = [''client_name'', ''period_key'', ''spent_usd''],
       up_values = [Param 1, Param 2, RealLit 0], up_conflict = [''client_name''],
       up_set = [(''period_key'', Param 2), (''spent_usd'', RealLit 0)]\<rparr>,
      [SText client, SInt period_key])"

definition pg_record_daily_client_usage ::
  "string \<Rightarrow> i64 \<Rightarrow> u32 \<Rightarrow> u32 \<Rightarrow> f64 option \<Rightarrow> sql_upsert \<times> sql_value list" where
  "pg_record_daily_client_usage client day prompt completion cost =
     (\<lparr>up_table = ''client_daily_usage'',
       up_columns = [''client_name'', ''day'', ''requests'', ''prompt_tokens'', ''completion_tokens'', ''cost_usd''],
       up_values = [Param 1, Param 2, IntLit 1, Param 3, Param 4, Param 5],
       up_conflict = [''client_name'', ''day''], up_set = counted (Some ''client_daily_usage'') 3\<rparr>,
      [SText client, SInt day, SInt (uint prompt), SInt (uint completion), SReal (unwrap_or 0 cost)])"

fun pg_statement :: "db_write \<Rightarrow> sql_upsert \<times> sql_value list" where
  "pg_statement (UsageEvent key p c cost) = pg_record key p c cost"
| "pg_statement (ClientSpend client period_key cost) = pg_record_client_spend client period_key cost"
| "pg_statement (ResetClientSpend client period_key) = pg_reset_client_spend client period_key"
| "pg_statement (DailyClientUsage client day p c cost) = pg_record_daily_client_usage client day p c cost"

definition statement_of :: "backend \<Rightarrow> db_write \<Rightarrow> sql_upsert \<times> sql_value list" where
  "statement_of b w = (case b of SqliteBackend \<Rightarrow> sqlite_statement w | PostgresBackend \<Rightarrow> pg_statement w)"

section \<open>The queries\<close>

fun as_int :: "sql_value \<Rightarrow> int option" where
  "as_int (SInt i) = Some i"
| "as_int _ = None"

fun as_real :: "sql_value \<Rightarrow> f64 option" where
  "as_real (SReal x) = Some x"
| "as_real _ = None"

fun as_text :: "sql_value \<Rightarrow> string option" where
  "as_text (SText t) = Some t"
| "as_text _ = None"

text \<open>A row of counts; \<open>None\<close> where a column has another type. \<open>as u64\<close> keeps the low 64 bits.\<close>

definition read_counts :: "sql_row \<Rightarrow> usage_row option" where
  "read_counts row =
     (case (as_int (column row ''requests''), as_int (column row ''prompt_tokens''),
            as_int (column row ''completion_tokens''), as_real (column row ''cost_usd'')) of
        (Some n, Some p, Some c, Some x) \<Rightarrow>
          Some \<lparr>ur_requests = n, ur_prompt_tokens = p, ur_completion_tokens = c, ur_cost_usd = x\<rparr>
      | _ \<Rightarrow> None)"

text \<open>\<open>sqlite_read_all\<close> and \<open>read_usage_rows\<close>: the first row that cannot be read ends it.\<close>

definition sql_read_all :: "sql_db \<Rightarrow> (string \<rightharpoonup> usage_stats) option" where
  "sql_read_all db =
     Option.bind (db ''usage_stats'')
       (\<lambda>rows. map_option (\<lambda>kvs. map_of (rev kvs))
          (those (map (\<lambda>row. case (as_text (column row ''key''), read_counts row) of
                               (Some k, Some r) \<Rightarrow> Some (k, row_stats r)
                             | _ \<Rightarrow> None) rows)))"

definition sql_client_spend :: "string \<Rightarrow> sql_db \<Rightarrow> (i64 \<times> f64) option option" where
  "sql_client_spend client db =
     Option.bind (db ''client_spend'')
       (\<lambda>rows. case List.find (\<lambda>row. column row ''client_name'' = SText client) rows of
          None \<Rightarrow> Some None
        | Some row \<Rightarrow>
            (case (as_int (column row ''period_key''), as_real (column row ''spent_usd'')) of
               (Some k, Some spent) \<Rightarrow> Some (Some (k, spent))
             | _ \<Rightarrow> None))"

definition sql_usage_history :: "string \<Rightarrow> i64 \<Rightarrow> sql_db \<Rightarrow> daily_client_usage list option" where
  "sql_usage_history client since_day db =
     Option.bind (db ''client_daily_usage'')
       (\<lambda>rows.
          let hits = filter (\<lambda>row. column row ''client_name'' = SText client
                \<and> (case as_int (column row ''day'') of None \<Rightarrow> False | Some d \<Rightarrow> since_day \<le> d)) rows
          in those (map (\<lambda>row. case (as_int (column row ''day''), read_counts row) of
                                 (Some d, Some r) \<Rightarrow> Some (daily_row d r)
                               | _ \<Rightarrow> None)
               (sort_key (\<lambda>row. unwrap_or 0 (as_int (column row ''day''))) hits)))"

section \<open>Tables and the model of the store\<close>

definition usage_cols :: "usage_row \<Rightarrow> sql_row" where
  "usage_cols r =
     [(''requests'', SInt (ur_requests r)), (''prompt_tokens'', SInt (ur_prompt_tokens r)),
      (''completion_tokens'', SInt (ur_completion_tokens r)), (''cost_usd'', SReal (ur_cost_usd r))]"

definition usage_sql :: "string \<times> usage_row \<Rightarrow> sql_row" where
  "usage_sql = (\<lambda>(k, r). (''key'', SText k) # usage_cols r)"

definition spend_sql :: "string \<times> i64 \<times> f64 \<Rightarrow> sql_row" where
  "spend_sql = (\<lambda>(k, period, spent).
     [(''client_name'', SText k), (''period_key'', SInt period), (''spent_usd'', SReal spent)])"

definition daily_sql :: "(string \<times> i64) \<times> usage_row \<Rightarrow> sql_row" where
  "daily_sql = (\<lambda>((k, day), r). (''client_name'', SText k) # (''day'', SInt day) # usage_cols r)"

text \<open>A table holds exactly the entries of a map, each once, in any order.\<close>

definition table_is :: "('k \<times> 'v \<Rightarrow> sql_row) \<Rightarrow> sql_row list option \<Rightarrow> ('k \<rightharpoonup> 'v) \<Rightarrow> bool" where
  "table_is enc t m \<longleftrightarrow> (\<exists>al. t = Some (map enc al) \<and> distinct (map fst al) \<and> map_of al = m)"

definition represents :: "sql_db \<Rightarrow> database \<Rightarrow> bool" where
  "represents sdb db \<longleftrightarrow>
     table_is usage_sql (sdb ''usage_stats'') (db_usage_stats db)
     \<and> table_is spend_sql (sdb ''client_spend'') (db_client_spend db)
     \<and> table_is daily_sql (sdb ''client_daily_usage'') (db_client_daily_usage db)"

lemma change_in_place:
  assumes "k \<in> fst ` set al" and "distinct (map fst al)" and "\<And>v. g (k, v) = enc (k, f (Some v))"
  shows "map (\<lambda>e. if fst e = k then g e else enc e) al = map enc (AList.update k (f (map_of al k)) al)"
  using assms(1,2)
proof (induction al)
  case (Cons x xs)
  obtain k' v where x: "x = (k', v)" by (cases x)
  show ?case
  proof (cases "k' = k")
    case True
    with Cons.prems(2) x have "k \<notin> fst ` set xs" by force
    then have "map (\<lambda>e. if fst e = k then g e else enc e) xs = map enc xs"
      by (auto simp: image_iff)
    with True x assms(3) show ?thesis by simp
  next
    case False
    with Cons x show ?thesis by auto
  qed
qed simp

text \<open>
  One upsert on a table: when the statement inserts the row of the value \<open>f None\<close>, changes the row
  of \<open>v\<close> to that of \<open>f (Some v)\<close>, and its conflict is on the key, then the table follows the map.
\<close>

lemma upsert_simulates:
  assumes "table_is enc (Some rows) m"
    and new: "new_row u ps = enc (k, f None)"
    and set: "\<And>v. set_columns ps (up_set u) (enc (k, v)) = enc (k, f (Some v))"
    and key: "\<And>k' v. same_key (up_conflict u) (enc (k, f None)) (enc (k', v)) \<longleftrightarrow> k' = k"
  shows "table_is enc (Some (run_upsert u ps rows)) (m(k \<mapsto> f (m k)))"
proof -
  obtain al where al: "rows = map enc al" "distinct (map fst al)" "map_of al = m"
    using assms(1) by (auto simp: table_is_def)
  have clash: "same_key (up_conflict u) (new_row u ps) (enc e) \<longleftrightarrow> fst e = k" for e
    using key [of "fst e" "snd e"] new by simp
  let ?al = "AList.update k (f (m k)) al"
  have "run_upsert u ps rows = map enc ?al"
  proof (cases "k \<in> fst ` set al")
    case False
    then have "m k = None" using al(3) by (simp add: map_of_eq_None_iff flip: al(3))
    moreover have "AList.update k v al = al @ [(k, v)]" for v
      using False by (induction al) auto
    moreover have "\<not> list_ex (same_key (up_conflict u) (new_row u ps)) rows"
      using False by (auto simp: al(1) list_ex_iff clash)
    ultimately show ?thesis by (simp add: run_upsert_def Let_def new al(1))
  next
    case True
    then have "list_ex (same_key (up_conflict u) (new_row u ps)) rows"
      by (auto simp: al(1) list_ex_iff clash)
    then show ?thesis
      using change_in_place [of k al "\<lambda>e. set_columns ps (up_set u) (enc e)" enc f] True al set
      by (simp add: run_upsert_def Let_def clash comp_def)
  qed
  moreover have "distinct (map fst ?al)" using al(2) by (rule distinct_update)
  moreover have "map_of ?al = m(k \<mapsto> f (m k))" using al(3) by (simp add: update_conv')
  ultimately show ?thesis unfolding table_is_def by blast
qed

section \<open>Both backends refine the model\<close>

lemmas sql_defs = new_row_def set_columns_def same_key_def column_def counted_def upsert_usage_def upsert_spend_def

lemma usage_simulates:
  "table_is usage_sql (Some rows) m \<Longrightarrow>
   table_is usage_sql
     (Some (run_upsert
        \<lparr>up_table = ''usage_stats'',
         up_columns = [''key'', ''requests'', ''prompt_tokens'', ''completion_tokens'', ''cost_usd''],
         up_values = [Param 1, IntLit 1, Param 2, Param 3, Param 4],
         up_conflict = [''key''], up_set = counted t 2\<rparr>
        [SText key, SInt (uint p), SInt (uint c), SReal (unwrap_or 0 cost)] rows))
     (m(key \<mapsto> upsert_usage p c cost (m key)))"
  by (rule upsert_simulates [where f = "upsert_usage p c cost"])
    (auto simp: sql_defs usage_sql_def usage_cols_def)

lemma spend_simulates:
  "table_is spend_sql (Some rows) m \<Longrightarrow>
   table_is spend_sql
     (Some (run_upsert
        \<lparr>up_table = ''client_spend'', up_columns = [''client_name'', ''period_key'', ''spent_usd''],
         up_values = [Param 1, Param 2, Param 3], up_conflict = [''client_name''],
         up_set = [(''period_key'', Param 2),
           (''spent_usd'', CaseEq (Column (Some ''client_spend'') ''period_key'') (Param 2)
              (Plus (Column (Some ''client_spend'') ''spent_usd'') (Param 3)) (Param 3))]\<rparr>
        [SText client, SInt period_key, SReal cost] rows))
     (m(client \<mapsto> upsert_spend period_key cost (m client)))"
  by (rule upsert_simulates [where f = "upsert_spend period_key cost"]) (auto simp: sql_defs spend_sql_def)

lemma reset_simulates:
  "table_is spend_sql (Some rows) m \<Longrightarrow>
   table_is spend_sql
     (Some (run_upsert
        \<lparr>up_table = ''client_spend'', up_columns = [''client_name'', ''period_key'', ''spent_usd''],
         up_values = [Param 1, Param 2, RealLit 0], up_conflict = [''client_name''],
         up_set = [(''period_key'', Param 2), (''spent_usd'', RealLit 0)]\<rparr>
        [SText client, SInt period_key] rows))
     (m(client \<mapsto> (period_key, 0)))"
  by (rule upsert_simulates [where f = "\<lambda>_. (period_key, 0)"]) (auto simp: sql_defs spend_sql_def)

lemma daily_simulates:
  "table_is daily_sql (Some rows) m \<Longrightarrow>
   table_is daily_sql
     (Some (run_upsert
        \<lparr>up_table = ''client_daily_usage'',
         up_columns = [''client_name'', ''day'', ''requests'', ''prompt_tokens'', ''completion_tokens'', ''cost_usd''],
         up_values = [Param 1, Param 2, IntLit 1, Param 3, Param 4, Param 5],
         up_conflict = [''client_name'', ''day''], up_set = counted t 3\<rparr>
        [SText client, SInt day, SInt (uint p), SInt (uint c), SReal (unwrap_or 0 cost)] rows))
     (m((client, day) \<mapsto> upsert_usage p c cost (m (client, day))))"
  by (rule upsert_simulates [where f = "upsert_usage p c cost"])
    (auto simp: sql_defs daily_sql_def usage_cols_def)

lemmas statement_defs = statement_of_def pg_record_def pg_record_client_spend_def pg_reset_client_spend_def
  pg_record_daily_client_usage_def

lemma table_is_some: "table_is enc t m \<Longrightarrow> \<exists>rows. t = Some rows"
  by (auto simp: table_is_def)

lemma statement_simulates:
  assumes "represents sdb db"
  shows "represents (run_statement (statement_of b w) sdb) (execute_write w db)"
proof -
  obtain us cs ds where rows: "sdb ''usage_stats'' = Some us" "sdb ''client_spend'' = Some cs"
      "sdb ''client_daily_usage'' = Some ds"
    using assms by (auto simp: represents_def dest!: table_is_some)
  with assms show ?thesis
    by (cases w; cases b)
      (auto simp: represents_def statement_defs run_statement_def usage_simulates spend_simulates
        reset_simulates daily_simulates simp del: One_nat_def)
qed

text \<open>Opening a database makes the tables that are missing and keeps the rows of those that are there.\<close>

lemma created_empty: "represents (create_tables Map.empty) empty_database"
  by (simp add: create_tables_def schema_sql_def represents_def table_is_def empty_database_def)

lemma created_again: "represents sdb db \<Longrightarrow> create_tables sdb = sdb"
  by (auto simp: represents_def create_tables_def schema_sql_def dest!: table_is_some)

section \<open>Reading\<close>

lemma read_counts_usage [simp]:
  "read_counts ((''key'', v) # usage_cols r) = Some r"
  "read_counts ((''client_name'', v) # (''day'', d) # usage_cols r) = Some r"
  by (simp_all add: read_counts_def usage_cols_def column_def)

lemma those_map_Some: "those (map (\<lambda>x. Some (f x)) xs) = Some (map f xs)"
  by (induction xs) simp_all

lemma read_all_represents:
  assumes "represents sdb db"
  shows "sql_read_all sdb = Some (map_option row_stats \<circ> db_usage_stats db)"
proof -
  obtain al where al: "sdb ''usage_stats'' = Some (map usage_sql al)" "distinct (map fst al)"
      "map_of al = db_usage_stats db"
    using assms by (auto simp: represents_def table_is_def)
  have "(case (as_text (column (usage_sql e) ''key''), read_counts (usage_sql e)) of
      (Some k, Some r) \<Rightarrow> Some (k, row_stats r) | _ \<Rightarrow> None) = Some (fst e, row_stats (snd e))" for e
    by (cases e) (simp add: usage_sql_def column_def)
  then have "sql_read_all sdb = Some (map_of (rev (map (\<lambda>e. (fst e, row_stats (snd e))) al)))"
    by (simp add: sql_read_all_def al(1) comp_def those_map_Some)
  also have "map_of (rev (map (\<lambda>e. (fst e, row_stats (snd e))) al)) = map_of (map (\<lambda>(k, r). (k, row_stats r)) al)"
    using al(2) by (simp add: map_of_inject_set rev_map [symmetric] comp_def case_prod_beta)
  also have "\<dots> = map_option row_stats \<circ> db_usage_stats db" by (simp add: map_of_map al(3))
  finally show ?thesis .
qed

lemma client_spend_represents:
  assumes "represents sdb db"
  shows "sql_client_spend client sdb = Some (db_client_spend db client)"
proof -
  obtain al where al: "sdb ''client_spend'' = Some (map spend_sql al)" "map_of al = db_client_spend db"
    using assms by (auto simp: represents_def table_is_def)
  have "(case List.find (\<lambda>row. column row ''client_name'' = SText client) (map spend_sql xs) of
      None \<Rightarrow> Some None
    | Some row \<Rightarrow> (case (as_int (column row ''period_key''), as_real (column row ''spent_usd'')) of
        (Some k, Some spent) \<Rightarrow> Some (Some (k, spent)) | _ \<Rightarrow> None)) = Some (map_of xs client)" for xs
    by (induction xs) (auto simp: spend_sql_def column_def)
  with al show ?thesis by (simp add: sql_client_spend_def)
qed

lemma insort_key_map: "insort_key f (g x) (map g ys) = map g (insort_key (\<lambda>x. f (g x)) x ys)"
  by (induction ys) auto

lemma sort_key_map: "sort_key f (map g xs) = map g (sort_key (\<lambda>x. f (g x)) xs)"
  by (induction xs) (simp_all add: insort_key_map)

lemma daily_fields [simp]:
  "column (daily_sql e) ''client_name'' = SText (fst (fst e))" "column (daily_sql e) ''day'' = SInt (snd (fst e))"
  "read_counts (daily_sql e) = Some (snd e)"
  by (cases e; cases "fst e"; simp add: daily_sql_def column_def)+

lemma usage_history_represents:
  assumes "represents sdb db"
  shows "sql_usage_history client since_day sdb =
    Some (map (\<lambda>d. daily_row d (the (db_client_daily_usage db (client, d))))
            (sorted_list_of_set (client_days db client since_day)))"
proof -
  obtain al where al: "sdb ''client_daily_usage'' = Some (map daily_sql al)" "distinct (map fst al)"
      "map_of al = db_client_daily_usage db"
    using assms by (auto simp: represents_def table_is_def)
  let ?hit = "\<lambda>e :: (string \<times> i64) \<times> usage_row. fst (fst e) = client \<and> since_day \<le> snd (fst e)"
  define hs where "hs = sort_key (snd \<circ> fst) (filter ?hit al)"
  have hits: "filter (\<lambda>row. column row ''client_name'' = SText client
        \<and> (case as_int (column row ''day'') of None \<Rightarrow> False | Some d \<Rightarrow> since_day \<le> d)) (map daily_sql xs)
      = map daily_sql (filter ?hit xs)" for xs
    by (induction xs) auto
  have "sql_usage_history client since_day sdb = Some (map (\<lambda>e. daily_row (snd (fst e)) (snd e)) hs)"
    by (simp add: sql_usage_history_def al(1) hits Let_def sort_key_map comp_def those_map_Some hs_def)
  moreover have same: "the (db_client_daily_usage db (client, snd (fst e))) = snd e" if "e \<in> set hs" for e
  proof -
    from that have "((client, snd (fst e)), snd e) \<in> set al" by (auto simp: hs_def)
    from map_of_is_SomeI [OF al(2) this] show ?thesis by (simp add: al(3))
  qed
  moreover have "map (snd \<circ> fst) hs = sorted_list_of_set (client_days db client since_day)"
  proof (rule sorted_distinct_set_unique)
    show "sorted (map (snd \<circ> fst) hs)" by (simp add: hs_def)
    have "distinct (map fst hs)" using al(2) by (simp add: hs_def distinct_map inj_on_def)
    then show "distinct (map (snd \<circ> fst) hs)"
      by (auto simp: hs_def distinct_map inj_on_def)
    have days: "client_days db client since_day = (snd \<circ> fst) ` set hs"
      by (force simp: client_days_def hs_def image_iff al(3) [symmetric] map_of_eq_None_iff)
    then show "set (map (snd \<circ> fst) hs) = set (sorted_list_of_set (client_days db client since_day))" by simp
  qed simp_all
  moreover from same have "map (\<lambda>e. daily_row (snd (fst e)) (snd e)) hs
      = map (\<lambda>d. daily_row d (the (db_client_daily_usage db (client, d)))) (map (snd \<circ> fst) hs)"
    by (simp add: comp_def)
  ultimately show ?thesis by simp
qed

section \<open>The store over SQL\<close>

lemma statements_ok: "statement_ok (statement_of b w)"
  by (cases w; cases b) (simp_all add: statement_ok_def statement_defs schema_sql_def counted_def)

text \<open>
  \<^bold>\<open>C24.\<close> Over tables that hold what the model of the store holds, the statement either backend sends for an
  event is one the schema admits, with every parameter bound and its conflict on the table's key; after it
  the tables hold what the model holds after the event; and all that is read of them, the totals, a client's
  spend, the days of its usage in order, is what the model reads. Any number of events, in any order
  and from both backends at once, keeps this, from the empty database on.
\<close>

theorem sql_refines_store:
  assumes "represents sdb db"
  shows "list_all (\<lambda>(b, w). statement_ok (statement_of b w)) ws
    \<and> represents (fold (\<lambda>(b, w). run_statement (statement_of b w)) ws (create_tables sdb))
        (fold (\<lambda>(b, w). execute_write w) ws db)
    \<and> (ps_db ps = db \<and> ps_reachable ps \<longrightarrow>
        sql_read_all sdb = load_all ps
        \<and> sql_client_spend client sdb = read_client_spend client ps
        \<and> sql_usage_history client since_day sdb = read_usage_history client since_day ps)"
proof (intro conjI impI)
  show "list_all (\<lambda>(b, w). statement_ok (statement_of b w)) ws"
    by (simp add: list_all_iff statements_ok case_prod_beta)
  have "represents (fold (\<lambda>(b, w). run_statement (statement_of b w)) ws sdb) (fold (\<lambda>(b, w). execute_write w) ws db)"
    using assms by (induction ws arbitrary: sdb db) (auto simp: statement_simulates)
  then show "represents (fold (\<lambda>(b, w). run_statement (statement_of b w)) ws (create_tables sdb))
      (fold (\<lambda>(b, w). execute_write w) ws db)"
    by (simp add: created_again [OF assms])
qed (simp_all add: read_all_represents [OF assms] client_spend_represents [OF assms]
    usage_history_represents [OF assms] load_all_def read_client_spend_def read_usage_history_def)

theorem sql_refines_store_witness:
  "sql_read_all (fold (\<lambda>(b, w). run_statement (statement_of b w))
       [(SqliteBackend, UsageEvent ''a/b'' 10 5 (Some 2)), (PostgresBackend, UsageEvent ''a/b'' 1 2 None)]
       (create_tables Map.empty))
   = Some [''a/b'' \<mapsto> \<lparr>uz_requests = 2, uz_prompt_tokens = 11, uz_completion_tokens = 7, uz_cost_usd = 2\<rparr>]"
proof -
  let ?ws = "[(SqliteBackend, UsageEvent ''a/b'' 10 5 (Some 2)), (PostgresBackend, UsageEvent ''a/b'' 1 2 None)]"
  let ?db = "fold (\<lambda>(b, w). execute_write w) ?ws empty_database"
  let ?ps = "\<lparr>ps_backend = SqliteBackend, ps_reachable = True, ps_pending = [], ps_db = ?db\<rparr>"
  have "represents (fold (\<lambda>(b, w). run_statement (statement_of b w)) ?ws (create_tables Map.empty)) ?db"
    using sql_refines_store [OF created_empty, of ?ws] created_again [OF created_empty] by simp
  from sql_refines_store [OF this, of "[]" ?ps] show ?thesis
    by (simp add: load_all_def empty_database_def upsert_usage_def row_stats_def fun_eq_iff)
qed

end
