(* ===== verification/Persistence_Open.thy ===== *)
theory Persistence_Open
  imports Persistence_Sql Router_State
begin

text \<open>
  How a store is opened (\<open>Persistence::open\<close> of \<open>crates/router/src/persistence.rs\<close>): a SQLite file twice,
  by the caller and by its writer thread, and a Postgres database over TLS or not, with the schema made under an
  advisory lock. Connections, certificates and the execution of a batch are the libraries' and parameters.
\<close>

datatype persistence_error = Sqlite_Error string | Postgres_Error string | Tls_Error string

datatype pg_batch = Advisory_Lock nat | Schema | Advisory_Unlock nat

text \<open>
  The libraries: opening a SQLite file with its schema, the parse of a connection string, a connection (over
  TLS with the roots given), a batch of statements, the native certificates, whether one is usable, and whether
  the safe default protocol versions are there.
\<close>

record ('cert, 'cfg, 'conn, 'w) store_lib =
  sl_sqlite :: "string \<Rightarrow> 'w \<Rightarrow> (string + sql_db) \<times> 'w"
  sl_parse :: "string \<Rightarrow> string + 'cfg"
  sl_connect :: "'cfg \<Rightarrow> 'cert list option \<Rightarrow> 'w \<Rightarrow> (string + 'conn) \<times> 'w"
  sl_batch :: "'conn \<Rightarrow> pg_batch \<Rightarrow> 'w \<Rightarrow> string option \<times> 'w"
  sl_native_certs :: "'cert list"
  sl_usable :: "'cert \<Rightarrow> bool"
  sl_protocols :: "string option"

text \<open>An opened backend; \<open>writer\<close> is whether the writer thread got its own connection.\<close>

datatype 'conn opened =
    Sqlite_Opened string (writer: bool)
  | Postgres_Opened 'conn

definition sqlite_backend_open :: "('cert, 'cfg, 'conn, 'w) store_lib \<Rightarrow> string \<Rightarrow> 'w
    \<Rightarrow> (persistence_error + 'conn opened) \<times> 'w" where
  "sqlite_backend_open lib path w =
     (case sl_sqlite lib path w of
        (Inl e, w1) \<Rightarrow> (Inl (Sqlite_Error e), w1)
      | (Inr _, w1) \<Rightarrow>
          (case sl_sqlite lib path w1 of
             (res, w2) \<Rightarrow> (Inr (Sqlite_Opened path (\<not> isl res)), w2)))"

definition build_rustls_client_config :: "('cert, 'cfg, 'conn, 'w) store_lib \<Rightarrow> string + 'cert list" where
  "build_rustls_client_config lib =
     (let roots = filter (sl_usable lib) (sl_native_certs lib)
      in if roots = [] then Inl ''no usable root certificates found in the native trust store''
         else case sl_protocols lib of
           Some e \<Rightarrow> Inl (''failed to configure TLS protocol versions: '' @ e)
         | None \<Rightarrow> Inr roots)"

definition schema_lock :: nat where
  "schema_lock = 72727100"

text \<open>The schema's result is looked at after the lock is given back.\<close>

definition connect_with :: "('cert, 'cfg, 'conn, 'w) store_lib \<Rightarrow> 'cfg \<Rightarrow> 'cert list option \<Rightarrow> 'w
    \<Rightarrow> (persistence_error + 'conn opened) \<times> 'w" where
  "connect_with lib cfg tls w =
     (case sl_connect lib cfg tls w of
        (Inl e, w1) \<Rightarrow> (Inl (Postgres_Error e), w1)
      | (Inr conn, w1) \<Rightarrow>
          (case sl_batch lib conn (Advisory_Lock schema_lock) w1 of
             (Some e, w2) \<Rightarrow> (Inl (Postgres_Error e), w2)
           | (None, w2) \<Rightarrow>
               (case sl_batch lib conn Schema w2 of
                  (schema_result, w3) \<Rightarrow>
                    (case sl_batch lib conn (Advisory_Unlock schema_lock) w3 of
                       (Some e, w4) \<Rightarrow> (Inl (Postgres_Error e), w4)
                     | (None, w4) \<Rightarrow>
                         (case schema_result of
                            Some e \<Rightarrow> (Inl (Postgres_Error e), w4)
                          | None \<Rightarrow> (Inr (Postgres_Opened conn), w4))))))"

definition postgres_backend_connect :: "('cert, 'cfg, 'conn, 'w) store_lib \<Rightarrow> string \<Rightarrow> postgres_tls_mode \<Rightarrow> 'w
    \<Rightarrow> (persistence_error + 'conn opened) \<times> 'w" where
  "postgres_backend_connect lib url tls w =
     (case sl_parse lib url of
        Inl e \<Rightarrow> (Inl (Postgres_Error e), w)
      | Inr cfg \<Rightarrow>
          (case tls of
             Disable \<Rightarrow> connect_with lib cfg None w
           | Require \<Rightarrow>
               (case build_rustls_client_config lib of
                  Inl e \<Rightarrow> (Inl (Tls_Error e), w)
                | Inr roots \<Rightarrow> connect_with lib cfg (Some roots) w)))"

definition persistence_open :: "('cert, 'cfg, 'conn, 'w) store_lib \<Rightarrow> persistence_target \<Rightarrow> 'w
    \<Rightarrow> (persistence_error + 'conn opened) \<times> 'w" where
  "persistence_open lib target w =
     (case target of
        SqliteTarget path \<Rightarrow> sqlite_backend_open lib path w
      | PostgresTarget url tls \<Rightarrow> postgres_backend_connect lib url tls w)"

section \<open>What opening guarantees\<close>

text \<open>
  The statements of a connection on a world that logs them: the schema is only made under the lock, and a lock
  that is taken is given back, even when the schema fails.
\<close>

lemma schema_under_lock:
  assumes "\<And>conn b seen. sl_batch lib conn b seen = (answer b, seen @ [b])"
    and "\<And>cfg tls seen. snd (sl_connect lib cfg tls seen) = seen"
    and "connect_with lib cfg tls [] = (res, seen)"
  shows "seen = [] \<or> seen = [Advisory_Lock schema_lock] \<and> answer (Advisory_Lock schema_lock) \<noteq> None
    \<or> seen = [Advisory_Lock schema_lock, Schema, Advisory_Unlock schema_lock]"
proof (cases "sl_connect lib cfg tls []")
  case (Pair x seen1)
  with assms(2) [of cfg tls "[]"] have "seen1 = []" by simp
  with assms(3) Pair show ?thesis
    by (cases x; cases "answer (Advisory_Lock schema_lock)"; cases "answer (Advisory_Unlock schema_lock)"; cases "answer Schema")
      (auto simp: connect_with_def assms(1))
qed


definition sample_lib :: "(nat, string, string, pg_batch list) store_lib" where
  "sample_lib =
     \<lparr>sl_sqlite = (\<lambda>_ seen. (Inr (create_tables Map.empty), seen)), sl_parse = Inr,
      sl_connect = (\<lambda>cfg tls seen. (if tls = Some [2] then Inr cfg else Inl ''refused'', seen)),
      sl_batch = (\<lambda>_ b seen. (None, seen @ [b])), sl_native_certs = [1, 2], sl_usable = (\<lambda>c. c = 2),
      sl_protocols = None\<rparr>"


end
