(* ===== verification/Metrics_Registry.thy ===== *)
theory Metrics_Registry
  imports Metrics
begin

text \<open>
  The families \<open>Metrics::new\<close> registers and what \<open>render\<close> gathers of them (\<open>crates/router/src/metrics.rs\<close>).
  Registration fails, and the \<open>expect\<close> panics, where the \<open>prometheus\<close> crate documents it: for a malformed
  name or label, a name that is taken, and buckets that do not increase.
\<close>

section \<open>Families\<close>

datatype family_kind = Counter_Family | Gauge_Family | Histogram_Family "f64 list"

record family =
  fa_name :: string
  fa_kind :: family_kind
  fa_labels :: "string list"

definition provider_model_labels :: "string list" where
  "provider_model_labels = [''provider'', ''model'']"

definition metric_families :: "family list" where
  "metric_families =
     [\<lparr>fa_name = ''rusty_provider_dispatch_attempts_total'', fa_kind = Counter_Family,
       fa_labels = [''provider'', ''model'', ''outcome'']\<rparr>,
      \<lparr>fa_name = ''rusty_provider_prompt_tokens_total'', fa_kind = Counter_Family,
       fa_labels = provider_model_labels\<rparr>,
      \<lparr>fa_name = ''rusty_provider_completion_tokens_total'', fa_kind = Counter_Family,
       fa_labels = provider_model_labels\<rparr>,
      \<lparr>fa_name = ''rusty_provider_cost_usd_total'', fa_kind = Counter_Family,
       fa_labels = provider_model_labels\<rparr>,
      \<lparr>fa_name = ''rusty_provider_response_latency_seconds'', fa_kind = Histogram_Family latency_buckets_seconds,
       fa_labels = provider_model_labels\<rparr>,
      \<lparr>fa_name = ''rusty_provider_throughput_tokens_per_second'', fa_kind = Histogram_Family throughput_buckets_tps,
       fa_labels = provider_model_labels\<rparr>,
      \<lparr>fa_name = ''rusty_provider_provider_configured'', fa_kind = Gauge_Family, fa_labels = [''provider'']\<rparr>,
      \<lparr>fa_name = ''rusty_provider_inbound_rate_limit_rejections_total'', fa_kind = Counter_Family,
       fa_labels = [''identity'']\<rparr>,
      \<lparr>fa_name = ''rusty_provider_client_budget_rejections_total'', fa_kind = Counter_Family, fa_labels = [''client'']\<rparr>,
      \<lparr>fa_name = ''rusty_provider_moderation_blocked_total'', fa_kind = Counter_Family, fa_labels = [''category'']\<rparr>,
      \<lparr>fa_name = ''rusty_provider_web_search_total'', fa_kind = Counter_Family, fa_labels = [''outcome'']\<rparr>,
      \<lparr>fa_name = ''rusty_provider_cache_lookups_total'', fa_kind = Counter_Family, fa_labels = [''outcome'']\<rparr>]"

section \<open>Registration\<close>

definition name_char :: "char \<Rightarrow> bool" where
  "name_char c \<longleftrightarrow>
     (let n = of_char c :: nat in 97 \<le> n \<and> n \<le> 122 \<or> 65 \<le> n \<and> n \<le> 90 \<or> n = 95)"

definition digit_char :: "char \<Rightarrow> bool" where
  "digit_char c \<longleftrightarrow> (let n = of_char c :: nat in 48 \<le> n \<and> n \<le> 57)"

definition valid_name :: "string \<Rightarrow> bool" where
  "valid_name s \<longleftrightarrow>
     (case s of [] \<Rightarrow> False | c # cs \<Rightarrow> name_char c \<and> list_all (\<lambda>d. name_char d \<or> digit_char d) cs)"

fun increasing :: "f64 list \<Rightarrow> bool" where
  "increasing (a # b # xs) \<longleftrightarrow> a < b \<and> increasing (b # xs)"
| "increasing _ \<longleftrightarrow> True"

definition valid_family :: "family \<Rightarrow> bool" where
  "valid_family f \<longleftrightarrow> valid_name (fa_name f) \<and> list_all valid_name (fa_labels f) \<and> distinct (fa_labels f)
     \<and> (case fa_kind f of Histogram_Family bs \<Rightarrow> increasing bs \<and> ''le'' \<notin> set (fa_labels f) | _ \<Rightarrow> True)"

fun register_all :: "family list \<Rightarrow> family list \<Rightarrow> family list option" where
  "register_all [] registry = Some registry"
| "register_all (f # fs) registry =
     (if valid_family f \<and> fa_name f \<notin> fa_name ` set registry then register_all fs (registry @ [f]) else None)"

lemma register_all_iff:
  "register_all fs registry = Some reg \<longleftrightarrow>
     list_all valid_family fs \<and> distinct (map fa_name fs)
     \<and> fa_name ` set fs \<inter> fa_name ` set registry = {} \<and> reg = registry @ fs"
  by (induction fs arbitrary: registry) auto

lemma names_distinct: "distinct (map fa_name metric_families)"
  by (simp add: metric_families_def)

lemma families_valid: "list_all valid_family metric_families"
  by (simp add: metric_families_def valid_family_def valid_name_def name_char_def digit_char_def
      provider_model_labels_def latency_buckets_seconds_def throughput_buckets_tps_def)

text \<open>\<open>Metrics::new\<close> never panics: every family is registered, in the order of its creation.\<close>

lemma metrics_new_registers: "register_all metric_families [] = Some metric_families"
  by (simp add: register_all_iff families_valid names_distinct)

section \<open>What is rendered\<close>

text \<open>
  A sample of a series: its family, its label values and its value; a histogram's are the counts up to
  each bound, the count and the sum.
\<close>

datatype sample =
    Count real
  | Distribution "(f64 \<times> nat) list" nat f64

definition distribution :: "f64 list \<Rightarrow> f64 list \<Rightarrow> sample" where
  "distribution bounds xs =
     Distribution (map (\<lambda>b. (b, length (filter (\<lambda>x. x \<le> b) xs))) bounds) (length xs) (sum_list xs)"

definition counter_samples :: "('l \<Rightarrow> string list) \<Rightarrow> ('l \<rightharpoonup> u64) \<Rightarrow> (string list \<times> sample) set" where
  "counter_samples labels m = {(labels l, Count (real (unat n))) | l n. m l = Some n}"

definition gather :: "metrics \<Rightarrow> string \<Rightarrow> (string list \<times> sample) set" where
  "gather mt name =
     (let two = (\<lambda>(p, m). [p, m]); three = (\<lambda>(p, m, out). [p, m, out]); one = (\<lambda>l. [l]) in
      if name = ''rusty_provider_dispatch_attempts_total'' then counter_samples three (mt_dispatch_attempts_total mt)
      else if name = ''rusty_provider_prompt_tokens_total'' then counter_samples two (mt_prompt_tokens_total mt)
      else if name = ''rusty_provider_completion_tokens_total'' then counter_samples two (mt_completion_tokens_total mt)
      else if name = ''rusty_provider_cost_usd_total''
      then {(two l, Count x) | l x. mt_cost_usd_total mt l = Some x}
      else if name = ''rusty_provider_response_latency_seconds''
      then {(two l, distribution latency_buckets_seconds xs) | l xs. mt_response_latency_seconds mt l = Some xs}
      else if name = ''rusty_provider_throughput_tokens_per_second''
      then {(two l, distribution throughput_buckets_tps xs) | l xs. mt_throughput_tokens_per_second mt l = Some xs}
      else if name = ''rusty_provider_provider_configured''
      then {(one l, Count (of_int x)) | l x. mt_provider_configured mt l = Some x}
      else if name = ''rusty_provider_inbound_rate_limit_rejections_total''
      then counter_samples one (mt_inbound_rate_limit_rejections_total mt)
      else if name = ''rusty_provider_client_budget_rejections_total''
      then counter_samples one (mt_client_budget_rejections_total mt)
      else if name = ''rusty_provider_moderation_blocked_total''
      then counter_samples one (mt_moderation_blocked_total mt)
      else if name = ''rusty_provider_web_search_total'' then counter_samples one (mt_web_search_total mt)
      else if name = ''rusty_provider_cache_lookups_total'' then counter_samples one (mt_cache_lookups_total mt)
      else {})"

text \<open>A histogram's cumulative counts rise with the bounds and end below the count.\<close>

lemma distribution_cumulative:
  fixes a b :: f64
  shows "a \<le> b \<Longrightarrow> length (filter (\<lambda>x. x \<le> a) xs) \<le> length (filter (\<lambda>x. x \<le> b) xs)"
  by (induction xs) auto

lemma fresh_metrics_empty: "gather new_metrics name = {}"
  by (simp add: gather_def new_metrics_def counter_samples_def Let_def)

fun sample_fits :: "family_kind \<Rightarrow> sample \<Rightarrow> bool" where
  "sample_fits (Histogram_Family bounds) (Distribution counts n _) \<longleftrightarrow> map fst counts = bounds"
| "sample_fits Counter_Family (Count x) \<longleftrightarrow> True"
| "sample_fits Gauge_Family (Count x) \<longleftrightarrow> True"
| "sample_fits _ _ \<longleftrightarrow> False"

text \<open>
  Every sample belongs to a registered family of its name, has one value for each of its labels (a call of
  \<open>with_label_values\<close> with another number panics) and is of the family's kind.
\<close>

lemma gathered_typed:
  assumes "(labels, x) \<in> gather mt name"
  shows "\<exists>f\<in>set metric_families. fa_name f = name \<and> length labels = length (fa_labels f) \<and> sample_fits (fa_kind f) x"
  using assms
  by (auto simp: gather_def Let_def counter_samples_def metric_families_def provider_model_labels_def
      distribution_def comp_def split: if_splits)

end
