(* ===== verification/Spec2Isabelle.thy ===== *)
theory Spec2Isabelle
  imports Adapters Anthropic_Types Server_Scopes Server_Main Mcp_Server Cli_Facts Persistence_Open
    Metrics_Registry
begin

text \<open>
  A model of an LLM gateway, a router that takes OpenAI-style chat requests, picks a chain of
  provider candidates and dispatches to them, with the theorems that make it correct. The Rust
  workspace has it in \<open>crates/core\<close> (error types, wire types, rate limiter), \<open>crates/router\<close> (everything
  between a decoded request and a provider call), \<open>crates/providers\<close> (the adapters that make a provider
  call an HTTP exchange), \<open>crates/server\<close> (authentication, request handlers, the admin API),
  \<open>crates/mcp\<close> (the gateway to upstream tool servers, and the router's own tools) and \<open>crates/cli\<close> (the
  command-line tool that reports on a configuration and edits it).

  \<^bold>\<open>How the parts interact.\<close> A \<open>Router\<close> is built once from a \<open>Config\<close>. A request is resolved to a target
  model (an alias, \<open>auto\<close>, or a literal \<open>provider/model\<close>), the target to a chain of candidates, the
  chain is filtered and ordered by the caller's preferences, required parameters and price cap, and
  the candidates are tried in order, each with one retry; or, for a fusion alias, all at once with a
  judge. Answers are accounted for (usage, cost, free tiers, generation records, metrics), written to
  a store, and may be served again from a cache. Client budgets are checked before and charged after
  a dispatch. The server authenticates a request, rate-limits and budgets the client behind it, runs
  the router and bills the client; its admin API changes the clients and what the router enforces.
  Mounted on the server, the MCP service offers the tools of the upstream servers, which it keeps
  connected, beside tools that call the router directly. The CLI reads the same configuration file.

  \<^bold>\<open>Theories.\<close>
  \<^item> \<open>Prelude\<close>: integer widths, conversions and saturating operations, string routines, stable sorting.
  \<^item> \<open>Errors\<close> (\<open>core/error.rs\<close>, \<open>router/error.rs\<close>), \<open>Wire_Types\<close> (\<open>core/types.rs\<close>), \<open>Config\<close>
    (\<open>router/config.rs\<close>): data, with their classification functions and defaults.
  \<^item> \<open>Rate_Limit\<close> (\<open>core/rate_limit.rs\<close>): the token bucket; its bound and the honesty of the retry hint.
  \<^item> \<open>Client_Budget\<close>, \<open>Free_Tiers\<close>: period keys, the civil calendar against an independent Gregorian
    specification, and the two per-period ledgers (locale \<open>period_ledger\<close>).
  \<^item> \<open>Caches\<close> (\<open>router/cache.rs\<close> and the two stores of \<open>lib.rs\<close>): locale \<open>fifo_store\<close>, interpreted three
    times; soundness of hits, best match of the semantic cache.
  \<^item> \<open>Rtk\<close>, \<open>Transforms\<close>: tool-output compression, middle-out truncation, reasoning replay.
  \<^item> \<open>Metrics\<close>, \<open>External\<close>: counters; the outside world as a record of functions on a state.
    \<open>Metrics_Registry\<close>: the families registered (no registration panics) and what is gathered of them.
  \<^item> \<open>Request_Policy\<close>: presets, guardrails, web search, moderation.
  \<^item> \<open>Persistence\<close>, \<open>Pricing\<close>: tables, upserts and writer steps, and the refinement of the in-memory
    usage and spend by what a drained store reports. \<open>Persistence_Sql\<close>: the schema, statements and queries of both
    backends over a small model of SQL, which refine those tables. \<open>Persistence_Open\<close>: opening a store,
    TLS and the lock around the schema.
  \<^item> \<open>Auto_Routing\<close>, \<open>Webhook\<close>: complexity tiers; bounded delivery with backoff.
  \<^item> \<open>Router_State\<close>: the \<open>Router\<close> record, \<open>from_config\<close> and the invariant \<open>router_inv\<close>.
  \<^item> \<open>Chain_Resolution\<close>: from a request to the candidate chain (locale \<open>chain_stage\<close>), and the reports.
  \<^item> \<open>Dispatch\<close>, \<open>Dispatch_Facts\<close>: one candidate, the loop over a chain (locale \<open>candidate_step\<close>),
    accounting, streams, embeddings. \<open>Sample_World\<close>: a scripted world for evaluation.
  \<^item> \<open>Fusion\<close>: panel, judge and totals. \<open>Entry\<close>, \<open>Entry_Facts\<close>: the public entry points with the caches.
  \<^item> \<open>Client_Spend\<close>: budget checks, spend recording, notifications and administration.
  \<^item> \<open>Router_Runs\<close>: all operations as one step relation, and what holds in every reachable state.
  \<^item> \<open>Json\<close>: JSON values, objects as association lists, and the accessors of \<open>serde_json\<close> the adapters use.
  \<^item> \<open>Provider_Http\<close> (\<open>util.rs\<close>, \<open>http.rs\<close>): thinking budgets, identifiers, the classification of replies
    that are no success. \<open>Stream_Client\<close>: what a client makes of a stream, as a specification.
  \<^item> \<open>Openai_Adapter\<close>, \<open>Anthropic_Adapter\<close>, \<open>Gemini_Adapter\<close>: the three adapters, from a request to the
    body sent, from a reply to the answer, and the stream decoders. \<open>Anthropic_Facts\<close>,
    \<open>Anthropic_Stream\<close>, \<open>Gemini_Facts\<close>: refusals, room for thinking, streamed and plain replies agree,
    function results keep their names. \<open>Anthropic_Types\<close>: the types of the Messages API, which every request
    has.
  \<^item> \<open>Adapters\<close>: the adapters as the providers of a runtime, with their kind chosen by the configuration;
    the router's theorems apply to it.
  \<^item> \<open>Server_State\<close> (\<open>state.rs\<close>, \<open>main.rs\<close>, \<open>errors.rs\<close>, \<open>jwt.rs\<close>): the server's state, its start from a
    configuration and the environment, replies to errors, bearer tokens.
  \<^item> \<open>Server_Auth\<close>, \<open>Server_Admin\<close>, \<open>Server_Chat\<close> (\<open>routes.rs\<close>): who a request is; the admin API; chat
    completions, embeddings and the reports.
  \<^item> \<open>Server_Admin_Facts\<close>: the invariant \<open>server_inv\<close> over keys, clients and budgets, kept by every admin
    operation. \<open>Server_Chat_Facts\<close>: a handler is a run of router operations (locale \<open>request_handler\<close>),
    and the authentication gate. \<open>Server_Runs\<close>: the server as a step relation.
  \<^item> \<open>Server_Scopes\<close>: confinement of scoped administrators, and limits of the admin API.
    \<open>Server_Billing\<close>: a client is billed for exactly what it is handed.
  \<^item> \<open>Server_Routes\<close> (\<open>server/lib.rs\<close>): the routing table, extractors, the layers and the mounted MCP endpoint.
    \<open>Server_Routes_Facts\<close>: the table is unambiguous, and a request that authenticates as nobody changes
    nothing. \<open>Server_Main\<close> (\<open>main.rs\<close>): the process from its environment to a server that listens, and what
    holds of it whatever it is asked.
  \<^item> \<open>Mcp_Gateway\<close> (\<open>mcp/config.rs\<close>, \<open>upstream.rs\<close>, \<open>peers.rs\<close>, \<open>server.rs\<close>): the upstreams, the merged list
    of tools and the routing of a call, the connections and their reconnection with backoff.
    \<open>Mcp_Gateway_Facts\<close>: the outcome of a reconnection, what holds of the connections in every reachable state.
  \<^item> \<open>Mcp_Native\<close> (\<open>native_tools.rs\<close>): the router's own tools. \<open>Mcp_Server\<close>: what is listed can be called, and
    what a call through a tool is not charged for.
  \<^item> \<open>Cli_Setup\<close>, \<open>Cli_Reports\<close> (\<open>crates/cli\<close>): the edits of \<open>init\<close> and \<open>setup\<close> on configuration documents, plans
    and backups; the reports of the other commands and the exit codes. \<open>Cli_Setup_Facts\<close>, \<open>Cli_Facts\<close>: what
    an edit keeps (locale \<open>doc_setter\<close>), which files are written, what the reports say and hide.

  \<^bold>\<open>Correspondence.\<close> A struct is a record whose fields carry the source's names behind a prefix, an enum
  a datatype, a \<open>HashMap\<close> a partial function, \<open>u32\<close>/\<open>u64\<close> words that wrap, \<open>i64\<close> timestamps and period
  keys unbounded integers, \<open>f32\<close>/\<open>f64\<close> exact reals, strings their UTF-8 bytes, an \<open>Instant\<close> nanoseconds.
  A method on \<open>&self\<close> takes the router and returns it updated: locks are held only within one update. A
  call that leaves the process goes through \<open>External.runtime\<close>, whose fields are the operations of the
  \<open>Provider\<close> trait, \<open>sleep\<close>, \<open>timeout\<close>, \<open>join_all\<close>, the clocks and the standard hash. Errors are the left
  of a sum. Loops are structural recursions; the ones that are not (compression, truncation, webhook
  delivery) come with measures. Reconnecting to an upstream without a limit of attempts may go on forever: it is a
  \<open>partial_function (option)\<close>, and when it returns is a theorem. No fuel is used anywhere.

  \<^bold>\<open>Not modelled.\<close> Logging; the encoding of TOML and Prometheus text and the byte syntax of JSON
  (\<open>toml\<close>, \<open>prometheus\<close>, \<open>serde_json\<close>); regular expressions, HMAC, hashing and JWT signatures, which are
  parameters; rounding, infinities and NaN of floats; the interleaving of two requests between awaits
  (two admin creations excepted); sockets, and the work of the database engines behind their statements;
  the framing of server-sent events and of MCP messages on the wire; of \<open>axum\<close> and \<open>tower-http\<close> all but the
  behaviour \<open>Server_Routes\<close> names; the layout of the text the CLI prints; the page of the dashboard.
\<close>

end
